(* ===== verification/Prelude.thy ===== *)
theory Prelude
  imports Main "HOL-Library.Word" "HOL-Library.Monad_Syntax"
begin

unbundle bit_operations_syntax

text \<open>
  Shared vocabulary of the development: the machine integers of the C code (LP64, so
  \<^verbatim>\<open>size_t\<close> is 64 bits wide), status codes, C results (a value, an error status, or undefined
  behaviour), C strings and the \<^verbatim>\<open><string.h>\<close> functions the code calls, and the generic
  lemmas on lists that several components need.
\<close>

section \<open>Machine integers\<close>

type_synonym u8 = "8 word"
type_synonym u16 = "16 word"
type_synonym u32 = "32 word"
type_synonym u64 = "64 word"
type_synonym bytes = "8 word list"

section \<open>Collections\<close>

text \<open>
  \<open>cdefs\<close> collects definitions that are unfolded for evaluation, \<open>clen\<close> facts about
  lengths of buffers, \<open>cinv\<close> invariant-preservation facts.
\<close>

named_theorems cdefs \<open>definitions unfolded when a closed term is evaluated\<close>
named_theorems clen \<open>lengths of buffers and strings\<close>
named_theorems cinv \<open>operations that preserve the invariant of their component\<close>

section \<open>Status codes (include/cellar/cellar.h)\<close>

datatype cellar_status =
    CELLAR_OK
  | CELLAR_ERR_INVALID_ARGUMENT
  | CELLAR_ERR_OUT_OF_MEMORY
  | CELLAR_ERR_NOT_IMPLEMENTED
  | CELLAR_ERR_PE_NOT_PE
  | CELLAR_ERR_PE_TRUNCATED
  | CELLAR_ERR_PE_BAD_MAGIC
  | CELLAR_ERR_PE_BAD_SECTIONS
  | CELLAR_ERR_PE_BAD_IMPORTS
  | CELLAR_ERR_PE_BAD_EXPORTS
  | CELLAR_ERR_PE_BAD_RELOCATIONS

section \<open>Results of C calls\<close>

text \<open>
  \<open>Ok x\<close>: the call produced \<open>x\<close>. \<open>Err s\<close>: it returned the error status \<open>s\<close>.
  \<open>Fault\<close>: it performed an access outside every object (undefined behaviour in C).
\<close>

datatype 'a cres = Ok 'a | Err cellar_status | Fault

fun cbind :: "'a cres \<Rightarrow> ('a \<Rightarrow> 'b cres) \<Rightarrow> 'b cres" where
  "cbind (Ok x) f = f x"
| "cbind (Err s) f = Err s"
| "cbind Fault f = Fault"

fun is_ok :: "'a cres \<Rightarrow> bool" where
  "is_ok (Ok _) = True"
| "is_ok (Err _) = False"
| "is_ok Fault = False"

lemma cbind_Ok_iff: "cbind m f = Ok y \<longleftrightarrow> (\<exists>x. m = Ok x \<and> f x = Ok y)"
  by (cases m) auto

lemma cbind_not_Fault: "m \<noteq> Fault \<Longrightarrow> (\<And>x. m = Ok x \<Longrightarrow> f x \<noteq> Fault) \<Longrightarrow> cbind m f \<noteq> Fault"
  by (cases m) auto

lemma cbind_Fault_iff: "cbind m f = Fault \<longleftrightarrow> m = Fault \<or> (\<exists>x. m = Ok x \<and> f x = Fault)"
  by (cases m) auto

lemma cbind_Err_iff:
  "cbind m f = Err s \<longleftrightarrow> m = Err s \<or> (\<exists>x. m = Ok x \<and> f x = Err s)"
  by (cases m) auto

section \<open>Characters and C strings\<close>

text \<open>
  A C string is a HOL \<open>string\<close> whose characters before the terminator are its content. A
  character array of \<open>n\<close> bytes that is only written through \<^verbatim>\<open>snprintf\<close> or
  \<^verbatim>\<open>cellar_strlcpy\<close> is represented by its content, of length below \<open>n\<close>.
\<close>

definition tolower_c :: "char \<Rightarrow> char" where
  "tolower_c c = (let n = (of_char c :: nat) in if 65 \<le> n \<and> n \<le> 90 then char_of (n + 32) else c)"

definition strcasecmp_eq :: "string \<Rightarrow> string \<Rightarrow> bool" where
  "strcasecmp_eq a b \<longleftrightarrow> map tolower_c a = map tolower_c b"

text \<open>\<^verbatim>\<open>strncasecmp(s, p, strlen(p)) == 0\<close>: \<open>p\<close> is a prefix of \<open>s\<close>, ignoring case.\<close>

definition has_prefix_ci :: "string \<Rightarrow> string \<Rightarrow> bool" where
  "has_prefix_ci s p \<longleftrightarrow> map tolower_c (take (length p) s) = map tolower_c p"

text \<open>\<^verbatim>\<open>strncmp(s, p, strlen(p)) == 0\<close>.\<close>

definition has_prefix :: "string \<Rightarrow> string \<Rightarrow> bool" where
  "has_prefix s p \<longleftrightarrow> take (length p) s = p"

text \<open>\<^verbatim>\<open>strstr\<close>: the suffix of \<open>s\<close> starting at the first occurrence of \<open>p\<close>.\<close>

fun strstr :: "string \<Rightarrow> string \<Rightarrow> string option" where
  "strstr s p =
     (if has_prefix s p then Some s else (case s of [] \<Rightarrow> None | _ # r \<Rightarrow> strstr r p))"

declare strstr.simps [simp del]

text \<open>\<^verbatim>\<open>strchr\<close>: split at the first occurrence of a character.\<close>

fun split_at :: "char \<Rightarrow> string \<Rightarrow> (string \<times> string) option" where
  "split_at c [] = None"
| "split_at c (x # xs) =
     (if x = c then Some ([], xs) else map_option (\<lambda>(a, b). (x # a, b)) (split_at c xs))"

text \<open>\<^verbatim>\<open>strrchr\<close>: split at the last occurrence.\<close>

definition rsplit_at :: "char \<Rightarrow> string \<Rightarrow> (string \<times> string) option" where
  "rsplit_at c s = map_option (\<lambda>(a, b). (rev b, rev a)) (split_at c (rev s))"

text \<open>\<^verbatim>\<open>snprintf(dst, n, "%s", s)\<close> with \<open>n > 0\<close>: at most \<open>n - 1\<close> characters are kept.\<close>

definition snprintf_s :: "nat \<Rightarrow> string \<Rightarrow> string" where
  "snprintf_s n s = take (n - 1) s"

text \<open>Reading a byte buffer as a C string: the content before the first NUL.\<close>

definition cstr :: "string \<Rightarrow> string" where
  "cstr s = takeWhile (\<lambda>c. c \<noteq> CHR 0x00) s"

definition no_nul :: "string \<Rightarrow> bool" where
  "no_nul s \<longleftrightarrow> CHR 0x00 \<notin> set s"

lemma length_snprintf_s [clen]: "0 < n \<Longrightarrow> length (snprintf_s n s) < n"
  by (auto simp: snprintf_s_def min_def)

lemma snprintf_s_id: "length s < n \<Longrightarrow> snprintf_s n s = s"
  by (simp add: snprintf_s_def)

lemma cstr_id: "no_nul s \<Longrightarrow> cstr s = s"
  by (auto simp: cstr_def no_nul_def takeWhile_eq_all_conv)

lemma cstr_append_nul: "no_nul s \<Longrightarrow> cstr (s @ CHR 0x00 # t) = s"
  by (induction s) (auto simp: cstr_def no_nul_def)

lemma no_nul_cstr: "no_nul (cstr s)"
  by (auto simp: cstr_def no_nul_def dest: set_takeWhileD)

lemma strcasecmp_eq_refl [simp]: "strcasecmp_eq a a"
  by (simp add: strcasecmp_eq_def)

lemma strcasecmp_eq_sym: "strcasecmp_eq a b = strcasecmp_eq b a"
  by (auto simp: strcasecmp_eq_def)

lemma strcasecmp_eq_trans: "strcasecmp_eq a b \<Longrightarrow> strcasecmp_eq b c \<Longrightarrow> strcasecmp_eq a c"
  by (simp add: strcasecmp_eq_def)

lemma split_at_append: "c \<notin> set a \<Longrightarrow> split_at c (a @ c # b) = Some (a, b)"
  by (induction a) auto

lemma split_at_None_iff: "split_at c s = None \<longleftrightarrow> c \<notin> set s"
  by (induction s) auto

lemma split_at_Some_iff: "split_at c s = Some (a, b) \<longleftrightarrow> s = a @ c # b \<and> c \<notin> set a"
proof (induction s arbitrary: a)
  case Nil
  then show ?case by simp
next
  case (Cons x s)
  show ?case
  proof (cases "x = c")
    case True
    then show ?thesis by (cases a) auto
  next
    case False
    then show ?thesis using Cons.IH by (cases a) auto
  qed
qed

lemma split_at_length: "split_at c s = Some (a, b) \<Longrightarrow> length b < length s"
  by (auto simp: split_at_Some_iff)

lemma rsplit_at_Some_iff:
  "rsplit_at c s = Some (a, b) \<longleftrightarrow> s = a @ c # b \<and> c \<notin> set b"
proof -
  have "rsplit_at c s = Some (a, b) \<longleftrightarrow> split_at c (rev s) = Some (rev b, rev a)"
    by (auto simp: rsplit_at_def)
  also have "\<dots> \<longleftrightarrow> rev s = rev b @ c # rev a \<and> c \<notin> set b"
    by (simp add: split_at_Some_iff)
  also have "rev s = rev b @ c # rev a \<longleftrightarrow> s = a @ c # b"
    by (metis append.assoc append_Cons append_Nil rev.simps(2) rev_append rev_rev_ident)
  finally show ?thesis .
qed

lemma rsplit_at_None_iff: "rsplit_at c s = None \<longleftrightarrow> c \<notin> set s"
  by (simp add: rsplit_at_def split_at_None_iff)

lemma strstr_None_iff: "strstr s p = None \<longleftrightarrow> (\<forall>u v. s \<noteq> u @ p @ v)"
proof (induction s)
  case Nil
  then show ?case by (auto simp: strstr.simps has_prefix_def)
next
  case (Cons x s)
  have pre: "has_prefix (x # s) p \<longleftrightarrow> (\<exists>v. x # s = p @ v)"
    by (metis append_eq_conv_conj has_prefix_def)
  show ?case
  proof (cases "has_prefix (x # s) p")
    case True
    with pre obtain v where "x # s = [] @ p @ v" by auto
    then show ?thesis using True by (metis option.distinct(1) strstr.simps)
  next
    case False
    then have "strstr (x # s) p = strstr s p" by (simp add: strstr.simps)
    moreover have "(\<forall>u v. x # s \<noteq> u @ p @ v) \<longleftrightarrow> (\<forall>u v. s \<noteq> u @ p @ v)"
      using False pre by (metis append_Cons append_Nil list.inject neq_Nil_conv)
    ultimately show ?thesis using Cons.IH by simp
  qed
qed

section \<open>Byte sequences\<close>

text \<open>\<^verbatim>\<open>memcpy\<close> out of a buffer: \<open>None\<close> where the source range leaves the object.\<close>

definition mem_read :: "nat \<Rightarrow> nat \<Rightarrow> 'a list \<Rightarrow> 'a list option" where
  "mem_read off n xs = (if off + n \<le> length xs then Some (take n (drop off xs)) else None)"

text \<open>\<^verbatim>\<open>memcpy\<close> into a buffer at an offset.\<close>

definition mem_write :: "nat \<Rightarrow> 'a list \<Rightarrow> 'a list \<Rightarrow> 'a list" where
  "mem_write off ys xs = take off xs @ ys @ drop (off + length ys) xs"

lemma length_mem_write [clen]: "off + length ys \<le> length xs \<Longrightarrow> length (mem_write off ys xs) = length xs"
  by (simp add: mem_write_def)

lemma length_mem_read [clen]: "mem_read off n xs = Some ys \<Longrightarrow> length ys = n"
  by (auto simp: mem_read_def split: if_splits)

lemma nth_mem_write:
  assumes "off + length ys \<le> length xs" "i < length xs"
  shows "mem_write off ys xs ! i =
    (if off \<le> i \<and> i < off + length ys then ys ! (i - off) else xs ! i)"
  using assms by (auto simp: mem_write_def nth_append min_def)

lemma mem_read_write:
  "off + length ys \<le> length xs \<Longrightarrow> mem_read off (length ys) (mem_write off ys xs) = Some ys"
  by (simp add: mem_read_def mem_write_def)

lemma mem_read_write_other:
  assumes "off + length ys \<le> length xs" "off' + n \<le> off \<or> off + length ys \<le> off'"
  shows "mem_read off' n (mem_write off ys xs) = mem_read off' n xs"
proof -
  have len: "length (mem_write off ys xs) = length xs" using assms(1) by (rule length_mem_write)
  show ?thesis
  proof (cases "off' + n \<le> length xs")
    case True
    have "take n (drop off' (mem_write off ys xs)) = take n (drop off' xs)"
      by (rule nth_equalityI) (use assms True len in \<open>auto simp: nth_mem_write\<close>)
    then show ?thesis using len by (simp add: mem_read_def)
  next
    case False
    then show ?thesis using len by (simp add: mem_read_def)
  qed
qed

end
