(* ===== verification/Util.thy ===== *)
theory Util
  imports Prelude
begin

unbundle bit_operations_syntax

text \<open>
  \<^verbatim>\<open>src/loader/cellar_util.c\<close>: status strings, the little-endian readers, the export hash,
  and the bounded string copies. \<^verbatim>\<open>cellar_mkdir_p\<close> works on the file system and is in
  theory \<open>Fs\<close>. The little-endian writers of \<^verbatim>\<open>prefix.c\<close> and \<^verbatim>\<open>audio.c\<close> are here
  too, because their round trips with the readers are shared.
\<close>

section \<open>Status strings and log labels\<close>

fun cellar_status_string :: "cellar_status \<Rightarrow> string" where
  "cellar_status_string CELLAR_OK = ''ok''"
| "cellar_status_string CELLAR_ERR_INVALID_ARGUMENT = ''invalid argument''"
| "cellar_status_string CELLAR_ERR_OUT_OF_MEMORY = ''out of memory''"
| "cellar_status_string CELLAR_ERR_NOT_IMPLEMENTED = ''not implemented''"
| "cellar_status_string CELLAR_ERR_PE_NOT_PE = ''not a PE image (bad MZ/PE signature)''"
| "cellar_status_string CELLAR_ERR_PE_TRUNCATED = ''PE image truncated''"
| "cellar_status_string CELLAR_ERR_PE_BAD_MAGIC = ''unknown PE optional-header magic''"
| "cellar_status_string CELLAR_ERR_PE_BAD_SECTIONS = ''malformed PE section table''"
| "cellar_status_string CELLAR_ERR_PE_BAD_IMPORTS = ''malformed PE import directory''"
| "cellar_status_string CELLAR_ERR_PE_BAD_EXPORTS = ''malformed PE export directory''"
| "cellar_status_string CELLAR_ERR_PE_BAD_RELOCATIONS = ''malformed PE base relocation table''"

definition level_label :: "int \<Rightarrow> string" where
  "level_label l =
     (if l = 0 then ''error'' else if l = 1 then ''warn'' else if l = 2 then ''info''
      else if l = 3 then ''debug'' else if l = 4 then ''trace'' else ''?'')"

section \<open>Bytes as characters\<close>

definition byte_char :: "u8 \<Rightarrow> char" where
  "byte_char b = char_of (unat b)"

definition char_byte :: "char \<Rightarrow> u8" where
  "char_byte c = of_nat (of_char c)"

lemma byte_char_byte [simp]: "char_byte (byte_char b) = b"
proof -
  have "unat b < 256" using unsigned_less [of b] by simp
  then show ?thesis by (simp add: byte_char_def char_byte_def)
qed

lemma char_byte_char [simp]: "byte_char (char_byte c) = c"
  by (simp add: byte_char_def char_byte_def unat_of_nat)

lemma char_byte_inject [simp]: "char_byte c = char_byte d \<longleftrightarrow> c = d"
  by (metis char_byte_char)

lemma char_byte_NUL_iff: "char_byte c = 0 \<longleftrightarrow> c = CHR 0x00"
proof -
  have "char_byte (CHR 0x00) = 0" by (simp add: char_byte_def)
  then show ?thesis by (metis char_byte_inject)
qed

section \<open>Little-endian readers\<close>

text \<open>The pointer argument is the list of bytes that starts at it; \<open>None\<close> where the read
  leaves the object.\<close>

fun cellar_le16 :: "bytes \<Rightarrow> u16 option" where
  "cellar_le16 (b0 # b1 # r) = Some (ucast b0 OR push_bit 8 (ucast b1))"
| "cellar_le16 _ = None"

fun cellar_le32 :: "bytes \<Rightarrow> u32 option" where
  "cellar_le32 (b0 # b1 # b2 # b3 # r) =
     Some (ucast b0 OR push_bit 8 (ucast b1) OR push_bit 16 (ucast b2) OR push_bit 24 (ucast b3))"
| "cellar_le32 _ = None"

definition cellar_le64 :: "bytes \<Rightarrow> u64 option" where
  "cellar_le64 b =
     (case (cellar_le32 b, cellar_le32 (drop 4 b)) of
        (Some lo, Some hi) \<Rightarrow> Some (ucast lo OR push_bit 32 (ucast hi))
      | _ \<Rightarrow> None)"

section \<open>Little-endian writers\<close>

definition wput16 :: "u16 \<Rightarrow> bytes" where
  "wput16 v = [ucast (v AND 0xFF), ucast (drop_bit 8 v AND 0xFF)]"

definition wput32 :: "u32 \<Rightarrow> bytes" where
  "wput32 v = map (\<lambda>i. ucast (drop_bit (8 * i) v AND 0xFF)) [0, 1, 2, 3]"

definition wput64 :: "u64 \<Rightarrow> bytes" where
  "wput64 v = map (\<lambda>i. ucast (drop_bit (8 * i) v AND 0xFF)) [0, 1, 2, 3, 4, 5, 6, 7]"

lemma and_255_take_bit: "(x :: 'a::len word) AND 255 = take_bit 8 x"
  by (simp add: take_bit_eq_mask mask_eq_exp_minus_1)

lemma ucast_and_255: "(ucast (x AND 255) :: u8) = ucast (x :: 'a::len word)"
  unfolding and_255_take_bit by (rule bit_word_eqI) (auto simp: bit_simps)

lemma wput16_eq: "wput16 v = [ucast v, ucast (drop_bit 8 v)]"
  by (simp add: wput16_def ucast_and_255)

lemma wput32_eq:
  "wput32 v = [ucast v, ucast (drop_bit 8 v), ucast (drop_bit 16 v), ucast (drop_bit 24 v)]"
  by (simp add: wput32_def ucast_and_255)

lemma wput64_eq:
  "wput64 v = [ucast v, ucast (drop_bit 8 v), ucast (drop_bit 16 v), ucast (drop_bit 24 v),
     ucast (drop_bit 32 v), ucast (drop_bit 40 v), ucast (drop_bit 48 v), ucast (drop_bit 56 v)]"
  by (simp add: wput64_def ucast_and_255)

lemma length_wput16 [simp, clen]: "length (wput16 v) = 2"
  by (simp add: wput16_def)

lemma length_wput32 [simp, clen]: "length (wput32 v) = 4"
  by (simp add: wput32_def)

lemma length_wput64 [simp, clen]: "length (wput64 v) = 8"
  by (simp add: wput64_def)

lemma cellar_le16_None_iff: "cellar_le16 b = None \<longleftrightarrow> length b < 2"
  by (cases b rule: cellar_le16.cases) auto

lemma cellar_le32_None_iff: "cellar_le32 b = None \<longleftrightarrow> length b < 4"
  by (cases b rule: cellar_le32.cases) auto

lemma cellar_le64_None_iff: "cellar_le64 b = None \<longleftrightarrow> length b < 8"
proof -
  have "cellar_le64 b = None \<longleftrightarrow> cellar_le32 b = None \<or> cellar_le32 (drop 4 b) = None"
    by (auto simp: cellar_le64_def split: option.splits)
  then show ?thesis by (auto simp: cellar_le32_None_iff)
qed

lemma cellar_le16_take: "2 \<le> n \<Longrightarrow> cellar_le16 (take n b) = cellar_le16 b"
  by (cases b rule: cellar_le16.cases) (auto simp: take_Cons split: nat.splits)

lemma cellar_le32_take: "4 \<le> n \<Longrightarrow> cellar_le32 (take n b) = cellar_le32 b"
  by (cases b rule: cellar_le32.cases) (auto simp: take_Cons split: nat.splits)

lemma cellar_le16_append: "2 \<le> length a \<Longrightarrow> cellar_le16 (a @ b) = cellar_le16 a"
  by (cases a rule: cellar_le16.cases) auto

lemma cellar_le32_append: "4 \<le> length a \<Longrightarrow> cellar_le32 (a @ b) = cellar_le32 a"
  by (cases a rule: cellar_le32.cases) auto

lemma join16: fixes v :: u16 shows "(ucast (ucast v :: u8) OR push_bit 8 (ucast (ucast (drop_bit 8 v) :: u8))) = (v :: u16)"
  by (rule bit_word_eqI) (auto simp: bit_simps)

lemma join32:
  fixes v :: u32
  shows "(ucast (ucast v :: u8) OR push_bit 8 (ucast (ucast (drop_bit 8 v) :: u8))
     OR push_bit 16 (ucast (ucast (drop_bit 16 v) :: u8))
     OR push_bit 24 (ucast (ucast (drop_bit 24 v) :: u8))) = v" (is "?l = v")
proof (rule bit_word_eqI)
  fix n assume "n < LENGTH(32)"
  then consider "n < 8" | "8 \<le> n \<and> n < 16" | "16 \<le> n \<and> n < 24" | "24 \<le> n \<and> n < 32"
    by fastforce
  then show "bit ?l n = bit v n"
    by cases (auto simp: bit_simps)
qed

lemma le16_wput16: "cellar_le16 (wput16 v @ r) = Some v"
  by (simp add: wput16_eq join16)

lemma le32_wput32: "cellar_le32 (wput32 v @ r) = Some v"
  by (simp add: wput32_eq join32)

lemma ucast_u8_drop32: "(ucast (drop_bit k (ucast (v :: u64) :: u32)) :: u8) = ucast (drop_bit k v)"
  if "k + 8 \<le> 32"
  by (rule bit_word_eqI) (use that in \<open>auto simp: bit_simps\<close>)

lemma wput64_split: "wput64 v = wput32 (ucast v) @ wput32 (ucast (drop_bit 32 v))"
  using ucast_u8_drop32 [of 0 v] ucast_u8_drop32 [of 0 "drop_bit 32 v"]
  by (simp add: wput64_eq wput32_eq ucast_u8_drop32 drop_bit_drop_bit)

lemma le64_wput64: "cellar_le64 (wput64 v @ r) = Some v"
proof -
  have "cellar_le32 (wput64 v @ r) = Some (ucast v)"
    by (simp add: wput64_split le32_wput32)
  moreover have "cellar_le32 (drop 4 (wput64 v @ r)) = Some (ucast (drop_bit 32 v))"
    by (simp add: wput64_split le32_wput32)
  moreover have "(ucast (ucast v :: u32) OR push_bit 32 (ucast (ucast (drop_bit 32 v) :: u32)) :: u64) = v"
    by (rule bit_word_eqI) (auto simp: bit_simps)
  ultimately show ?thesis by (simp add: cellar_le64_def)
qed

section \<open>djb2 hash\<close>

text \<open>The loop of \<^verbatim>\<open>cellar_hash_str\<close>; \<open>of_char\<close> reads a character as an unsigned byte.\<close>

fun hash_loop :: "u32 \<Rightarrow> string \<Rightarrow> u32" where
  "hash_loop h [] = h"
| "hash_loop h (c # s) =
     (if c = CHR 0x00 then h else hash_loop ((push_bit 5 h + h) + of_char c) s)"

definition cellar_hash_str :: "string \<Rightarrow> u32" where
  "cellar_hash_str s = hash_loop 5381 s"

fun djb2 :: "u32 \<Rightarrow> string \<Rightarrow> u32" where
  "djb2 h [] = h"
| "djb2 h (c # s) = djb2 (33 * h + of_char c) s"

lemma hash_loop_djb2: "no_nul s \<Longrightarrow> hash_loop h s = djb2 h s"
proof (induction s arbitrary: h)
  case Nil
  then show ?case by simp
next
  case (Cons c s)
  have "push_bit 5 h + h = 33 * h"
    by (simp add: push_bit_eq_mult)
  moreover have "c \<noteq> CHR 0x00" "no_nul s"
    using Cons.prems by (auto simp: no_nul_def)
  ultimately show ?case using Cons.IH by simp
qed

section \<open>Bounded copies and path joining\<close>

text \<open>\<^verbatim>\<open>cellar_strlcpy\<close>: the loop copies while \<open>i + 1 < n\<close> and the source has not
  ended. \<open>None\<close> is the untouched destination of the early return.\<close>

fun strlcpy_loop :: "nat \<Rightarrow> nat \<Rightarrow> string \<Rightarrow> string" where
  "strlcpy_loop n i [] = []"
| "strlcpy_loop n i (c # s) = (if i + 1 < n then c # strlcpy_loop n (i + 1) s else [])"

definition cellar_strlcpy :: "nat \<Rightarrow> string option \<Rightarrow> string option" where
  "cellar_strlcpy n src =
     (if n = 0 then None
      else case src of None \<Rightarrow> Some [] | Some s \<Rightarrow> Some (strlcpy_loop n 0 s))"

fun strlcat_len :: "nat \<Rightarrow> nat \<Rightarrow> nat \<Rightarrow> string \<Rightarrow> nat" where
  "strlcat_len n dlen slen [] = slen"
| "strlcat_len n dlen slen (c # s) =
     (if dlen + slen + 1 < n then strlcat_len n dlen (slen + 1) s else slen)"

definition cellar_strlcat :: "nat \<Rightarrow> string \<Rightarrow> string option \<Rightarrow> string" where
  "cellar_strlcat n dst src =
     (if n = 0 then dst
      else let dlen = min (length dst) (n - 1);
               slen = (case src of None \<Rightarrow> 0 | Some s \<Rightarrow> strlcat_len n dlen 0 s)
           in take dlen dst @ (case src of None \<Rightarrow> [] | Some s \<Rightarrow> take slen s))"

definition cellar_path_join :: "nat \<Rightarrow> string option \<Rightarrow> string option \<Rightarrow> string" where
  "cellar_path_join n a b =
     (let a = (case a of None \<Rightarrow> [] | Some s \<Rightarrow> s); b = (case b of None \<Rightarrow> [] | Some s \<Rightarrow> s)
      in if a \<noteq> [] \<and> last a = CHR ''/'' then snprintf_s n (a @ b)
         else if a = [] then snprintf_s n b
         else snprintf_s n (a @ ''/'' @ b))"

lemma strlcpy_loop_take: "strlcpy_loop n i s = take (n - 1 - i) s"
proof (induction s arbitrary: i)
  case Nil
  then show ?case by simp
next
  case (Cons c s)
  show ?case
  proof (cases "i + 1 < n")
    case True
    then have "n - 1 - i = Suc (n - 1 - (i + 1))" by simp
    then show ?thesis using True Cons.IH by simp
  next
    case False
    then show ?thesis by simp
  qed
qed

lemma strlcpy_snprintf: "0 < n \<Longrightarrow> cellar_strlcpy n (Some s) = Some (snprintf_s n s)"
  by (simp add: cellar_strlcpy_def strlcpy_loop_take snprintf_s_def)

lemma strlcat_len_eq:
  "dlen + slen < n \<Longrightarrow> strlcat_len n dlen slen s = slen + min (length s) (n - 1 - dlen - slen)"
proof (induction s arbitrary: slen)
  case Nil
  then show ?case by simp
next
  case (Cons c s)
  show ?case
  proof (cases "dlen + slen + 1 < n")
    case True
    then have "strlcat_len n dlen (slen + 1) s
        = slen + 1 + min (length s) (n - 1 - dlen - (slen + 1))"
      using Cons.IH by simp
    then show ?thesis using True by auto
  next
    case False
    then show ?thesis using Cons.prems by auto
  qed
qed

lemma strlcat_eq:
  "length dst < n \<Longrightarrow> cellar_strlcat n dst (Some s) = snprintf_s n (dst @ s)"
  by (auto simp: cellar_strlcat_def snprintf_s_def strlcat_len_eq Let_def min_def)

lemma length_path_join [clen]: "0 < n \<Longrightarrow> length (cellar_path_join n a b) < n"
  by (simp add: cellar_path_join_def Let_def clen)

lemma path_join_slash:
  "a \<noteq> [] \<Longrightarrow> last a \<noteq> CHR ''/'' \<Longrightarrow> length a + length b + 1 < n \<Longrightarrow>
     cellar_path_join n (Some a) (Some b) = a @ ''/'' @ b"
  by (simp add: cellar_path_join_def Let_def snprintf_s_id)

end
