(* ===== verification/Ring.thy ===== *)
theory Ring
  imports Util
begin

unbundle bit_operations_syntax

text \<open>
  The single-producer single-consumer byte ring, \<^verbatim>\<open>src/shmem/shmem.c\<close>: creation, produce,
  consume, drop and peek, on 64-bit wrapping counters and a 32-bit mask. A NULL ring makes every
  operation return 0; the model starts from a ring object. The two \<^verbatim>\<open>memcpy\<close> calls of a
  transfer are explicit and \<open>Fault\<close> where they would leave a buffer. The operations refine
  a byte queue, stated as the locale \<open>byte_queue\<close>.
\<close>

section \<open>State and operations\<close>

record cellar_ring =
  rb_buf :: bytes
  rb_capacity :: u64
  rb_mask :: u32
  rb_head :: u64
  rb_tail :: u64

partial_function (option) round_up_loop :: "u64 \<Rightarrow> u64 \<Rightarrow> u64 option" where
  "round_up_loop n v = (if v < n then round_up_loop n (push_bit 1 v) else Some v)"

definition round_up_pow2 :: "u64 \<Rightarrow> u64 option" where
  "round_up_pow2 n = round_up_loop n 1"

text \<open>The contents of a fresh allocation are unspecified: \<open>fresh\<close> gives them; \<open>alloc\<close> is the
  allocator's answer. \<open>None\<close>: the rounding loop does not end.\<close>

definition cellar_ring_create ::
    "(nat \<Rightarrow> bool) \<Rightarrow> (nat \<Rightarrow> bytes) \<Rightarrow> u64 \<Rightarrow> cellar_ring cres option" where
  "cellar_ring_create alloc fresh capacity =
     (if capacity = 0 then Some (Err CELLAR_ERR_INVALID_ARGUMENT)
      else Option.bind (round_up_pow2 capacity) (\<lambda>c.
        if \<not> alloc (unat c) then Some (Err CELLAR_ERR_OUT_OF_MEMORY)
        else Some (Ok \<lparr>rb_buf = fresh (unat c), rb_capacity = c, rb_mask = ucast (c - 1),
                       rb_head = 0, rb_tail = 0\<rparr>)))"

definition cellar_ring_capacity :: "cellar_ring \<Rightarrow> u64" where
  "cellar_ring_capacity r = rb_capacity r"

definition cellar_ring_used :: "cellar_ring \<Rightarrow> u64" where
  "cellar_ring_used r = rb_tail r - rb_head r"

definition cellar_ring_free :: "cellar_ring \<Rightarrow> u64" where
  "cellar_ring_free r = rb_capacity r - (rb_tail r - rb_head r)"

text \<open>The split of a transfer of \<open>len\<close> bytes at position \<open>pos\<close>: offset of the first part and its
  length.\<close>

definition ring_split :: "cellar_ring \<Rightarrow> u64 \<Rightarrow> u64 \<Rightarrow> nat \<times> u64" where
  "ring_split r pos len =
     (let off = pos AND ucast (rb_mask r); first = rb_capacity r - off
      in (unat off, if first > len then len else first))"

definition guarded_write :: "nat \<Rightarrow> bytes \<Rightarrow> bytes \<Rightarrow> bytes cres" where
  "guarded_write off ys xs = (if off + length ys \<le> length xs then Ok (mem_write off ys xs) else Fault)"

definition to_cres :: "'a option \<Rightarrow> 'a cres" where
  "to_cres x = (case x of None \<Rightarrow> Fault | Some y \<Rightarrow> Ok y)"

definition cellar_ring_produce ::
    "cellar_ring \<Rightarrow> bytes option \<Rightarrow> u64 \<Rightarrow> (cellar_ring \<times> u64) cres" where
  "cellar_ring_produce r data req =
     (case data of None \<Rightarrow> Ok (r, 0)
      | Some d \<Rightarrow>
          if req = 0 then Ok (r, 0)
          else
            let free_space = rb_capacity r - (rb_tail r - rb_head r);
                len = (if req > free_space then free_space else req) in
            if len = 0 then Ok (r, 0)
            else
              let (off, first) = ring_split r (rb_tail r) len in
              cbind (to_cres (mem_read 0 (unat first) d)) (\<lambda>a.
              cbind (guarded_write off a (rb_buf r)) (\<lambda>b1.
              cbind (if len > first
                     then cbind (to_cres (mem_read (unat first) (unat (len - first)) d))
                            (\<lambda>a2. guarded_write 0 a2 b1)
                     else Ok b1) (\<lambda>b2.
                Ok (r\<lparr>rb_buf := b2, rb_tail := rb_tail r + len\<rparr>, len)))))"

text \<open>The copy out of \<open>len\<close> bytes at the head, shared by consume and peek.\<close>

definition ring_copy_out :: "cellar_ring \<Rightarrow> u64 \<Rightarrow> bytes cres" where
  "ring_copy_out r len =
     (let (off, first) = ring_split r (rb_head r) len in
      cbind (to_cres (mem_read off (unat first) (rb_buf r))) (\<lambda>a.
      cbind (if len > first then to_cres (mem_read 0 (unat (len - first)) (rb_buf r)) else Ok []) (\<lambda>b.
        Ok (a @ b))))"

text \<open>\<open>dst\<close> says whether the destination is non-NULL; the copied bytes are the result.\<close>

definition cellar_ring_consume :: "cellar_ring \<Rightarrow> bool \<Rightarrow> u64 \<Rightarrow> (cellar_ring \<times> bytes) cres" where
  "cellar_ring_consume r dst req =
     (if \<not> dst \<or> req = 0 then Ok (r, [])
      else
        let used = rb_tail r - rb_head r; len = (if req > used then used else req) in
        if len = 0 then Ok (r, [])
        else cbind (ring_copy_out r len) (\<lambda>out. Ok (r\<lparr>rb_head := rb_head r + len\<rparr>, out)))"

definition cellar_ring_drop :: "cellar_ring \<Rightarrow> u64 \<Rightarrow> cellar_ring" where
  "cellar_ring_drop r req =
     (if req = 0 then r
      else let used = rb_tail r - rb_head r
           in r\<lparr>rb_head := rb_head r + (if req > used then used else req)\<rparr>)"

definition cellar_ring_peek :: "cellar_ring \<Rightarrow> bool \<Rightarrow> u64 \<Rightarrow> bytes cres" where
  "cellar_ring_peek r dst req =
     (if \<not> dst \<or> req = 0 then Ok []
      else
        let used = rb_tail r - rb_head r; len = (if req > used then used else req) in
        if len = 0 then Ok [] else ring_copy_out r len)"

section \<open>Rounding to a power of two\<close>

lemma unat_two_power: "k < 64 \<Longrightarrow> unat ((2 :: u64) ^ k) = 2 ^ k"
proof -
  assume k: "k < 64"
  have "(2 :: u64) ^ k = of_nat (2 ^ k)" by simp
  then have "unat ((2 :: u64) ^ k) = take_bit 64 (2 ^ k)" by (simp only: unat_of_nat) (simp add: take_bit_eq_mod)
  moreover have "(2 :: nat) ^ k < 2 ^ 64" using k by (intro power_strict_increasing) auto
  ultimately show ?thesis by (simp add: take_bit_eq_mod)
qed

lemma two_power_mono: "k \<le> 63 \<Longrightarrow> (2 :: u64) ^ k \<le> 2 ^ 63"
  using unat_two_power [of k] unat_two_power [of 63]
  by (simp add: word_le_nat_alt power_increasing [of k 63 "2::nat", simplified])

lemma round_up_loop_power:
  assumes "k \<le> 63" "n \<le> 2 ^ 63"
  shows "\<exists>j. k \<le> j \<and> j \<le> 63 \<and> round_up_loop n (2 ^ k) = Some (2 ^ j) \<and> n \<le> 2 ^ j \<and>
    (j = k \<or> 2 ^ (j - 1) < n)"
  using assms(1)
proof (induction "63 - k" arbitrary: k)
  case 0
  then have "k = 63" by simp
  then show ?case using assms(2) by (subst round_up_loop.simps) (auto simp: not_less)
next
  case (Suc d)
  show ?case
  proof (cases "(2 :: u64) ^ k < n")
    case False
    then show ?thesis using Suc.prems by (subst round_up_loop.simps) (auto simp: not_less)
  next
    case True
    have step: "round_up_loop n (2 ^ k) = round_up_loop n (2 ^ Suc k)"
      using True by (subst round_up_loop.simps) (simp add: push_bit_eq_mult mult.commute)
    have d: "d = 63 - Suc k" "Suc k \<le> 63" using Suc.hyps(2) by auto
    from Suc.hyps(1) [OF d] obtain j where
      j: "Suc k \<le> j" "j \<le> 63" "round_up_loop n (2 ^ Suc k) = Some (2 ^ j)" "n \<le> 2 ^ j"
        "j = Suc k \<or> 2 ^ (j - 1) < n" by blast
    from j(5) have "2 ^ (j - 1) < n" using True by auto
    then show ?thesis using j step by (intro exI [of _ j]) simp
  qed
qed

lemma round_up_pow2_ok:
  assumes "n \<le> 2 ^ 63"
  shows "\<exists>j \<le> 63. round_up_pow2 n = Some (2 ^ j) \<and> n \<le> 2 ^ j \<and> (j = 0 \<or> 2 ^ (j - 1) < n)"
  using round_up_loop_power [OF _ assms, of 0] by (auto simp: round_up_pow2_def)

declare round_up_loop.simps [code]

lemmas round_up_induct = round_up_loop.raw_induct [rotated, consumes 1, case_names step]

lemma round_up_loop_None:
  assumes "round_up_loop n v = Some r" "2 ^ 63 < n"
  shows "\<not> (v = 0 \<or> (\<exists>k \<le> 63. v = 2 ^ k))"
  using assms
proof (induction rule: round_up_induct)
  case (step lp n v r)
  show ?case
  proof
    assume v: "v = 0 \<or> (\<exists>k \<le> 63. v = 2 ^ k)"
    have "v \<le> 2 ^ 63"
      using v two_power_mono by auto
    then have lt: "v < n" using step.prems by simp
    then have r: "lp n (push_bit 1 v) = Some r" using step.hyps by simp
    have "push_bit 1 v = 0 \<or> (\<exists>k \<le> 63. push_bit 1 v = 2 ^ k)"
    proof -
      have "push_bit 1 ((2 :: u64) ^ k) = 2 ^ Suc k" for k by (simp add: push_bit_eq_mult)
      moreover have "(2 :: u64) ^ Suc 63 = 0" by simp
      ultimately show ?thesis using v
        by (metis le_antisym not_less_eq_eq push_bit_of_0)
    qed
    then show False using step.IH [OF r] step.prems by blast
  qed
qed

section \<open>Circular reads and writes on lists\<close>

definition ring_get :: "bytes \<Rightarrow> nat \<Rightarrow> nat \<Rightarrow> bytes" where
  "ring_get buf h n = map (\<lambda>i. buf ! ((h + i) mod length buf)) [0..<n]"

definition ring_put :: "bytes \<Rightarrow> nat \<Rightarrow> bytes \<Rightarrow> bytes" where
  "ring_put buf off d =
     (let first = min (length d) (length buf - off); b1 = mem_write off (take first d) buf
      in if length d > first then mem_write 0 (drop first d) b1 else b1)"

lemma length_ring_get [simp]: "length (ring_get buf h n) = n"
  by (simp add: ring_get_def)

lemma ring_get_mod: "ring_get buf (h mod length buf) n = ring_get buf h n"
  by (simp add: ring_get_def mod_add_left_eq)

lemma ring_get_append: "ring_get buf h (n + m) = ring_get buf h n @ ring_get buf (h + n) m"
  by (rule nth_equalityI) (auto simp: ring_get_def nth_append add.assoc)

lemma mod_shift: "off < N \<Longrightarrow> i < N \<Longrightarrow> (off + i) mod N = (if off + i < N then off + i else off + i - N)"
  for off i N :: nat
  by (simp add: mod_if [of "off + i"])

lemma copy_out_list:
  assumes "off < length buf" "L \<le> length buf" "first = min L (length buf - off)"
  shows "take first (drop off buf) @ take (L - first) buf = ring_get buf off L"
proof (cases "L \<le> length buf - off")
  case True
  then have "first = L" using assms by simp
  then show ?thesis
    by (intro nth_equalityI) (use assms True in \<open>auto simp: ring_get_def mod_shift\<close>)
next
  case False
  then have "first = length buf - off" using assms by simp
  then show ?thesis
    by (intro nth_equalityI) (use assms False in \<open>auto simp: ring_get_def mod_shift nth_append add.commute\<close>)
qed

lemma length_ring_put [simp]:
  "off < length buf \<Longrightarrow> length d \<le> length buf \<Longrightarrow> length (ring_put buf off d) = length buf"
  by (auto simp: ring_put_def Let_def length_mem_write min_def)

lemma nth_ring_put:
  assumes "off < length buf" "length d \<le> length buf" "i < length buf"
  shows "ring_put buf off d ! ((off + i) mod length buf) =
    (if i < length d then d ! i else buf ! ((off + i) mod length buf))"
  using assms
  by (auto simp: ring_put_def Let_def nth_mem_write length_mem_write mod_shift min_def)

lemma ring_get_put_new:
  "off < length buf \<Longrightarrow> length d \<le> length buf \<Longrightarrow> ring_get (ring_put buf off d) off (length d) = d"
  by (rule nth_equalityI) (auto simp: ring_get_def nth_ring_put)

lemma ring_get_put_old:
  assumes "0 < length buf" "n + length d \<le> length buf"
  shows "ring_get (ring_put buf ((h + n) mod length buf) d) h n = ring_get buf h n"
proof (rule nth_equalityI)
  fix i assume "i < length (ring_get (ring_put buf ((h + n) mod length buf) d) h n)"
  then have i: "i < n" by simp
  let ?N = "length buf"
  define j where "j = ?N - (n - i)"
  have j: "j < ?N" "\<not> j < length d" using i assms by (auto simp: j_def)
  have "((h + n) mod ?N + j) mod ?N = (h + n + j) mod ?N" by (simp add: mod_add_left_eq)
  also have "h + n + j = h + i + ?N" using i assms by (simp add: j_def)
  finally have e: "((h + n) mod ?N + j) mod ?N = (h + i) mod ?N" by simp
  have "(h + n) mod ?N < ?N" using assms by simp
  from nth_ring_put [OF this _ j(1)] j assms
  have "ring_put buf ((h + n) mod ?N) d ! ((h + i) mod ?N) = buf ! ((h + i) mod ?N)"
    by (simp add: e)
  then show "ring_get (ring_put buf ((h + n) mod ?N) d) h n ! i = ring_get buf h n ! i"
    using i assms by (simp add: ring_get_def)
qed simp

section \<open>The ring as a byte queue\<close>

definition ring_inv :: "cellar_ring \<Rightarrow> bool" where
  "ring_inv r \<longleftrightarrow> (\<exists>k \<le> 32. rb_capacity r = 2 ^ k \<and> rb_mask r = ucast ((2 :: u64) ^ k - 1) \<and>
     length (rb_buf r) = 2 ^ k \<and> unat (rb_tail r - rb_head r) \<le> 2 ^ k)"

definition ring_contents :: "cellar_ring \<Rightarrow> bytes" where
  "ring_contents r = ring_get (rb_buf r) (unat (rb_head r)) (unat (rb_tail r - rb_head r))"

lemma mask_roundtrip: "k \<le> 32 \<Longrightarrow> (ucast (ucast ((2 :: u64) ^ k - 1) :: u32) :: u64) = mask k"
  unfolding mask_eq_exp_minus_1 [symmetric]
  by (rule bit_word_eqI) (auto simp: bit_simps)

lemma unat_take_bit_u64: "unat (take_bit k (x :: u64)) = unat x mod 2 ^ k"
  by (simp only: unsigned_take_bit_eq) (simp only: take_bit_eq_mod)

lemma unat_shift_mod:
  assumes "k \<le> 32"
  shows "unat ((x :: u64) + of_nat n) mod 2 ^ k = (unat x + n) mod 2 ^ k"
proof -
  have d: "(2 :: nat) ^ k dvd 2 ^ 64" using assms by (intro le_imp_power_dvd) simp
  have "unat (x + of_nat n) = (unat x + n) mod 2 ^ 64"
    by (simp add: unat_word_ariths unat_of_nat take_bit_eq_mod mod_add_right_eq)
  then show ?thesis by (simp only: mod_mod_cancel [OF d])
qed

lemma ring_pos:
  assumes "ring_inv r"
  shows "0 < length (rb_buf r)" "unat (rb_capacity r) = length (rb_buf r)"
    "unat ((pos :: u64) AND ucast (rb_mask r)) = unat pos mod length (rb_buf r)"
    "unat (rb_tail r - rb_head r) \<le> length (rb_buf r)"
    "unat (rb_tail r) mod length (rb_buf r) =
       (unat (rb_head r) + unat (rb_tail r - rb_head r)) mod length (rb_buf r)"
    "length (rb_buf r) \<le> 2 ^ 32"
proof -
  from assms obtain k where k: "k \<le> 32" "rb_capacity r = 2 ^ k"
    "rb_mask r = ucast ((2 :: u64) ^ k - 1)" "length (rb_buf r) = 2 ^ k"
    "unat (rb_tail r - rb_head r) \<le> 2 ^ k" by (auto simp: ring_inv_def)
  show "0 < length (rb_buf r)" "unat (rb_tail r - rb_head r) \<le> length (rb_buf r)"
    using k by simp_all
  show "unat (rb_capacity r) = length (rb_buf r)" using k unat_two_power [of k] by simp
  show "unat ((pos :: u64) AND ucast (rb_mask r)) = unat pos mod length (rb_buf r)"
    by (simp only: k(3,4) mask_roundtrip [OF k(1)] take_bit_eq_mask [symmetric] unat_take_bit_u64)
  show "unat (rb_tail r) mod length (rb_buf r) =
       (unat (rb_head r) + unat (rb_tail r - rb_head r)) mod length (rb_buf r)"
    using unat_shift_mod [OF k(1), of "rb_head r" "unat (rb_tail r - rb_head r)"] by (simp add: k(4))
  show "length (rb_buf r) \<le> 2 ^ 32"
    using k(1,4) power_increasing [of k 32 "2 :: nat"] by simp
qed

lemma ring_split_eq:
  assumes "ring_inv r" "ring_split r pos len = (off, first)"
  shows "off = unat pos mod length (rb_buf r)"
    "unat first = min (unat len) (length (rb_buf r) - off)"
proof -
  note p = ring_pos [OF assms(1)]
  have o: "off = unat pos mod length (rb_buf r)"
    using assms(2) p(3) [of pos] by (auto simp: ring_split_def Let_def)
  then show "off = unat pos mod length (rb_buf r)" .
  have lt: "off < length (rb_buf r)" using o p(1) by simp
  have "unat (rb_capacity r - (pos AND ucast (rb_mask r))) = length (rb_buf r) - off"
    using lt o by (subst unat_sub) (simp_all add: word_le_nat_alt p(2,3))
  then show "unat first = min (unat len) (length (rb_buf r) - off)"
    using assms(2) by (auto simp: ring_split_def Let_def word_less_nat_alt min_def)
qed

lemma contents_length: "length (ring_contents r) = unat (rb_tail r - rb_head r)"
  by (simp add: ring_contents_def)

lemma produce_eq:
  assumes "ring_inv r" "unat req \<le> length d"
  defines "n \<equiv> min (unat req) (length (rb_buf r) - length (ring_contents r))"
  shows "cellar_ring_produce r (Some d) req =
    (if n = 0 then Ok (r, 0)
     else Ok (r\<lparr>rb_buf := ring_put (rb_buf r) (unat (rb_tail r) mod length (rb_buf r)) (take n d),
               rb_tail := rb_tail r + of_nat n\<rparr>, of_nat n))"
proof -
  note p = ring_pos [OF assms(1)]
  let ?N = "length (rb_buf r)"
  define free where "free = rb_capacity r - (rb_tail r - rb_head r)"
  have f: "unat free = ?N - length (ring_contents r)"
    using p(4) by (simp add: free_def contents_length unat_sub word_le_nat_alt p(2))
  define len where "len = (if req > free then free else req)"
  have len1: "unat len = n"
    using f by (auto simp: len_def n_def word_less_nat_alt)
  moreover have "len = of_nat (unat len)" by simp
  ultimately have len: "unat len = n" "len = of_nat n" by simp_all
  show ?thesis
  proof (cases "req = 0")
    case True
    then show ?thesis by (simp add: cellar_ring_produce_def n_def)
  next
    case req: False
    show ?thesis
    proof (cases "n = 0")
      case True
      then have "len = 0" using len by simp
      then show ?thesis using True req by (simp add: cellar_ring_produce_def flip: free_def len_def)
    next
      case n: False
      then have l0: "len \<noteq> 0" using len(1) by auto
      obtain off first where sp: "ring_split r (rb_tail r) len = (off, first)" by fastforce
      note s = ring_split_eq [OF assms(1) sp]
      have off: "off < ?N" using s(1) p(1) by simp
      have dl: "n \<le> length d" "n \<le> ?N" using assms(2) by (auto simp: n_def)
      have s2: "unat first = min n (?N - off)" using s(2) by (simp only: len1)
      have fn: "unat first \<le> n" "unat first \<le> ?N - off" using s2 by simp_all
      have gt: "len > first \<longleftrightarrow> n > unat first" by (simp only: word_less_nat_alt len1)
      have rest: "unat (len - first) = n - unat first" if "n > unat first"
        using that by (subst unat_sub) (simp_all add: word_le_nat_alt len1)
      have w1: "guarded_write off (take (unat first) d) (rb_buf r) =
          Ok (mem_write off (take (unat first) d) (rb_buf r))"
        using fn dl off by (simp add: guarded_write_def)
      have l1: "length (mem_write off (take (unat first) d) (rb_buf r)) = ?N"
        using fn dl off by (intro length_mem_write) simp
      have put: "ring_put (rb_buf r) off (take n d) =
          (if n > unat first then mem_write 0 (take (n - unat first) (drop (unat first) d))
             (mem_write off (take (unat first) d) (rb_buf r))
           else mem_write off (take (unat first) d) (rb_buf r))"
        using s2 dl by (auto simp: ring_put_def Let_def min_def drop_take)
      have bounds: "off + unat first \<le> ?N" "n - unat first \<le> ?N" using fn dl off by simp_all
      show ?thesis
        using req n l0 fn dl l1 bounds
        by (simp add: cellar_ring_produce_def sp w1 gt rest put to_cres_def mem_read_def guarded_write_def
            s(1)[symmetric] len(2)[symmetric] flip: free_def len_def)
    qed
  qed
qed

lemma copy_out_eq:
  assumes "ring_inv r" "unat len \<le> length (ring_contents r)"
  shows "ring_copy_out r len = Ok (take (unat len) (ring_contents r))"
proof -
  note p = ring_pos [OF assms(1)]
  let ?N = "length (rb_buf r)"
  obtain off first where sp: "ring_split r (rb_head r) len = (off, first)" by fastforce
  note s = ring_split_eq [OF assms(1) sp]
  have off: "off < ?N" using s(1) p(1) by simp
  have L: "unat len \<le> ?N" using assms(2) p(4) by (simp add: contents_length)
  have gt: "len > first \<longleftrightarrow> unat len > unat first" by (simp add: word_less_nat_alt)
  have rest: "unat (len - first) = unat len - unat first" if "unat len > unat first"
    using that by (subst unat_sub) (simp_all add: word_le_nat_alt)
  have "ring_copy_out r len = Ok (take (unat first) (drop off (rb_buf r)) @ take (unat len - unat first) (rb_buf r))"
    using off L s(2)
    by (auto simp: ring_copy_out_def sp gt rest to_cres_def mem_read_def)
  also have "\<dots> = Ok (ring_get (rb_buf r) (unat (rb_head r)) (unat len))"
    using copy_out_list [OF off L s(2)] s(1) by (simp add: ring_get_mod)
  also have "ring_get (rb_buf r) (unat (rb_head r)) (unat len) = take (unat len) (ring_contents r)"
    using assms(2) by (simp add: ring_contents_def ring_get_def take_map contents_length)
  finally show ?thesis .
qed

lemma produce_spec:
  assumes "ring_inv r" "unat req \<le> length d"
  defines "n \<equiv> min (unat req) (length (rb_buf r) - length (ring_contents r))"
  shows "\<exists>r'. cellar_ring_produce r (Some d) req = Ok (r', of_nat n) \<and> ring_inv r' \<and>
    ring_contents r' = ring_contents r @ take n d \<and> length (rb_buf r') = length (rb_buf r) \<and>
    rb_capacity r' = rb_capacity r"
proof (cases "n = 0")
  case True
  then show ?thesis using produce_eq [OF assms(1,2)] assms(1) by (simp flip: n_def)
next
  case False
  note p = ring_pos [OF assms(1)]
  let ?N = "length (rb_buf r)" and ?u = "unat (rb_tail r - rb_head r)"
  let ?off = "unat (rb_tail r) mod ?N"
  define r' where "r' = r\<lparr>rb_buf := ring_put (rb_buf r) ?off (take n d), rb_tail := rb_tail r + of_nat n\<rparr>"
  have n: "n \<le> length d" "?u + n \<le> ?N" using assms(2) p(4) by (auto simp: n_def contents_length)
  have off: "?off < ?N" using p(1) by simp
  have lb: "length (rb_buf r') = ?N" using off n by (simp add: r'_def)
  have "rb_tail r' - rb_head r' = (rb_tail r - rb_head r) + of_nat n" by (simp add: r'_def)
  moreover have "unat ((rb_tail r - rb_head r) + of_nat n) = ?u + n"
    using n p(6) by (subst unat_add_lem [THEN iffD1]) (simp_all add: unat_of_nat take_bit_nat_eq_self)
  ultimately have used: "unat (rb_tail r' - rb_head r') = ?u + n" by simp
  have inv: "ring_inv r'"
    using assms(1) lb used n by (auto simp: ring_inv_def r'_def)
  have t: "length (take n d) = n" using n by simp
  have "ring_contents r' = ring_get (rb_buf r') (unat (rb_head r)) ?u @
      ring_get (rb_buf r') (unat (rb_head r) + ?u) n"
    using used by (simp add: ring_contents_def ring_get_append r'_def)
  also have "ring_get (rb_buf r') (unat (rb_head r)) ?u = ring_contents r"
    using ring_get_put_old [OF p(1), of ?u "take n d" "unat (rb_head r)"] n t
    by (simp add: r'_def ring_contents_def p(5))
  also have "ring_get (rb_buf r') (unat (rb_head r) + ?u) n = take n d"
  proof -
    have "ring_get (rb_buf r') (unat (rb_head r) + ?u) n = ring_get (rb_buf r') ?off n"
      using ring_get_mod [of "rb_buf r'" "unat (rb_head r) + ?u" n] lb p(5) by simp
    also have "\<dots> = take n d"
      using ring_get_put_new [OF off, of "take n d"] n t by (simp add: r'_def)
    finally show ?thesis .
  qed
  finally show ?thesis
    using False produce_eq [OF assms(1,2)] inv lb
    by (intro exI [of _ r']) (simp add: r'_def flip: n_def)
qed

lemma consume_spec:
  fixes req :: u64
  assumes "ring_inv r"
  defines "n \<equiv> min (unat req) (length (ring_contents r))"
  shows "\<exists>r'. cellar_ring_consume r True req = Ok (r', take n (ring_contents r)) \<and> ring_inv r' \<and>
    ring_contents r' = drop n (ring_contents r) \<and> length (rb_buf r') = length (rb_buf r) \<and>
    rb_capacity r' = rb_capacity r"
proof -
  note p = ring_pos [OF assms(1)]
  let ?u = "unat (rb_tail r - rb_head r)"
  define used where "used = rb_tail r - rb_head r"
  define len where "len = (if req > used then used else req)"
  have len: "unat len = n" by (auto simp: len_def used_def n_def contents_length word_less_nat_alt)
  show ?thesis
  proof (cases "n = 0")
    case True
    then have "req = 0 \<or> len = 0" using len by (auto simp: unat_eq_0)
    then have "cellar_ring_consume r True req = Ok (r, [])"
      by (auto simp: cellar_ring_consume_def simp flip: used_def len_def)
    then show ?thesis using True assms(1) by simp
  next
    case False
    then have nz: "req \<noteq> 0" by (auto simp: n_def)
    have lz: "len \<noteq> 0" using False len by auto
    define r' where "r' = r\<lparr>rb_head := rb_head r + len\<rparr>"
    have c: "cellar_ring_consume r True req = Ok (r', take n (ring_contents r))"
      using nz lz copy_out_eq [OF assms(1), of len] len
      by (simp add: cellar_ring_consume_def r'_def n_def flip: used_def len_def)
    have "rb_tail r' - rb_head r' = (rb_tail r - rb_head r) - len" by (simp add: r'_def)
    then have u: "unat (rb_tail r' - rb_head r') = ?u - n"
      using len by (simp add: unat_sub word_le_nat_alt n_def contents_length)
    have inv: "ring_inv r'" using assms(1) u by (auto simp: ring_inv_def r'_def)
    have h: "unat (rb_head r + len) mod length (rb_buf r) = (unat (rb_head r) + n) mod length (rb_buf r)"
    proof -
      from assms(1) obtain k where "k \<le> 32" "length (rb_buf r) = 2 ^ k" by (auto simp: ring_inv_def)
      then show ?thesis using unat_shift_mod [of k "rb_head r" n] len by (metis of_nat_unat ucast_id)
    qed
    have "ring_contents r' = ring_get (rb_buf r) (unat (rb_head r) + n) (?u - n)"
      using ring_get_mod [of "rb_buf r" "unat (rb_head r + len)" "?u - n"]
        ring_get_mod [of "rb_buf r" "unat (rb_head r) + n" "?u - n"] u h
      by (simp add: ring_contents_def) (simp add: r'_def)
    also have "\<dots> = drop n (ring_contents r)"
      using ring_get_append [of "rb_buf r" "unat (rb_head r)" n "?u - n"]
      by (simp add: ring_contents_def n_def)
    finally show ?thesis using c inv by (intro exI [of _ r']) (simp add: r'_def)
  qed
qed

section \<open>The queue interface\<close>

text \<open>What the producer and the consumer of a bounded byte stream rely on.\<close>

datatype queue_op = Put bytes | Get nat

locale byte_queue =
  fixes inv :: "'s \<Rightarrow> bool"
    and contents :: "'s \<Rightarrow> bytes"
    and cap :: "'s \<Rightarrow> nat"
    and put :: "'s \<Rightarrow> bytes \<Rightarrow> 's \<times> nat"
    and get :: "'s \<Rightarrow> nat \<Rightarrow> 's \<times> bytes"
  assumes bounded: "inv s \<Longrightarrow> length (contents s) \<le> cap s"
    and put_law: "inv s \<Longrightarrow> put s d = (s', n) \<Longrightarrow>
      inv s' \<and> cap s' = cap s \<and> n = min (length d) (cap s - length (contents s)) \<and>
      contents s' = contents s @ take n d"
    and get_law: "inv s \<Longrightarrow> get s m = (s', out) \<Longrightarrow>
      inv s' \<and> cap s' = cap s \<and> out = take m (contents s) \<and> contents s' = drop m (contents s)"
begin

text \<open>Running a schedule of transfers; the bytes accepted and the bytes delivered.\<close>

fun run :: "'s \<Rightarrow> queue_op list \<Rightarrow> 's \<times> bytes \<times> bytes" where
  "run s [] = (s, [], [])"
| "run s (Put d # ops) =
     (let (s1, n) = put s d; (s2, i, out) = run s1 ops in (s2, take n d @ i, out))"
| "run s (Get m # ops) =
     (let (s1, b) = get s m; (s2, i, out) = run s1 ops in (s2, i, b @ out))"

lemma run_fifo:
  "inv s \<Longrightarrow> run s ops = (s', i, out) \<Longrightarrow>
     inv s' \<and> cap s' = cap s \<and> contents s @ i = out @ contents s'"
proof (induction ops arbitrary: s i out)
  case Nil
  then show ?case by simp
next
  case (Cons op ops)
  show ?case
  proof (cases op)
    case (Put d)
    obtain s1 n where p: "put s d = (s1, n)" by fastforce
    obtain i1 out1 where r: "run s1 ops = (s', i1, out1)" "i = take n d @ i1" "out = out1"
      using Cons.prems(2) Put p by (auto split: prod.splits)
    note l = put_law [OF Cons.prems(1) p]
    with Cons.IH [of s1 i1 out1] r show ?thesis by simp
  next
    case (Get m)
    obtain s1 b where p: "get s m = (s1, b)" by fastforce
    obtain i1 out1 where r: "run s1 ops = (s', i1, out1)" "i = i1" "out = b @ out1"
      using Cons.prems(2) Get p by (auto split: prod.splits)
    note l = get_law [OF Cons.prems(1) p]
    have "contents s @ i = b @ (contents s1 @ i1)" using l r(2) by simp
    with Cons.IH [of s1 i1 out1] l r show ?thesis by simp
  qed
qed

lemma run_prefix:
  "inv s \<Longrightarrow> contents s = [] \<Longrightarrow> run s ops = (s', i, out) \<Longrightarrow> i = out @ contents s' \<and> length i - length out \<le> cap s"
  using run_fifo [of s ops s' i out] bounded [of s'] by auto

end

text \<open>The C calls as total operations on a ring that satisfies the invariant.\<close>

definition size_cap :: "nat \<Rightarrow> nat" where
  "size_cap m = min m (2 ^ 64 - 1)"

definition ring_put_op :: "cellar_ring \<Rightarrow> bytes \<Rightarrow> cellar_ring \<times> nat" where
  "ring_put_op r d =
     (case cellar_ring_produce r (Some d) (of_nat (size_cap (length d))) of
        Ok (r', n) \<Rightarrow> (r', unat n) | _ \<Rightarrow> (r, 0))"

definition ring_get_op :: "cellar_ring \<Rightarrow> nat \<Rightarrow> cellar_ring \<times> bytes" where
  "ring_get_op r m =
     (case cellar_ring_consume r True (of_nat (size_cap m)) of
        Ok (r', out) \<Rightarrow> (r', out) | _ \<Rightarrow> (r, []))"

lemma unat_size_cap: "unat (of_nat (size_cap m) :: u64) = size_cap m"
  by (simp add: size_cap_def unat_of_nat take_bit_nat_eq_self)

lemma size_cap_min: "n \<le> 2 ^ 32 \<Longrightarrow> min (size_cap m) n = min m n" and size_cap_le: "size_cap m \<le> m"
  by (simp_all add: size_cap_def)

lemma unat_min_small: "n \<le> 2 ^ 32 \<Longrightarrow> unat (of_nat (min m n) :: u64) = min m n"
  by (simp add: unat_of_nat take_bit_nat_eq_self)

interpretation ring_queue: byte_queue ring_inv ring_contents "\<lambda>r. length (rb_buf r)" ring_put_op ring_get_op
proof
  fix r d r' n m out
  assume inv: "ring_inv r"
  note p = ring_pos [OF inv]
  have free: "length (rb_buf r) - length (ring_contents r) \<le> 2 ^ 32" using p(6) by simp
  have used: "length (ring_contents r) \<le> 2 ^ 32" using p(4,6) by (simp add: contents_length)
  show "length (ring_contents r) \<le> length (rb_buf r)"
    using p(4) by (simp add: contents_length)
  {
    assume "ring_put_op r d = (r', n)"
    then show "ring_inv r' \<and> length (rb_buf r') = length (rb_buf r) \<and>
        n = min (length d) (length (rb_buf r) - length (ring_contents r)) \<and>
        ring_contents r' = ring_contents r @ take n d"
      using produce_spec [OF inv, of "of_nat (size_cap (length d))" d]
      by (auto simp: ring_put_op_def unat_size_cap size_cap_min [OF free] size_cap_le unat_min_small [OF free])
  }
  {
    assume "ring_get_op r m = (r', out)"
    moreover have "take (min m (length (ring_contents r))) (ring_contents r) = take m (ring_contents r)"
      "drop (min m (length (ring_contents r))) (ring_contents r) = drop m (ring_contents r)"
      by (simp_all add: min_def)
    ultimately show "ring_inv r' \<and> length (rb_buf r') = length (rb_buf r) \<and>
        out = take m (ring_contents r) \<and> ring_contents r' = drop m (ring_contents r)"
      using consume_spec [OF inv, of "of_nat (size_cap m)"]
      by (auto simp: ring_get_op_def unat_size_cap size_cap_min [OF used])
  }
qed

lemma create_inv:
  assumes "cellar_ring_create alloc fresh capacity = Some (Ok r)" "capacity \<le> 2 ^ 32"
    "\<And>n. length (fresh n) = n"
  shows "ring_inv r \<and> ring_contents r = [] \<and> capacity \<le> rb_capacity r"
proof -
  have "capacity \<le> 2 ^ 63" using assms(2) by (rule order_trans) simp
  then obtain j where j: "j \<le> 63" "round_up_pow2 capacity = Some (2 ^ j)" "capacity \<le> 2 ^ j"
    "j = 0 \<or> 2 ^ (j - 1) < capacity" using round_up_pow2_ok by blast
  have "j \<le> 32"
  proof (rule ccontr)
    assume "\<not> j \<le> 32"
    then have "32 \<le> j - 1" "j - 1 < 64" "2 ^ (j - 1) < capacity" using j by auto
    then have "(2 :: u64) ^ 32 \<le> 2 ^ (j - 1)"
      using unat_two_power [of "j - 1"] power_increasing [of 32 "j - 1" "2 :: nat"]
      by (simp add: word_le_nat_alt)
    with \<open>2 ^ (j - 1) < capacity\<close> assms(2) show False by simp
  qed
  with assms j show ?thesis
    using unat_two_power [of j]
    by (auto simp: cellar_ring_create_def ring_inv_def ring_contents_def ring_get_def split: if_splits)
qed

section \<open>Properties\<close>

text \<open>C14. A produce on a ring in a valid state never touches memory outside its buffers and appends
  to the stored bytes exactly as many of the given bytes as fit; a consume returns the oldest
  stored bytes in order and removes them. This holds across the wrap of the buffer and of the
  64-bit counters.\<close>

theorem ring_refines_queue:
  assumes "ring_inv r" "unat req \<le> length d"
  shows "(\<exists>r' n. cellar_ring_produce r (Some d) req = Ok (r', n) \<and> ring_inv r' \<and>
        unat n = min (unat req) (length (rb_buf r) - length (ring_contents r)) \<and>
        ring_contents r' = ring_contents r @ take (unat n) d) \<and>
    (\<exists>r'. cellar_ring_consume r True req = Ok (r', take (unat req) (ring_contents r)) \<and> ring_inv r' \<and>
        ring_contents r' = drop (unat req) (ring_contents r))"
proof -
  let ?n = "min (unat req) (length (rb_buf r) - length (ring_contents r))"
  have "unat (of_nat ?n :: u64) = ?n"
    using ring_pos(6) [OF assms(1)] by (simp add: unat_of_nat take_bit_nat_eq_self)
  then have "\<exists>r' n. cellar_ring_produce r (Some d) req = Ok (r', n) \<and> ring_inv r' \<and>
        unat n = ?n \<and> ring_contents r' = ring_contents r @ take (unat n) d"
    using produce_spec [OF assms] by auto
  moreover have "\<exists>r'. cellar_ring_consume r True req =
        Ok (r', take (unat req) (ring_contents r)) \<and> ring_inv r' \<and>
        ring_contents r' = drop (unat req) (ring_contents r)"
    using consume_spec [OF assms(1), of req] by (auto simp: min_def split: if_splits)
  ultimately show ?thesis ..
qed

definition ring8 :: cellar_ring where
  "ring8 = \<lparr>rb_buf = [3, 4, 0, 0, 0, 0, 1, 2], rb_capacity = 8, rb_mask = 7,
     rb_head = 6, rb_tail = 10\<rparr>"

theorem ring_refines_queue_witness:
  "ring_contents ring8 = [1, 2, 3, 4] \<and>
   (\<exists>r'. cellar_ring_consume ring8 True 2 = Ok (r', [1, 2]) \<and> ring_contents r' = [3, 4]) \<and>
   (\<exists>r' n. cellar_ring_produce ring8 (Some [5, 6]) 2 = Ok (r', n) \<and> ring_contents r' = [1, 2, 3, 4, 5, 6])"
proof -
  have i: "ring_inv ring8"
    unfolding ring_inv_def by (rule exI [of _ 3]) (simp add: ring8_def)
  have c: "ring_contents ring8 = [1, 2, 3, 4]" by code_simp
  show ?thesis
    using ring_refines_queue [OF i, of 2 "[5, 6]"] c by (force simp: ring8_def)
qed

text \<open>C15. Over any schedule of transfers on a fresh ring of at most 4 GiB (a requested capacity of at
  most \<open>2 ^ 32\<close> bytes) the bytes delivered are a prefix, in order, of the bytes accepted, and what is
  missing is exactly what the ring still holds: nothing is lost, duplicated or reordered. The bound is that
  of the 32-bit mask: a larger ring loses bytes, see \<open>ring_large_overwrites\<close>.\<close>

theorem ring_fifo:
  assumes "cellar_ring_create alloc fresh capacity = Some (Ok r)" "capacity \<le> 2 ^ 32"
    and "\<And>n. length (fresh n) = n"
    and "ring_queue.run r ops = (r', accepted, delivered)"
  shows "accepted = delivered @ ring_contents r' \<and>
    length accepted - length delivered \<le> length (rb_buf r)"
  using ring_queue.run_prefix [OF _ _ assms(4)] create_inv [OF assms(1-3)] by blast

theorem ring_fifo_witness:
  "\<exists>r r' a. cellar_ring_create (\<lambda>_. True) (\<lambda>n. replicate n 0) 3 = Some (Ok r) \<and>
     ring_queue.run r [Put [1, 2, 3], Get 2, Put [4, 5, 6, 7]] = (r', a, [1, 2]) \<and>
     a = [1, 2] @ ring_contents r'"
proof -
  have r: "cellar_ring_create (\<lambda>_. True) (\<lambda>n. replicate n 0) 3 =
      Some (Ok \<lparr>rb_buf = [0, 0, 0, 0], rb_capacity = 4, rb_mask = 3, rb_head = 0, rb_tail = 0\<rparr>)"
    (is "_ = Some (Ok ?r)") by code_simp
  have sz: "size_cap (length [1, 2, 3 :: u8]) = 3" "size_cap 2 = 2" "size_cap (length [4, 5, 6, 7 :: u8]) = 4"
    by (simp_all add: size_cap_def)
  have steps:
    "ring_put_op ?r [1, 2, 3] =
       (\<lparr>rb_buf = [1, 2, 3, 0], rb_capacity = 4, rb_mask = 3, rb_head = 0, rb_tail = 3\<rparr>, 3)"
    "ring_get_op \<lparr>rb_buf = [1, 2, 3, 0], rb_capacity = 4, rb_mask = 3, rb_head = 0, rb_tail = 3\<rparr> 2 =
       (\<lparr>rb_buf = [1, 2, 3, 0], rb_capacity = 4, rb_mask = 3, rb_head = 2, rb_tail = 3\<rparr>, [1, 2])"
    "ring_put_op \<lparr>rb_buf = [1, 2, 3, 0], rb_capacity = 4, rb_mask = 3, rb_head = 2, rb_tail = 3\<rparr> [4, 5, 6, 7] =
       (\<lparr>rb_buf = [5, 6, 3, 4], rb_capacity = 4, rb_mask = 3, rb_head = 2, rb_tail = 6\<rparr>, 3)"
    unfolding ring_put_op_def ring_get_op_def sz by code_simp+
  obtain r' a where u: "ring_queue.run ?r [Put [1, 2, 3], Get 2, Put [4, 5, 6, 7]] = (r', a, [1, 2])"
    by (simp add: steps)
  have len: "length (replicate n (0 :: u8)) = n" for n by simp
  from ring_fifo [OF r _ len u] have "a = [1, 2] @ ring_contents r'" by (simp add: word_le_nat_alt)
  then show ?thesis using r u by blast
qed

text \<open>Above 4 GiB the mask is cut to 32 bits: in a ring of 8 GiB, of which half is filled, the next byte
  overwrites the oldest unread one, and is delivered in its place.\<close>

lemma ring_large_overwrites:
  assumes "cellar_ring_create (\<lambda>_. True) fresh (2 ^ 33) = Some (Ok r)" "\<And>n. length (fresh n) = n"
    "length d = 2 ^ 32"
  shows "\<exists>r1 r2 r3. cellar_ring_produce r (Some d) (2 ^ 32) = Ok (r1, 2 ^ 32) \<and>
    cellar_ring_produce r1 (Some [b]) 1 = Ok (r2, 1) \<and> cellar_ring_consume r2 True 1 = Ok (r3, [b])"
proof -
  have c: "round_up_pow2 (2 ^ 33) = Some (2 ^ 33)" and m: "(0x1FFFFFFFF :: u32) = 0xFFFFFFFF" by code_simp+
  have r: "r = \<lparr>rb_buf = fresh (2 ^ 33), rb_capacity = 2 ^ 33, rb_mask = 0xFFFFFFFF, rb_head = 0, rb_tail = 0\<rparr>"
    using assms(1) m unfolding cellar_ring_create_def c by simp
  let ?b1 = "mem_write 0 d (fresh (2 ^ 33))"
  let ?r1 = "r\<lparr>rb_buf := ?b1, rb_tail := 2 ^ 32\<rparr>"
  let ?r2 = "?r1\<lparr>rb_buf := mem_write 0 [b] ?b1, rb_tail := 2 ^ 32 + 1\<rparr>"
  have l: "length ?b1 = 2 ^ 33" using assms(2,3) by (simp add: length_mem_write)
  have p1: "cellar_ring_produce r (Some d) (2 ^ 32) = Ok (?r1, 2 ^ 32)"
    using assms(2,3)
    by (simp add: cellar_ring_produce_def r ring_split_def guarded_write_def to_cres_def mem_read_def)
  have p2: "cellar_ring_produce ?r1 (Some [b]) 1 = Ok (?r2, 1)"
    using l by (simp add: cellar_ring_produce_def r ring_split_def guarded_write_def to_cres_def mem_read_def)
  have "take 1 (mem_write 0 [b] ?b1) = [b]" by (simp add: mem_write_def)
  moreover have "length (mem_write 0 [b] ?b1) = 2 ^ 33" using l by (simp add: length_mem_write)
  ultimately have "cellar_ring_consume ?r2 True 1 = Ok (?r2\<lparr>rb_head := 1\<rparr>, [b])"
    by (simp add: cellar_ring_consume_def ring_copy_out_def r ring_split_def to_cres_def mem_read_def)
  then show ?thesis using p1 p2 by blast
qed

text \<open>C38. Rounding a requested capacity of at most \<open>2 ^ 63\<close> gives the least power of two that is
  not below it; for a larger request the shifted value becomes zero and the loop, hence
  \<^verbatim>\<open>cellar_ring_create\<close>, never returns.\<close>

theorem ring_create_returns_iff:
  "(\<exists>r. cellar_ring_create alloc fresh capacity = Some r) \<longleftrightarrow> capacity \<le> 2 ^ 63"
proof
  assume "\<exists>r. cellar_ring_create alloc fresh capacity = Some r"
  then have "capacity = 0 \<or> (\<exists>c. round_up_pow2 capacity = Some c)"
    by (cases "round_up_pow2 capacity") (auto simp: cellar_ring_create_def split: if_splits)
  then show "capacity \<le> 2 ^ 63"
  proof
    assume "\<exists>c. round_up_pow2 capacity = Some c"
    then obtain c where "round_up_loop capacity 1 = Some c" by (auto simp: round_up_pow2_def)
    moreover have "(1 :: u64) = 2 ^ 0" by simp
    ultimately show ?thesis using round_up_loop_None [of capacity 1 c] by (metis le0 not_less)
  qed simp
next
  assume "capacity \<le> 2 ^ 63"
  then obtain j where "round_up_pow2 capacity = Some (2 ^ j)" using round_up_pow2_ok by blast
  then show "\<exists>r. cellar_ring_create alloc fresh capacity = Some r"
    by (simp add: cellar_ring_create_def)
qed

end
