(* ===== verification/Sync.thy ===== *)
theory Sync
  imports Prelude
begin

text \<open>
  The futex primitives, \<^verbatim>\<open>src/sync/sync.c\<close>: spinlock, mutex, event and counting semaphore as
  step relations. A state holds the shared word and, for every thread, its program counter; each
  atomic access of the source is one step of one thread, so all interleavings are covered. A weak
  compare-and-swap may fail spuriously; a thread in \<^verbatim>\<open>futex_wait\<close> sleeps only if the word still
  has the expected value, and may also return without being woken. \<^verbatim>\<open>futex_wake\<close> with count 1
  wakes an arbitrary sleeper, if there is one.
\<close>

section \<open>Futex calls\<close>

text \<open>The answers of the kernel that the code tells apart: woken, timed out, anything else
  (interrupted, or the word had changed).\<close>

datatype futex_answer = Woken | TimedOut | Refused

text \<open>Seconds and nanoseconds; no limit for 0.\<close>

definition futex_timeout :: "u64 \<Rightarrow> (u64 \<times> u64) option" where
  "futex_timeout timeout_ms =
     (if timeout_ms \<noteq> 0 then Some (timeout_ms div 1000, timeout_ms mod 1000 * 1000000) else None)"

definition cellar_futex_wait :: "((u64 \<times> u64) option \<Rightarrow> futex_answer) \<Rightarrow> u64 \<Rightarrow> int" where
  "cellar_futex_wait answer timeout_ms =
     (case answer (futex_timeout timeout_ms) of Woken \<Rightarrow> 0 | TimedOut \<Rightarrow> 1 | Refused \<Rightarrow> - 1)"

text \<open>The nanoseconds are in range, nothing wraps, and the limit is exactly the one asked for.\<close>

lemma futex_timeout_exact:
  assumes "futex_timeout timeout_ms = Some (sec, nsec)"
  shows "unat nsec < 1000000000 \<and> unat sec * 1000000000 + unat nsec = unat timeout_ms * 1000000"
proof -
  have s: "sec = timeout_ms div 1000" "nsec = timeout_ms mod 1000 * 1000000"
    using assms by (auto simp: futex_timeout_def split: if_splits)
  have m: "unat (timeout_ms mod 1000) = unat timeout_ms mod 1000" by (simp add: unat_mod)
  then have "unat (timeout_ms mod 1000) * unat (1000000 :: u64) < 2 ^ LENGTH(64)"
    using mod_less_divisor [of 1000 "unat timeout_ms"] by simp
  from iffD1 [OF unat_mult_lem this] have n: "unat nsec = unat timeout_ms mod 1000 * 1000000"
    using m s(2) by simp
  have e: "unat timeout_ms div 1000 * 1000 + unat timeout_ms mod 1000 = unat timeout_ms" by simp
  have "unat sec = unat timeout_ms div 1000" using s(1) by (simp add: unat_div)
  then have "unat sec * 1000000000 + unat nsec = unat timeout_ms * 1000000" using e n by linarith
  then show ?thesis using n mod_less_divisor [of 1000 "unat timeout_ms"] by simp
qed

section \<open>Reachable states and mutual exclusion\<close>

inductive reach :: "('s \<Rightarrow> bool) \<Rightarrow> ('s \<Rightarrow> 's \<Rightarrow> bool) \<Rightarrow> 's \<Rightarrow> bool"
  for init :: "'s \<Rightarrow> bool" and step :: "'s \<Rightarrow> 's \<Rightarrow> bool" where
  reach_init: "init s \<Longrightarrow> reach init step s"
| reach_step: "reach init step s \<Longrightarrow> step s s' \<Longrightarrow> reach init step s'"

text \<open>What makes a lock exclusive, whatever its waiting protocol is.\<close>

locale lock_protocol =
  fixes init :: "'s \<Rightarrow> bool" and step :: "'s \<Rightarrow> 's \<Rightarrow> bool"
    and holds :: "'s \<Rightarrow> nat \<Rightarrow> bool" and taken :: "'s \<Rightarrow> bool"
  assumes init_free: "init s \<Longrightarrow> \<not> holds s t"
    and acquire_free: "step s s' \<Longrightarrow> holds s' t \<Longrightarrow> \<not> holds s t \<Longrightarrow> \<not> taken s \<and> taken s'"
    and acquire_one: "step s s' \<Longrightarrow> holds s' t \<Longrightarrow> \<not> holds s t \<Longrightarrow> holds s' u \<Longrightarrow> \<not> holds s u \<Longrightarrow> t = u"
    and held_stays_taken: "step s s' \<Longrightarrow> holds s t \<Longrightarrow> holds s' t \<Longrightarrow> taken s \<Longrightarrow>
      \<forall>u. holds s u \<longrightarrow> u = t \<Longrightarrow> taken s'"
begin

lemma exclusive:
  "reach init step s \<Longrightarrow>
     (\<forall>t. holds s t \<longrightarrow> taken s) \<and> (\<forall>t u. holds s t \<longrightarrow> holds s u \<longrightarrow> t = u)"
proof (induction rule: reach.induct)
  case (reach_init s)
  then show ?case using init_free by blast
next
  case (reach_step s s')
  have tk: "taken s'" if h: "holds s' t" for t
  proof (cases "holds s t")
    case True
    then show ?thesis using held_stays_taken [OF reach_step.hyps(2) True h] reach_step.IH by blast
  next
    case False
    then show ?thesis using acquire_free [OF reach_step.hyps(2) h] by blast
  qed
  have "t = u" if "holds s' t" "holds s' u" for t u
    using that reach_step acquire_free acquire_one by metis
  with tk show ?case by blast
qed

lemma at_most_one: "reach init step s \<Longrightarrow> holds s t \<Longrightarrow> holds s u \<Longrightarrow> t = u"
  using exclusive by blast

end

section \<open>Spinlock\<close>

datatype spin_pc = SIdle | SExchange | SPoll | SHeld

record spin_state =
  sp_state :: int
  sp_pc :: "nat \<Rightarrow> spin_pc"

definition cellar_spinlock_init :: "spin_state \<Rightarrow> bool" where
  "cellar_spinlock_init s \<longleftrightarrow> sp_state s = 0 \<and> (\<forall>t. sp_pc s t = SIdle)"

text \<open>\<^verbatim>\<open>cellar_spinlock_lock\<close> (\<open>call\<close>, \<open>exchange\<close>, \<open>poll\<close>), \<^verbatim>\<open>trylock\<close> and \<^verbatim>\<open>unlock\<close>.\<close>

inductive spin_step :: "spin_state \<Rightarrow> spin_state \<Rightarrow> bool" where
  spin_call: "sp_pc s t = SIdle \<Longrightarrow> spin_step s (s\<lparr>sp_pc := (sp_pc s)(t := SExchange)\<rparr>)"
| spin_exchange: "sp_pc s t = SExchange \<Longrightarrow>
    spin_step s (s\<lparr>sp_state := 1,
      sp_pc := (sp_pc s)(t := (if sp_state s = 0 then SHeld else SPoll))\<rparr>)"
| spin_poll: "sp_pc s t = SPoll \<Longrightarrow>
    spin_step s (s\<lparr>sp_pc := (sp_pc s)(t := (if sp_state s \<noteq> 0 then SPoll else SExchange))\<rparr>)"
| spin_trylock: "sp_pc s t = SIdle \<Longrightarrow>
    spin_step s (s\<lparr>sp_state := 1,
      sp_pc := (sp_pc s)(t := (if sp_state s = 0 then SHeld else SIdle))\<rparr>)"
| spin_unlock: "sp_pc s t = SHeld \<Longrightarrow>
    spin_step s (s\<lparr>sp_state := 0, sp_pc := (sp_pc s)(t := SIdle)\<rparr>)"

inductive_cases spin_stepE: "spin_step s s'"

lemma spin_acquire:
  assumes "spin_step s s'" "sp_pc s' t = SHeld" "sp_pc s t \<noteq> SHeld"
  shows "sp_state s = 0 \<and> sp_state s' \<noteq> 0"
  using assms by (cases rule: spin_step.cases) (simp_all split: if_splits)

lemma spin_acquire_one:
  assumes "spin_step s s'" "sp_pc s' t = SHeld" "sp_pc s t \<noteq> SHeld" "sp_pc s' u = SHeld" "sp_pc s u \<noteq> SHeld"
  shows "t = u"
  using assms by (cases rule: spin_step.cases) (simp_all split: if_splits)

lemma spin_held:
  assumes "spin_step s s'" "sp_pc s t = SHeld" "sp_pc s' t = SHeld" "sp_state s \<noteq> 0"
    "\<forall>u. sp_pc s u = SHeld \<longrightarrow> u = t"
  shows "sp_state s' \<noteq> 0"
  using assms(1)
proof (cases rule: spin_step.cases)
  case (spin_unlock u)
  then have "u = t" using assms(5) by blast
  then show ?thesis using spin_unlock assms(3) by (simp split: if_splits)
qed (use assms(2-4) in \<open>simp_all split: if_splits\<close>)

interpretation spin: lock_protocol cellar_spinlock_init spin_step
    "\<lambda>s t. sp_pc s t = SHeld" "\<lambda>s. sp_state s \<noteq> 0"
proof (unfold_locales, goal_cases)
  case 1
  then show ?case by (simp add: cellar_spinlock_init_def)
next
  case (2 s s' t)
  then show ?case using spin_acquire [of s s' t] by blast
next
  case (3 s s' t u)
  then show ?case by (rule spin_acquire_one)
next
  case (4 s s' t)
  then show ?case by (rule spin_held)
qed

section \<open>Mutex\<close>

datatype mutex_pc =
    MIdle
  | MCas        \<comment> \<open>fast path: compare-and-swap 0 to 1\<close>
  | MMark       \<comment> \<open>exchange 2 after the fast path failed\<close>
  | MWait       \<comment> \<open>entering \<open>futex_wait(&state, 2, 0)\<close>\<close>
  | MSleep      \<comment> \<open>asleep in the kernel\<close>
  | MCas2       \<comment> \<open>compare-and-swap 0 to 2 after \<open>futex_wait\<close> returned\<close>
  | MMark2      \<comment> \<open>exchange 2 at the end of the loop body\<close>
  | MHeld
  | MWake       \<comment> \<open>unlocked a contended mutex, about to call \<open>futex_wake\<close>\<close>

record mutex_state =
  mx_state :: int
  mx_pc :: "nat \<Rightarrow> mutex_pc"

definition cellar_mutex_init :: "mutex_state \<Rightarrow> bool" where
  "cellar_mutex_init s \<longleftrightarrow> mx_state s = 0 \<and> (\<forall>t. mx_pc s t = MIdle)"

definition mx_go :: "nat \<Rightarrow> mutex_pc \<Rightarrow> mutex_state \<Rightarrow> mutex_state" where
  "mx_go t pc s = s\<lparr>mx_pc := (mx_pc s)(t := pc)\<rparr>"

inductive mutex_step :: "mutex_state \<Rightarrow> mutex_state \<Rightarrow> bool" where
  mx_call: "mx_pc s t = MIdle \<Longrightarrow> mutex_step s (mx_go t MCas s)"
| mx_cas_ok: "mx_pc s t = MCas \<Longrightarrow> mx_state s = 0 \<Longrightarrow>
    mutex_step s (mx_go t MHeld (s\<lparr>mx_state := 1\<rparr>))"
| mx_cas_fail: "mx_pc s t = MCas \<Longrightarrow>
    mutex_step s (mx_go t (if mx_state s \<noteq> 2 then MMark else MWait) s)"
| mx_mark: "mx_pc s t = MMark \<Longrightarrow> mutex_step s (mx_go t MWait (s\<lparr>mx_state := 2\<rparr>))"
| mx_sleep: "mx_pc s t = MWait \<Longrightarrow> mx_state s = 2 \<Longrightarrow> mutex_step s (mx_go t MSleep s)"
| mx_no_sleep: "mx_pc s t = MWait \<Longrightarrow> mx_state s \<noteq> 2 \<Longrightarrow> mutex_step s (mx_go t MCas2 s)"
| mx_interrupt: "mx_pc s t = MSleep \<Longrightarrow> mutex_step s (mx_go t MCas2 s)"
| mx_cas2_ok: "mx_pc s t = MCas2 \<Longrightarrow> mx_state s = 0 \<Longrightarrow>
    mutex_step s (mx_go t MHeld (s\<lparr>mx_state := 2\<rparr>))"
| mx_cas2_fail: "mx_pc s t = MCas2 \<Longrightarrow> mutex_step s (mx_go t MMark2 s)"
| mx_mark2: "mx_pc s t = MMark2 \<Longrightarrow> mutex_step s (mx_go t MWait (s\<lparr>mx_state := 2\<rparr>))"
| mx_trylock: "mx_pc s t = MIdle \<Longrightarrow>
    mutex_step s (mx_go t (if mx_state s = 0 then MHeld else MIdle) (s\<lparr>mx_state := 1\<rparr>))"
| mx_unlock: "mx_pc s t = MHeld \<Longrightarrow>
    mutex_step s (mx_go t (if mx_state s = 2 then MWake else MIdle) (s\<lparr>mx_state := 0\<rparr>))"
| mx_wake_one: "mx_pc s t = MWake \<Longrightarrow> mx_pc s u = MSleep \<Longrightarrow>
    mutex_step s (mx_go u MCas2 (mx_go t MIdle s))"
| mx_wake_none: "mx_pc s t = MWake \<Longrightarrow> (\<forall>u. mx_pc s u \<noteq> MSleep) \<Longrightarrow> mutex_step s (mx_go t MIdle s)"

inductive_cases mutex_stepE: "mutex_step s s'"

lemma mx_go_simps [simp]:
  "mx_state (mx_go t pc s) = mx_state s"
  "mx_pc (mx_go t pc s) u = (if u = t then pc else mx_pc s u)"
  by (simp_all add: mx_go_def)

lemma mutex_acquire:
  assumes "mutex_step s s'" "mx_pc s' t = MHeld" "mx_pc s t \<noteq> MHeld"
  shows "mx_state s = 0 \<and> mx_state s' \<noteq> 0"
  using assms by (cases rule: mutex_step.cases) (simp_all split: if_splits)

lemma mutex_acquire_one:
  assumes "mutex_step s s'" "mx_pc s' t = MHeld" "mx_pc s t \<noteq> MHeld" "mx_pc s' u = MHeld" "mx_pc s u \<noteq> MHeld"
  shows "t = u"
  using assms by (cases rule: mutex_step.cases) (simp_all split: if_splits)

lemma mutex_held:
  assumes "mutex_step s s'" "mx_pc s t = MHeld" "mx_pc s' t = MHeld" "mx_state s \<noteq> 0"
    "\<forall>u. mx_pc s u = MHeld \<longrightarrow> u = t"
  shows "mx_state s' \<noteq> 0"
  using assms(1)
proof (cases rule: mutex_step.cases)
  case (mx_unlock u)
  then have "u = t" using assms(5) by blast
  then show ?thesis using mx_unlock assms(3) by (simp split: if_splits)
qed (use assms(2-4) in \<open>simp_all split: if_splits\<close>)

interpretation mutex: lock_protocol cellar_mutex_init mutex_step
    "\<lambda>s t. mx_pc s t = MHeld" "\<lambda>s. mx_state s \<noteq> 0"
proof (unfold_locales, goal_cases)
  case 1
  then show ?case by (simp add: cellar_mutex_init_def)
next
  case (2 s s' t)
  then show ?case using mutex_acquire [of s s' t] by blast
next
  case (3 s s' t u)
  then show ?case by (rule mutex_acquire_one)
next
  case (4 s s' t)
  then show ?case by (rule mutex_held)
qed

text \<open>The word is nonzero and nobody holds the mutex: no step leaves this set of states.\<close>

definition mutex_dead :: "mutex_state \<Rightarrow> bool" where
  "mutex_dead s \<longleftrightarrow> mx_state s \<noteq> 0 \<and> (\<forall>t. mx_pc s t \<noteq> MHeld)"

lemma mutex_dead_step: "mutex_step s s' \<Longrightarrow> mutex_dead s \<Longrightarrow> mutex_dead s'"
  by (elim mutex_stepE) (auto simp: mutex_dead_def split: if_splits)

lemma mutex_dead_forever: "mutex_step\<^sup>*\<^sup>* s s' \<Longrightarrow> mutex_dead s \<Longrightarrow> mutex_dead s'"
  by (induction rule: rtranclp_induct) (auto dest: mutex_dead_step)

section \<open>Event\<close>

datatype event_pc = EIdle | ELoad | EFutex | ESleep | EDone | ESetWake

record event_state =
  ev_signaled :: int
  ev_pc :: "nat \<Rightarrow> event_pc"

definition cellar_event_init :: "event_state \<Rightarrow> bool" where
  "cellar_event_init s \<longleftrightarrow> ev_signaled s = 0 \<and> (\<forall>t. ev_pc s t = EIdle)"

definition ev_go :: "nat \<Rightarrow> event_pc \<Rightarrow> event_state \<Rightarrow> event_state" where
  "ev_go t pc s = s\<lparr>ev_pc := (ev_pc s)(t := pc)\<rparr>"

inductive event_step :: "event_state \<Rightarrow> event_state \<Rightarrow> bool" where
  ev_call_wait: "ev_pc s t = EIdle \<Longrightarrow> event_step s (ev_go t ELoad s)"
| ev_load: "ev_pc s t = ELoad \<Longrightarrow>
    event_step s (ev_go t (if ev_signaled s \<noteq> 0 then EDone else EFutex) s)"
| ev_sleep: "ev_pc s t = EFutex \<Longrightarrow> ev_signaled s = 0 \<Longrightarrow> event_step s (ev_go t ESleep s)"
| ev_no_sleep: "ev_pc s t = EFutex \<Longrightarrow> ev_signaled s \<noteq> 0 \<Longrightarrow> event_step s (ev_go t ELoad s)"
| ev_interrupt: "ev_pc s t = ESleep \<Longrightarrow> event_step s (ev_go t ELoad s)"
| ev_return: "ev_pc s t = EDone \<Longrightarrow> event_step s (ev_go t EIdle s)"
| ev_set: "ev_pc s t = EIdle \<Longrightarrow> event_step s (ev_go t ESetWake (s\<lparr>ev_signaled := 1\<rparr>))"
| ev_wake_one: "ev_pc s t = ESetWake \<Longrightarrow> ev_pc s u = ESleep \<Longrightarrow>
    event_step s (ev_go u ELoad (ev_go t EIdle s))"
| ev_wake_none: "ev_pc s t = ESetWake \<Longrightarrow> (\<forall>u. ev_pc s u \<noteq> ESleep) \<Longrightarrow> event_step s (ev_go t EIdle s)"
| ev_reset: "ev_pc s t = EIdle \<Longrightarrow> event_step s (s\<lparr>ev_signaled := 0\<rparr>)"

inductive_cases event_stepE: "event_step s s'"

lemma ev_go_simps [simp]:
  "ev_signaled (ev_go t pc s) = ev_signaled s"
  "ev_pc (ev_go t pc s) u = (if u = t then pc else ev_pc s u)"
  by (simp_all add: ev_go_def)

section \<open>Counting semaphore\<close>

text \<open>The ghost fields count the posts and the completed waits.\<close>

datatype sem_pc = PIdle | PLoad | PCas u32 | PFutex u32 | PSleep | PWake

record sem_state =
  sm_count :: u32
  sm_pc :: "nat \<Rightarrow> sem_pc"
  sm_posted :: nat
  sm_waited :: nat

definition cellar_semaphore_init :: "u32 \<Rightarrow> sem_state \<Rightarrow> bool" where
  "cellar_semaphore_init initial s \<longleftrightarrow>
     sm_count s = initial \<and> (\<forall>t. sm_pc s t = PIdle) \<and> sm_posted s = 0 \<and> sm_waited s = 0"

definition sm_go :: "nat \<Rightarrow> sem_pc \<Rightarrow> sem_state \<Rightarrow> sem_state" where
  "sm_go t pc s = s\<lparr>sm_pc := (sm_pc s)(t := pc)\<rparr>"

inductive sem_step :: "sem_state \<Rightarrow> sem_state \<Rightarrow> bool" where
  sm_post: "sm_pc s t = PIdle \<Longrightarrow>
    sem_step s (sm_go t PWake (s\<lparr>sm_count := sm_count s + 1, sm_posted := sm_posted s + 1\<rparr>))"
| sm_wake_one: "sm_pc s t = PWake \<Longrightarrow> sm_pc s u = PSleep \<Longrightarrow>
    sem_step s (sm_go u PLoad (sm_go t PIdle s))"
| sm_wake_none: "sm_pc s t = PWake \<Longrightarrow> (\<forall>u. sm_pc s u \<noteq> PSleep) \<Longrightarrow> sem_step s (sm_go t PIdle s)"
| sm_call_wait: "sm_pc s t = PIdle \<Longrightarrow> sem_step s (sm_go t PLoad s)"
| sm_load: "sm_pc s t = PLoad \<Longrightarrow>
    sem_step s (sm_go t (if 0 < sint (sm_count s) then PCas (sm_count s) else PFutex (sm_count s)) s)"
| sm_cas_ok: "sm_pc s t = PCas c \<Longrightarrow> sm_count s = c \<Longrightarrow>
    sem_step s (sm_go t PIdle (s\<lparr>sm_count := c - 1, sm_waited := sm_waited s + 1\<rparr>))"
| sm_cas_fail: "sm_pc s t = PCas c \<Longrightarrow> sem_step s (sm_go t (PFutex (sm_count s)) s)"
| sm_sleep: "sm_pc s t = PFutex c \<Longrightarrow> sm_count s = c \<Longrightarrow> sem_step s (sm_go t PSleep s)"
| sm_no_sleep: "sm_pc s t = PFutex c \<Longrightarrow> sm_count s \<noteq> c \<Longrightarrow> sem_step s (sm_go t PLoad s)"
| sm_interrupt: "sm_pc s t = PSleep \<Longrightarrow> sem_step s (sm_go t PLoad s)"

inductive_cases sem_stepE: "sem_step s s'"

lemma sm_go_simps [simp]:
  "sm_count (sm_go t pc s) = sm_count s" "sm_posted (sm_go t pc s) = sm_posted s"
  "sm_waited (sm_go t pc s) = sm_waited s"
  "sm_pc (sm_go t pc s) u = (if u = t then pc else sm_pc s u)"
  by (simp_all add: sm_go_def)

text \<open>Tokens are conserved, and a thread about to swap has seen a positive count.\<close>

definition sem_inv :: "u32 \<Rightarrow> sem_state \<Rightarrow> bool" where
  "sem_inv initial s \<longleftrightarrow>
     sm_count s + of_nat (sm_waited s) = initial + of_nat (sm_posted s) \<and>
     (\<forall>t c. sm_pc s t = PCas c \<longrightarrow> 0 < sint c)"

lemma sem_inv_step: "sem_step s s' \<Longrightarrow> sem_inv initial s \<Longrightarrow> sem_inv initial s'"
  by (elim sem_stepE) (auto simp: sem_inv_def algebra_simps split: if_splits)

lemma sem_inv_reach: "reach (cellar_semaphore_init initial) sem_step s \<Longrightarrow> sem_inv initial s"
proof (induction rule: reach.induct)
  case (reach_init s)
  then show ?case by (simp add: sem_inv_def cellar_semaphore_init_def)
next
  case (reach_step s s')
  then show ?case using sem_inv_step by blast
qed

section \<open>Properties\<close>

text \<open>C16. Mutual exclusion: in every reachable state of any number of threads, under every
  interleaving of the atomic steps of lock, trylock and unlock, with spurious failures and
  wake-ups, at most one thread holds the mutex.\<close>

theorem mutex_mutual_exclusion:
  assumes "reach cellar_mutex_init mutex_step s" "mx_pc s t = MHeld" "mx_pc s u = MHeld"
  shows "t = u"
  using assms by (rule mutex.at_most_one)

definition mutex_zero :: mutex_state where
  "mutex_zero = \<lparr>mx_state = 0, mx_pc = (\<lambda>_. MIdle)\<rparr>"

lemma mutex_zero_reach: "reach cellar_mutex_init mutex_step mutex_zero"
  by (rule reach_init) (simp add: cellar_mutex_init_def mutex_zero_def)

theorem mutex_mutual_exclusion_witness:
  "\<exists>s. reach cellar_mutex_init mutex_step s \<and> mx_pc s 0 = MHeld \<and> (\<forall>u. mx_pc s u = MHeld \<longrightarrow> u = 0)"
proof -
  let ?s1 = "mx_go 0 MCas mutex_zero"
  let ?s2 = "mx_go 0 MHeld (?s1\<lparr>mx_state := 1\<rparr>)"
  have r1: "reach cellar_mutex_init mutex_step ?s1"
    by (rule reach_step [OF mutex_zero_reach]) (rule mx_call, simp add: mutex_zero_def)
  have r2: "reach cellar_mutex_init mutex_step ?s2"
    by (rule reach_step [OF r1], rule mx_cas_ok) (simp_all add: mutex_zero_def)
  have h: "mx_pc ?s2 0 = MHeld" by simp
  show ?thesis
    using r2 h mutex_mutual_exclusion [OF r2 _ h] by blast
qed

text \<open>From a locked-up mutex a thread that calls lock goes to sleep.\<close>

lemma mutex_falls_asleep:
  assumes "reach cellar_mutex_init mutex_step s" "mx_state s = 2" "mx_pc s t = MIdle"
  shows "reach cellar_mutex_init mutex_step (mx_go t MSleep s)"
proof -
  have r1: "reach cellar_mutex_init mutex_step (mx_go t MCas s)"
    using assms(1) by (rule reach_step) (rule mx_call, rule assms(3))
  have "mutex_step (mx_go t MCas s) (mx_go t (if mx_state (mx_go t MCas s) \<noteq> 2 then MMark else MWait) (mx_go t MCas s))"
    by (rule mx_cas_fail) simp
  then have "mutex_step (mx_go t MCas s) (mx_go t MWait s)" using assms(2) by (simp add: mx_go_def)
  with r1 have r2: "reach cellar_mutex_init mutex_step (mx_go t MWait s)" by (rule reach_step)
  have "mutex_step (mx_go t MWait s) (mx_go t MSleep (mx_go t MWait s))"
    by (rule mx_sleep) (simp_all add: assms(2))
  then have "mutex_step (mx_go t MWait s) (mx_go t MSleep s)" by (simp add: mx_go_def)
  with r2 show ?thesis by (rule reach_step)
qed

lemma mutex_lost_owner:
  "\<exists>s. reach cellar_mutex_init mutex_step s \<and> mx_state s = 2 \<and> mx_pc s = (\<lambda>t. if t = 1 then MSleep else MIdle)"
proof -
  let ?s1 = "mx_go 0 MCas mutex_zero"
  let ?s2 = "mx_go 0 MHeld (?s1\<lparr>mx_state := 1\<rparr>)"
  let ?s3 = "mx_go 1 MCas ?s2"
  let ?s4 = "mx_go 1 (if mx_state ?s3 \<noteq> 2 then MMark else MWait) ?s3"
  let ?s5 = "mx_go 0 (if mx_state ?s4 = 2 then MWake else MIdle) (?s4\<lparr>mx_state := 0\<rparr>)"
  let ?s6 = "mx_go 1 MWait (?s5\<lparr>mx_state := 2\<rparr>)"
  let ?s7 = "mx_go 1 MSleep ?s6"
  have r1: "reach cellar_mutex_init mutex_step ?s1"
    by (rule reach_step [OF mutex_zero_reach]) (rule mx_call, simp add: mutex_zero_def)
  have r2: "reach cellar_mutex_init mutex_step ?s2"
    by (rule reach_step [OF r1], rule mx_cas_ok) (simp_all add: mutex_zero_def)
  have r3: "reach cellar_mutex_init mutex_step ?s3"
    by (rule reach_step [OF r2], rule mx_call) (simp add: mutex_zero_def mx_go_def)
  have r4: "reach cellar_mutex_init mutex_step ?s4"
    by (rule reach_step [OF r3], rule mx_cas_fail) simp
  have r5: "reach cellar_mutex_init mutex_step ?s5"
    by (rule reach_step [OF r4], rule mx_unlock) (simp add: mx_go_def)
  have r6: "reach cellar_mutex_init mutex_step ?s6"
    by (rule reach_step [OF r5], rule mx_mark) (simp add: mx_go_def)
  have r7: "reach cellar_mutex_init mutex_step ?s7"
    by (rule reach_step [OF r6], rule mx_sleep) (simp_all add: mx_go_def)
  have "mx_state ?s7 = 2" "mx_pc ?s7 = (\<lambda>t. if t = 1 then MSleep else MIdle)"
    by (auto simp: mx_go_def mutex_zero_def fun_eq_iff)
  with r7 show ?thesis by blast
qed

lemma mutex_all_asleep:
  "\<exists>s. reach cellar_mutex_init mutex_step s \<and> mx_state s = 2 \<and>
     mx_pc s = (\<lambda>t. if t < n + 2 then MSleep else MIdle)"
proof (induction n)
  case 0
  obtain s where s: "reach cellar_mutex_init mutex_step s" "mx_state s = 2"
    "mx_pc s = (\<lambda>t. if t = 1 then MSleep else MIdle)"
    using mutex_lost_owner by blast
  have "reach cellar_mutex_init mutex_step (mx_go 0 MSleep s)"
    using s by (intro mutex_falls_asleep) simp_all
  moreover have "mx_pc (mx_go 0 MSleep s) = (\<lambda>t. if t < 0 + 2 then MSleep else MIdle)"
    using s(3) by (auto simp: fun_eq_iff)
  ultimately show ?case using s(2) by (metis mx_go_simps(1))
next
  case (Suc n)
  then obtain s where s: "reach cellar_mutex_init mutex_step s" "mx_state s = 2"
    "mx_pc s = (\<lambda>t. if t < n + 2 then MSleep else MIdle)" by blast
  have "reach cellar_mutex_init mutex_step (mx_go (n + 2) MSleep s)"
    using s by (intro mutex_falls_asleep) simp_all
  moreover have "mx_pc (mx_go (n + 2) MSleep s) = (\<lambda>t. if t < Suc n + 2 then MSleep else MIdle)"
    using s(3) by (auto simp: fun_eq_iff)
  ultimately show ?case using s(2) by (metis mx_go_simps(1))
qed

text \<open>C40. The mutex can lock up for good: a thread that lost the fast path and writes the contended
  mark after the owner has unlocked leaves the word at 2 with no owner. For any number of threads from two
  on, a state is reachable in which all of them sleep in lock although nobody holds the mutex and no
  other thread is in any of its operations; from it on no thread ever acquires the mutex again, by lock or
  by trylock, whatever the schedule and whatever other threads join.\<close>

theorem mutex_deadlock_reachable:
  "\<exists>s. reach cellar_mutex_init mutex_step s \<and>
     (\<forall>t. mx_pc s t = (if t < n + 2 then MSleep else MIdle)) \<and>
     \<not> (\<exists>s' t. mutex_step\<^sup>*\<^sup>* s s' \<and> mx_pc s' t = MHeld)"
proof -
  obtain s where s: "reach cellar_mutex_init mutex_step s" "mx_state s = 2"
    "mx_pc s = (\<lambda>t. if t < n + 2 then MSleep else MIdle)"
    using mutex_all_asleep by blast
  have "mutex_dead s" by (simp add: mutex_dead_def s)
  then have "mx_pc s' t \<noteq> MHeld" if "mutex_step\<^sup>*\<^sup>* s s'" for s' t
    using mutex_dead_forever [OF that] by (simp add: mutex_dead_def)
  with s show ?thesis by auto
qed

text \<open>A trylock on a contended mutex overwrites the mark: the owner then releases without waking
  anybody. That state is reachable with three threads: the mutex is free, nobody is about to wake
  the sleeper, and the sleeper stays asleep as long as the others do nothing.\<close>

theorem trylock_loses_wakeup:
  "\<exists>s. reach cellar_mutex_init mutex_step s \<and> mx_state s = 0 \<and> mx_pc s 1 = MSleep \<and>
     (\<forall>t. t \<noteq> 1 \<longrightarrow> mx_pc s t = MIdle)"
proof -
  let ?s1 = "mx_go 0 MCas mutex_zero"
  let ?s2 = "mx_go 0 MHeld (?s1\<lparr>mx_state := 1\<rparr>)"
  let ?s3 = "mx_go 1 MCas ?s2"
  let ?s4 = "mx_go 1 (if mx_state ?s3 \<noteq> 2 then MMark else MWait) ?s3"
  let ?s5 = "mx_go 1 MWait (?s4\<lparr>mx_state := 2\<rparr>)"
  let ?s6 = "mx_go 1 MSleep ?s5"
  let ?s7 = "mx_go 2 (if mx_state ?s6 = 0 then MHeld else MIdle) (?s6\<lparr>mx_state := 1\<rparr>)"
  let ?s8 = "mx_go 0 (if mx_state ?s7 = 2 then MWake else MIdle) (?s7\<lparr>mx_state := 0\<rparr>)"
  have r1: "reach cellar_mutex_init mutex_step ?s1"
    by (rule reach_step [OF mutex_zero_reach]) (rule mx_call, simp add: mutex_zero_def)
  have r2: "reach cellar_mutex_init mutex_step ?s2"
    by (rule reach_step [OF r1], rule mx_cas_ok) (simp_all add: mutex_zero_def)
  have r3: "reach cellar_mutex_init mutex_step ?s3"
    by (rule reach_step [OF r2], rule mx_call) (simp add: mutex_zero_def mx_go_def)
  have r4: "reach cellar_mutex_init mutex_step ?s4"
    by (rule reach_step [OF r3], rule mx_cas_fail) simp
  have r5: "reach cellar_mutex_init mutex_step ?s5"
    by (rule reach_step [OF r4], rule mx_mark) (simp add: mx_go_def)
  have r6: "reach cellar_mutex_init mutex_step ?s6"
    by (rule reach_step [OF r5], rule mx_sleep) (simp_all add: mx_go_def)
  have r7: "reach cellar_mutex_init mutex_step ?s7"
    by (rule reach_step [OF r6], rule mx_trylock) (simp add: mutex_zero_def mx_go_def)
  have r8: "reach cellar_mutex_init mutex_step ?s8"
    by (rule reach_step [OF r7], rule mx_unlock) (simp add: mutex_zero_def mx_go_def)
  show ?thesis
    by (rule exI [of _ ?s8], intro conjI r8) (simp_all add: mutex_zero_def mx_go_def)
qed

text \<open>Only a reset clears the event: waiting does not consume the signal.\<close>

lemma event_signal_stays:
  assumes "event_step s s'" "ev_signaled s \<noteq> 0" "ev_signaled s' = 0"
  shows "s' = s\<lparr>ev_signaled := 0\<rparr> \<and> (\<exists>t. ev_pc s t = EIdle)"
  using assms by (elim event_stepE) auto

text \<open>One signal therefore lets any two waiters through, although the event is documented as
  auto-reset.\<close>

theorem event_not_auto_reset:
  assumes "ev_signaled s \<noteq> 0" "ev_pc s t = EIdle" "ev_pc s u = EIdle" "t \<noteq> u"
  shows "event_step\<^sup>*\<^sup>* s (ev_go u EDone (ev_go t EDone s))"
proof -
  have wait: "event_step\<^sup>*\<^sup>* r (ev_go v EDone r)" if "ev_signaled r \<noteq> 0" "ev_pc r v = EIdle" for r v
  proof -
    have "event_step r (ev_go v ELoad r)" using that(2) by (rule ev_call_wait)
    moreover have "event_step (ev_go v ELoad r) (ev_go v EDone r)"
      using ev_load [of "ev_go v ELoad r" v] that(1) by (simp add: ev_go_def)
    ultimately show ?thesis by (blast intro: rtranclp.intros)
  qed
  have "event_step\<^sup>*\<^sup>* s (ev_go t EDone s)" using assms by (intro wait)
  also have "event_step\<^sup>*\<^sup>* (ev_go t EDone s) (ev_go u EDone (ev_go t EDone s))"
    using assms by (intro wait) simp_all
  finally show ?thesis .
qed

text \<open>Nor is it a manual-reset event: setting it wakes one waiter only. A state is reachable in
  which the event is set, nobody is about to wake anybody, and a waiter is asleep.\<close>

definition event_zero :: event_state where
  "event_zero = \<lparr>ev_signaled = 0, ev_pc = (\<lambda>_. EIdle)\<rparr>"

lemma event_sleeps:
  assumes "reach cellar_event_init event_step s" "ev_signaled s = 0" "ev_pc s t = EIdle"
  shows "reach cellar_event_init event_step (ev_go t ESleep s)"
proof -
  have r1: "reach cellar_event_init event_step (ev_go t ELoad s)"
    by (rule reach_step [OF assms(1)], rule ev_call_wait) (rule assms(3))
  have "event_step (ev_go t ELoad s) (ev_go t EFutex s)"
    using ev_load [of "ev_go t ELoad s" t] assms(2) by (simp add: ev_go_def)
  then have r2: "reach cellar_event_init event_step (ev_go t EFutex s)" using r1 by (rule reach_step [rotated])
  have "event_step (ev_go t EFutex s) (ev_go t ESleep s)"
    using ev_sleep [of "ev_go t EFutex s" t] assms(2) by (simp add: ev_go_def)
  then show ?thesis using r2 by (rule reach_step [rotated])
qed

theorem event_set_strands_waiter:
  "\<exists>s. reach cellar_event_init event_step s \<and> ev_signaled s = 1 \<and> ev_pc s 1 = ESleep \<and>
     (\<forall>t. t \<noteq> 1 \<longrightarrow> ev_pc s t \<in> {EIdle, ELoad})"
proof -
  let ?s1 = "ev_go 2 ESleep (ev_go 1 ESleep event_zero)"
  let ?s2 = "ev_go 0 ESetWake (?s1\<lparr>ev_signaled := 1\<rparr>)"
  let ?s3 = "ev_go 2 ELoad (ev_go 0 EIdle ?s2)"
  have "reach cellar_event_init event_step event_zero"
    by (rule reach_init) (simp add: cellar_event_init_def event_zero_def)
  then have "reach cellar_event_init event_step (ev_go 1 ESleep event_zero)"
    by (rule event_sleeps) (simp_all add: event_zero_def)
  then have r1: "reach cellar_event_init event_step ?s1" by (rule event_sleeps) (simp_all add: event_zero_def)
  have r2: "reach cellar_event_init event_step ?s2"
    by (rule reach_step [OF r1], rule ev_set) (simp add: event_zero_def)
  have r3: "reach cellar_event_init event_step ?s3"
    by (rule reach_step [OF r2], rule ev_wake_one) (simp_all add: ev_go_def)
  show ?thesis
    by (rule exI [of _ ?s3], intro conjI r3) (simp_all add: event_zero_def ev_go_def)
qed

text \<open>The spinlock is mutually exclusive in every reachable state.\<close>

theorem spinlock_mutual_exclusion:
  assumes "reach cellar_spinlock_init spin_step s" "sp_pc s t = SHeld" "sp_pc s u = SHeld"
  shows "t = u"
  using assms by (rule spin.at_most_one)

theorem spinlock_mutual_exclusion_witness:
  "\<exists>s. reach cellar_spinlock_init spin_step s \<and> sp_pc s 3 = SHeld \<and> (\<forall>u. sp_pc s u = SHeld \<longrightarrow> u = 3)"
proof -
  let ?s0 = "\<lparr>sp_state = 0, sp_pc = (\<lambda>_. SIdle)\<rparr>"
  let ?s1 = "?s0\<lparr>sp_state := 1, sp_pc := (sp_pc ?s0)(3 := (if sp_state ?s0 = 0 then SHeld else SIdle))\<rparr>"
  have "reach cellar_spinlock_init spin_step ?s0"
    by (rule reach_init) (simp add: cellar_spinlock_init_def)
  then have r: "reach cellar_spinlock_init spin_step ?s1"
    by (rule reach_step) (rule spin_trylock, simp)
  have h: "sp_pc ?s1 3 = SHeld" by simp
  show ?thesis using r h spinlock_mutual_exclusion [OF r _ h] by blast
qed

text \<open>C36. The semaphore conserves tokens: in every reachable state the count plus the completed
  waits is the initial value plus the posts, as 32-bit words; a wait only takes a token from a
  count that it has seen positive.\<close>

theorem semaphore_conserves_tokens:
  assumes "reach (cellar_semaphore_init initial) sem_step s"
  shows "sm_count s + of_nat (sm_waited s) = initial + of_nat (sm_posted s) \<and>
    (\<forall>t c. sm_pc s t = PCas c \<longrightarrow> 0 < sint c)"
  using sem_inv_reach [OF assms] by (simp add: sem_inv_def)

theorem semaphore_conserves_tokens_witness:
  "\<exists>s. reach (cellar_semaphore_init 2) sem_step s \<and> sm_posted s = 1 \<and>
     sm_count s + of_nat (sm_waited s) = 2 + of_nat (sm_posted s)"
proof -
  let ?s0 = "\<lparr>sm_count = 2, sm_pc = (\<lambda>_. PIdle), sm_posted = 0, sm_waited = 0\<rparr>"
  let ?s1 = "sm_go 0 PWake (?s0\<lparr>sm_count := sm_count ?s0 + 1, sm_posted := sm_posted ?s0 + 1\<rparr>)"
  have "reach (cellar_semaphore_init 2) sem_step ?s0"
    by (rule reach_init) (simp add: cellar_semaphore_init_def)
  then have r: "reach (cellar_semaphore_init 2) sem_step ?s1"
    by (rule reach_step) (rule sm_post, simp)
  have p: "sm_posted ?s1 = 1" by simp
  from semaphore_conserves_tokens [OF r] r p show ?thesis by (intro exI [of _ ?s1]) simp
qed

end
