(* ===== verification/Security.thy ===== *)
theory Security
  imports Prelude
begin

unbundle bit_operations_syntax

text \<open>
  The security model, \<^verbatim>\<open>src/security/security.c\<close>: SIDs and their mapping to Linux uids, tokens
  with impersonation, access control lists and the access check. NULL pointers are \<open>None\<close>; the
  arrays of 16 groups and 16 entries are represented by their used part.
\<close>

section \<open>State\<close>

record cellar_sid =
  sid_revision :: u8
  sid_sub_count :: u8
  sid_authority :: u32
  sid_sub :: "u32 list"  \<comment> \<open>the eight sub-authorities\<close>

record cellar_token =
  tok_user :: cellar_sid
  tok_groups :: "cellar_sid list"
  tok_privileges :: u32
  tok_impersonating :: bool
  tok_impersonated :: cellar_sid

record cellar_ace =
  ace_allow :: bool
  ace_sid :: cellar_sid
  ace_mask :: u32

type_synonym cellar_acl = "cellar_ace list"

record cellar_sd =
  sd_owner :: cellar_sid
  sd_group :: cellar_sid
  sd_dacl :: cellar_acl

definition CELLAR_ACCESS_READ :: u32 where "CELLAR_ACCESS_READ = 1"
definition CELLAR_ACCESS_WRITE :: u32 where "CELLAR_ACCESS_WRITE = 2"
definition CELLAR_ACCESS_EXECUTE :: u32 where "CELLAR_ACCESS_EXECUTE = 4"

section \<open>SIDs and tokens\<close>

definition sid_zero :: cellar_sid where
  "sid_zero = \<lparr>sid_revision = 0, sid_sub_count = 0, sid_authority = 0, sid_sub = replicate 8 0\<rparr>"

definition cellar_sid_make :: "u32 \<Rightarrow> u32 \<Rightarrow> cellar_sid" where
  "cellar_sid_make authority rid =
     sid_zero\<lparr>sid_revision := 1, sid_sub_count := 1, sid_authority := authority,
              sid_sub := (sid_sub sid_zero)[0 := rid]\<rparr>"

definition cellar_sid_eq :: "cellar_sid option \<Rightarrow> cellar_sid option \<Rightarrow> bool" where
  "cellar_sid_eq a b =
     (case (a, b) of
        (Some a, Some b) \<Rightarrow>
          if sid_revision a \<noteq> sid_revision b \<or> sid_sub_count a \<noteq> sid_sub_count b \<or>
             sid_authority a \<noteq> sid_authority b then False
          else list_all (\<lambda>i. sid_sub a ! i = sid_sub b ! i) [0..<min (unat (sid_sub_count a)) 8]
      | _ \<Rightarrow> False)"

text \<open>The last sub-authority; a count above 8 indexes past the array.\<close>

definition cellar_sid_rid :: "cellar_sid option \<Rightarrow> u32 cres" where
  "cellar_sid_rid s =
     (case s of None \<Rightarrow> Ok 0
      | Some s \<Rightarrow>
          if sid_sub_count s = 0 then Ok 0
          else if length (sid_sub s) < unat (sid_sub_count s) then Fault
          else Ok (sid_sub s ! (unat (sid_sub_count s) - 1)))"

definition cellar_sid_to_uid :: "cellar_sid option \<Rightarrow> u32 cres" where
  "cellar_sid_to_uid s =
     cbind (cellar_sid_rid s) (\<lambda>rid.
       case s of None \<Rightarrow> Ok rid
       | Some s' \<Rightarrow> if sid_authority s' = 5 \<and> rid = 18 then Ok 0 else Ok rid)"

definition cellar_token_default :: cellar_token where
  "cellar_token_default =
     \<lparr>tok_user = cellar_sid_make 5 1000, tok_groups = [cellar_sid_make 5 513], tok_privileges = 0,
      tok_impersonating = False, tok_impersonated = sid_zero\<rparr>"

definition cellar_token_impersonate ::
    "cellar_token option \<Rightarrow> cellar_sid option \<Rightarrow> cellar_token cres" where
  "cellar_token_impersonate t s =
     (case (t, s) of
        (Some t, Some s) \<Rightarrow> Ok (t\<lparr>tok_impersonated := s, tok_impersonating := True\<rparr>)
      | _ \<Rightarrow> Err CELLAR_ERR_INVALID_ARGUMENT)"

definition cellar_token_revert :: "cellar_token \<Rightarrow> cellar_token" where
  "cellar_token_revert t = t\<lparr>tok_impersonating := False, tok_impersonated := sid_zero\<rparr>"

section \<open>Access control lists\<close>

definition cellar_acl_add ::
    "cellar_acl option \<Rightarrow> bool \<Rightarrow> cellar_sid option \<Rightarrow> u32 \<Rightarrow> cellar_acl cres" where
  "cellar_acl_add acl allow sid req =
     (case (acl, sid) of
        (Some acl, Some sid) \<Rightarrow>
          if length acl \<ge> 16 then Err CELLAR_ERR_OUT_OF_MEMORY
          else Ok (acl @ [\<lparr>ace_allow = allow, ace_sid = sid, ace_mask = req\<rparr>])
      | _ \<Rightarrow> Err CELLAR_ERR_INVALID_ARGUMENT)"

definition token_has_sid :: "cellar_token \<Rightarrow> cellar_sid \<Rightarrow> bool" where
  "token_has_sid tok sid =
     (let user = (if tok_impersonating tok then tok_impersonated tok else tok_user tok) in
      cellar_sid_eq (Some user) (Some sid) \<or>
      list_ex (\<lambda>g. cellar_sid_eq (Some g) (Some sid)) (tok_groups tok))"

fun acl_loop :: "cellar_token \<Rightarrow> u32 \<Rightarrow> cellar_ace list \<Rightarrow> bool \<Rightarrow> bool" where
  "acl_loop tok req [] allowed = allowed"
| "acl_loop tok req (ace # aces) allowed =
     (if \<not> token_has_sid tok (ace_sid ace) then acl_loop tok req aces allowed
      else if ace_mask ace AND req \<noteq> req then acl_loop tok req aces allowed
      else if \<not> ace_allow ace then False
      else acl_loop tok req aces True)"

definition cellar_acl_check :: "cellar_sd option \<Rightarrow> cellar_token option \<Rightarrow> u32 \<Rightarrow> bool" where
  "cellar_acl_check sd tok req =
     (case (sd, tok) of
        (Some sd, Some tok) \<Rightarrow>
          if sd_dacl sd = [] then False else acl_loop tok req (sd_dacl sd) False
      | _ \<Rightarrow> False)"

section \<open>Facts\<close>

text \<open>An entry covers a request when it names the token and contains every requested bit.\<close>

definition covers :: "cellar_token \<Rightarrow> u32 \<Rightarrow> cellar_ace \<Rightarrow> bool" where
  "covers tok req ace \<longleftrightarrow> token_has_sid tok (ace_sid ace) \<and> ace_mask ace AND req = req"

lemma acl_loop_iff:
  "acl_loop tok req aces allowed \<longleftrightarrow>
     (\<forall>a\<in>set aces. covers tok req a \<longrightarrow> ace_allow a) \<and>
     (allowed \<or> (\<exists>a\<in>set aces. covers tok req a \<and> ace_allow a))"
  by (induction aces arbitrary: allowed) (auto simp: covers_def)

lemma revert_impersonate:
  "cellar_token_impersonate (Some t) (Some s) = Ok t' \<Longrightarrow> \<not> tok_impersonating t \<Longrightarrow>
     token_has_sid (cellar_token_revert t') sid = token_has_sid t sid"
  by (auto simp: cellar_token_impersonate_def cellar_token_revert_def token_has_sid_def Let_def)

section \<open>Properties\<close>

text \<open>C17. The access check grants a request exactly when some allow entry that names the token
  contains all requested bits and no such deny entry does; the order of the entries is
  irrelevant, and an empty list denies.\<close>

theorem acl_check_iff:
  "cellar_acl_check (Some sd) (Some tok) req \<longleftrightarrow>
     (\<exists>a\<in>set (sd_dacl sd). covers tok req a \<and> ace_allow a) \<and>
     \<not> (\<exists>a\<in>set (sd_dacl sd). covers tok req a \<and> \<not> ace_allow a)"
  by (auto simp: cellar_acl_check_def acl_loop_iff)

definition deny_write_acl :: cellar_acl where
  "deny_write_acl =
     [\<lparr>ace_allow = False, ace_sid = cellar_sid_make 5 1000, ace_mask = CELLAR_ACCESS_WRITE\<rparr>,
      \<lparr>ace_allow = True, ace_sid = cellar_sid_make 5 1000,
       ace_mask = CELLAR_ACCESS_READ OR CELLAR_ACCESS_WRITE\<rparr>]"

text \<open>Denials do not always win: with an entry that denies writing to the user in front of one
  that allows reading and writing, a request to write is refused but a request to read and write
  is granted, because a deny entry counts only if it contains every requested bit.\<close>

theorem acl_partial_deny_ignored:
  "\<not> cellar_acl_check (Some \<lparr>sd_owner = sid_zero, sd_group = sid_zero, sd_dacl = deny_write_acl\<rparr>)
       (Some cellar_token_default) CELLAR_ACCESS_WRITE \<and>
   cellar_acl_check (Some \<lparr>sd_owner = sid_zero, sd_group = sid_zero, sd_dacl = deny_write_acl\<rparr>)
       (Some cellar_token_default) (CELLAR_ACCESS_READ OR CELLAR_ACCESS_WRITE)"
  by code_simp

end
