(* ===== verification/Text.thy ===== *)
theory Text
  imports Util
begin

text \<open>
  The part of \<^verbatim>\<open><stdio.h>\<close>, \<^verbatim>\<open><stdlib.h>\<close> and \<^verbatim>\<open><string.h>\<close> that the text formats of the
  program use: decimal and hexadecimal printing and scanning, splitting into lines and tokens,
  trimming. The round trips between printing and scanning are proved here once.
\<close>

section \<open>Digits\<close>

definition digit_char :: "nat \<Rightarrow> char" where
  "digit_char n = (if n < 10 then char_of (48 + n) else char_of (87 + n))"

definition upper_digit_char :: "nat \<Rightarrow> char" where
  "upper_digit_char n = (if n < 10 then char_of (48 + n) else char_of (55 + n))"

definition digit_val :: "char \<Rightarrow> nat option" where
  "digit_val c =
     (let n = (of_char c :: nat) in
      if 48 \<le> n \<and> n \<le> 57 then Some (n - 48)
      else if 97 \<le> n \<and> n \<le> 122 then Some (n - 87)
      else if 65 \<le> n \<and> n \<le> 90 then Some (n - 55) else None)"

definition is_digit :: "char \<Rightarrow> bool" where
  "is_digit c \<longleftrightarrow> (let n = (of_char c :: nat) in 48 \<le> n \<and> n \<le> 57)"

definition is_space :: "char \<Rightarrow> bool" where
  "is_space c \<longleftrightarrow> (let n = (of_char c :: nat) in n = 32 \<or> (9 \<le> n \<and> n \<le> 13))"

lemma of_char_char_of_small: "n < 256 \<Longrightarrow> (of_char (char_of n :: char) :: nat) = n"
  by simp

lemma digit_val_char: "n < 16 \<Longrightarrow> digit_val (digit_char n) = Some n"
  by (simp add: digit_val_def digit_char_def Let_def)

lemma digit_val_upper: "n < 16 \<Longrightarrow> digit_val (upper_digit_char n) = Some n"
  by (simp add: digit_val_def upper_digit_char_def Let_def)

lemma is_digit_char: "n < 10 \<Longrightarrow> is_digit (digit_char n)"
  by (simp add: is_digit_def digit_char_def Let_def)

lemma digit_not_space: "is_digit c \<Longrightarrow> \<not> is_space c"
  by (auto simp: is_digit_def is_space_def Let_def)

section \<open>Printing numbers\<close>

text \<open>The digits of a number in base \<open>b\<close>, as \<^verbatim>\<open>%u\<close> (base 10) prints them.\<close>

function digits :: "nat \<Rightarrow> nat \<Rightarrow> nat list" where
  "digits b n = (if n < b \<or> b < 2 then [n] else digits b (n div b) @ [n mod b])"
  by pat_completeness auto
termination
  by (relation "measure snd") (auto intro: div_less_dividend)

declare digits.simps [simp del]

definition dec :: "nat \<Rightarrow> string" where
  "dec n = map digit_char (digits 10 n)"

definition pad_left :: "nat \<Rightarrow> char \<Rightarrow> string \<Rightarrow> string" where
  "pad_left w c s = replicate (w - length s) c @ s"

definition show_int :: "int \<Rightarrow> string" where
  "show_int i = (if i < 0 then CHR ''-'' # dec (nat (- i)) else dec (nat i))"

text \<open>\<^verbatim>\<open>%0wd\<close>: the padding goes between the sign and the digits.\<close>

definition show_int_pad :: "nat \<Rightarrow> int \<Rightarrow> string" where
  "show_int_pad w i =
     (if i < 0 then CHR ''-'' # pad_left (w - 1) (CHR ''0'') (dec (nat (- i)))
      else pad_left w (CHR ''0'') (dec (nat i)))"

definition hex_pad :: "nat \<Rightarrow> nat \<Rightarrow> string" where
  "hex_pad w n = pad_left w (CHR ''0'') (map digit_char (digits 16 n))"

definition hex_pad_upper :: "nat \<Rightarrow> nat \<Rightarrow> string" where
  "hex_pad_upper w n = pad_left w (CHR ''0'') (map upper_digit_char (digits 16 n))"

section \<open>Scanning numbers\<close>

definition undigits :: "nat \<Rightarrow> nat list \<Rightarrow> nat" where
  "undigits b ds = foldl (\<lambda>acc d. acc * b + d) 0 ds"

lemma undigits_snoc: "undigits b (ds @ [d]) = undigits b ds * b + d"
  by (simp add: undigits_def)

lemma undigits_digits: "2 \<le> b \<Longrightarrow> undigits b (digits b n) = n"
proof (induction b n rule: digits.induct)
  case (1 b n)
  show ?case
  proof (cases "n < b")
    case True
    then show ?thesis by (subst digits.simps) (simp add: undigits_def)
  next
    case False
    then show ?thesis using 1 by (subst digits.simps) (simp add: undigits_snoc)
  qed
qed

lemma digits_less: "2 \<le> b \<Longrightarrow> d \<in> set (digits b n) \<Longrightarrow> d < b"
proof (induction b n rule: digits.induct)
  case (1 b n)
  show ?case
  proof (cases "n < b")
    case True
    then show ?thesis using 1 by (subst (asm) (2) digits.simps) simp
  next
    case False
    then have "d \<in> set (digits b (n div b)) \<or> d = n mod b"
      using 1(3) 1(2) by (subst (asm) digits.simps) auto
    then show ?thesis using 1 False by auto
  qed
qed

lemma digits_nonempty: "digits b n \<noteq> []"
  by (subst digits.simps) simp

text \<open>\<^verbatim>\<open>atoi\<close>: leading white space, a sign, and the longest run of digits; the value is read as a
  64-bit \<^verbatim>\<open>long\<close>, where it saturates, and then truncated to a 32-bit \<^verbatim>\<open>int\<close>.\<close>

definition int32 :: "int \<Rightarrow> bool" where
  "int32 i \<longleftrightarrow> - (2 ^ 31) \<le> i \<and> i < 2 ^ 31"

definition scan_nat :: "string \<Rightarrow> nat \<times> string" where
  "scan_nat s = (undigits 10 (map (\<lambda>c. the (digit_val c)) (takeWhile is_digit s)), dropWhile is_digit s)"

definition scan_long :: "string \<Rightarrow> int" where
  "scan_long s =
     (let n = (case dropWhile is_space s of
                 [] \<Rightarrow> 0
               | c # r \<Rightarrow>
                   if c = CHR ''-'' then - int (fst (scan_nat r))
                   else if c = CHR ''+'' then int (fst (scan_nat r))
                   else int (fst (scan_nat (c # r))))
      in max (- (2 ^ 63)) (min (2 ^ 63 - 1) n))"

definition scan_int :: "string \<Rightarrow> int" where
  "scan_int s = (scan_long s + 2 ^ 31) mod 2 ^ 32 - 2 ^ 31"

lemma scan_int_int32: "int32 (scan_int s)"
proof -
  have "0 \<le> (scan_long s + 2 ^ 31) mod 2 ^ 32" "(scan_long s + 2 ^ 31) mod 2 ^ 32 < 2 ^ 32"
    by (rule pos_mod_sign pos_mod_bound; simp)+
  then show ?thesis by (simp add: int32_def scan_int_def)
qed

lemma dec_digits: "c \<in> set (dec n) \<Longrightarrow> is_digit c"
  using digits_less [of 10 _ n] by (auto simp: dec_def intro: is_digit_char)

lemma dec_nonempty: "dec n \<noteq> []"
  by (simp add: dec_def digits_nonempty)

lemma scan_nat_dec: "(r = [] \<or> \<not> is_digit (hd r)) \<Longrightarrow> scan_nat (dec n @ r) = (n, r)"
proof -
  assume r: "r = [] \<or> \<not> is_digit (hd r)"
  have t: "takeWhile is_digit (dec n @ r) = dec n" "dropWhile is_digit (dec n @ r) = r"
    using r dec_digits [of _ n]
    by (cases r; auto simp: takeWhile_append dropWhile_append takeWhile_eq_all_conv)+
  have "map (\<lambda>c. the (digit_val c)) (dec n) = digits 10 n"
    using digits_less [of 10 _ n] digit_val_char by (fastforce simp: dec_def intro!: map_idI)
  then show ?thesis using undigits_digits [of 10 n] by (simp add: scan_nat_def t)
qed

lemma scan_long_show:
  assumes "int32 i"
  shows "scan_long (show_int i) = i"
proof -
  have d: "\<exists>c cs. dec n = c # cs \<and> is_digit c" for n
    using dec_nonempty [of n] dec_digits [of _ n] by (cases "dec n") auto
  have sgn: "is_digit c \<Longrightarrow> c \<noteq> CHR ''-'' \<and> c \<noteq> CHR ''+''" for c
    by (auto simp: is_digit_def)
  have minus: "\<not> is_space (CHR ''-'')" by (simp add: is_space_def)
  have i: "- (2 ^ 63) \<le> i" "i \<le> 2 ^ 63 - 1" using assms by (simp_all add: int32_def)
  show ?thesis
  proof (cases "i < 0")
    case True
    then show ?thesis
      using i scan_nat_dec [of "[]" "nat (- i)"] minus by (simp add: show_int_def scan_long_def)
  next
    case False
    obtain c cs where c: "dec (nat i) = c # cs" "is_digit c" using d by blast
    then show ?thesis
      using i False scan_nat_dec [of "[]" "nat i"] sgn digit_not_space
      by (simp add: show_int_def scan_long_def)
  qed
qed

lemma scan_int_show: "int32 i \<Longrightarrow> scan_int (show_int i) = i"
  by (simp add: scan_int_def scan_long_show int32_def mod_pos_pos_trivial)

lemma length_digits: "0 < w \<Longrightarrow> n < b ^ w \<Longrightarrow> 2 \<le> b \<Longrightarrow> length (digits b n) \<le> w"
proof (induction w arbitrary: n)
  case (Suc w)
  show ?case
  proof (cases "n < b")
    case True
    then show ?thesis by (subst digits.simps) simp
  next
    case False
    then have "0 < w" using Suc.prems by (cases w) auto
    moreover have "n div b < b ^ w" using Suc.prems by (simp add: less_mult_imp_div_less mult.commute)
    ultimately have "length (digits b (n div b)) \<le> w" using Suc by blast
    then show ?thesis using False by (subst digits.simps) auto
  qed
qed simp

section \<open>Lines and tokens\<close>

text \<open>Splitting at every occurrence of a character; the last piece is what follows the last
  occurrence.\<close>

fun split_on :: "char \<Rightarrow> string \<Rightarrow> string list" where
  "split_on c [] = [[]]"
| "split_on c (x # s) =
     (if x = c then [] # split_on c s
      else (case split_on c s of w # ws \<Rightarrow> (x # w) # ws | [] \<Rightarrow> [[x]]))"

lemma split_on_nonempty: "split_on c s \<noteq> []"
  by (cases s) (auto split: list.split)

lemma split_on_append: "c \<notin> set a \<Longrightarrow> split_on c (a @ c # b) = a # split_on c b"
  by (induction a) (auto split: list.split)

lemma split_on_none: "c \<notin> set a \<Longrightarrow> split_on c a = [a]"
  by (induction a) (auto split: list.split)

definition NL :: char where "NL = CHR 0x0A"
definition CR :: char where "CR = CHR 0x0D"
definition TAB :: char where "TAB = CHR 0x09"

text \<open>The lines that a \<^verbatim>\<open>fgets\<close> loop sees, without their newlines: a final piece after the last
  newline counts only if it is not empty.\<close>

definition lines_of :: "string \<Rightarrow> string list" where
  "lines_of s = (let ws = split_on NL s in if last ws = [] then butlast ws else ws)"

definition unlines :: "string list \<Rightarrow> string" where
  "unlines ls = concat (map (\<lambda>l. l @ [NL]) ls)"

lemma split_on_unlines: "(\<forall>l\<in>set ls. NL \<notin> set l) \<Longrightarrow> split_on NL (unlines ls) = ls @ [[]]"
  by (induction ls) (simp_all add: unlines_def split_on_append)

lemma lines_of_unlines: "(\<forall>l\<in>set ls. NL \<notin> set l) \<Longrightarrow> lines_of (unlines ls) = ls"
  by (simp add: lines_of_def split_on_unlines)

text \<open>\<^verbatim>\<open>strtok\<close>: the non-empty pieces between separators.\<close>

definition tokens :: "char \<Rightarrow> string \<Rightarrow> string list" where
  "tokens c s = filter (\<lambda>w. w \<noteq> []) (split_on c s)"

definition ltrim :: "string \<Rightarrow> string" where
  "ltrim s = dropWhile (\<lambda>c. c = CHR '' '' \<or> c = TAB) s"

definition rtrim_by :: "(char \<Rightarrow> bool) \<Rightarrow> string \<Rightarrow> string" where
  "rtrim_by P s = rev (dropWhile P (rev s))"

lemma rtrim_by_id: "(s = [] \<or> \<not> P (last s)) \<Longrightarrow> rtrim_by P s = s"
  by (cases s rule: rev_cases) (auto simp: rtrim_by_def)

end
