(* ===== verification/CodePage.thy ===== *)
theory CodePage
  imports Text
begin

unbundle bit_operations_syntax

text \<open>
  Locale, formatting and code pages, \<^verbatim>\<open>src/locale/locale.c\<close>. The formatted text of a double
  (\<^verbatim>\<open>snprintf(raw, 64, "%.2f", n)\<close>) is an argument of the number formatter. Output buffers are
  represented by what is written before the terminator; the 80-byte local buffer of the number
  formatter is checked, and \<open>Fault\<close> when it overflows.
\<close>

section \<open>The process locale\<close>

definition CELLAR_CP_ACP :: u32 where "CELLAR_CP_ACP = 0"
definition CELLAR_CP_OEMCP :: u32 where "CELLAR_CP_OEMCP = 1"
definition CELLAR_CP_UTF8 :: u32 where "CELLAR_CP_UTF8 = 65001"
definition CELLAR_CP_1252 :: u32 where "CELLAR_CP_1252 = 1252"
definition CELLAR_CP_437 :: u32 where "CELLAR_CP_437 = 437"

lemmas cp_consts = CELLAR_CP_ACP_def CELLAR_CP_OEMCP_def CELLAR_CP_UTF8_def CELLAR_CP_1252_def
  CELLAR_CP_437_def

record cellar_locale =
  loc_lcid :: u32
  loc_acp :: u32
  loc_oemcp :: u32
  loc_language :: string
  loc_country :: string
  loc_date_fmt :: string
  loc_time_fmt :: string
  loc_decimal :: string
  loc_thousand :: string
  loc_keyboard :: string

definition cellar_locale_english_us :: cellar_locale where
  "cellar_locale_english_us =
     \<lparr>loc_lcid = 0x0409, loc_acp = CELLAR_CP_1252, loc_oemcp = CELLAR_CP_437,
      loc_language = ''en'', loc_country = ''US'', loc_date_fmt = ''MM/dd/yyyy'',
      loc_time_fmt = ''HH:mm:ss'', loc_decimal = ''.'', loc_thousand = '','',
      loc_keyboard = ''us''\<rparr>"

text \<open>\<open>None\<close>: not set yet (\<^verbatim>\<open>g_have == 0\<close>).\<close>

type_synonym locale_state = "cellar_locale option"

definition ensure :: "locale_state \<Rightarrow> locale_state" where
  "ensure g = (case g of None \<Rightarrow> Some cellar_locale_english_us | Some l \<Rightarrow> Some l)"

definition cellar_locale_set :: "cellar_locale option \<Rightarrow> locale_state \<Rightarrow> locale_state" where
  "cellar_locale_set l g = (case l of None \<Rightarrow> g | Some l \<Rightarrow> Some l)"

definition cellar_locale_get :: "locale_state \<Rightarrow> cellar_locale" where
  "cellar_locale_get g = the (ensure g)"

section \<open>Formatting\<close>

record tm =
  tm_sec :: int
  tm_min :: int
  tm_hour :: int
  tm_mday :: int
  tm_mon :: int
  tm_year :: int

definition cellar_locale_format_date :: "tm option \<Rightarrow> nat \<Rightarrow> string cres" where
  "cellar_locale_format_date t cap =
     (case t of None \<Rightarrow> Err CELLAR_ERR_INVALID_ARGUMENT
      | Some t \<Rightarrow>
          if cap = 0 then Err CELLAR_ERR_INVALID_ARGUMENT
          else Ok (snprintf_s cap (show_int_pad 2 (tm_mon t + 1) @ ''/'' @ show_int_pad 2 (tm_mday t) @
                 ''/'' @ show_int_pad 4 (tm_year t + 1900))))"

definition cellar_locale_format_time :: "tm option \<Rightarrow> nat \<Rightarrow> string cres" where
  "cellar_locale_format_time t cap =
     (case t of None \<Rightarrow> Err CELLAR_ERR_INVALID_ARGUMENT
      | Some t \<Rightarrow>
          if cap = 0 then Err CELLAR_ERR_INVALID_ARGUMENT
          else Ok (snprintf_s cap (show_int_pad 2 (tm_hour t) @ '':'' @ show_int_pad 2 (tm_min t) @
                 '':'' @ show_int_pad 2 (tm_sec t))))"

text \<open>The grouping loop: a separator follows a digit when the number of digits left is a
  positive multiple of three.\<close>

fun group_digits :: "char \<Rightarrow> string \<Rightarrow> string" where
  "group_digits sep [] = []"
| "group_digits sep (d # ds) =
     (if length ds mod 3 = 0 \<and> ds \<noteq> [] then d # sep # group_digits sep ds
      else d # group_digits sep ds)"

definition first_or :: "string \<Rightarrow> char \<Rightarrow> char" where
  "first_or s d = (case s of [] \<Rightarrow> d | c # _ \<Rightarrow> c)"

text \<open>The text built in \<^verbatim>\<open>grouped\<close> from the printed number \<open>raw\<close>.\<close>

definition grouped_text :: "cellar_locale \<Rightarrow> string \<Rightarrow> string" where
  "grouped_text l raw =
     (let (whole, frac) = (case split_at CHR ''.'' raw of None \<Rightarrow> (raw, None) | Some (a, b) \<Rightarrow> (a, Some b));
          (sign, ds) = (case whole of c # r \<Rightarrow> if c = CHR ''-'' then ([c], r) else ([], whole) | [] \<Rightarrow> ([], []))
      in sign @ group_digits (first_or (loc_thousand l) CHR '','') ds @
         (case frac of None \<Rightarrow> [] | Some f \<Rightarrow> first_or (loc_decimal l) CHR ''.'' # f))"

definition cellar_locale_format_number ::
    "locale_state \<Rightarrow> string \<Rightarrow> bool \<Rightarrow> nat \<Rightarrow> string cres \<times> locale_state" where
  "cellar_locale_format_number g printed out cap =
     (let g' = ensure g; raw = snprintf_s 64 printed in
      if \<not> out \<or> cap = 0 then (Err CELLAR_ERR_INVALID_ARGUMENT, g')
      else
        let grouped = grouped_text (the g') raw in
        if 80 < length grouped + 1 then (Fault, g')
        else (Ok (snprintf_s cap grouped), g'))"

section \<open>Code pages\<close>

definition k_cp1252_80 :: "u16 list" where
  "k_cp1252_80 =
    [0x20AC, 0x0081, 0x201A, 0x0192, 0x201E, 0x2026, 0x2020, 0x2021,
     0x02C6, 0x2030, 0x0160, 0x2039, 0x0152, 0x008D, 0x017D, 0x008F,
     0x0090, 0x2018, 0x2019, 0x201C, 0x201D, 0x2022, 0x2013, 0x2014,
     0x02DC, 0x2122, 0x0161, 0x203A, 0x0153, 0x009D, 0x017E, 0x0178]"

text \<open>The bytes of one code point below \<open>2 ^ 16\<close>.\<close>

definition utf8_bytes :: "u32 \<Rightarrow> bytes" where
  "utf8_bytes cp =
     (if cp < 0x80 then [ucast cp]
      else if cp < 0x800 then [ucast (0xC0 OR drop_bit 6 cp), ucast (0x80 OR (cp AND 0x3F))]
      else [ucast (0xE0 OR drop_bit 12 cp), ucast (0x80 OR (drop_bit 6 cp AND 0x3F)),
            ucast (0x80 OR (cp AND 0x3F))])"

text \<open>\<open>None\<close> is the result \<open>cap\<close>: no room for the bytes and the terminator.\<close>

definition utf8_put :: "bytes \<Rightarrow> nat \<Rightarrow> u32 \<Rightarrow> bytes option" where
  "utf8_put out cap cp =
     (let b = utf8_bytes cp in if cap \<le> length out + length b then None else Some (out @ b))"

definition map_cp :: "cellar_locale \<Rightarrow> u32 \<Rightarrow> u8 \<Rightarrow> u32" where
  "map_cp l cp b =
     (let cp1 = (if cp = CELLAR_CP_ACP then loc_acp l else cp);
          cp2 = (if cp1 = CELLAR_CP_OEMCP then loc_oemcp l else cp1) in
      if cp2 = CELLAR_CP_UTF8 then ucast b
      else if cp2 = CELLAR_CP_1252 then
        if 0x80 \<le> b \<and> b \<le> 0x9F then ucast (k_cp1252_80 ! unat (b - 0x80)) else ucast b
      else ucast b)"

fun cp_loop :: "cellar_locale \<Rightarrow> u32 \<Rightarrow> nat \<Rightarrow> bytes \<Rightarrow> bytes \<Rightarrow> bytes option" where
  "cp_loop l cp cap [] out = Some out"
| "cp_loop l cp cap (b # bs) out =
     (case utf8_put out cap (map_cp l cp b) of None \<Rightarrow> None | Some o' \<Rightarrow> cp_loop l cp cap bs o')"

text \<open>\<open>None\<close> is \<open>-1\<close>; otherwise the bytes before the terminator, whose number is returned.\<close>

definition cellar_cp_to_utf8 :: "cellar_locale \<Rightarrow> u32 \<Rightarrow> bytes option \<Rightarrow> nat \<Rightarrow> bytes option" where
  "cellar_cp_to_utf8 l cp inp cap =
     (case inp of None \<Rightarrow> None
      | Some bs \<Rightarrow>
          if cap = 0 then None
          else if cp = CELLAR_CP_UTF8 then Some (take (cap - 1) bs)
          else cp_loop l cp cap bs [])"

definition peek :: "bytes \<Rightarrow> nat \<Rightarrow> u8" where
  "peek s k = (if k < length s then s ! k else 0)"

text \<open>One step of the decoder at the non-empty rest of the input: the byte produced and the number
  of input bytes consumed.\<close>

definition from_unicode :: "u32 \<Rightarrow> u32 \<Rightarrow> u8" where
  "from_unicode cp u =
     (if cp = CELLAR_CP_1252 \<and> 0x80 \<le> u \<and> u \<le> 0xFF then ucast u
      else if cp = CELLAR_CP_1252 then
        (case List.find (\<lambda>k. k_cp1252_80 ! k = ucast u) [0..<32] of
           Some k \<Rightarrow> of_nat (0x80 + k) | None \<Rightarrow> 63)
      else if u < 0x100 then ucast u else 63)"

definition decode_step :: "u32 \<Rightarrow> bytes \<Rightarrow> u8 \<times> nat" where
  "decode_step cp s =
     (let c = peek s 0 in
      if c < 0x80 then (c, 1)
      else if c AND 0xE0 = 0xC0 \<and> peek s 1 \<noteq> 0 then
        (from_unicode cp (push_bit 6 (ucast (c AND 0x1F)) OR (ucast (peek s 1) AND 0x3F)), 2)
      else if c AND 0xF0 = 0xE0 \<and> peek s 1 \<noteq> 0 \<and> peek s 2 \<noteq> 0 then
        (from_unicode cp (push_bit 12 (ucast (c AND 0x0F)) OR push_bit 6 (ucast (peek s 1 AND 0x3F)) OR
           ucast (peek s 2 AND 0x3F)), 3)
      else (63, 1))"

lemma decode_step_pos: "0 < snd (decode_step cp s)"
  by (auto simp: decode_step_def Let_def)

function decode_loop :: "u32 \<Rightarrow> nat \<Rightarrow> bytes \<Rightarrow> bytes \<Rightarrow> bytes" where
  "decode_loop cp cap s out =
     (if s = [] \<or> cap \<le> length out + 1 then out
      else let (b, adv) = decode_step cp s in decode_loop cp cap (drop adv s) (out @ [b]))"
  by pat_completeness auto
termination
proof (relation "measure (\<lambda>(cp, cap, s, out). length s)", goal_cases)
  case (2 cp cap s out x b adv)
  then have "0 < adv" using decode_step_pos [of cp s] by (metis snd_conv)
  with 2 show ?case by simp
qed simp

declare decode_loop.simps [simp del]

text \<open>The input is NUL-terminated; \<open>inp\<close> is its content.\<close>

definition cellar_utf8_to_cp :: "cellar_locale \<Rightarrow> u32 \<Rightarrow> bytes option \<Rightarrow> nat \<Rightarrow> bytes option" where
  "cellar_utf8_to_cp l cp inp cap =
     (case inp of None \<Rightarrow> None
      | Some s \<Rightarrow>
          if cap = 0 then None
          else
            let cp1 = (if cp = CELLAR_CP_ACP then loc_acp l else cp) in
            if cp1 = CELLAR_CP_UTF8 then Some (take (if length s < cap then length s else cap - 1) s)
            else Some (decode_loop cp1 cap s []))"

section \<open>Facts\<close>

text \<open>The code point of a byte in code page 1252.\<close>

definition cp1252 :: "u8 \<Rightarrow> u32" where
  "cp1252 b = (if 0x80 \<le> b \<and> b \<le> 0x9F then ucast (k_cp1252_80 ! unat (b - 0x80)) else ucast b)"

lemma map_cp_1252: "map_cp l CELLAR_CP_1252 b = cp1252 b"
  by (simp add: map_cp_def cp1252_def cp_consts)

text \<open>Every byte survives one encoding and decoding step, checked byte by byte.\<close>

definition step_ok :: "u8 \<Rightarrow> bool" where
  "step_ok b \<longleftrightarrow>
     (let e = utf8_bytes (cp1252 b) in
      0 \<notin> set e \<and> length e \<le> 3 \<and> e \<noteq> [] \<and> decode_step CELLAR_CP_1252 (e @ [1, 1]) = (b, length e))"

lemma ascii_steps_ok: "b \<noteq> 0 \<Longrightarrow> b < 0x80 \<Longrightarrow> step_ok b"
proof -
  assume b: "b \<noteq> 0" "b < 0x80"
  then have lt: "unat b < 128" by (simp add: word_less_nat_alt)
  then have "unat (ucast b :: u32) = unat b" by (simp add: unsigned_ucast_eq take_bit_nat_eq_self)
  with lt have "(ucast b :: u32) < 0x80" by (simp add: word_less_nat_alt)
  moreover have "(ucast (ucast b :: u32) :: u8) = b" by transfer simp
  moreover have "\<not> 0x80 \<le> b" using b by simp
  ultimately show ?thesis
    using b by (simp add: step_ok_def cp1252_def utf8_bytes_def decode_step_def peek_def Let_def)
qed

lemma c1_steps_ok: "list_all step_ok (map of_nat [128..<160])"
  by code_simp

lemma latin1_steps_ok: "list_all step_ok (map of_nat [160..<192])"
  by code_simp

lemma latin2_steps_ok: "list_all step_ok (map of_nat [192..<224])"
  by code_simp

lemma latin3_steps_ok: "list_all step_ok (map of_nat [224..<256])"
  by code_simp

lemmas high_steps_ok = c1_steps_ok latin1_steps_ok latin2_steps_ok latin3_steps_ok

lemma step_ok_byte: "b \<noteq> 0 \<Longrightarrow> step_ok b"
proof (cases "b < 0x80")
  case False
  then have "unat b \<in> {128..<160} \<union> ({160..<192} \<union> ({192..<224} \<union> {224..<256}))"
    using unsigned_less [of b] by (auto simp: word_less_nat_alt)
  then have "b \<in> set (map of_nat [128..<160]) \<union> (set (map of_nat [160..<192]) \<union>
      (set (map of_nat [192..<224]) \<union> set (map of_nat [224..<256])))"
    unfolding set_map set_upt image_Un [symmetric] by (rule image_eqI [rotated]) simp
  then show ?thesis using high_steps_ok by (auto simp only: list_all_iff)
qed (rule ascii_steps_ok)

text \<open>A decoding step looks only at the bytes it consumes.\<close>

lemma decode_step_local:
  assumes "decode_step cp (e @ x) = (b, length e)" "0 \<notin> set e" "e \<noteq> []"
    "length e = 1 \<longrightarrow> hd e < 0x80" "length e \<le> 3"
  shows "decode_step cp (e @ y) = (b, length e)"
proof -
  obtain a f where e: "e = a # f" using assms(3) by (cases e) auto
  consider "f = []" | b1 where "f = [b1]" | b1 b2 where "f = [b1, b2]"
    using assms(5) by (cases f rule: list.exhaust; cases "tl f"; cases "tl (tl f)") (auto simp: e)
  then show ?thesis
  proof cases
    case 1
    then show ?thesis using assms by (auto simp: e decode_step_def peek_def Let_def split: if_splits)
  next
    case 2
    then show ?thesis using assms
      by (auto simp: e decode_step_def peek_def Let_def split: if_splits)
  next
    case 3
    then show ?thesis using assms
      by (auto simp: e decode_step_def peek_def Let_def numeral_2_eq_2 split: if_splits)
  qed
qed

definition enc1252 :: "u8 \<Rightarrow> bytes" where
  "enc1252 b = utf8_bytes (cp1252 b)"

lemma utf8_single: "length (utf8_bytes cp) = 1 \<Longrightarrow> hd (utf8_bytes cp) < 0x80"
proof -
  assume "length (utf8_bytes cp) = 1"
  then have c: "cp < 0x80" by (auto simp: utf8_bytes_def split: if_splits)
  then have "unat cp < 128" by (simp add: word_less_nat_alt)
  moreover have "unat (ucast cp :: u8) = unat cp mod 2 ^ 8"
    by (simp only: unsigned_ucast_eq unsigned_take_bit_eq) (simp add: take_bit_eq_mod)
  ultimately have "unat (ucast cp :: u8) = unat cp" by simp
  then show ?thesis using c \<open>unat cp < 128\<close> by (simp add: utf8_bytes_def word_less_nat_alt)
qed

lemma decode_enc:
  assumes "b \<noteq> 0"
  shows "decode_step CELLAR_CP_1252 (enc1252 b @ y) = (b, length (enc1252 b))" "enc1252 b \<noteq> []"
proof -
  have s: "step_ok b" using assms by (rule step_ok_byte)
  then show "enc1252 b \<noteq> []" by (simp add: step_ok_def Let_def enc1252_def)
  show "decode_step CELLAR_CP_1252 (enc1252 b @ y) = (b, length (enc1252 b))"
    by (rule decode_step_local [where x = "[1, 1]"])
      (use s utf8_single [of "cp1252 b"] in \<open>auto simp: step_ok_def Let_def enc1252_def\<close>)
qed

lemma cp_loop_1252:
  "cp_loop l CELLAR_CP_1252 cap bs out = Some u \<Longrightarrow> u = out @ concat (map enc1252 bs)"
proof (induction bs arbitrary: out)
  case (Cons b bs)
  then have "cp_loop l CELLAR_CP_1252 cap bs (out @ enc1252 b) = Some u"
    by (auto simp: utf8_put_def Let_def map_cp_1252 enc1252_def split: if_splits)
  from Cons.IH [OF this] show ?case by simp
qed simp

lemma decode_loop_enc:
  "0 \<notin> set bs \<Longrightarrow> length out + length bs < cap \<Longrightarrow>
     decode_loop CELLAR_CP_1252 cap (concat (map enc1252 bs)) out = out @ bs"
proof (induction bs arbitrary: out)
  case Nil
  then show ?case by (subst decode_loop.simps) simp
next
  case (Cons b bs)
  then have b: "b \<noteq> 0" by auto
  have "decode_loop CELLAR_CP_1252 cap (concat (map enc1252 (b # bs))) out =
      decode_loop CELLAR_CP_1252 cap (concat (map enc1252 bs)) (out @ [b])"
    using Cons.prems decode_enc [OF b] by (subst decode_loop.simps) simp
  also have "\<dots> = (out @ [b]) @ bs" using Cons by simp
  finally show ?case by simp
qed

lemma div3_pred: "n mod 3 = 0 \<Longrightarrow> 0 < n \<Longrightarrow> (n - 1) div 3 + 1 = n div 3" for n :: nat
proof -
  assume n: "n mod 3 = 0" "0 < n"
  then obtain k where k: "n = 3 * k" by (metis mod_0_imp_dvd dvd_def)
  with n have "n - 1 = 2 + (k - 1) * 3" "0 < k" by auto
  then show ?thesis using k by (simp only: div_mult_self1) simp
qed

lemma div3_pred_same: "n mod 3 \<noteq> 0 \<Longrightarrow> (n - 1) div 3 = n div 3" for n :: nat
proof -
  assume n: "n mod 3 \<noteq> 0"
  have e: "n = n mod 3 + n div 3 * 3" "n mod 3 < 3" by simp_all
  then have "n - 1 = (n mod 3 - 1) + n div 3 * 3" using n by linarith
  moreover have "(n mod 3 - 1) div 3 = 0" using e(2) by simp
  ultimately show ?thesis by (simp only: div_mult_self1)
qed

lemma group_digits_length: "length (group_digits sep ds) = length ds + (length ds - 1) div 3"
proof (induction ds)
  case (Cons d ds)
  show ?case
  proof (cases "length ds mod 3 = 0 \<and> ds \<noteq> []")
    case True
    then show ?thesis using Cons.IH div3_pred [of "length ds"] by simp
  next
    case False
    then have "(length ds - 1) div 3 = length ds div 3" using div3_pred_same [of "length ds"] by auto
    moreover have "group_digits sep (d # ds) = d # group_digits sep ds" using False by auto
    ultimately show ?thesis using Cons.IH by simp
  qed
qed simp

lemma group_digits_filter: "sep \<notin> set ds \<Longrightarrow> filter (\<lambda>c. c \<noteq> sep) (group_digits sep ds) = ds"
  by (induction ds) auto

text \<open>What the conversion prints, as far as it is kept: a sign, digits, and nothing or a point with
  what follows it.\<close>

lemma grouped_text_printed:
  assumes "sign = [] \<or> sign = ''-''" "list_all is_digit ds" "rest = [] \<or> rest = CHR ''.'' # f"
  shows "grouped_text l (sign @ ds @ rest) =
    sign @ group_digits (first_or (loc_thousand l) CHR '','') ds @
      (if rest = [] then [] else first_or (loc_decimal l) CHR ''.'' # f)"
proof -
  have d: "CHR ''.'' \<notin> set (sign @ ds)" using assms(1,2) by (auto simp: list_all_iff is_digit_def)
  have h: "case ds of c # r \<Rightarrow> c \<noteq> CHR ''-'' | [] \<Rightarrow> True" using assms(2) by (cases ds) (auto simp: is_digit_def)
  have w: "(case sign @ ds of c # r \<Rightarrow> if c = CHR ''-'' then ([c], r) else ([], sign @ ds) | [] \<Rightarrow> ([], [])) = (sign, ds)"
    using assms(1) h by (cases ds) auto
  show ?thesis
  proof (cases "rest = []")
    case True
    then have "split_at CHR ''.'' (sign @ ds @ rest) = None" using d by (simp add: split_at_None_iff)
    then show ?thesis using True w by (simp add: grouped_text_def)
  next
    case False
    then have "split_at CHR ''.'' (sign @ ds @ rest) = Some (sign @ ds, f)"
      using d assms(3) split_at_append [of "CHR ''.''" "sign @ ds" f] by simp
    then show ?thesis using False w by (simp add: grouped_text_def)
  qed
qed

lemma grouped_digits_bound:
  fixes n g :: nat
  assumes "g \<le> 1"
  defines "d \<equiv> min n (63 - g)" and "r \<equiv> min 3 (63 - g - n)"
  shows "80 < g + (d + (d - 1) div 3) + r + 1 \<longleftrightarrow> 58 \<le> n"
proof -
  have "3 * ((d - 1) div 3) \<le> d - 1" "d - 1 < 3 * ((d - 1) div 3) + 3" by linarith+
  then show ?thesis using assms(1) unfolding d_def r_def by linarith
qed

section \<open>Properties\<close>

text \<open>C37. Text in code page 1252 survives the conversion to UTF-8 and back: every string of non-NUL
  bytes, including the whole C1 range of the table, is restored byte for byte.\<close>

theorem cp1252_roundtrip:
  assumes "cellar_cp_to_utf8 l CELLAR_CP_1252 (Some bs) cap = Some u"
    and "0 \<notin> set bs" "length bs < cap'"
  shows "cellar_utf8_to_cp l CELLAR_CP_1252 (Some u) cap' = Some bs"
proof -
  have "u = concat (map enc1252 bs)"
    using assms(1) cp_loop_1252 [of l cap bs "[]" u]
    by (auto simp: cellar_cp_to_utf8_def cp_consts split: if_splits)
  then show ?thesis
    using decode_loop_enc [of bs "[]" cap'] assms(2,3)
    by (simp add: cellar_utf8_to_cp_def cp_consts)
qed

theorem cp1252_roundtrip_witness:
  "cellar_utf8_to_cp cellar_locale_english_us CELLAR_CP_1252
     (Some [0xE2, 0x82, 0xAC, 0x41, 0xC3, 0xA9]) 8 = Some [0x80, 0x41, 0xE9]"
  by (rule cp1252_roundtrip [where cap = 16]) (code_simp, simp_all)

text \<open>C39. Grouping overruns the 80-byte local buffer exactly for numbers of 58 or more integer digits, with
  or without a sign: for whatever \<^verbatim>\<open>"%.2f"\<close> prints for a finite number (a sign or none, the integer
  digits, a point, two digits; \<^verbatim>\<open>raw\<close> keeps the first 63 characters of it). Below that the result is the
  sign, the digits in groups of three and the two decimals, with the separators of the locale.\<close>

theorem format_number_overflow_iff:
  assumes "sign = [] \<or> sign = ''-''" "list_all is_digit ds" "0 < cap"
  shows "(fst (cellar_locale_format_number g (sign @ ds @ [CHR ''.'', x, y]) True cap) = Fault \<longleftrightarrow> 58 \<le> length ds) \<and>
    (length ds < 58 \<longrightarrow>
      fst (cellar_locale_format_number g (sign @ ds @ [CHR ''.'', x, y]) True cap) =
        Ok (snprintf_s cap (sign @ group_digits (first_or (loc_thousand (cellar_locale_get g)) CHR '','') ds @
              [first_or (loc_decimal (cellar_locale_get g)) CHR ''.'', x, y])))"
proof -
  let ?printed = "sign @ ds @ [CHR ''.'', x, y]"
  define m where "m = 63 - length sign"
  define ds' where "ds' = take m ds"
  define rest where "rest = take (m - length ds) [CHR ''.'', x, y]"
  define f where "f = tl rest"
  let ?g = "grouped_text (cellar_locale_get g) (sign @ ds' @ rest)"
  have l: "length sign \<le> 1" using assms(1) by auto
  have raw: "snprintf_s 64 ?printed = sign @ ds' @ rest"
    using assms(1) by (auto simp: snprintf_s_def ds'_def rest_def m_def)
  have t: "?g = sign @ group_digits (first_or (loc_thousand (cellar_locale_get g)) CHR '','') ds' @
      (if rest = [] then [] else first_or (loc_decimal (cellar_locale_get g)) CHR ''.'' # f)"
  proof (rule grouped_text_printed [OF assms(1)])
    show "list_all is_digit ds'" using assms(2) by (auto simp: ds'_def list_all_iff dest: in_set_takeD)
    show "rest = [] \<or> rest = CHR ''.'' # f" by (cases "m - length ds") (simp_all add: rest_def f_def)
  qed
  have "length (if rest = [] then [] else first_or (loc_decimal (cellar_locale_get g)) CHR ''.'' # f) = length rest"
    by (cases rest) (simp_all add: f_def)
  then have "length ?g = length sign + (length ds' + (length ds' - 1) div 3) + length rest"
    by (simp only: t length_append group_digits_length)
  moreover have "length ds' = min (length ds) (63 - length sign)" "length rest = min 3 (63 - length sign - length ds)"
    by (simp_all add: ds'_def rest_def m_def)
  ultimately have iff: "80 < length ?g + 1 \<longleftrightarrow> 58 \<le> length ds"
    using grouped_digits_bound [OF l, of "length ds"] by simp
  have small: "ds' = ds" "rest = [CHR ''.'', x, y]" if "length ds < 58"
    using that l by (simp_all add: ds'_def rest_def m_def)
  show ?thesis
    using assms(3) iff small t
    by (auto simp: cellar_locale_format_number_def Let_def raw cellar_locale_get_def f_def)
qed

theorem format_number_overflow_iff_witness:
  "fst (cellar_locale_format_number None (''-'' @ replicate 58 CHR ''9'' @ ''.50'') True 100) = Fault \<and>
   fst (cellar_locale_format_number None ''1234567.50'' True 100) = Ok ''1,234,567.50''"
proof -
  have d: "list_all is_digit (replicate 58 CHR ''9'')" "list_all is_digit ''1234567''" by code_simp+
  have "fst (cellar_locale_format_number None ''1234567.50'' True 100) =
      Ok (snprintf_s 100 (group_digits (first_or (loc_thousand (cellar_locale_get None)) CHR '','') ''1234567'' @
         [first_or (loc_decimal (cellar_locale_get None)) CHR ''.'', CHR ''5'', CHR ''0'']))"
    using format_number_overflow_iff [OF _ d(2), of "[]" 100 None "CHR ''5''" "CHR ''0''"] by simp
  moreover have "snprintf_s 100 (group_digits (first_or (loc_thousand (cellar_locale_get None)) CHR '','') ''1234567'' @
      [first_or (loc_decimal (cellar_locale_get None)) CHR ''.'', CHR ''5'', CHR ''0'']) = ''1,234,567.50''" by code_simp
  ultimately show ?thesis
    using format_number_overflow_iff [OF _ d(1), of "''-''" 100 None "CHR ''5''" "CHR ''0''"] by simp
qed

end
