(* ===== verification/Tables.thy ===== *)
theory Tables
  imports Prelude
begin

text \<open>
  Two interfaces that many components of the program implement by hand, with the facts about
  them proved once:
  \<^item> \<open>keyed_table\<close>: an array of entries searched linearly by a key up to an equivalence (case
    ignored, or equality), where storing an entry under a present key rewrites that slot and
    otherwise appends. Implemented by the compatibility database, the service manager, the
    backend registry and the COM class table.
  \<^item> \<open>sliding_log\<close>: a fixed array used as a circular history, of which the most recent entries
    are read back oldest first. Implemented by the performance trace ring and the frame-time
    history.
\<close>

section \<open>Keyed tables\<close>

fun upsert :: "('k \<Rightarrow> 'k \<Rightarrow> bool) \<Rightarrow> ('e \<Rightarrow> 'k) \<Rightarrow> ('e \<Rightarrow> 'e \<Rightarrow> 'e) \<Rightarrow> 'e \<Rightarrow> 'e list \<Rightarrow> 'e list" where
  "upsert eqk key merge e [] = [e]"
| "upsert eqk key merge e (x # xs) =
     (if eqk (key x) (key e) then merge x e # xs else x # upsert eqk key merge e xs)"

definition lookup_by :: "('k \<Rightarrow> 'k \<Rightarrow> bool) \<Rightarrow> ('e \<Rightarrow> 'k) \<Rightarrow> 'k \<Rightarrow> 'e list \<Rightarrow> 'e option" where
  "lookup_by eqk key k xs = List.find (\<lambda>x. eqk (key x) k) xs"

fun unique_keys :: "('k \<Rightarrow> 'k \<Rightarrow> bool) \<Rightarrow> ('e \<Rightarrow> 'k) \<Rightarrow> 'e list \<Rightarrow> bool" where
  "unique_keys eqk key [] = True"
| "unique_keys eqk key (x # xs) = (list_all (\<lambda>y. \<not> eqk (key x) (key y)) xs \<and> unique_keys eqk key xs)"

lemma lookup_by_Nil [simp]: "lookup_by eqk key k [] = None"
  by (simp add: lookup_by_def)

lemma lookup_by_Cons [simp]:
  "lookup_by eqk key k (x # xs) = (if eqk (key x) k then Some x else lookup_by eqk key k xs)"
  by (simp add: lookup_by_def)

lemma lookup_by_None_iff: "lookup_by eqk key k xs = None \<longleftrightarrow> (\<forall>x\<in>set xs. \<not> eqk (key x) k)"
  by (induction xs) auto

lemma lookup_by_Some: "lookup_by eqk key k xs = Some x \<Longrightarrow> x \<in> set xs \<and> eqk (key x) k"
  by (induction xs) (auto split: if_splits)

lemma upsert_fresh:
  "lookup_by eqk key (key e) xs = None \<Longrightarrow> upsert eqk key merge e xs = xs @ [e]"
  by (induction xs) (auto split: if_splits)

lemma length_upsert:
  "length (upsert eqk key merge e xs) =
     (if lookup_by eqk key (key e) xs = None then Suc (length xs) else length xs)"
  by (induction xs) auto

locale key_equiv =
  fixes eqk :: "'k \<Rightarrow> 'k \<Rightarrow> bool"
  assumes eqk_refl: "eqk k k"
    and eqk_sym: "eqk k l \<Longrightarrow> eqk l k"
    and eqk_trans: "eqk k l \<Longrightarrow> eqk l m \<Longrightarrow> eqk k m"
begin

lemma lookup_by_cong:
  assumes "eqk k l"
  shows "lookup_by eqk key k xs = lookup_by eqk key l xs"
proof (induction xs)
  case (Cons x xs)
  have "eqk (key x) k \<longleftrightarrow> eqk (key x) l"
    using assms eqk_sym eqk_trans by blast
  then show ?case using Cons.IH by simp
qed simp

end

locale keyed_table = key_equiv eqk for eqk :: "'k \<Rightarrow> 'k \<Rightarrow> bool" +
  fixes entries :: "'s \<Rightarrow> 'e list"
    and key :: "'e \<Rightarrow> 'k"
    and merge :: "'e \<Rightarrow> 'e \<Rightarrow> 'e"
    and put :: "'e \<Rightarrow> 's \<Rightarrow> 's cres"
    and get :: "'s \<Rightarrow> 'k \<Rightarrow> 'e option"
  assumes key_merge: "eqk (key x) (key e) \<Longrightarrow> eqk (key (merge x e)) (key e)"
    and get_lookup: "get s k = lookup_by eqk key k (entries s)"
    and put_upsert: "put e s = Ok s' \<Longrightarrow> entries s' = upsert eqk key merge e (entries s)"
begin

lemma lookup_upsert_same:
  "lookup_by eqk key (key e) (upsert eqk key merge e xs) =
     Some (case lookup_by eqk key (key e) xs of None \<Rightarrow> e | Some x \<Rightarrow> merge x e)"
  by (induction xs) (auto simp: eqk_refl key_merge)

lemma lookup_upsert_other:
  assumes "\<not> eqk (key e) k"
  shows "lookup_by eqk key k (upsert eqk key merge e xs) = lookup_by eqk key k xs"
proof (induction xs)
  case Nil
  then show ?case using assms by simp
next
  case (Cons x xs)
  show ?case
  proof (cases "eqk (key x) (key e)")
    case True
    then have "\<not> eqk (key x) k" "\<not> eqk (key (merge x e)) k"
      using assms key_merge eqk_sym eqk_trans by blast+
    then show ?thesis using True by simp
  next
    case False
    then show ?thesis using Cons.IH by simp
  qed
qed

lemma get_put_same:
  assumes "put e s = Ok s'" "eqk (key e) k"
  shows "get s' k = Some (case get s k of None \<Rightarrow> e | Some x \<Rightarrow> merge x e)"
proof -
  have "lookup_by eqk key k ys = lookup_by eqk key (key e) ys" for ys
    by (rule lookup_by_cong [OF eqk_sym [OF assms(2)]])
  then show ?thesis by (simp add: get_lookup put_upsert [OF assms(1)] lookup_upsert_same)
qed

lemma get_put_other: "put e s = Ok s' \<Longrightarrow> \<not> eqk (key e) k \<Longrightarrow> get s' k = get s k"
  by (simp add: get_lookup put_upsert lookup_upsert_other)

lemma upsert_not_eqk:
  "\<not> eqk a (key e) \<Longrightarrow> list_all (\<lambda>y. \<not> eqk a (key y)) xs \<Longrightarrow>
     list_all (\<lambda>y. \<not> eqk a (key y)) (upsert eqk key merge e xs)"
  by (induction xs) (auto dest: key_merge intro: eqk_trans eqk_sym)

lemma unique_upsert: "unique_keys eqk key xs \<Longrightarrow> unique_keys eqk key (upsert eqk key merge e xs)"
proof (induction xs)
  case Nil
  then show ?case by simp
next
  case (Cons x xs)
  show ?case
  proof (cases "eqk (key x) (key e)")
    case True
    have "\<not> eqk (key (merge x e)) (key y)" if "y \<in> set xs" for y
    proof
      assume "eqk (key (merge x e)) (key y)"
      then have "eqk (key x) (key y)"
        using True key_merge [OF True] eqk_sym eqk_trans by blast
      with Cons.prems that show False by (simp add: list_all_iff)
    qed
    then show ?thesis using True Cons.prems by (simp add: list_all_iff)
  next
    case False
    then show ?thesis using Cons upsert_not_eqk by simp
  qed
qed

lemma put_unique:
  "put e s = Ok s' \<Longrightarrow> unique_keys eqk key (entries s) \<Longrightarrow> unique_keys eqk key (entries s')"
  by (simp add: put_upsert unique_upsert)

lemma put_count:
  "put e s = Ok s' \<Longrightarrow> length (entries s') =
     (if get s (key e) = None then Suc (length (entries s)) else length (entries s))"
  by (simp add: put_upsert length_upsert get_lookup)

end

interpretation eq_key: key_equiv "(=) :: 'k \<Rightarrow> 'k \<Rightarrow> bool"
  by unfold_locales auto

interpretation ci_key: key_equiv strcasecmp_eq
  by unfold_locales (auto simp: strcasecmp_eq_def)

section \<open>Circular histories\<close>

text \<open>
  The state is the array, the next slot and the number of valid slots. \<open>push_slot\<close> is the C
  idiom \<^verbatim>\<open>a[pos] = x; pos = (pos + 1) % CAP; if (count < CAP) count++\<close>; \<open>window\<close> is the
  read-back loop from \<^verbatim>\<open>(pos + CAP - count) % CAP\<close>.
\<close>

definition push_slot :: "'a \<Rightarrow> 'a list \<times> nat \<times> nat \<Rightarrow> 'a list \<times> nat \<times> nat" where
  "push_slot x st = (case st of (a, pos, count) \<Rightarrow>
     (a[pos := x], (pos + 1) mod length a, if count < length a then count + 1 else count))"

definition window :: "'a list \<times> nat \<times> nat \<Rightarrow> 'a list" where
  "window st = (case st of (a, pos, count) \<Rightarrow>
     map (\<lambda>i. a ! ((pos + length a - count + i) mod length a)) [0..<count])"

definition hist_inv :: "'a list \<times> nat \<times> nat \<Rightarrow> bool" where
  "hist_inv st = (case st of (a, pos, count) \<Rightarrow> pos < length a \<and> count \<le> length a)"

lemma hist_inv_push [cinv]: "hist_inv st \<Longrightarrow> hist_inv (push_slot x st)"
  by (cases st) (auto simp: hist_inv_def push_slot_def intro: mod_less_divisor)

lemma length_window: "length (window st) = snd (snd st)"
  by (cases st) (simp add: window_def)

lemma mod_neq_of_lt:
  fixes p i n :: nat
  assumes "p < n" "0 < i" "i < n"
  shows "(p + i) mod n \<noteq> p"
proof (cases "p + i < n")
  case True
  then show ?thesis using assms by simp
next
  case False
  then have "(p + i) mod n = p + i - n"
    using assms by (simp add: mod_if [of "p + i"])
  then show ?thesis using assms False by simp
qed

lemma window_push:
  assumes "hist_inv (a, pos, count)"
  shows "window (push_slot x (a, pos, count)) =
    (if count < length a then window (a, pos, count) else tl (window (a, pos, count))) @ [x]"
proof -
  let ?n = "length a"
  from assms have pos: "pos < ?n" and cnt: "count \<le> ?n" by (auto simp: hist_inv_def)
  define k where "k = (if count < ?n then count else count - 1)"
  have k: "k < ?n" "k \<le> count" "count - k \<le> 1" using pos cnt by (auto simp: k_def)
  have idx: "((pos + 1) mod ?n + ?n - Suc k + i) mod ?n = (pos + (?n - k) + i) mod ?n" for i
  proof -
    have "(pos + 1) mod ?n + ?n - Suc k + i = (pos + 1) mod ?n + (?n - Suc k + i)"
      using k(1) by linarith
    then have "((pos + 1) mod ?n + ?n - Suc k + i) mod ?n = ((pos + 1) mod ?n + (?n - Suc k + i)) mod ?n"
      by (rule arg_cong [where f = "\<lambda>z. z mod ?n"])
    also have "\<dots> = (pos + 1 + (?n - Suc k + i)) mod ?n" by (simp add: mod_add_left_eq)
    also have "pos + 1 + (?n - Suc k + i) = pos + (?n - k) + i" using k by simp
    finally show ?thesis .
  qed
  have keep: "a[pos := x] ! ((pos + (?n - k) + i) mod ?n) = a ! ((pos + (?n - k) + i) mod ?n)"
    if "i < k" for i
  proof -
    have "(pos + (?n - k + i)) mod ?n \<noteq> pos"
      using that k pos by (intro mod_neq_of_lt) auto
    then show ?thesis by (simp add: add.assoc)
  qed
  have new: "a[pos := x] ! ((pos + (?n - k) + k) mod ?n) = x"
    using k pos by simp
  have "window (push_slot x (a, pos, count)) =
      map (\<lambda>i. a[pos := x] ! ((pos + (?n - k) + i) mod ?n)) [0..<Suc k]"
  proof -
    have "(if count < ?n then count + 1 else count) = Suc k" using pos cnt by (auto simp: k_def)
    then show ?thesis using idx by (simp add: window_def push_slot_def)
  qed
  also have "\<dots> = map (\<lambda>i. a ! ((pos + (?n - k) + i) mod ?n)) [0..<k] @ [x]"
    using keep new by simp
  also have "map (\<lambda>i. a ! ((pos + (?n - k) + i) mod ?n)) [0..<k] =
      (if count < ?n then window (a, pos, count) else tl (window (a, pos, count)))"
  proof (cases "count < ?n")
    case True
    then show ?thesis using k by (simp add: k_def window_def)
  next
    case False
    then have c: "count = ?n" "0 < ?n" using cnt pos by auto
    have "tl (window (a, pos, count)) = map (\<lambda>i. a ! ((pos + Suc i) mod ?n)) [0..<?n - 1]"
      by (rule nth_equalityI) (use c in \<open>auto simp: window_def nth_tl\<close>)
    then show ?thesis using c by (simp add: k_def)
  qed
  finally show ?thesis .
qed

locale sliding_log =
  fixes cap :: nat
    and hist :: "'s \<Rightarrow> 'a list \<times> nat \<times> nat"
    and push :: "'a \<Rightarrow> 's \<Rightarrow> 's"
    and inv :: "'s \<Rightarrow> bool"
  assumes inv_hist: "inv s \<Longrightarrow> hist_inv (hist s) \<and> length (fst (hist s)) = cap"
    and inv_push: "inv s \<Longrightarrow> inv (push x s)"
    and hist_push: "inv s \<Longrightarrow> hist (push x s) = push_slot x (hist s)"
begin

lemma window_push_one:
  assumes "inv s"
  shows "window (hist (push x s)) =
    (if length (window (hist s)) < cap then window (hist s) else tl (window (hist s))) @ [x]"
proof -
  obtain a pos count where h: "hist s = (a, pos, count)" by (cases "hist s")
  with inv_hist [OF assms] have i: "hist_inv (a, pos, count)" "length a = cap" by auto
  then show ?thesis
    using window_push [OF i(1)] by (simp add: hist_push [OF assms] h length_window)
qed

lemma window_le_cap: "inv s \<Longrightarrow> length (window (hist s)) \<le> cap"
  using inv_hist [of s] by (cases "hist s") (auto simp: hist_inv_def length_window)

lemma cap_pos: "inv s \<Longrightarrow> 0 < cap"
  using inv_hist [of s] by (cases "hist s") (auto simp: hist_inv_def)

lemma inv_fold: "inv s \<Longrightarrow> inv (fold push xs s)"
  by (induction xs arbitrary: s) (auto intro: inv_push)

text \<open>After any sequence of pushes the log holds the last \<open>cap\<close> entries, oldest first.\<close>

lemma window_fold:
  assumes "inv s"
  shows "window (hist (fold push xs s)) =
    drop (length (window (hist s)) + length xs - cap) (window (hist s) @ xs)"
  using assms
proof (induction xs arbitrary: s)
  case Nil
  then show ?case using window_le_cap by simp
next
  case (Cons x xs)
  let ?w = "window (hist s)"
  have c: "0 < cap" "length ?w \<le> cap" using Cons.prems cap_pos window_le_cap by auto
  have "window (hist (fold push xs (push x s))) =
      drop (length (window (hist (push x s))) + length xs - cap) (window (hist (push x s)) @ xs)"
    by (rule Cons.IH) (rule inv_push [OF Cons.prems])
  also have "\<dots> = drop (length ?w + length (x # xs) - cap) (?w @ x # xs)"
  proof (cases "length ?w < cap")
    case True
    then show ?thesis by (simp add: window_push_one [OF Cons.prems])
  next
    case False
    then obtain y ys where "?w = y # ys" using c by (cases ?w) auto
    then show ?thesis using False c by (simp add: window_push_one [OF Cons.prems])
  qed
  finally show ?case by simp
qed

end

end
