(* ===== verification/Double.thy ===== *)
theory Double
  imports Prelude "HOL-Library.Log_Nat"
begin

text \<open>
  Arithmetic on C \<^verbatim>\<open>double\<close>, as far as the program needs it: IEEE 754 binary64 with rounding to
  nearest, ties to even, on non-negative numbers. A finite double is the rational number it stands for; every
  operation is the exact one followed by \<open>fl\<close>, the rounding to 53 significant bits. The exponent is
  unbounded: the numbers of the program stay far from the ends of the range of binary64. Division by zero
  gives \<open>Inf\<close>.
\<close>

section \<open>Rounding\<close>

text \<open>The exponent of the leading bit of a positive number.\<close>

definition bin_exponent :: "rat \<Rightarrow> int" where
  "bin_exponent x =
     (case quotient_of x of (a, b) \<Rightarrow>
        let e = bitlen a - bitlen b in if 2 powi e \<le> x then e else e - 1)"

definition round_even :: "rat \<Rightarrow> int" where
  "round_even x =
     (let k = \<lfloor>x\<rfloor>; d = x - of_int k in
      if d < 1 / 2 then k else if 1 / 2 < d then k + 1 else if even k then k else k + 1)"

definition fl :: "rat \<Rightarrow> rat" where
  "fl x = (if x \<le> 0 then 0 else let e = bin_exponent x - 52 in of_int (round_even (x * 2 powi (- e))) * 2 powi e)"

text \<open>The quotient of two non-negative doubles of which the first is positive.\<close>

datatype double = Fin rat | Inf

definition dbl_div :: "rat \<Rightarrow> rat \<Rightarrow> double" where
  "dbl_div a b = (if b = 0 then Inf else Fin (fl (a / b)))"

text \<open>The conversion of an unsigned 64-bit integer, and the cast of a double to \<^verbatim>\<open>size_t\<close>, which drops the
  fraction.\<close>

definition dbl_of_u64 :: "u64 \<Rightarrow> rat" where
  "dbl_of_u64 x = fl (of_nat (unat x))"

definition u64_of_dbl :: "rat \<Rightarrow> u64" where
  "u64_of_dbl x = of_int \<lfloor>x\<rfloor>"

section \<open>Facts\<close>

lemma powi_of_nat: "2 powi int n = (2 :: rat) ^ n"
  by (simp add: power_int_def)

lemma bin_exponent_bounds:
  assumes "0 < x"
  shows "2 powi bin_exponent x \<le> x" "x < 2 powi (bin_exponent x + 1)"
proof -
  obtain a b where q: "quotient_of x = (a, b)" by fastforce
  have b: "0 < b" using q by (rule quotient_of_denom_pos)
  have x: "x = of_int a / of_int b" using q by (rule quotient_of_div)
  then have a: "0 < a" using assms b by (simp add: zero_less_divide_iff)
  have bound: "(2 :: rat) powi (bitlen n - 1) \<le> of_int n \<and> of_int n < (2 :: rat) powi bitlen n" if "0 < n" for n
  proof -
    have l: "1 \<le> bitlen n" using that by (simp add: bitlen_alt_def)
    then have "(2 :: rat) powi (bitlen n - 1) = of_int (2 ^ nat (bitlen n - 1))"
      "(2 :: rat) powi bitlen n = of_int (2 ^ nat (bitlen n))"
      by (simp_all add: power_int_def)
    then show ?thesis using bitlen_bounds [OF that] by (simp only: of_int_le_iff of_int_less_iff)
  qed
  let ?e = "bitlen a - bitlen b"
  have "x < 2 powi bitlen a / 2 powi (bitlen b - 1)"
    unfolding x using bound [OF a] bound [OF b] a b by (intro frac_less) simp_all
  then have up: "x < 2 powi (?e + 1)" by (simp add: power_int_diff [symmetric] algebra_simps)
  have "2 powi (bitlen a - 1) / 2 powi bitlen b < x"
    unfolding x using bound [OF a] bound [OF b] a b by (intro frac_less2) simp_all
  then have low: "2 powi (?e - 1) < x" by (simp add: power_int_diff [symmetric] algebra_simps)
  show "2 powi bin_exponent x \<le> x" "x < 2 powi (bin_exponent x + 1)"
    using up low by (auto simp: bin_exponent_def q Let_def)
qed

lemma powi_less: "(2 :: rat) powi i < 2 powi j \<Longrightarrow> i < j"
  using power_int_increasing [of j i "2 :: rat"] by (cases "i < j") simp_all

lemma round_even_of_int [simp]: "round_even (of_int k) = k"
  by (simp add: round_even_def)

text \<open>Integers below \<open>2 ^ 53\<close> are doubles.\<close>

lemma fl_of_nat:
  assumes "n < 2 ^ 53"
  shows "fl (of_nat n) = of_nat n"
proof (cases "n = 0")
  case False
  let ?x = "of_nat n :: rat" and ?b = "bin_exponent (of_nat n)"
  have p: "0 < ?x" using False by simp
  note b = bin_exponent_bounds [OF p]
  have "(2 :: rat) powi ?b < 2 powi 53"
  proof -
    have "?x < of_nat (2 ^ 53)" using assms by (simp only: of_nat_less_iff)
    then show ?thesis using b(1) by (simp add: power_int_def)
  qed
  then have "?b < 53" by (rule powi_less)
  have "(2 :: rat) powi 0 < 2 powi (?b + 1)"
    using b(2) False by (simp add: order.strict_trans1 [of 1 ?x])
  then have "0 < ?b + 1" by (rule powi_less)
  then have "0 \<le> ?b" by simp
  define k where "k = nat (52 - ?b)"
  have k: "52 - ?b = int k" using \<open>?b < 53\<close> by (simp add: k_def)
  have "?x * 2 powi (52 - ?b) = of_int (int (n * 2 ^ k))" by (simp add: k powi_of_nat)
  then have "round_even (?x * 2 powi (- (?b - 52))) = int (n * 2 ^ k)"
    by (simp only: minus_diff_eq round_even_of_int)
  moreover have "of_int (int (n * 2 ^ k)) * (2 :: rat) powi (?b - 52) = ?x"
  proof -
    have "?b - 52 = - int k" using k by simp
    then show ?thesis by (simp add: power_int_minus powi_of_nat)
  qed
  ultimately show ?thesis using p by (simp add: fl_def Let_def)
qed (simp add: fl_def)

lemma dbl_of_u64_small: "unat x < 2 ^ 53 \<Longrightarrow> dbl_of_u64 x = of_nat (unat x)"
  unfolding dbl_of_u64_def by (rule fl_of_nat)

text \<open>The relative error of one rounding.\<close>

lemma round_even_error: "\<bar>of_int (round_even x) - x\<bar> \<le> 1 / 2"
proof -
  have "of_int \<lfloor>x\<rfloor> \<le> x" "x < of_int \<lfloor>x\<rfloor> + 1" by linarith+
  then show ?thesis unfolding round_even_def Let_def by (simp add: abs_le_iff)
qed

lemma fl_error:
  assumes "0 < x"
  shows "\<bar>fl x - x\<bar> \<le> x / 2 ^ 53"
proof -
  define e where "e = bin_exponent x - 52"
  have p: "0 < (2 :: rat) powi e" by simp
  have x: "x = x * 2 powi (- e) * 2 powi e" using p by (simp add: power_int_minus)
  have "fl x - x = (of_int (round_even (x * 2 powi (- e))) - x * 2 powi (- e)) * 2 powi e"
    using assms x by (simp add: fl_def e_def [symmetric] left_diff_distrib)
  then have "\<bar>fl x - x\<bar> = \<bar>of_int (round_even (x * 2 powi (- e))) - x * 2 powi (- e)\<bar> * 2 powi e"
    using p by (simp add: abs_mult)
  also have "\<dots> \<le> 1 / 2 * 2 powi e" using p round_even_error by (intro mult_right_mono) simp_all
  also have "\<dots> = 2 powi bin_exponent x / 2 ^ 53"
    by (simp add: e_def power_int_diff)
  also have "\<dots> \<le> x / 2 ^ 53" using bin_exponent_bounds(1) [OF assms] by (intro divide_right_mono) simp_all
  finally show ?thesis .
qed

end
