(* ===== verification/Timer.thy ===== *)
theory Timer
  imports Tables Double "HOL-Library.Multiset"
begin

text \<open>
  High-resolution timing, \<^verbatim>\<open>src/timer/timer.c\<close>: the clock conversions, the deadline sleep, and
  the frame-time history with its report, whose \<^verbatim>\<open>double\<close> arithmetic is that of theory
  \<open>Double\<close>. Clock readings are arguments.
\<close>

section \<open>The clock\<close>

definition cellar_timer_frequency :: u64 where
  "cellar_timer_frequency = 1000000000"

text \<open>\<open>None\<close>: \<^verbatim>\<open>clock_gettime\<close> failed.\<close>

definition cellar_timer_ns :: "(u64 \<times> u64) option \<Rightarrow> u64" where
  "cellar_timer_ns ts = (case ts of None \<Rightarrow> 0 | Some (sec, nsec) \<Rightarrow> sec * 1000000000 + nsec)"

definition cellar_timer_us :: "(u64 \<times> u64) option \<Rightarrow> u64" where
  "cellar_timer_us ts = cellar_timer_ns ts div 1000"

definition cellar_timer_ms :: "(u64 \<times> u64) option \<Rightarrow> u64" where
  "cellar_timer_ms ts = cellar_timer_ns ts div 1000000"

text \<open>The absolute deadline handed to \<^verbatim>\<open>clock_nanosleep\<close>, which is retried until it succeeds.\<close>

definition cellar_timer_sleep_until :: "u64 \<Rightarrow> u64 \<Rightarrow> (u64 \<times> u64) cres" where
  "cellar_timer_sleep_until now deadline_ns =
     (if deadline_ns \<le> now then Err CELLAR_ERR_INVALID_ARGUMENT
      else Ok (deadline_ns div 1000000000, deadline_ns mod 1000000000))"

text \<open>The busy wait over a stream of clock readings: how many readings it takes.\<close>

partial_function (option) spin_from :: "(nat \<Rightarrow> u64) \<Rightarrow> u64 \<Rightarrow> nat \<Rightarrow> nat option" where
  "spin_from clock deadline_ns k =
     (if clock k < deadline_ns then spin_from clock deadline_ns (k + 1) else Some k)"

definition cellar_timer_spin_until :: "(nat \<Rightarrow> u64) \<Rightarrow> u64 \<Rightarrow> nat option" where
  "cellar_timer_spin_until clock deadline_ns = spin_from clock deadline_ns 0"

section \<open>Frame times\<close>

definition CELLAR_FRAMETIME_HISTORY :: nat where "CELLAR_FRAMETIME_HISTORY = 240"

record cellar_frametime =
  ft_history :: "u64 list"
  ft_count :: nat
  ft_pos :: nat
  ft_cpu_wait_ns :: u64
  ft_gpu_wait_ns :: u64
  ft_translate_wait_ns :: u64

text \<open>The history array keeps what it held.\<close>

definition cellar_frametime_init :: "cellar_frametime \<Rightarrow> cellar_frametime" where
  "cellar_frametime_init ft =
     ft\<lparr>ft_count := 0, ft_pos := 0, ft_cpu_wait_ns := 0, ft_gpu_wait_ns := 0, ft_translate_wait_ns := 0\<rparr>"

definition cellar_frametime_add :: "u64 \<Rightarrow> cellar_frametime \<Rightarrow> cellar_frametime" where
  "cellar_frametime_add frame_ns ft =
     ft\<lparr>ft_history := (ft_history ft)[ft_pos ft := frame_ns],
        ft_pos := (ft_pos ft + 1) mod CELLAR_FRAMETIME_HISTORY,
        ft_count := (if ft_count ft < CELLAR_FRAMETIME_HISTORY then ft_count ft + 1 else ft_count ft)\<rparr>"

definition cellar_frametime_set_waits :: "u64 \<Rightarrow> u64 \<Rightarrow> u64 \<Rightarrow> cellar_frametime \<Rightarrow> cellar_frametime" where
  "cellar_frametime_set_waits cpu gpu translate ft =
     ft\<lparr>ft_cpu_wait_ns := cpu, ft_gpu_wait_ns := gpu, ft_translate_wait_ns := translate\<rparr>"

text \<open>The insertion sort of the report, on the array: the inner loop shifts larger elements up from
  index \<open>j\<close>.\<close>

fun shift_in :: "u64 list \<Rightarrow> nat \<Rightarrow> u64 \<Rightarrow> u64 list" where
  "shift_in a 0 key = a[0 := key]"
| "shift_in a (Suc j) key =
     (if key < a ! j then shift_in (a[Suc j := a ! j]) j key else a[Suc j := key])"

definition sort_frames :: "u64 list \<Rightarrow> u64 list" where
  "sort_frames a = foldl (\<lambda>a i. shift_in a i (a ! i)) a [1..<length a]"

record frame_report =
  fr_fps :: double
  fr_frame_ms :: rat
  fr_low1_ms :: rat
  fr_max_ms :: rat
  fr_cpu_wait_ms :: rat
  fr_gpu_wait_ms :: rat
  fr_translate_wait_ms :: rat

definition frame_report_zero :: frame_report where
  "frame_report_zero = \<lparr>fr_fps = Fin 0, fr_frame_ms = 0, fr_low1_ms = 0, fr_max_ms = 0, fr_cpu_wait_ms = 0,
     fr_gpu_wait_ms = 0, fr_translate_wait_ms = 0\<rparr>"

text \<open>Nanoseconds as milliseconds.\<close>

definition ms_of_ns :: "u64 \<Rightarrow> rat" where
  "ms_of_ns x = fl (dbl_of_u64 x / 10 ^ 6)"

text \<open>The sum runs in double precision, one addition per frame.\<close>

definition frame_sum :: "u64 list \<Rightarrow> rat" where
  "frame_sum frames = foldl (\<lambda>s v. fl (s + dbl_of_u64 v)) 0 frames"

text \<open>The index of the 1% low, \<^verbatim>\<open>(size_t)(0.99 * (double)n) - 1\<close> with the clamp that follows; the
  subtraction wraps for one frame.\<close>

definition low1_index :: "nat \<Rightarrow> nat" where
  "low1_index n =
     (let idx = u64_of_dbl (fl (fl (99 / 100) * fl (of_nat n))) - 1
      in if unat idx \<ge> n then n - 1 else unat idx)"

definition cellar_frametime_report :: "cellar_frametime \<Rightarrow> frame_report" where
  "cellar_frametime_report ft =
     (let n = ft_count ft in
      if n = 0 then frame_report_zero
      else
        let frames = map (\<lambda>i. ft_history ft ! ((ft_pos ft + CELLAR_FRAMETIME_HISTORY - n + i)
                                mod CELLAR_FRAMETIME_HISTORY)) [0..<n];
            mean = fl (frame_sum frames / fl (of_nat n));
            sorted = sort_frames frames
        in \<lparr>fr_fps = dbl_div (10 ^ 9) mean, fr_frame_ms = fl (mean / 10 ^ 6),
            fr_low1_ms = ms_of_ns (sorted ! low1_index n), fr_max_ms = ms_of_ns (sorted ! (n - 1)),
            fr_cpu_wait_ms = ms_of_ns (ft_cpu_wait_ns ft), fr_gpu_wait_ms = ms_of_ns (ft_gpu_wait_ns ft),
            fr_translate_wait_ms = ms_of_ns (ft_translate_wait_ns ft)\<rparr>)"

section \<open>The arithmetic of the report\<close>

lemma double_99: "fl (99 / 100) = 8917127262193582 / 9007199254740992"
  by code_simp

lemma dvd_99: "100 dvd 99 * n \<longleftrightarrow> 100 dvd n" for n :: nat
proof -
  have "coprime (100 :: nat) 99" by code_simp
  then show ?thesis using coprime_dvd_mult_right_iff by blast
qed

text \<open>Although the double 0.99 is less than 99/100 and the product is rounded, the cast gives the floor of
  the exact product.\<close>

lemma trunc_99:
  assumes "0 < n" "n \<le> 240"
  shows "\<lfloor>fl (fl (99 / 100) * of_nat n)\<rfloor> = int (99 * n div 100)"
proof (cases "99 * n mod 100 = 0")
  case True
  then have "100 dvd n" using dvd_99 [of n] by (simp add: dvd_eq_mod_eq_0)
  then have "n = 100 \<or> n = 200" using assms by (auto elim!: dvdE)
  moreover have "\<lfloor>fl (fl (99 / 100) * 100)\<rfloor> = 99" "\<lfloor>fl (fl (99 / 100) * 200)\<rfloor> = 198" by code_simp+
  ultimately show ?thesis by auto
next
  case False
  define y where "y = fl (99 / 100) * of_nat n"
  define q r where "q = 99 * n div 100" and "r = 99 * n mod 100"
  have "99 * n = 100 * q + r" "1 \<le> r" "r \<le> 99" using False by (simp_all add: q_def r_def)
  then have qr: "99 * (of_nat n :: rat) = 100 * of_nat q + of_nat r" "1 \<le> (of_nat r :: rat)" "(of_nat r :: rat) \<le> 99"
    by (metis of_nat_add of_nat_mult of_nat_numeral, simp_all)
  have p: "(2 :: rat) ^ 53 = 9007199254740992" by simp
  have n: "1 \<le> (of_nat n :: rat)" "(of_nat n :: rat) \<le> 240" using assms by simp_all
  have y: "y = 8917127262193582 / 9007199254740992 * of_nat n" by (simp add: y_def double_99)
  then have "0 < y" using n by simp
  then have "y - y / 2 ^ 53 \<le> fl y" "fl y \<le> y + y / 2 ^ 53"
    using fl_error [of y] by (simp_all only: abs_diff_le_iff)
  moreover have "of_nat q \<le> y - y / 2 ^ 53" "y + y / 2 ^ 53 < of_nat q + 1"
    using qr n unfolding y p by linarith+
  ultimately have "of_nat q \<le> fl y" "fl y < of_nat q + 1" by linarith+
  then have "\<lfloor>fl y\<rfloor> = int q" by (intro floor_unique) simp_all
  then show ?thesis by (simp add: y_def q_def)
qed

lemma low1_index_eq:
  assumes "0 < n" "n \<le> 240"
  shows "low1_index n = 99 * n div 100 - 1"
proof -
  have "fl (of_nat n) = of_nat n" using assms by (intro fl_of_nat) simp
  then have e: "u64_of_dbl (fl (fl (99 / 100) * fl (of_nat n))) = of_nat (99 * n div 100)"
    using trunc_99 [OF assms] by (simp only: u64_of_dbl_def of_int_of_nat_eq)
  show ?thesis
  proof (cases "n = 1")
    case True
    then show ?thesis by (simp only: low1_index_def e) (simp add: Let_def)
  next
    case False
    define k where "k = 99 * n div 100"
    have k: "1 \<le> k" "k \<le> n" using assms(1) False by (simp_all add: k_def div_le_mono)
    have "(of_nat k :: u64) - 1 = of_nat (k - 1)" using k(1) by (simp add: of_nat_diff)
    moreover have "unat (of_nat (k - 1) :: u64) = k - 1"
      using k assms(2) by (simp add: unsigned_of_nat take_bit_nat_eq_self del: of_nat_diff)
    ultimately have "unat ((of_nat k :: u64) - 1) = k - 1" by (simp only:)
    then show ?thesis using k by (simp only: low1_index_def e k_def [symmetric] Let_def) auto
  qed
qed

text \<open>The comment in the code asks for \<open>\<lceil>0.99 n\<rceil> - 1\<close>, one more unless \<open>0.99 n\<close> is whole.\<close>

lemma low1_index_below_comment:
  assumes "2 \<le> n" "n \<le> 240" "n mod 100 \<noteq> 0"
  shows "Suc (low1_index n) = (99 * n + 99) div 100 - 1"
proof -
  have "1 \<le> 99 * n div 100" using assms(1) by linarith
  moreover have "(99 * n + 99) div 100 = 99 * n div 100 + 1"
  proof -
    have "99 * n mod 100 \<noteq> 0" using assms(3) dvd_99 [of n] by (simp add: dvd_eq_mod_eq_0)
    then show ?thesis using div_mult_mod_eq [of "99 * n" 100] by linarith
  qed
  ultimately show ?thesis using assms(1,2) by (simp add: low1_index_eq)
qed

lemma frame_sum_from:
  "a + sum_list (map unat xs) < 2 ^ 53 \<Longrightarrow>
     foldl (\<lambda>s v. fl (s + dbl_of_u64 v)) (of_nat a) xs = of_nat (a + sum_list (map unat xs))"
proof (induction xs arbitrary: a)
  case (Cons x xs)
  have "fl (of_nat a + dbl_of_u64 x) = of_nat (a + unat x)"
    using Cons.prems fl_of_nat [of "a + unat x"] by (simp add: dbl_of_u64_small)
  then show ?case using Cons.IH [of "a + unat x"] Cons.prems by (simp add: add.assoc)
qed simp

lemma frame_sum_exact: "sum_list (map unat xs) < 2 ^ 53 \<Longrightarrow> frame_sum xs = of_nat (sum_list (map unat xs))"
  using frame_sum_from [of 0 xs] by (simp add: frame_sum_def)

lemma ms_of_ns_small: "unat x < 2 ^ 53 \<Longrightarrow> ms_of_ns x = fl (of_nat (unat x) / 10 ^ 6)"
  by (simp only: ms_of_ns_def dbl_of_u64_small)

lemma fl_pos: "0 < x \<Longrightarrow> 0 < fl x"
proof -
  assume x: "0 < x"
  then have "x - x / 2 ^ 53 \<le> fl x" using fl_error [of x] by (simp only: abs_diff_le_iff)
  then show ?thesis using x by simp
qed

section \<open>The sort is correct\<close>

definition ins :: "u64 \<Rightarrow> u64 list \<Rightarrow> u64 list" where
  "ins k p = rev (takeWhile (\<lambda>y. k < y) (rev p) @ k # dropWhile (\<lambda>y. k < y) (rev p))"

lemma ins_snoc: "ins k (p @ [y]) = (if k < y then ins k p @ [y] else p @ [y, k])"
  by (simp add: ins_def)

lemma shift_in_ins: "shift_in (p @ x # s) (length p) k = ins k p @ s"
proof (induction p arbitrary: x s rule: rev_induct)
  case Nil
  then show ?case by (simp add: ins_def)
next
  case (snoc y p)
  have a: "(p @ [y]) @ x # s = p @ y # x # s" by simp
  have n: "((p @ [y]) @ x # s) ! length p = y" by (simp add: nth_append)
  have u: "((p @ [y]) @ x # s)[Suc (length p) := z] = p @ y # z # s" for z
    by (simp add: list_update_append)
  show ?case
  proof (cases "k < y")
    case True
    then have "shift_in ((p @ [y]) @ x # s) (length (p @ [y])) k = shift_in (p @ y # y # s) (length p) k"
      using n u by simp
    also have "\<dots> = ins k p @ y # s" by (rule snoc.IH)
    finally show ?thesis using True by (simp add: ins_snoc)
  next
    case False
    then show ?thesis using n u by (simp add: ins_snoc)
  qed
qed

lemma mset_ins: "mset (ins k p) = add_mset k (mset p)"
proof -
  have "mset (takeWhile (\<lambda>y. k < y) (rev p)) + mset (dropWhile (\<lambda>y. k < y) (rev p)) = mset (rev p)"
    by (metis mset_append takeWhile_dropWhile_id)
  then show ?thesis by (simp add: ins_def union_commute)
qed

lemma sorted_ins: "sorted p \<Longrightarrow> sorted (ins k p)"
proof (induction p rule: rev_induct)
  case Nil
  then show ?case by (simp add: ins_def)
next
  case (snoc y p)
  have "set (ins k p) = insert k (set p)" using mset_ins [of k p] by (metis set_mset_add_mset_insert set_mset_mset)
  then show ?case using snoc by (auto simp: ins_snoc sorted_append)
qed

lemma sort_frames_from:
  "sorted p \<Longrightarrow>
     sorted (foldl (\<lambda>a i. shift_in a i (a ! i)) (p @ s) [length p..<length p + length s]) \<and>
     mset (foldl (\<lambda>a i. shift_in a i (a ! i)) (p @ s) [length p..<length p + length s]) = mset (p @ s)"
proof (induction s arbitrary: p)
  case Nil
  then show ?case by simp
next
  case (Cons x s)
  have l: "length (ins x p) = Suc (length p)"
    using arg_cong [OF mset_ins [of x p], of size] by simp
  have "foldl (\<lambda>a i. shift_in a i (a ! i)) (p @ x # s) [length p..<length p + length (x # s)]
      = foldl (\<lambda>a i. shift_in a i (a ! i)) (ins x p @ s) [length (ins x p)..<length (ins x p) + length s]"
  proof -
    have "[length p..<length p + length (x # s)] = length p # [Suc (length p)..<Suc (length p) + length s]"
      by (simp add: upt_conv_Cons del: upt_Suc)
    then show ?thesis by (simp add: l shift_in_ins)
  qed
  then show ?case using Cons.IH [OF sorted_ins [OF Cons.prems, of x]] mset_ins [of x p] by simp
qed

lemma sort_frames_sort: "sort_frames a = sort a"
proof (cases a)
  case Nil
  then show ?thesis by (simp add: sort_frames_def)
next
  case (Cons x s)
  have "sorted (sort_frames a) \<and> mset (sort_frames a) = mset a"
    using sort_frames_from [of "[x]" s] by (simp add: sort_frames_def Cons)
  then show ?thesis by (metis properties_for_sort)
qed

section \<open>The history is a sliding log\<close>

definition ft_inv :: "cellar_frametime \<Rightarrow> bool" where
  "ft_inv ft \<longleftrightarrow> length (ft_history ft) = CELLAR_FRAMETIME_HISTORY \<and>
     ft_pos ft < CELLAR_FRAMETIME_HISTORY \<and> ft_count ft \<le> CELLAR_FRAMETIME_HISTORY"

definition ft_hist :: "cellar_frametime \<Rightarrow> u64 list \<times> nat \<times> nat" where
  "ft_hist ft = (ft_history ft, ft_pos ft, ft_count ft)"

interpretation frame_log: sliding_log CELLAR_FRAMETIME_HISTORY ft_hist cellar_frametime_add ft_inv
  by unfold_locales
    (auto simp: ft_inv_def ft_hist_def cellar_frametime_add_def push_slot_def hist_inv_def
      CELLAR_FRAMETIME_HISTORY_def)

lemma ft_inv_init [cinv]: "length (ft_history ft) = 240 \<Longrightarrow> ft_inv (cellar_frametime_init ft)"
  by (simp add: ft_inv_def cellar_frametime_init_def CELLAR_FRAMETIME_HISTORY_def)

lemma last_sorted:
  assumes "fs \<noteq> []"
  shows "sort fs ! (length fs - 1) = Max (set fs)"
proof -
  have l: "length (sort fs) = length fs" "0 < length fs" using assms by auto
  have "sort fs ! (length fs - 1) \<in> set fs"
    using nth_mem [of "length fs - 1" "sort fs"] l by simp
  moreover have "x \<le> sort fs ! (length fs - 1)" if "x \<in> set fs" for x
  proof -
    from that obtain i where "i < length fs" "x = sort fs ! i"
      by (metis in_set_conv_nth l(1) set_sort)
    then show ?thesis using sorted_nth_mono [of "sort fs" i "length fs - 1"] l by simp
  qed
  ultimately show ?thesis by (intro Max_eqI [symmetric]) auto
qed

lemma rate_of_mean:
  assumes "0 < n"
  shows "dbl_div (10 ^ 9) (fl (of_nat t / of_nat n)) =
    (if of_nat t = (0 :: rat) then Inf else Fin (fl (10 ^ 9 / fl (of_nat t / of_nat n))))"
proof (cases "t = 0")
  case True
  then show ?thesis by (simp add: dbl_div_def fl_def)
next
  case False
  then have "0 < fl (of_nat t / of_nat n)" using assms by (intro fl_pos) simp
  then show ?thesis using False by (simp add: dbl_div_def)
qed

text \<open>The statistics of a sequence of frame durations.\<close>

definition frame_stats :: "u64 list \<Rightarrow> frame_report" where
  "frame_stats fs =
     (let total = of_nat (sum_list (map unat fs)); mean = fl (total / of_nat (length fs)) in
      \<lparr>fr_fps = (if total = 0 then Inf else Fin (fl (10 ^ 9 / mean))), fr_frame_ms = fl (mean / 10 ^ 6),
       fr_low1_ms = fl (of_nat (unat (sort fs ! (99 * length fs div 100 - 1))) / 10 ^ 6),
       fr_max_ms = fl (of_nat (unat (Max (set fs))) / 10 ^ 6),
       fr_cpu_wait_ms = 0, fr_gpu_wait_ms = 0, fr_translate_wait_ms = 0\<rparr>)"

lemma report_window:
  assumes "ft_inv ft" "window (ft_hist ft) = fs" "fs \<noteq> []" "sum_list (map unat fs) < 2 ^ 53"
    "ft_cpu_wait_ns ft = 0" "ft_gpu_wait_ns ft = 0" "ft_translate_wait_ns ft = 0"
  shows "cellar_frametime_report ft = frame_stats fs"
proof -
  have n: "ft_count ft = length fs" using assms(2) length_window [of "ft_hist ft"] by (simp add: ft_hist_def)
  have h: "length (ft_history ft) = CELLAR_FRAMETIME_HISTORY" using assms(1) by (simp add: ft_inv_def)
  have w: "map (\<lambda>i. ft_history ft ! ((ft_pos ft + CELLAR_FRAMETIME_HISTORY - length fs + i)
      mod CELLAR_FRAMETIME_HISTORY)) [0..<length fs] = fs"
    using assms(2) n by (simp add: window_def ft_hist_def h)
  have l: "0 < length fs" "length fs \<le> 240"
    using assms(1,3) n by (simp_all add: ft_inv_def CELLAR_FRAMETIME_HISTORY_def)
  have dn: "fl (of_nat (length fs)) = of_nat (length fs)" using l by (intro fl_of_nat) simp
  have small: "unat x < 2 ^ 53" if "x \<in> set fs" for x
  proof -
    have "unat x \<le> sum_list (map unat fs)" using that by (intro member_le_sum_list) auto
    then show ?thesis using assms(4) by simp
  qed
  have i: "99 * length fs div 100 - 1 < length fs" using l by linarith
  then have "sort fs ! (99 * length fs div 100 - 1) \<in> set fs" by (metis length_sort nth_mem set_sort)
  then have low: "ms_of_ns (sort fs ! (99 * length fs div 100 - 1)) =
      fl (of_nat (unat (sort fs ! (99 * length fs div 100 - 1))) / 10 ^ 6)"
    by (intro ms_of_ns_small small)
  have max: "ms_of_ns (Max (set fs)) = fl (of_nat (unat (Max (set fs))) / 10 ^ 6)"
    using assms(3) by (intro ms_of_ns_small small) simp
  have zero: "ms_of_ns 0 = 0" by (simp add: ms_of_ns_def dbl_of_u64_def fl_def)
  show ?thesis
    unfolding cellar_frametime_report_def n Let_def w sort_frames_sort frame_sum_exact [OF assms(4)] dn
      low1_index_eq [OF l] last_sorted [OF assms(3)] low max assms(5-7) zero rate_of_mean [OF l(1)] frame_stats_def
    using l(1) by simp
qed

section \<open>Properties\<close>

text \<open>C35. After any sequence of recorded frames the report is that of the last 240, as long as their durations
  add up to less than \<open>2 ^ 53\<close> nanoseconds (104 days), in the doubles that the code computes with: the mean
  and the frame rate (infinite if all frames took no time), the maximum, and the 1% low, which is the element
  number \<open>\<lfloor>0.99 n\<rfloor>\<close> of the sorted durations, counted from one (the first for a single frame); the comment
  in the code says \<open>\<lceil>0.99 n\<rceil>\<close>. The insertion sort on the array is a correct sort.\<close>

theorem frametime_report_correct:
  assumes "length (ft_history ft) = 240" "frames \<noteq> []" "recent = drop (length frames - 240) frames"
    and "sum_list (map unat recent) < 2 ^ 53"
  shows "cellar_frametime_report (fold cellar_frametime_add frames (cellar_frametime_init ft)) = frame_stats recent"
proof -
  let ?ft = "fold cellar_frametime_add frames (cellar_frametime_init ft)"
  have "window (ft_hist (cellar_frametime_init ft)) = []"
    by (simp add: window_def ft_hist_def cellar_frametime_init_def)
  then have "window (ft_hist ?ft) = recent"
    using frame_log.window_fold [OF ft_inv_init [OF assms(1)], of frames]
    by (simp add: assms(3) CELLAR_FRAMETIME_HISTORY_def)
  moreover have "recent \<noteq> []" using assms(2,3) by (simp add: not_le)
  moreover have "ft_cpu_wait_ns (fold cellar_frametime_add fs g) = ft_cpu_wait_ns g \<and>
      ft_gpu_wait_ns (fold cellar_frametime_add fs g) = ft_gpu_wait_ns g \<and>
      ft_translate_wait_ns (fold cellar_frametime_add fs g) = ft_translate_wait_ns g" for fs g
    by (induction fs arbitrary: g) (simp_all add: cellar_frametime_add_def)
  then have "ft_cpu_wait_ns ?ft = 0" "ft_gpu_wait_ns ?ft = 0" "ft_translate_wait_ns ?ft = 0"
    by (simp_all add: cellar_frametime_init_def)
  ultimately show ?thesis
    using assms(4) by (intro report_window frame_log.inv_fold [OF ft_inv_init [OF assms(1)]])
qed

definition frametime_blank :: cellar_frametime where
  "frametime_blank = \<lparr>ft_history = replicate 240 0, ft_count = 0, ft_pos = 0, ft_cpu_wait_ns = 0,
     ft_gpu_wait_ns = 0, ft_translate_wait_ns = 0\<rparr>"

text \<open>Of the frames of 16, 33 and 17 ms the 1% low is 17 ms, where the rounding up of the comment would give
  33 ms.\<close>

theorem frametime_report_correct_witness:
  "fr_low1_ms (cellar_frametime_report
     (fold cellar_frametime_add [16000000, 33000000, 17000000] (cellar_frametime_init frametime_blank))) = 17"
proof -
  have "sort [16000000, 33000000, 17000000 :: u64] = [16000000, 17000000, 33000000]" by simp
  then have "fr_low1_ms (frame_stats [16000000, 33000000, 17000000]) = fl (of_nat 17)"
    by (simp add: frame_stats_def Let_def)
  moreover have "fl (of_nat 17) = of_nat 17" by (rule fl_of_nat) simp
  ultimately show ?thesis
    using frametime_report_correct [OF _ _ refl, of frametime_blank "[16000000, 33000000, 17000000]"]
    by (simp add: frametime_blank_def)
qed

end
