(* ===== verification/Com.thy ===== *)
theory Com
  imports Text Tables
begin

unbundle bit_operations_syntax

text \<open>
  The COM infrastructure, \<^verbatim>\<open>src/com/com.c\<close>: GUID comparison, parsing and formatting, reference
  counting of the default \<^verbatim>\<open>IUnknown\<close>, apartments, the class table, object creation and
  same-process marshalling. Objects live in a heap from addresses to reference counts; a factory
  is a name whose behaviour is an argument. The class table has 32 slots that are never freed, so
  its used part is a list.
\<close>

section \<open>GUIDs\<close>

record cellar_guid =
  data1 :: u32
  data2 :: u16
  data3 :: u16
  data4 :: bytes  \<comment> \<open>eight bytes\<close>

definition CELLAR_IID_IUNKNOWN :: cellar_guid where
  "CELLAR_IID_IUNKNOWN = \<lparr>data1 = 0, data2 = 0, data3 = 0, data4 = [0xC0, 0, 0, 0, 0, 0, 0, 0x46]\<rparr>"

definition CELLAR_CLSID_NULL :: cellar_guid where
  "CELLAR_CLSID_NULL =
     \<lparr>data1 = 0x43454c4c, data2 = 0x4152, data3 = 1, data4 = [0, 0, 0, 0, 0, 0, 0, 1]\<rparr>"

definition cellar_guid_eq :: "cellar_guid option \<Rightarrow> cellar_guid option \<Rightarrow> bool" where
  "cellar_guid_eq a b = (case (a, b) of (Some x, Some y) \<Rightarrow> x = y | _ \<Rightarrow> False)"

definition hexn :: "char \<Rightarrow> nat option" where
  "hexn c =
     (let n = (of_char c :: nat) in
      if 48 \<le> n \<and> n \<le> 57 then Some (n - 48)
      else if 97 \<le> n \<and> n \<le> 102 then Some (n - 97 + 10)
      else if 65 \<le> n \<and> n \<le> 70 then Some (n - 65 + 10)
      else None)"

text \<open>\<open>None\<close>: a character (or the terminator) that is not a hexadecimal digit.\<close>

fun hex_go :: "string \<Rightarrow> nat \<Rightarrow> u32 \<Rightarrow> (u32 \<times> string) option" where
  "hex_go s 0 v = Some (v, s)"
| "hex_go [] (Suc k) v = None"
| "hex_go (c # s) (Suc k) v =
     (case hexn c of None \<Rightarrow> None | Some h \<Rightarrow> hex_go s k (push_bit 4 v OR of_nat h))"

text \<open>On failure the value is 0 and the pointer stays.\<close>

definition hex_run :: "nat \<Rightarrow> string \<Rightarrow> u32 \<times> string" where
  "hex_run nibbles s = (case hex_go s nibbles 0 of None \<Rightarrow> (0, s) | Some r \<Rightarrow> r)"

definition skip_char :: "char \<Rightarrow> string \<Rightarrow> string" where
  "skip_char c s = (case s of x # r \<Rightarrow> if x = c then r else s | [] \<Rightarrow> [])"

fun hex_bytes :: "nat \<Rightarrow> string \<Rightarrow> bytes \<times> string" where
  "hex_bytes 0 s = ([], s)"
| "hex_bytes (Suc k) s =
     (let (v, s1) = hex_run 2 s; (bs, s2) = hex_bytes k s1 in (ucast v # bs, s2))"

definition cellar_guid_parse :: "string option \<Rightarrow> cellar_guid cres" where
  "cellar_guid_parse s =
     (case s of None \<Rightarrow> Err CELLAR_ERR_INVALID_ARGUMENT
      | Some s \<Rightarrow>
          let (d1, p1) = hex_run 8 (skip_char CHR ''{'' s);
              (d2, p2) = hex_run 4 (skip_char CHR ''-'' p1);
              (d3, p3) = hex_run 4 (skip_char CHR ''-'' p2);
              (b1, p4) = hex_bytes 2 (skip_char CHR ''-'' p3);
              (b2, p5) = hex_bytes 6 (skip_char CHR ''-'' p4)
          in Ok \<lparr>data1 = d1, data2 = ucast d2, data3 = ucast d3, data4 = b1 @ b2\<rparr>)"

definition hex_byte :: "u8 \<Rightarrow> string" where
  "hex_byte b = hex_pad_upper 2 (unat b)"

definition cellar_guid_format :: "cellar_guid \<Rightarrow> nat \<Rightarrow> string" where
  "cellar_guid_format g n =
     snprintf_s n (''{'' @ hex_pad_upper 8 (unat (data1 g)) @ ''-'' @ hex_pad_upper 4 (unat (data2 g)) @
       ''-'' @ hex_pad_upper 4 (unat (data3 g)) @ ''-'' @
       concat (map hex_byte (take 2 (data4 g))) @ ''-'' @
       concat (map hex_byte (take 6 (drop 2 (data4 g)))) @ ''}'')"

section \<open>Reference counting\<close>

type_synonym com_heap = "nat \<Rightarrow> u32 option"

text \<open>\<open>None\<close> as a pointer is NULL; an address without an object is a dangling pointer.\<close>

definition iu_addref :: "com_heap \<Rightarrow> nat option \<Rightarrow> (com_heap \<times> u32) cres" where
  "iu_addref h p =
     (case p of None \<Rightarrow> Ok (h, 0)
      | Some a \<Rightarrow> (case h a of None \<Rightarrow> Fault | Some r \<Rightarrow> Ok (h(a \<mapsto> r + 1), r + 1)))"

definition iu_release :: "com_heap \<Rightarrow> nat option \<Rightarrow> (com_heap \<times> u32) cres" where
  "iu_release h p =
     (case p of None \<Rightarrow> Ok (h, 0)
      | Some a \<Rightarrow> (case h a of None \<Rightarrow> Fault
          | Some r \<Rightarrow>
              if r = 0 then Ok (h, 0)
              else if r - 1 = 0 then Ok (h(a := None), 0)
              else Ok (h(a \<mapsto> r - 1), r - 1)))"

text \<open>\<open>Ok (h, None)\<close>: the interface is not supported (result 1).\<close>

definition iu_qi :: "com_heap \<Rightarrow> nat option \<Rightarrow> cellar_guid option \<Rightarrow> bool \<Rightarrow> (com_heap \<times> nat option) cres" where
  "iu_qi h self iid out =
     (case (self, iid) of
        (Some a, Some i) \<Rightarrow>
          if \<not> out then Ok (h, None)
          else if \<not> cellar_guid_eq (Some i) (Some CELLAR_IID_IUNKNOWN) then Ok (h, None)
          else cbind (iu_addref h (Some a)) (\<lambda>(h', _). Ok (h', Some a))
      | _ \<Rightarrow> Ok (h, None))"

section \<open>Apartments and the class table\<close>

datatype cellar_apt = CELLAR_APT_MTA | CELLAR_APT_STA

record class_ent =
  ce_clsid :: cellar_guid
  ce_progid :: string
  ce_fac :: string

record com_state =
  g_inited :: bool
  g_apt :: cellar_apt
  g_classes :: "class_ent list"

definition cellar_com_init :: "cellar_apt \<Rightarrow> com_state \<Rightarrow> cellar_status \<times> com_state" where
  "cellar_com_init apt s =
     (if g_inited s then
        if g_apt s \<noteq> apt then (CELLAR_ERR_INVALID_ARGUMENT, s) else (CELLAR_OK, s)
      else (CELLAR_OK, s\<lparr>g_apt := apt, g_inited := True\<rparr>))"

definition cellar_com_uninit :: "com_state \<Rightarrow> com_state" where
  "cellar_com_uninit s = s\<lparr>g_inited := False\<rparr>"

fun update_class :: "cellar_guid \<Rightarrow> string option \<Rightarrow> string \<Rightarrow> class_ent list \<Rightarrow> class_ent list option" where
  "update_class clsid progid fac [] = None"
| "update_class clsid progid fac (c # cs) =
     (if cellar_guid_eq (Some (ce_clsid c)) (Some clsid) then
        Some (c\<lparr>ce_fac := fac,
                ce_progid := (case progid of None \<Rightarrow> ce_progid c | Some p \<Rightarrow> snprintf_s 64 p)\<rparr> # cs)
      else map_option (\<lambda>r. c # r) (update_class clsid progid fac cs))"

definition cellar_com_register_class ::
    "cellar_guid option \<Rightarrow> string option \<Rightarrow> string option \<Rightarrow> com_state \<Rightarrow> com_state cres" where
  "cellar_com_register_class clsid progid fac s =
     (case (clsid, fac) of
        (Some c, Some f) \<Rightarrow>
          (case update_class c progid f (g_classes s) of
             Some cs \<Rightarrow> Ok (s\<lparr>g_classes := cs\<rparr>)
           | None \<Rightarrow>
               if length (g_classes s) < 32 then
                 Ok (s\<lparr>g_classes := g_classes s @
                        [\<lparr>ce_clsid = c, ce_progid = snprintf_s 64 (case progid of None \<Rightarrow> [] | Some p \<Rightarrow> p),
                          ce_fac = f\<rparr>]\<rparr>)
               else Err CELLAR_ERR_OUT_OF_MEMORY)
      | _ \<Rightarrow> Err CELLAR_ERR_INVALID_ARGUMENT)"

text \<open>What a factory does: the heap it leaves, its status, and the object it stored.\<close>

type_synonym create_result = "com_heap \<times> cellar_status \<times> nat option"

type_synonym factory_sem = "string \<Rightarrow> com_heap \<Rightarrow> create_result"

text \<open>The heap, the status and what \<^verbatim>\<open>*out\<close> holds; \<open>Fault\<close> if a dangling object is touched.\<close>

definition cellar_com_create ::
    "factory_sem \<Rightarrow> cellar_guid option \<Rightarrow> cellar_guid option \<Rightarrow> bool \<Rightarrow> com_state \<Rightarrow> com_heap \<Rightarrow>
       create_result cres" where
  "cellar_com_create call clsid iid out s h =
     (case clsid of None \<Rightarrow> Ok (h, CELLAR_ERR_INVALID_ARGUMENT, None)
      | Some c \<Rightarrow>
          if \<not> out then Ok (h, CELLAR_ERR_INVALID_ARGUMENT, None)
          else if \<not> g_inited s then Ok (h, CELLAR_ERR_INVALID_ARGUMENT, None)
          else (case lookup_by (=) ce_clsid c (g_classes s) of
                  None \<Rightarrow> Ok (h, CELLAR_ERR_NOT_IMPLEMENTED, None)
                | Some e \<Rightarrow>
                    (case call (ce_fac e) h of (h1, st, obj) \<Rightarrow>
                       if st \<noteq> CELLAR_OK then Ok (h1, st, None)
                       else (case (iid, obj) of
                          (Some i, Some a) \<Rightarrow>
                            cbind (iu_qi h1 (Some a) (Some i) True) (\<lambda>(h2, qi).
                              case qi of
                                None \<Rightarrow> cbind (iu_release h2 (Some a))
                                  (\<lambda>(h3, _). Ok (h3, CELLAR_ERR_NOT_IMPLEMENTED, None))
                              | Some q \<Rightarrow> Ok (h2, CELLAR_OK, Some q))
                        | _ \<Rightarrow> Ok (h1, CELLAR_OK, obj)))))"

text \<open>\<open>fresh\<close> is the address the allocator returns, if it does.\<close>

definition null_factory :: "nat option \<Rightarrow> com_heap \<Rightarrow> create_result" where
  "null_factory fresh h =
     (case fresh of None \<Rightarrow> (h, CELLAR_ERR_OUT_OF_MEMORY, None)
      | Some a \<Rightarrow> (h(a \<mapsto> 1), CELLAR_OK, Some a))"

definition cellar_com_register_builtins :: "com_state \<Rightarrow> com_state cres" where
  "cellar_com_register_builtins s =
     cellar_com_register_class (Some CELLAR_CLSID_NULL) (Some ''Cellar.Null'') (Some ''null_factory'') s"

section \<open>Marshalling\<close>

definition com_magic :: bytes where "com_magic = [0x43, 0x4F, 0x4D, 0x31]"

definition cellar_com_marshal :: "com_heap \<Rightarrow> nat option \<Rightarrow> nat \<Rightarrow> (com_heap \<times> bytes) cres" where
  "cellar_com_marshal h obj cap =
     (case obj of None \<Rightarrow> Err CELLAR_ERR_INVALID_ARGUMENT
      | Some a \<Rightarrow>
          if cap < 12 then Err CELLAR_ERR_INVALID_ARGUMENT
          else cbind (iu_addref h (Some a)) (\<lambda>(h', _). Ok (h', com_magic @ wput64 (of_nat a))))"

definition cellar_com_unmarshal :: "bytes option \<Rightarrow> nat cres" where
  "cellar_com_unmarshal buf =
     (case buf of None \<Rightarrow> Err CELLAR_ERR_INVALID_ARGUMENT
      | Some b \<Rightarrow>
          if length b < 12 \<or> take 4 b \<noteq> com_magic then Err CELLAR_ERR_INVALID_ARGUMENT
          else (case cellar_le64 (drop 4 b) of None \<Rightarrow> Fault | Some p \<Rightarrow> Ok (unat p)))"

section \<open>Hexadecimal round trips\<close>

lemma hexn_upper: "d < 16 \<Longrightarrow> hexn (upper_digit_char d) = Some d"
  by (simp add: hexn_def upper_digit_char_def Let_def)

lemma push_bit_and_take_bit: "push_bit 4 (v :: u32) AND take_bit 4 w = 0"
  by (rule bit_word_eqI) (auto simp: bit_simps)

lemma shift_or_nibble: "d < 16 \<Longrightarrow> push_bit 4 (v :: u32) OR of_nat d = v * 16 + of_nat d"
proof -
  assume d: "d < 16"
  have "(of_nat d :: u32) = take_bit 4 (of_nat d)"
    using d by (simp add: take_bit_of_nat take_bit_nat_eq_self)
  then have "push_bit 4 v AND (of_nat d :: u32) = 0"
    by (metis push_bit_and_take_bit)
  then have "push_bit 4 v OR (of_nat d :: u32) = push_bit 4 v + of_nat d"
    by (simp add: disjunctive_add_eq_or)
  then show ?thesis by (simp add: push_bit_eq_mult)
qed

lemma hex_go_digits:
  "(\<forall>d\<in>set ds. d < 16) \<Longrightarrow>
     hex_go (map upper_digit_char ds @ r) (length ds) v =
       Some (foldl (\<lambda>v d. v * 16 + of_nat d) v ds, r)"
  by (induction ds arbitrary: v) (simp_all add: hexn_upper shift_or_nibble)

lemma foldl_of_nat: "foldl (\<lambda>v d. v * 16 + of_nat d) (of_nat a :: u32) ds = of_nat (foldl (\<lambda>v d. v * 16 + d) a ds)"
proof (induction ds arbitrary: a)
  case (Cons d ds)
  have "of_nat a * 16 + of_nat d = (of_nat (a * 16 + d) :: u32)" by simp
  then show ?case using Cons [of "a * 16 + d"] by simp
qed simp

lemma undigits_zeros: "undigits b (replicate k 0 @ ds) = undigits b ds"
  by (induction k) (simp_all add: undigits_def)

lemma hex_run_pad:
  assumes "0 < w" "n < 16 ^ w"
  shows "hex_run w (hex_pad_upper w n @ r) = (of_nat n, r)"
proof -
  let ?ds = "replicate (w - length (digits 16 n)) 0 @ digits 16 n"
  have l: "length ?ds = w" using length_digits [OF assms] by simp
  have zero: "upper_digit_char 0 = CHR ''0''" by code_simp
  have s: "hex_pad_upper w n = map upper_digit_char ?ds"
    using zero by (simp add: hex_pad_upper_def pad_left_def)
  have "hex_go (map upper_digit_char ?ds @ r) (length ?ds) 0 =
      Some (foldl (\<lambda>v d. v * 16 + of_nat d) 0 ?ds, r)"
    by (rule hex_go_digits) (use digits_less [of 16 _ n] in auto)
  moreover have "foldl (\<lambda>v d. v * 16 + of_nat d) (0 :: u32) ?ds = of_nat (undigits 16 ?ds)"
    using foldl_of_nat [of 0 ?ds] by (simp add: undigits_def)
  ultimately show ?thesis
    using undigits_digits [of 16 n] by (simp only: hex_run_def s l undigits_zeros) simp
qed

lemma hex_bytes_format:
  "length bs = k \<Longrightarrow> hex_bytes k (concat (map hex_byte bs) @ r) = (bs, r)"
proof (induction bs arbitrary: k)
  case (Cons b bs)
  have "unat b < 16 ^ 2" using unsigned_less [of b] by simp
  then have h: "hex_run 2 (hex_byte b @ x) = (of_nat (unat b), x)" for x
    unfolding hex_byte_def by (intro hex_run_pad) simp_all
  have u: "(ucast (ucast b :: u32) :: u8) = b"
    by (rule bit_word_eqI) (auto simp: bit_simps)
  show ?case using Cons by (auto simp: h u)
qed simp

lemma length_hex_pad: "0 < w \<Longrightarrow> n < 16 ^ w \<Longrightarrow> length (hex_pad_upper w n) = w"
  using length_digits [of w n 16] by (simp add: hex_pad_upper_def pad_left_def)

lemma length_hex_bytes: "length (concat (map hex_byte bs)) = 2 * length bs"
proof (induction bs)
  case (Cons b bs)
  have "unat b < 16 ^ 2" using unsigned_less [of b] by simp
  then show ?case using Cons length_hex_pad [of 2 "unat b"] by (simp add: hex_byte_def)
qed simp

lemma skip_char_same [simp]: "skip_char c (c # r) = r"
  by (simp add: skip_char_def)

lemma ucast_u16_u32: "(ucast (ucast (x :: u16) :: u32) :: u16) = x"
  by (rule bit_word_eqI) (auto simp: bit_simps)

lemma guid_parse_text:
  assumes "length (data4 g) = 8"
  shows "cellar_guid_parse (Some (''{'' @ hex_pad_upper 8 (unat (data1 g)) @ ''-'' @
       hex_pad_upper 4 (unat (data2 g)) @ ''-'' @ hex_pad_upper 4 (unat (data3 g)) @ ''-'' @
       concat (map hex_byte (take 2 (data4 g))) @ ''-'' @
       concat (map hex_byte (take 6 (drop 2 (data4 g)))) @ ''}'')) = Ok g"
proof -
  have b: "unat (data1 g) < 16 ^ 8" "unat (data2 g) < 16 ^ 4" "unat (data3 g) < 16 ^ 4"
    using unsigned_less [of "data1 g"] unsigned_less [of "data2 g"] unsigned_less [of "data3 g"] by simp_all
  have l: "length (take 2 (data4 g)) = 2" "length (take 6 (drop 2 (data4 g))) = 6" using assms by simp_all
  have d: "take 2 (data4 g) @ take 6 (drop 2 (data4 g)) = data4 g"
    using assms by (simp add: append_take_drop_id)
  show ?thesis
    by (cases g) (use b l d in \<open>simp add: cellar_guid_parse_def hex_run_pad hex_bytes_format ucast_u16_u32\<close>)
qed

section \<open>The class table\<close>

lemma update_class_upsert:
  "update_class c (Some p) f cs =
     (if lookup_by (=) ce_clsid c cs = None then None
      else Some (upsert (=) ce_clsid (\<lambda>x e. e) \<lparr>ce_clsid = c, ce_progid = snprintf_s 64 p, ce_fac = f\<rparr> cs))"
  by (induction cs) (auto simp: cellar_guid_eq_def)

text \<open>Registration of an entry whose program id fits its array.\<close>

definition put_class :: "class_ent \<Rightarrow> com_state \<Rightarrow> com_state cres" where
  "put_class e s =
     (if length (ce_progid e) < 64 then
        cellar_com_register_class (Some (ce_clsid e)) (Some (ce_progid e)) (Some (ce_fac e)) s
      else Err CELLAR_ERR_INVALID_ARGUMENT)"

lemma put_class_upsert:
  assumes "put_class e s = Ok s'"
  shows "g_classes s' = upsert (=) ce_clsid (\<lambda>x e. e) e (g_classes s)"
proof -
  have e: "\<lparr>ce_clsid = ce_clsid e, ce_progid = snprintf_s 64 (ce_progid e), ce_fac = ce_fac e\<rparr> = e"
    using assms by (auto simp: put_class_def snprintf_s_id split: if_splits)
  show ?thesis
    using assms e upsert_fresh [of "(=)" ce_clsid e "g_classes s"]
    by (auto simp: put_class_def cellar_com_register_class_def update_class_upsert split: if_splits)
qed

interpretation class_table: keyed_table "(=)" g_classes ce_clsid "\<lambda>x e. e" put_class
    "\<lambda>s c. lookup_by (=) ce_clsid c (g_classes s)"
  by unfold_locales (auto dest: put_class_upsert)

section \<open>Properties\<close>

text \<open>A GUID printed into a large enough buffer and parsed back is the same GUID.\<close>

theorem guid_roundtrip:
  assumes "length (data4 g) = 8" "39 \<le> n"
  shows "cellar_guid_parse (Some (cellar_guid_format g n)) = Ok g"
proof -
  have b: "unat (data1 g) < 16 ^ 8" "unat (data2 g) < 16 ^ 4" "unat (data3 g) < 16 ^ 4"
    using unsigned_less [of "data1 g"] unsigned_less [of "data2 g"] unsigned_less [of "data3 g"] by simp_all
  have "cellar_guid_format g n = ''{'' @ hex_pad_upper 8 (unat (data1 g)) @ ''-'' @
       hex_pad_upper 4 (unat (data2 g)) @ ''-'' @ hex_pad_upper 4 (unat (data3 g)) @ ''-'' @
       concat (map hex_byte (take 2 (data4 g))) @ ''-'' @
       concat (map hex_byte (take 6 (drop 2 (data4 g)))) @ ''}''"
    unfolding cellar_guid_format_def
    by (rule snprintf_s_id) (use assms b in \<open>simp add: length_hex_pad length_hex_bytes\<close>)
  then show ?thesis using guid_parse_text [OF assms(1)] by simp
qed

theorem guid_roundtrip_witness:
  "cellar_guid_parse (Some (cellar_guid_format CELLAR_CLSID_NULL 40)) = Ok CELLAR_CLSID_NULL"
  by (rule guid_roundtrip) (simp_all add: CELLAR_CLSID_NULL_def)

text \<open>Creating an object of a registered class for \<^verbatim>\<open>IUnknown\<close> leaks a reference: the object
  comes back with a count of 2, one from the factory and one from \<^verbatim>\<open>QueryInterface\<close>, so the
  caller's release does not free it.\<close>

theorem com_create_leaks:
  assumes "call (ce_fac e) h = null_factory (Some a) h"
    and "lookup_by (=) ce_clsid c (g_classes s) = Some e" "g_inited s"
  shows "\<exists>h'. cellar_com_create call (Some c) (Some CELLAR_IID_IUNKNOWN) True s h = Ok (h', CELLAR_OK, Some a) \<and>
    h' a = Some 2 \<and> (\<exists>h''. iu_release h' (Some a) = Ok (h'', 1) \<and> h'' a = Some 1)"
  using assms
  by (simp add: cellar_com_create_def null_factory_def iu_qi_def cellar_guid_eq_def iu_addref_def
      iu_release_def)

theorem com_create_leaks_witness:
  "\<exists>s h'. cellar_com_register_builtins \<lparr>g_inited = True, g_apt = CELLAR_APT_MTA, g_classes = []\<rparr> = Ok s \<and>
     cellar_com_create (\<lambda>f. null_factory (Some 7)) (Some CELLAR_CLSID_NULL) (Some CELLAR_IID_IUNKNOWN) True s
       (\<lambda>_. None) = Ok (h', CELLAR_OK, Some 7) \<and> h' 7 = Some 2"
proof -
  let ?e = "\<lparr>ce_clsid = CELLAR_CLSID_NULL, ce_progid = ''Cellar.Null'', ce_fac = ''null_factory''\<rparr>"
  let ?s = "\<lparr>g_inited = True, g_apt = CELLAR_APT_MTA, g_classes = [?e]\<rparr>"
  have r: "cellar_com_register_builtins \<lparr>g_inited = True, g_apt = CELLAR_APT_MTA, g_classes = []\<rparr> = Ok ?s"
    by (simp add: cellar_com_register_builtins_def cellar_com_register_class_def snprintf_s_def)
  have "\<exists>h'. cellar_com_create (\<lambda>f. null_factory (Some 7)) (Some CELLAR_CLSID_NULL)
      (Some CELLAR_IID_IUNKNOWN) True ?s (\<lambda>_. None) = Ok (h', CELLAR_OK, Some 7) \<and> h' 7 = Some 2 \<and>
      (\<exists>h''. iu_release h' (Some 7) = Ok (h'', 1) \<and> h'' 7 = Some 1)"
    by (rule com_create_leaks [where e = ?e]) simp_all
  then show ?thesis using r by blast
qed

text \<open>Registering a class makes the table answer it with the new factory and leaves every other
  class as it was; the table never holds two entries for one class id.\<close>

theorem class_table_put_get:
  assumes "put_class e s = Ok s'" "unique_keys (=) ce_clsid (g_classes s)"
  shows "lookup_by (=) ce_clsid (ce_clsid e) (g_classes s') = Some e \<and>
    (\<forall>c. c \<noteq> ce_clsid e \<longrightarrow> lookup_by (=) ce_clsid c (g_classes s') = lookup_by (=) ce_clsid c (g_classes s)) \<and>
    unique_keys (=) ce_clsid (g_classes s')"
  using class_table.get_put_same [OF assms(1) refl] class_table.get_put_other [OF assms(1)]
    class_table.put_unique [OF assms]
  by (auto split: option.splits)

theorem class_table_put_get_witness:
  "\<exists>s'. put_class \<lparr>ce_clsid = CELLAR_CLSID_NULL, ce_progid = ''A'', ce_fac = ''f''\<rparr>
      \<lparr>g_inited = True, g_apt = CELLAR_APT_MTA, g_classes = []\<rparr> = Ok s' \<and>
     lookup_by (=) ce_clsid CELLAR_CLSID_NULL (g_classes s') =
       Some \<lparr>ce_clsid = CELLAR_CLSID_NULL, ce_progid = ''A'', ce_fac = ''f''\<rparr>"
proof -
  let ?e = "\<lparr>ce_clsid = CELLAR_CLSID_NULL, ce_progid = ''A'', ce_fac = ''f''\<rparr>"
  let ?s = "\<lparr>g_inited = True, g_apt = CELLAR_APT_MTA, g_classes = []\<rparr>"
  have p: "put_class ?e ?s = Ok \<lparr>g_inited = True, g_apt = CELLAR_APT_MTA, g_classes = [?e]\<rparr>"
    by (simp add: put_class_def cellar_com_register_class_def snprintf_s_def)
  show ?thesis using class_table_put_get [OF p] p by auto
qed

end
