(* ===== verification/Plugin.thy ===== *)
theory Plugin
  imports Tables
begin

text \<open>
  The backend registry, \<^verbatim>\<open>src/plugin/plugin.c\<close>: seven kinds of at most sixteen backends each,
  seeded with defaults on first use, updated by name, and the selection of the best available one.
  A kind is the number of the enumeration. Loading a shared object runs foreign code and is
  represented by the paths that would be opened.
\<close>

section \<open>State\<close>

definition CELLAR_BACKEND_GRAPHICS :: nat where "CELLAR_BACKEND_GRAPHICS = 0"
definition CELLAR_BACKEND_AUDIO :: nat where "CELLAR_BACKEND_AUDIO = 1"
definition CELLAR_BACKEND_INPUT :: nat where "CELLAR_BACKEND_INPUT = 2"
definition CELLAR_BACKEND_NETWORK :: nat where "CELLAR_BACKEND_NETWORK = 3"
definition CELLAR_BACKEND_A11Y :: nat where "CELLAR_BACKEND_A11Y = 4"
definition CELLAR_BACKEND_PRINT :: nat where "CELLAR_BACKEND_PRINT = 5"
definition CELLAR_BACKEND_DEVICE :: nat where "CELLAR_BACKEND_DEVICE = 6"
definition CELLAR_BACKEND_KIND_COUNT :: nat where "CELLAR_BACKEND_KIND_COUNT = 7"
definition CELLAR_MAX_BACKENDS :: nat where "CELLAR_MAX_BACKENDS = 16"

lemmas kinds = CELLAR_BACKEND_GRAPHICS_def CELLAR_BACKEND_AUDIO_def CELLAR_BACKEND_INPUT_def
  CELLAR_BACKEND_NETWORK_def CELLAR_BACKEND_A11Y_def CELLAR_BACKEND_PRINT_def
  CELLAR_BACKEND_DEVICE_def CELLAR_BACKEND_KIND_COUNT_def CELLAR_MAX_BACKENDS_def

record cellar_backend =
  be_name :: string
  be_priority :: int
  be_available :: bool

record backends =
  g_seeded :: bool
  g_backends :: "cellar_backend list list"  \<comment> \<open>one list per kind\<close>

definition backends_start :: backends where
  "backends_start = \<lparr>g_seeded = False, g_backends = replicate CELLAR_BACKEND_KIND_COUNT []\<rparr>"

section \<open>Registration\<close>

fun update_backend :: "string \<Rightarrow> int \<Rightarrow> bool \<Rightarrow> cellar_backend list \<Rightarrow> cellar_backend list option" where
  "update_backend name prio avail [] = None"
| "update_backend name prio avail (b # bs) =
     (if be_name b = name then Some (b\<lparr>be_priority := prio, be_available := avail\<rparr> # bs)
      else map_option (\<lambda>r. b # r) (update_backend name prio avail bs))"

text \<open>\<^verbatim>\<open>cellar_backend_register\<close> once the defaults are there.\<close>

definition register_seeded :: "nat \<Rightarrow> string option \<Rightarrow> int \<Rightarrow> bool \<Rightarrow> backends \<Rightarrow> backends" where
  "register_seeded kind name prio avail s =
     (case name of None \<Rightarrow> s
      | Some n \<Rightarrow>
          if kind \<ge> CELLAR_BACKEND_KIND_COUNT then s
          else
            let bs = g_backends s ! kind in
            case update_backend n prio avail bs of
              Some bs' \<Rightarrow> s\<lparr>g_backends := (g_backends s)[kind := bs']\<rparr>
            | None \<Rightarrow>
                if length bs \<ge> CELLAR_MAX_BACKENDS then s
                else s\<lparr>g_backends := (g_backends s)[kind := bs @
                         [\<lparr>be_name = n, be_priority = prio, be_available = avail\<rparr>]]\<rparr>)"

definition default_backends :: "(nat \<times> string \<times> int \<times> bool) list" where
  "default_backends =
    [(CELLAR_BACKEND_GRAPHICS, ''Vulkan'', 0, True), (CELLAR_BACKEND_GRAPHICS, ''OpenGL'', 1, True),
     (CELLAR_BACKEND_GRAPHICS, ''Software'', 2, True), (CELLAR_BACKEND_AUDIO, ''ALSA'', 0, True),
     (CELLAR_BACKEND_AUDIO, ''PipeWire'', 1, False), (CELLAR_BACKEND_AUDIO, ''WAV'', 2, True),
     (CELLAR_BACKEND_INPUT, ''XInput'', 0, True), (CELLAR_BACKEND_NETWORK, ''Winsock'', 0, True),
     (CELLAR_BACKEND_A11Y, ''AT-SPI'', 0, True), (CELLAR_BACKEND_PRINT, ''CUPS'', 0, False),
     (CELLAR_BACKEND_PRINT, ''File'', 1, True), (CELLAR_BACKEND_DEVICE, ''libusb'', 0, False),
     (CELLAR_BACKEND_DEVICE, ''Stub'', 1, True)]"

definition seed_defaults :: "backends \<Rightarrow> backends" where
  "seed_defaults s =
     (if g_seeded s then s
      else fold (\<lambda>(k, n, p, a). register_seeded k (Some n) p a) default_backends (s\<lparr>g_seeded := True\<rparr>))"

definition cellar_backend_register :: "nat \<Rightarrow> string option \<Rightarrow> int \<Rightarrow> bool \<Rightarrow> backends \<Rightarrow> backends" where
  "cellar_backend_register kind name prio avail s =
     register_seeded kind name prio avail (seed_defaults s)"

definition cellar_backend_set_available :: "string \<Rightarrow> bool \<Rightarrow> backends \<Rightarrow> backends" where
  "cellar_backend_set_available name avail s =
     s\<lparr>g_backends := map (map (\<lambda>b. if be_name b = name then b\<lparr>be_available := avail\<rparr> else b)) (g_backends s)\<rparr>"

section \<open>Selection\<close>

fun pick_loop :: "cellar_backend list \<Rightarrow> cellar_backend option \<Rightarrow> cellar_backend option" where
  "pick_loop [] best = best"
| "pick_loop (b # bs) best =
     (if \<not> be_available b then pick_loop bs best
      else (case best of
              None \<Rightarrow> pick_loop bs (Some b)
            | Some x \<Rightarrow> pick_loop bs (if be_priority b < be_priority x then Some b else Some x)))"

definition cellar_backend_pick :: "nat \<Rightarrow> backends \<Rightarrow> string option \<times> backends" where
  "cellar_backend_pick kind s =
     (let s' = seed_defaults s in
      if kind \<ge> CELLAR_BACKEND_KIND_COUNT then (None, s')
      else (case pick_loop (g_backends s' ! kind) None of
              Some b \<Rightarrow> (Some (be_name b), s')
            | None \<Rightarrow> (if kind = CELLAR_BACKEND_GRAPHICS then (Some ''Software'', s') else (None, s'))))"

definition cellar_backend_list :: "nat \<Rightarrow> bool \<Rightarrow> nat \<Rightarrow> backends \<Rightarrow> cellar_backend list \<times> backends" where
  "cellar_backend_list kind out cap s =
     (let s' = seed_defaults s in
      if kind \<ge> CELLAR_BACKEND_KIND_COUNT \<or> \<not> out then ([], s')
      else (take cap (g_backends s' ! kind), s'))"

section \<open>Plugins\<close>

text \<open>\<open>opened\<close> says whether \<^verbatim>\<open>dlopen\<close> succeeds.\<close>

definition cellar_plugin_load :: "(string \<Rightarrow> bool) \<Rightarrow> string \<Rightarrow> cellar_status" where
  "cellar_plugin_load opened path = (if opened path then CELLAR_OK else CELLAR_ERR_INVALID_ARGUMENT)"

text \<open>The entries of the directory that are tried, in order; \<open>None\<close> as \<open>entries\<close> is a directory
  that does not open.\<close>

definition cellar_plugin_load_dir :: "string option \<Rightarrow> string list option \<Rightarrow> cellar_status \<times> string list" where
  "cellar_plugin_load_dir dir entries =
     (case dir of None \<Rightarrow> (CELLAR_ERR_INVALID_ARGUMENT, [])
      | Some d \<Rightarrow>
          if d = [] then (CELLAR_ERR_INVALID_ARGUMENT, [])
          else (case entries of None \<Rightarrow> (CELLAR_OK, [])
                | Some es \<Rightarrow>
                    (CELLAR_OK, map (\<lambda>e. snprintf_s 1024 (d @ ''/'' @ e))
                       (filter (\<lambda>e. 4 \<le> length e \<and> drop (length e - 3) e = ''.so'') es))))"

section \<open>Facts\<close>

definition backends_inv :: "backends \<Rightarrow> bool" where
  "backends_inv s \<longleftrightarrow> length (g_backends s) = CELLAR_BACKEND_KIND_COUNT \<and>
     (\<forall>bs\<in>set (g_backends s). length bs \<le> CELLAR_MAX_BACKENDS \<and> distinct (map be_name bs))"

lemma update_backend_None_iff: "update_backend n p a bs = None \<longleftrightarrow> n \<notin> set (map be_name bs)"
  by (induction bs) auto

lemma update_backend_names: "update_backend n p a bs = Some bs' \<Longrightarrow> map be_name bs' = map be_name bs"
  by (induction bs arbitrary: bs') (auto split: if_splits)

lemma backends_inv_register [cinv]: "backends_inv s \<Longrightarrow> backends_inv (register_seeded k n p a s)"
proof (cases n)
  case (Some nm)
  assume i: "backends_inv s"
  show ?thesis
  proof (cases "k < CELLAR_BACKEND_KIND_COUNT")
    case True
    let ?bs = "g_backends s ! k"
    have b: "?bs \<in> set (g_backends s)" using i True by (simp add: backends_inv_def)
    have bl: "length ?bs \<le> CELLAR_MAX_BACKENDS" "distinct (map be_name ?bs)"
      using i b by (auto simp: backends_inv_def)
    have upd: "backends_inv (s\<lparr>g_backends := (g_backends s)[k := bs']\<rparr>)"
      if "length bs' \<le> CELLAR_MAX_BACKENDS" "distinct (map be_name bs')" for bs'
      using i that by (auto simp: backends_inv_def dest!: set_update_subset_insert [THEN subsetD])
    show ?thesis
    proof (cases "update_backend nm p a ?bs")
      case None
      then show ?thesis
        using True i upd bl update_backend_None_iff [of nm p a ?bs]
        by (auto simp: register_seeded_def Some Let_def)
    next
      case (Some bs')
      from update_backend_names [OF this] have "map be_name bs' = map be_name ?bs" .
      then have "length bs' = length ?bs" "distinct (map be_name bs')"
        using bl(2) by (metis length_map, simp)
      then show ?thesis using True Some upd [of bs'] bl by (simp add: register_seeded_def \<open>n = Some nm\<close> Let_def)
    qed
  next
    case False
    then show ?thesis using i by (simp add: register_seeded_def Some)
  qed
qed (simp add: register_seeded_def)

lemma backends_inv_seed [cinv]: "backends_inv s \<Longrightarrow> backends_inv (seed_defaults s)"
proof -
  assume i: "backends_inv s"
  then have "backends_inv (s\<lparr>g_seeded := True\<rparr>)" by (simp add: backends_inv_def)
  then have "backends_inv (fold (\<lambda>(k, n, p, a). register_seeded k (Some n) p a) ds (s\<lparr>g_seeded := True\<rparr>))" for ds
    by (induction ds arbitrary: s rule: rev_induct) (auto intro: backends_inv_register)
  then show ?thesis using i by (simp add: seed_defaults_def)
qed

lemma backends_inv_set_available [cinv]:
  "backends_inv s \<Longrightarrow> backends_inv (cellar_backend_set_available n a s)"
  by (auto simp: backends_inv_def cellar_backend_set_available_def comp_def if_distrib cong: if_cong)

text \<open>The selection loop: the best of the available backends, the earliest among equals.\<close>

lemma pick_loop_Some:
  "pick_loop bs (Some x) = Some r \<Longrightarrow>
     (r = x \<or> (r \<in> set bs \<and> be_available r)) \<and> be_priority r \<le> be_priority x \<and>
     (\<forall>b\<in>set bs. be_available b \<longrightarrow> be_priority r \<le> be_priority b)"
proof (induction bs arbitrary: x)
  case Nil
  then show ?case by simp
next
  case (Cons b bs)
  show ?case
  proof (cases "be_available b \<and> be_priority b < be_priority x")
    case True
    then have "pick_loop bs (Some b) = Some r" using Cons.prems by simp
    from Cons.IH [OF this] True show ?thesis by fastforce
  next
    case False
    then have "pick_loop bs (Some x) = Some r" using Cons.prems by (auto split: if_splits)
    from Cons.IH [OF this] False show ?thesis by fastforce
  qed
qed

lemma pick_loop_not_None: "pick_loop bs (Some x) \<noteq> None"
  by (induction bs arbitrary: x) auto

lemma pick_loop_None_iff: "pick_loop bs None = None \<longleftrightarrow> (\<forall>b\<in>set bs. \<not> be_available b)"
  by (induction bs) (auto simp: pick_loop_not_None)

lemma pick_loop_best:
  "pick_loop bs None = Some r \<Longrightarrow>
     r \<in> set bs \<and> be_available r \<and> (\<forall>b\<in>set bs. be_available b \<longrightarrow> be_priority r \<le> be_priority b)"
proof (induction bs)
  case (Cons b bs)
  show ?case
  proof (cases "be_available b")
    case True
    then have "pick_loop bs (Some b) = Some r" using Cons.prems by simp
    from pick_loop_Some [OF this] True show ?thesis by auto
  qed (use Cons in auto)
qed simp

section \<open>Properties\<close>

text \<open>Picking a backend of a kind gives an available one whose priority no available backend of
  that kind beats; only when none is available does it answer nothing, or the built-in software
  renderer for graphics.\<close>

theorem backend_pick_best:
  assumes "kind < CELLAR_BACKEND_KIND_COUNT" "bs = g_backends (seed_defaults s) ! kind"
  shows "(if \<exists>b\<in>set bs. be_available b
     then \<exists>b\<in>set bs. fst (cellar_backend_pick kind s) = Some (be_name b) \<and> be_available b \<and>
            (\<forall>c\<in>set bs. be_available c \<longrightarrow> be_priority b \<le> be_priority c)
     else fst (cellar_backend_pick kind s) =
            (if kind = CELLAR_BACKEND_GRAPHICS then Some ''Software'' else None))"
proof (cases "pick_loop bs None")
  case None
  then show ?thesis
    using assms pick_loop_None_iff [of bs] by (auto simp: cellar_backend_pick_def Let_def)
next
  case (Some r)
  note b = pick_loop_best [OF Some]
  then have "\<exists>b\<in>set bs. be_available b" by blast
  moreover have "fst (cellar_backend_pick kind s) = Some (be_name r)"
    using assms Some by (simp add: cellar_backend_pick_def Let_def)
  ultimately show ?thesis using b by auto
qed

theorem backend_pick_best_witness:
  "fst (cellar_backend_pick CELLAR_BACKEND_AUDIO
     (cellar_backend_set_available ''ALSA'' False (seed_defaults backends_start))) = Some ''WAV''"
proof -
  let ?s = "cellar_backend_set_available ''ALSA'' False (seed_defaults backends_start)"
  have bs: "g_backends (seed_defaults ?s) ! CELLAR_BACKEND_AUDIO =
      [\<lparr>be_name = ''ALSA'', be_priority = 0, be_available = False\<rparr>,
       \<lparr>be_name = ''PipeWire'', be_priority = 1, be_available = False\<rparr>,
       \<lparr>be_name = ''WAV'', be_priority = 2, be_available = True\<rparr>]"
    by code_simp
  show ?thesis
    using backend_pick_best [of CELLAR_BACKEND_AUDIO, OF _ bs [symmetric]] by (simp add: kinds)
qed

end
