(* ===== verification/Service.thy ===== *)
theory Service
  imports Tables
begin

text \<open>
  The service manager, \<^verbatim>\<open>src/service/service.c\<close>: a table of at most 32 services searched by
  name ignoring case, and the start/stop state machine. The entry point of a service is a function
  name; what it does to the table when called is an argument.
\<close>

datatype svc_state = CELLAR_SVC_STOPPED | CELLAR_SVC_START_PENDING | CELLAR_SVC_RUNNING
  | CELLAR_SVC_STOP_PENDING

record cellar_service =
  svc_name :: string
  svc_state :: svc_state
  svc_main :: "string option"
  svc_user_space :: int

definition CELLAR_MAX_SVC :: nat where "CELLAR_MAX_SVC = 32"

type_synonym svc_table = "cellar_service list"

fun update_main :: "string \<Rightarrow> string option \<Rightarrow> svc_table \<Rightarrow> svc_table option" where
  "update_main name m [] = None"
| "update_main name m (s # ss) =
     (if strcasecmp_eq (svc_name s) name then Some (s\<lparr>svc_main := m\<rparr> # ss)
      else map_option (\<lambda>r. s # r) (update_main name m ss))"

definition cellar_svc_register :: "string option \<Rightarrow> string option \<Rightarrow> svc_table \<Rightarrow> svc_table cres" where
  "cellar_svc_register name m t =
     (case name of None \<Rightarrow> Err CELLAR_ERR_INVALID_ARGUMENT
      | Some n \<Rightarrow>
          if n = [] then Err CELLAR_ERR_INVALID_ARGUMENT
          else (case update_main n m t of
                  Some t' \<Rightarrow> Ok t'
                | None \<Rightarrow>
                    if length t \<ge> CELLAR_MAX_SVC then Err CELLAR_ERR_OUT_OF_MEMORY
                    else Ok (t @ [\<lparr>svc_name = snprintf_s 64 n, svc_state = CELLAR_SVC_STOPPED,
                                   svc_main = m, svc_user_space = 1\<rparr>])))"

definition cellar_svc_query :: "string option \<Rightarrow> svc_table \<Rightarrow> cellar_service option" where
  "cellar_svc_query name t =
     (case name of None \<Rightarrow> None | Some n \<Rightarrow> lookup_by strcasecmp_eq svc_name n t)"

text \<open>The index that \<^verbatim>\<open>find\<close> points to.\<close>

fun find_index :: "string \<Rightarrow> svc_table \<Rightarrow> nat option" where
  "find_index n [] = None"
| "find_index n (s # ss) =
     (if strcasecmp_eq (svc_name s) n then Some 0 else map_option Suc (find_index n ss))"

definition set_state :: "nat \<Rightarrow> svc_state \<Rightarrow> svc_table \<Rightarrow> svc_table" where
  "set_state i st t = t[i := (t ! i)\<lparr>svc_state := st\<rparr>]"

definition cellar_svc_start ::
    "(string \<Rightarrow> svc_table \<Rightarrow> svc_table) \<Rightarrow> string option \<Rightarrow> svc_table \<Rightarrow> svc_table cres" where
  "cellar_svc_start run name t =
     (case Option.bind name (\<lambda>n. find_index n t) of
        None \<Rightarrow> Err CELLAR_ERR_INVALID_ARGUMENT
      | Some i \<Rightarrow>
          let t1 = set_state i CELLAR_SVC_START_PENDING t;
              t2 = (case svc_main (t1 ! i) of None \<Rightarrow> t1 | Some f \<Rightarrow> run f t1)
          in Ok (set_state i CELLAR_SVC_RUNNING t2))"

definition cellar_svc_stop :: "string option \<Rightarrow> svc_table \<Rightarrow> svc_table cres" where
  "cellar_svc_stop name t =
     (case Option.bind name (\<lambda>n. find_index n t) of
        None \<Rightarrow> Err CELLAR_ERR_INVALID_ARGUMENT
      | Some i \<Rightarrow> Ok (set_state i CELLAR_SVC_STOPPED (set_state i CELLAR_SVC_STOP_PENDING t)))"

definition cellar_svc_list :: "bool \<Rightarrow> nat \<Rightarrow> svc_table \<Rightarrow> cellar_service list" where
  "cellar_svc_list out cap t = (if \<not> out then [] else take cap t)"

section \<open>Facts\<close>

lemma update_main_upsert:
  "update_main n m t =
     (if lookup_by strcasecmp_eq svc_name n t = None then None
      else Some (upsert strcasecmp_eq svc_name (\<lambda>x e. x\<lparr>svc_main := svc_main e\<rparr>)
        \<lparr>svc_name = n, svc_state = CELLAR_SVC_STOPPED, svc_main = m, svc_user_space = 1\<rparr> t))"
  by (induction t) auto

text \<open>Registration under a name that fits its array.\<close>

definition put_svc :: "cellar_service \<Rightarrow> svc_table \<Rightarrow> svc_table cres" where
  "put_svc e t =
     (if length (svc_name e) < 64 \<and> svc_state e = CELLAR_SVC_STOPPED \<and> svc_user_space e = 1
      then cellar_svc_register (Some (svc_name e)) (svc_main e) t
      else Err CELLAR_ERR_INVALID_ARGUMENT)"

lemma put_svc_upsert:
  assumes "put_svc e t = Ok t'"
  shows "t' = upsert strcasecmp_eq svc_name (\<lambda>x e. x\<lparr>svc_main := svc_main e\<rparr>) e t"
proof -
  obtain n m where e: "e = \<lparr>svc_name = n, svc_state = CELLAR_SVC_STOPPED, svc_main = m, svc_user_space = 1\<rparr>" "length n < 64"
    using assms by (cases e) (auto simp: put_svc_def split: if_splits)
  show ?thesis
    using assms e(2) upsert_fresh [of strcasecmp_eq svc_name e t]
    by (auto simp: e(1) put_svc_def cellar_svc_register_def update_main_upsert snprintf_s_id split: if_splits)
qed

interpretation svc_keys: keyed_table strcasecmp_eq "\<lambda>t. t" svc_name "\<lambda>x e. x\<lparr>svc_main := svc_main e\<rparr>"
    put_svc "\<lambda>t n. lookup_by strcasecmp_eq svc_name n t"
  by unfold_locales (auto dest: put_svc_upsert)

lemma find_index_lookup:
  "(case find_index n t of None \<Rightarrow> lookup_by strcasecmp_eq svc_name n t = None
    | Some i \<Rightarrow> i < length t \<and> lookup_by strcasecmp_eq svc_name n t = Some (t ! i) \<and>
        (\<forall>j < i. \<not> strcasecmp_eq (svc_name (t ! j)) n) \<and> strcasecmp_eq (svc_name (t ! i)) n)"
proof (induction t)
  case (Cons s t)
  show ?case
  proof (cases "strcasecmp_eq (svc_name s) n")
    case False
    then show ?thesis using Cons by (auto split: option.splits simp: less_Suc_eq_0_disj)
  qed simp
qed simp

lemma query_set_state:
  assumes "find_index n t = Some i"
  shows "cellar_svc_query (Some n) (set_state i st t) = Some ((t ! i)\<lparr>svc_state := st\<rparr>)"
  using assms
proof (induction t arbitrary: i)
  case (Cons s t)
  then show ?case by (auto simp: cellar_svc_query_def set_state_def split: if_splits)
qed simp

text \<open>A started service is running and a stopped one is stopped, whatever state it was in, when its
  entry point leaves the table's names alone.\<close>

lemma start_running:
  assumes "cellar_svc_start run (Some n) t = Ok t'" "\<And>f x. map svc_name (run f x) = map svc_name x"
  shows "\<exists>s. cellar_svc_query (Some n) t' = Some s \<and> svc_state s = CELLAR_SVC_RUNNING"
proof -
  from assms(1) obtain i where i: "find_index n t = Some i"
    by (auto simp: cellar_svc_start_def split: option.splits)
  define t1 where "t1 = set_state i CELLAR_SVC_START_PENDING t"
  define t2 where "t2 = (case svc_main (t1 ! i) of None \<Rightarrow> t1 | Some f \<Rightarrow> run f t1)"
  have idx: "map svc_name u = map svc_name v \<Longrightarrow> find_index n u = find_index n v" for u v
  proof (induction u arbitrary: v)
    case (Cons s u)
    then obtain w v' where v: "v = w # v'" "svc_name s = svc_name w" "map svc_name u = map svc_name v'"
      by (cases v) auto
    then show ?case using Cons.IH [OF v(3)] by simp
  qed simp
  have "i < length t" using find_index_lookup [of n t] i by simp
  then have "map svc_name t1 = map svc_name t"
    by (intro nth_equalityI) (auto simp: t1_def set_state_def nth_list_update)
  then have "map svc_name t2 = map svc_name t" using assms(2) by (auto simp: t2_def split: option.splits)
  then have "find_index n t2 = Some i" using idx i by metis
  moreover have "t' = set_state i CELLAR_SVC_RUNNING t2"
    unfolding t2_def t1_def using assms(1) i by (simp add: cellar_svc_start_def Let_def)
  ultimately show ?thesis using query_set_state by simp
qed

lemma stop_stopped:
  assumes "cellar_svc_stop (Some n) t = Ok t'"
  shows "\<exists>s. cellar_svc_query (Some n) t' = Some s \<and> svc_state s = CELLAR_SVC_STOPPED"
proof -
  from assms obtain i where i: "find_index n t = Some i"
    and t': "t' = set_state i CELLAR_SVC_STOPPED (set_state i CELLAR_SVC_STOP_PENDING t)"
    by (auto simp: cellar_svc_stop_def split: option.splits)
  have "i < length t" using find_index_lookup [of n t] i by simp
  then have "t' = set_state i CELLAR_SVC_STOPPED t" by (simp add: t' set_state_def)
  then show ?thesis using query_set_state [OF i] by simp
qed

end
