(* ===== verification/PE.thy ===== *)
theory PE
  imports Util
begin

unbundle bit_operations_syntax

text \<open>
  \<^verbatim>\<open>include/cellar/pe.h\<close>, the image model of \<^verbatim>\<open>include/cellar/loader.h\<close> and
  \<^verbatim>\<open>src/loader/pe.c\<close>: the packed on-disk structures with their decoders, header and section
  table parsing, and the translation of relative virtual addresses. The host is
  little-endian, so overlaying a packed struct on the buffer decodes its fields as
  \<^verbatim>\<open>cellar_le16/32/64\<close> do. Pointers into the mapped image or the file are offsets; a
  decoder returns \<open>None\<close> where the overlay would leave the buffer.
\<close>

section \<open>On-disk structures\<close>

definition CELLAR_PE_DOS_SIGNATURE :: u16 where "CELLAR_PE_DOS_SIGNATURE = 0x5A4D"
definition CELLAR_PE_NT_SIGNATURE :: u32 where "CELLAR_PE_NT_SIGNATURE = 0x00004550"
definition CELLAR_PE_MAGIC_PE32 :: u16 where "CELLAR_PE_MAGIC_PE32 = 0x10b"
definition CELLAR_PE_MAGIC_PE32_PLUS :: u16 where "CELLAR_PE_MAGIC_PE32_PLUS = 0x20b"
definition CELLAR_PE_F_DLL :: u16 where "CELLAR_PE_F_DLL = 0x2000"

lemmas pe_consts = CELLAR_PE_DOS_SIGNATURE_def CELLAR_PE_NT_SIGNATURE_def
  CELLAR_PE_MAGIC_PE32_def CELLAR_PE_MAGIC_PE32_PLUS_def CELLAR_PE_F_DLL_def

record pe_dos_header =
  e_magic :: u16
  e_middle :: bytes  \<comment> \<open>the 29 uninterpreted words from \<open>e_cblp\<close> to \<open>e_res2\<close>\<close>
  e_lfanew :: u32

record pe_coff_header =
  coff_machine :: u16
  coff_number_of_sections :: u16
  coff_time_date_stamp :: u32
  coff_pointer_to_symbol_table :: u32
  coff_number_of_symbols :: u32
  coff_size_of_optional_header :: u16
  coff_characteristics :: u16

record pe_section =
  ps_name :: bytes
  ps_virtual_size :: u32
  ps_virtual_address :: u32
  ps_size_of_raw_data :: u32
  ps_pointer_to_raw_data :: u32
  ps_pointer_to_relocations :: u32
  ps_pointer_to_line_numbers :: u32
  ps_number_of_relocations :: u16
  ps_number_of_line_numbers :: u16
  ps_characteristics :: u32

record pe_data_directory =
  dd_virtual_address :: u32
  dd_size :: u32

record pe_optional_header =
  opt_magic :: u16
  opt_linker :: bytes
  opt_size_of_code :: u32
  opt_size_of_initialized_data :: u32
  opt_size_of_uninitialized_data :: u32
  opt_address_of_entry_point :: u32
  opt_base_of_code :: u32
  opt_base_of_data :: u32
  opt_image_base :: u64
  opt_section_alignment :: u32
  opt_file_alignment :: u32
  opt_versions :: bytes  \<comment> \<open>six version words and \<open>win32_version_value\<close>\<close>
  opt_size_of_image :: u32
  opt_size_of_headers :: u32
  opt_checksum :: u32
  opt_subsystem :: u16
  opt_dll_characteristics :: u16
  opt_size_of_stack_reserve :: u64
  opt_size_of_stack_commit :: u64
  opt_size_of_heap_reserve :: u64
  opt_size_of_heap_commit :: u64
  opt_loader_flags :: u32
  opt_number_of_rva_and_sizes :: u32
  opt_data_directory :: "pe_data_directory list"

definition sizeof_dos :: nat where "sizeof_dos = 64"
definition sizeof_coff :: nat where "sizeof_coff = 20"
definition sizeof_section :: nat where "sizeof_section = 40"
definition sizeof_opt :: nat where "sizeof_opt = 244"

lemmas sizeof_defs = sizeof_dos_def sizeof_coff_def sizeof_section_def sizeof_opt_def

definition u16_at :: "bytes \<Rightarrow> nat \<Rightarrow> u16 option" where "u16_at b k = cellar_le16 (drop k b)"
definition u32_at :: "bytes \<Rightarrow> nat \<Rightarrow> u32 option" where "u32_at b k = cellar_le32 (drop k b)"
definition u64_at :: "bytes \<Rightarrow> nat \<Rightarrow> u64 option" where "u64_at b k = cellar_le64 (drop k b)"

definition dos_at :: "bytes \<Rightarrow> nat \<Rightarrow> pe_dos_header option" where
  "dos_at b k =
    do { m \<leftarrow> u16_at b k; mid \<leftarrow> mem_read (k + 2) 58 b; l \<leftarrow> u32_at b (k + 60);
         Some \<lparr>e_magic = m, e_middle = mid, e_lfanew = l\<rparr> }"

definition coff_at :: "bytes \<Rightarrow> nat \<Rightarrow> pe_coff_header option" where
  "coff_at b k =
    do { m \<leftarrow> u16_at b k; n \<leftarrow> u16_at b (k + 2); t \<leftarrow> u32_at b (k + 4); p \<leftarrow> u32_at b (k + 8);
         s \<leftarrow> u32_at b (k + 12); z \<leftarrow> u16_at b (k + 16); c \<leftarrow> u16_at b (k + 18);
         Some \<lparr>coff_machine = m, coff_number_of_sections = n, coff_time_date_stamp = t,
               coff_pointer_to_symbol_table = p, coff_number_of_symbols = s,
               coff_size_of_optional_header = z, coff_characteristics = c\<rparr> }"

definition section_at :: "bytes \<Rightarrow> nat \<Rightarrow> pe_section option" where
  "section_at b k =
    do { n \<leftarrow> mem_read k 8 b; vs \<leftarrow> u32_at b (k + 8); va \<leftarrow> u32_at b (k + 12);
         rs \<leftarrow> u32_at b (k + 16); rp \<leftarrow> u32_at b (k + 20); pr \<leftarrow> u32_at b (k + 24);
         pl \<leftarrow> u32_at b (k + 28); nr \<leftarrow> u16_at b (k + 32); nl \<leftarrow> u16_at b (k + 34);
         ch \<leftarrow> u32_at b (k + 36);
         Some \<lparr>ps_name = n, ps_virtual_size = vs, ps_virtual_address = va, ps_size_of_raw_data = rs,
               ps_pointer_to_raw_data = rp, ps_pointer_to_relocations = pr,
               ps_pointer_to_line_numbers = pl, ps_number_of_relocations = nr,
               ps_number_of_line_numbers = nl, ps_characteristics = ch\<rparr> }"

definition data_directory_at :: "bytes \<Rightarrow> nat \<Rightarrow> pe_data_directory option" where
  "data_directory_at b k =
    do { a \<leftarrow> u32_at b k; s \<leftarrow> u32_at b (k + 4); Some \<lparr>dd_virtual_address = a, dd_size = s\<rparr> }"

fun collect :: "('a \<Rightarrow> 'b option) \<Rightarrow> 'a list \<Rightarrow> 'b list option" where
  "collect f [] = Some []"
| "collect f (x # xs) = do { y \<leftarrow> f x; ys \<leftarrow> collect f xs; Some (y # ys) }"

text \<open>The fields of the packed struct follow each other without padding: \<open>base_of_data\<close> at 24,
  a 64-bit \<open>image_base\<close> at 28, \<open>size_of_image\<close> at 60, the directories from 116.\<close>

definition opt_of :: "bytes \<Rightarrow> pe_optional_header option" where
  "opt_of b =
    do { m \<leftarrow> u16_at b 0; lk \<leftarrow> mem_read 2 2 b; sc \<leftarrow> u32_at b 4; si \<leftarrow> u32_at b 8;
         su \<leftarrow> u32_at b 12; ep \<leftarrow> u32_at b 16; bc \<leftarrow> u32_at b 20; bd \<leftarrow> u32_at b 24;
         ib \<leftarrow> u64_at b 28; sa \<leftarrow> u32_at b 36; fa \<leftarrow> u32_at b 40; ve \<leftarrow> mem_read 44 16 b;
         im \<leftarrow> u32_at b 60; hd \<leftarrow> u32_at b 64; ck \<leftarrow> u32_at b 68; ss \<leftarrow> u16_at b 72;
         dc \<leftarrow> u16_at b 74; sr \<leftarrow> u64_at b 76; st \<leftarrow> u64_at b 84; hr \<leftarrow> u64_at b 92;
         hc \<leftarrow> u64_at b 100; lf \<leftarrow> u32_at b 108; nr \<leftarrow> u32_at b 112;
         dd \<leftarrow> collect (\<lambda>i. data_directory_at b (116 + 8 * i)) [0..<16];
         Some \<lparr>opt_magic = m, opt_linker = lk, opt_size_of_code = sc,
               opt_size_of_initialized_data = si, opt_size_of_uninitialized_data = su,
               opt_address_of_entry_point = ep, opt_base_of_code = bc, opt_base_of_data = bd,
               opt_image_base = ib, opt_section_alignment = sa, opt_file_alignment = fa,
               opt_versions = ve, opt_size_of_image = im, opt_size_of_headers = hd,
               opt_checksum = ck, opt_subsystem = ss, opt_dll_characteristics = dc,
               opt_size_of_stack_reserve = sr, opt_size_of_stack_commit = st,
               opt_size_of_heap_reserve = hr, opt_size_of_heap_commit = hc,
               opt_loader_flags = lf, opt_number_of_rva_and_sizes = nr,
               opt_data_directory = dd\<rparr> }"

section \<open>The image model (include/cellar/loader.h)\<close>

record section_view =
  sv_name :: bytes
  sv_virtual_address :: u32
  sv_virtual_size :: u32
  sv_raw_offset :: u32
  sv_raw_size :: u32
  sv_characteristics :: u32
  sv_mapped :: "nat option"

text \<open>\<open>imp_module\<close> and \<open>imp_name\<close> are the offsets in the mapped image that the pointers point to.\<close>

record cellar_import =
  imp_module :: nat
  imp_name :: "nat option"
  imp_ordinal :: u16
  imp_resolved :: "string option"

record cellar_image =
  img_raw :: "bytes option"
  img_raw_size :: nat
  img_dos :: pe_dos_header
  img_coff :: pe_coff_header
  img_opt :: pe_optional_header
  img_sections :: "section_view list"
  img_mapped :: "bytes option"
  img_mapped_size :: nat
  img_imports :: "cellar_import list"
  img_export_names :: "string option list option"
  img_export_name_count :: nat
  img_is_dll :: bool
  img_sections_mapped :: bool
  img_imports_parsed :: bool
  img_exports_parsed :: bool
  img_relocs_parsed :: bool

section \<open>Header and section-table parsing\<close>

definition view_of :: "pe_section \<Rightarrow> section_view" where
  "view_of s = \<lparr>sv_name = ps_name s, sv_virtual_address = ps_virtual_address s,
     sv_virtual_size = ps_virtual_size s, sv_raw_offset = ps_pointer_to_raw_data s,
     sv_raw_size = ps_size_of_raw_data s, sv_characteristics = ps_characteristics s,
     sv_mapped = None\<rparr>"

definition or_fault :: "'a option \<Rightarrow> 'a cres" where
  "or_fault x = (case x of None \<Rightarrow> Fault | Some y \<Rightarrow> Ok y)"

text \<open>The optional header is a zeroed struct over which as many bytes as the file declares (and
  the struct holds) are copied.\<close>

definition opt_bytes :: "bytes \<Rightarrow> nat \<Rightarrow> nat \<Rightarrow> bytes option" where
  "opt_bytes data off sz =
     map_option (\<lambda>b. b @ replicate (sizeof_opt - length b) 0) (mem_read off (min sz sizeof_opt) data)"

definition parse_tail ::
    "(nat \<Rightarrow> bool) \<Rightarrow> bytes \<Rightarrow> pe_dos_header \<Rightarrow> pe_coff_header \<Rightarrow> nat \<Rightarrow> cellar_image cres" where
  "parse_tail alloc data dos coff opt_off =
     (let len = length data; osz = unat (coff_size_of_optional_header coff);
          nsec = unat (coff_number_of_sections coff) in
      if len < opt_off + osz \<or> osz < 2 then Err CELLAR_ERR_PE_TRUNCATED
      else cbind (or_fault (Option.bind (opt_bytes data opt_off osz) opt_of)) (\<lambda>opt.
        if opt_magic opt \<noteq> CELLAR_PE_MAGIC_PE32 \<and> opt_magic opt \<noteq> CELLAR_PE_MAGIC_PE32_PLUS
        then Err CELLAR_ERR_PE_BAD_MAGIC
        else
          let sec_off = opt_off + osz in
          if len < sec_off + nsec * sizeof_section then Err CELLAR_ERR_PE_TRUNCATED
          else if nsec > 0 \<and> \<not> alloc nsec then Err CELLAR_ERR_OUT_OF_MEMORY
          else cbind (or_fault (collect (\<lambda>i. section_at data (sec_off + i * sizeof_section)) [0..<nsec]))
            (\<lambda>secs. Ok \<lparr>img_raw = Some data, img_raw_size = len, img_dos = dos, img_coff = coff,
               img_opt = opt, img_sections = map view_of secs, img_mapped = None,
               img_mapped_size = 0, img_imports = [], img_export_names = None,
               img_export_name_count = 0,
               img_is_dll = (coff_characteristics coff AND CELLAR_PE_F_DLL \<noteq> 0),
               img_sections_mapped = False, img_imports_parsed = False,
               img_exports_parsed = False, img_relocs_parsed = False\<rparr>)))"

text \<open>\<open>alloc\<close> says whether the section array is granted; \<open>None\<close> is the NULL buffer.\<close>

definition cellar_parse_headers :: "(nat \<Rightarrow> bool) \<Rightarrow> bytes option \<Rightarrow> cellar_image cres" where
  "cellar_parse_headers alloc data =
     (case data of None \<Rightarrow> Err CELLAR_ERR_INVALID_ARGUMENT
      | Some d \<Rightarrow>
          if length d < sizeof_dos then Err CELLAR_ERR_PE_TRUNCATED
          else cbind (or_fault (dos_at d 0)) (\<lambda>dos.
            if e_magic dos \<noteq> CELLAR_PE_DOS_SIGNATURE then Err CELLAR_ERR_PE_NOT_PE
            else
              let nt_off = unat (e_lfanew dos) in
              if nt_off > length d - 4 - sizeof_coff then Err CELLAR_ERR_PE_TRUNCATED
              else cbind (or_fault (u32_at d nt_off)) (\<lambda>sig.
                if sig \<noteq> CELLAR_PE_NT_SIGNATURE then Err CELLAR_ERR_PE_NOT_PE
                else cbind (or_fault (coff_at d (nt_off + 4))) (\<lambda>coff.
                  parse_tail alloc d dos coff (nt_off + 4 + sizeof_coff)))))"

section \<open>RVA translation\<close>

definition in_section :: "u32 \<Rightarrow> section_view \<Rightarrow> bool" where
  "in_section rva s \<longleftrightarrow>
     unat (sv_virtual_address s) \<le> unat rva \<and>
     unat rva < unat (sv_virtual_address s) + max (unat (sv_virtual_size s)) (unat (sv_raw_size s))"

text \<open>\<^verbatim>\<open>section_for_rva\<close>: the first section that contains the address.\<close>

definition section_for_rva :: "cellar_image \<Rightarrow> u32 \<Rightarrow> section_view option" where
  "section_for_rva img rva = List.find (in_section rva) (img_sections img)"

definition cellar_image_rva :: "cellar_image \<Rightarrow> u32 \<Rightarrow> nat option" where
  "cellar_image_rva img rva =
     (case img_mapped img of None \<Rightarrow> None
      | Some _ \<Rightarrow>
          if rva < opt_size_of_headers (img_opt img) then Some (unat rva)
          else (case section_for_rva img rva of None \<Rightarrow> None | Some _ \<Rightarrow> Some (unat rva)))"

definition cellar_image_rva_raw :: "cellar_image \<Rightarrow> u32 \<Rightarrow> nat option" where
  "cellar_image_rva_raw img rva =
     (case img_raw img of None \<Rightarrow> None
      | Some _ \<Rightarrow>
          if rva < opt_size_of_headers (img_opt img) then Some (unat rva)
          else (case section_for_rva img rva of None \<Rightarrow> None
                | Some s \<Rightarrow>
                    let delta = rva - sv_virtual_address s in
                    if delta < sv_raw_size s then Some (unat (sv_raw_offset s) + unat delta)
                    else None))"

text \<open>\<open>Ok None\<close> is the result \<open>false\<close>, \<open>Ok (Some bs)\<close> the copied bytes with result \<open>true\<close>. The length is
  a \<^verbatim>\<open>size_t\<close> and so is the sum that is compared with the size of the mapping: it wraps.\<close>

definition cellar_image_read :: "cellar_image \<Rightarrow> u32 \<Rightarrow> u64 \<Rightarrow> bytes option cres" where
  "cellar_image_read img rva len =
     (if len = 0 then Ok None
      else (case cellar_image_rva img rva of None \<Rightarrow> Ok None
            | Some p \<Rightarrow>
                if unat (ucast rva + len) > img_mapped_size img then Ok None
                else (case Option.bind (img_mapped img) (mem_read p (unat len)) of
                        None \<Rightarrow> Fault | Some bs \<Rightarrow> Ok (Some bs))))"

section \<open>Decoders: when they stay inside the buffer\<close>

lemma u16_at_None_iff: "u16_at b k = None \<longleftrightarrow> length b < k + 2"
  by (auto simp: u16_at_def cellar_le16_None_iff)

lemma u32_at_None_iff: "u32_at b k = None \<longleftrightarrow> length b < k + 4"
  by (auto simp: u32_at_def cellar_le32_None_iff)

lemma u64_at_None_iff: "u64_at b k = None \<longleftrightarrow> length b < k + 8"
  by (auto simp: u64_at_def cellar_le64_None_iff)

lemma mem_read_None_iff: "mem_read off n b = None \<longleftrightarrow> length b < off + n"
  by (auto simp: mem_read_def)

lemma u16_at_ex: "k + 2 \<le> length b \<Longrightarrow> \<exists>v. u16_at b k = Some v"
  using u16_at_None_iff [of b k] by (cases "u16_at b k") auto

lemma u32_at_ex: "k + 4 \<le> length b \<Longrightarrow> \<exists>v. u32_at b k = Some v"
  using u32_at_None_iff [of b k] by (cases "u32_at b k") auto

lemma u64_at_ex: "k + 8 \<le> length b \<Longrightarrow> \<exists>v. u64_at b k = Some v"
  using u64_at_None_iff [of b k] by (cases "u64_at b k") auto

lemma mem_read_ex: "k + n \<le> length b \<Longrightarrow> \<exists>v. mem_read k n b = Some v"
  by (simp add: mem_read_def)

lemma bind_ex: "\<exists>x. m = Some x \<Longrightarrow> (\<And>x. m = Some x \<Longrightarrow> \<exists>y. f x = Some y) \<Longrightarrow> \<exists>y. Option.bind m f = Some y"
  by auto

lemma dos_at_ex: "k + 64 \<le> length b \<Longrightarrow> \<exists>v. dos_at b k = Some v"
  unfolding dos_at_def by (intro bind_ex u16_at_ex mem_read_ex u32_at_ex) auto

lemma coff_at_ex: "k + 20 \<le> length b \<Longrightarrow> \<exists>v. coff_at b k = Some v"
  unfolding coff_at_def by (intro bind_ex u16_at_ex u32_at_ex) auto

lemma section_at_ex: "k + 40 \<le> length b \<Longrightarrow> \<exists>v. section_at b k = Some v"
  unfolding section_at_def by (intro bind_ex u16_at_ex u32_at_ex mem_read_ex) auto

lemma data_directory_at_ex: "k + 8 \<le> length b \<Longrightarrow> \<exists>v. data_directory_at b k = Some v"
  unfolding data_directory_at_def by (intro bind_ex u32_at_ex) auto

lemma collect_ex: "(\<And>x. x \<in> set xs \<Longrightarrow> \<exists>y. f x = Some y) \<Longrightarrow> \<exists>ys. collect f xs = Some ys"
proof (induction xs)
  case (Cons x xs)
  then obtain y ys where "f x = Some y" "collect f xs = Some ys" by fastforce
  then show ?case by simp
qed simp

lemma collect_Some: "collect f xs = Some ys \<longleftrightarrow> list_all2 (\<lambda>x y. f x = Some y) xs ys"
  by (induction xs arbitrary: ys) (auto simp: Option.bind_eq_Some_conv list_all2_Cons1)

lemma opt_of_ex: "length b = sizeof_opt \<Longrightarrow> \<exists>v. opt_of b = Some v"
  unfolding opt_of_def sizeof_opt_def
  by (intro bind_ex u16_at_ex u32_at_ex u64_at_ex mem_read_ex collect_ex data_directory_at_ex) auto

lemma opt_bytes_Some:
  "off + sz \<le> length data \<Longrightarrow> \<exists>b. opt_bytes data off sz = Some b \<and> length b = sizeof_opt"
  by (auto simp: opt_bytes_def mem_read_def)

lemma or_fault_Fault_iff: "or_fault x = Fault \<longleftrightarrow> x = None"
  by (cases x) (auto simp: or_fault_def)

lemma or_fault_Ok_iff: "or_fault x = Ok y \<longleftrightarrow> x = Some y"
  by (cases x) (auto simp: or_fault_def)

lemma parse_tail_no_fault:
  "parse_tail alloc data dos coff opt_off \<noteq> Fault"
proof (cases "length data < opt_off + unat (coff_size_of_optional_header coff)
    \<or> unat (coff_size_of_optional_header coff) < 2")
  case True
  then show ?thesis by (simp add: parse_tail_def Let_def)
next
  case False
  let ?osz = "unat (coff_size_of_optional_header coff)"
  let ?sec_off = "opt_off + ?osz"
  from False obtain b where b: "opt_bytes data opt_off ?osz = Some b" "length b = sizeof_opt"
    using opt_bytes_Some [of opt_off ?osz data] by auto
  then have opt: "Option.bind (opt_bytes data opt_off ?osz) opt_of \<noteq> None"
    using opt_of_ex by fastforce
  have secs: "collect (\<lambda>i. section_at data (?sec_off + i * sizeof_section)) [0..<n] \<noteq> None"
    if "\<not> length data < ?sec_off + n * sizeof_section" for n
  proof -
    have "\<exists>ys. collect (\<lambda>i. section_at data (?sec_off + i * sizeof_section)) [0..<n] = Some ys"
    proof (intro collect_ex section_at_ex)
      fix i assume "i \<in> set [0..<n]"
      then have "i * 40 + 40 \<le> n * 40" by (simp add: Suc_leI)
      then show "?sec_off + i * sizeof_section + 40 \<le> length data"
        using that by (simp add: sizeof_section_def)
    qed
    then show ?thesis by auto
  qed
  have step: "Let (?sec_off) (\<lambda>so. if length data < so + n * sizeof_section then Err e1
      else if c then Err e2
      else cbind (or_fault (collect (\<lambda>i. section_at data (so + i * sizeof_section)) [0..<n]))
        (\<lambda>x. Ok (g x))) \<noteq> (Fault :: cellar_image cres)" for n e1 e2 c g
    using secs by (simp add: Let_def cbind_Fault_iff or_fault_Fault_iff)
  show ?thesis
    using opt step
    by (simp add: parse_tail_def Let_def if_not_P [OF False] cbind_Fault_iff or_fault_Fault_iff)
qed

lemma parse_headers_no_fault: "cellar_parse_headers alloc data \<noteq> Fault"
proof (cases data)
  case None
  then show ?thesis by (simp add: cellar_parse_headers_def)
next
  case (Some d)
  have dos: "dos_at d 0 \<noteq> None" if "\<not> length d < sizeof_dos"
    using that dos_at_ex [of 0 d] by (auto simp: sizeof_dos_def)
  have nt: "u32_at d n \<noteq> None" "coff_at d (n + 4) \<noteq> None"
    if "\<not> length d < sizeof_dos" "\<not> n > length d - 4 - sizeof_coff" for n
    using that u32_at_ex [of n d] coff_at_ex [of "n + 4" d] by (auto simp: sizeof_defs)
  show ?thesis
    using dos nt
    by (simp add: cellar_parse_headers_def Some Let_def parse_tail_no_fault cbind_Fault_iff
        or_fault_Fault_iff)
qed

text \<open>What a successful parse has checked: both signatures, the magic, and that the section
  table of the image is the decoded table of the file.\<close>

definition headers_of :: "bytes \<Rightarrow> cellar_image \<Rightarrow> bool" where
  "headers_of d img \<longleftrightarrow>
     (\<exists>dos coff ob opt secs.
        let nt = unat (e_lfanew dos); osz = unat (coff_size_of_optional_header coff);
            nsec = unat (coff_number_of_sections coff) in
        dos_at d 0 = Some dos \<and> e_magic dos = CELLAR_PE_DOS_SIGNATURE \<and>
        u32_at d nt = Some CELLAR_PE_NT_SIGNATURE \<and> coff_at d (nt + 4) = Some coff \<and>
        opt_bytes d (nt + 24) osz = Some ob \<and> opt_of ob = Some opt \<and>
        opt_magic opt \<in> {CELLAR_PE_MAGIC_PE32, CELLAR_PE_MAGIC_PE32_PLUS} \<and>
        nt + 24 + osz + nsec * sizeof_section \<le> length d \<and>
        length secs = nsec \<and>
        (\<forall>i < nsec. section_at d (nt + 24 + osz + i * sizeof_section) = Some (secs ! i)) \<and>
        img_dos img = dos \<and> img_coff img = coff \<and> img_opt img = opt \<and>
        img_sections img = map view_of secs \<and> img_raw img = Some d \<and>
        img_raw_size img = length d \<and> img_mapped img = None \<and> img_mapped_size img = 0 \<and>
        img_imports img = [] \<and> img_export_names img = None)"

lemma parse_tail_headers:
  assumes "parse_tail alloc d dos coff off = Ok img"
    and "dos_at d 0 = Some dos" "e_magic dos = CELLAR_PE_DOS_SIGNATURE"
    and "u32_at d (unat (e_lfanew dos)) = Some CELLAR_PE_NT_SIGNATURE"
    and "coff_at d (unat (e_lfanew dos) + 4) = Some coff" "off = unat (e_lfanew dos) + 24"
  shows "headers_of d img"
proof -
  let ?osz = "unat (coff_size_of_optional_header coff)"
  let ?nsec = "unat (coff_number_of_sections coff)"
  from assms(1) obtain opt secs where
    o: "Option.bind (opt_bytes d off ?osz) opt_of = Some opt"
      "opt_magic opt \<in> {CELLAR_PE_MAGIC_PE32, CELLAR_PE_MAGIC_PE32_PLUS}" and
    s: "off + ?osz + ?nsec * sizeof_section \<le> length d"
      "collect (\<lambda>i. section_at d (off + ?osz + i * sizeof_section)) [0..<?nsec] = Some secs" and
    i: "img_dos img = dos" "img_coff img = coff" "img_opt img = opt"
      "img_sections img = map view_of secs" "img_raw img = Some d" "img_raw_size img = length d"
      "img_mapped img = None" "img_mapped_size img = 0" "img_imports img = []"
      "img_export_names img = None"
    by (auto simp: parse_tail_def Let_def cbind_Ok_iff or_fault_Ok_iff split: if_splits)
  from o obtain ob where ob: "opt_bytes d off ?osz = Some ob" "opt_of ob = Some opt"
    by (auto simp: Option.bind_eq_Some_conv)
  from s(2) have l: "length secs = ?nsec"
    and e: "\<forall>i < ?nsec. section_at d (off + ?osz + i * sizeof_section) = Some (secs ! i)"
    by (auto simp: collect_Some list_all2_conv_all_nth)
  show ?thesis
    unfolding headers_of_def Let_def
    by (rule exI [of _ dos], rule exI [of _ coff], rule exI [of _ ob], rule exI [of _ opt],
        rule exI [of _ secs]) (use assms o ob s l e i in auto)
qed

lemma parse_headers_headers_of:
  assumes "cellar_parse_headers alloc (Some d) = Ok img"
  shows "headers_of d img"
proof -
  from assms obtain dos coff where
    "dos_at d 0 = Some dos" "e_magic dos = CELLAR_PE_DOS_SIGNATURE"
    "u32_at d (unat (e_lfanew dos)) = Some CELLAR_PE_NT_SIGNATURE"
    "coff_at d (unat (e_lfanew dos) + 4) = Some coff"
    "parse_tail alloc d dos coff (unat (e_lfanew dos) + 4 + sizeof_coff) = Ok img"
    by (auto simp: cellar_parse_headers_def Let_def cbind_Ok_iff or_fault_Ok_iff split: if_splits)
  then show ?thesis
    by (intro parse_tail_headers [of alloc d dos coff "unat (e_lfanew dos) + 4 + sizeof_coff"])
      (simp_all add: sizeof_coff_def)
qed

section \<open>The error status of the header parser\<close>

text \<open>The status as the PE format states it, read off the file at its absolute offsets: the DOS
  signature at 0, the offset of the NT headers at 60, the section count 6 and the size of the optional
  header 20 bytes after the NT signature, the magic 24 bytes after it. \<open>None\<close> accepts.\<close>

definition header_verdict :: "(nat \<Rightarrow> bool) \<Rightarrow> bytes \<Rightarrow> cellar_status option" where
  "header_verdict alloc d =
     (let nt = unat (the (u32_at d 60)); nsec = unat (the (u16_at d (nt + 6)));
          osz = unat (the (u16_at d (nt + 20))) in
      if length d < 64 then Some CELLAR_ERR_PE_TRUNCATED
      else if u16_at d 0 \<noteq> Some 0x5A4D then Some CELLAR_ERR_PE_NOT_PE
      else if length d < nt + 24 then Some CELLAR_ERR_PE_TRUNCATED
      else if u32_at d nt \<noteq> Some 0x4550 then Some CELLAR_ERR_PE_NOT_PE
      else if osz < 2 \<or> length d < nt + 24 + osz then Some CELLAR_ERR_PE_TRUNCATED
      else if u16_at d (nt + 24) \<notin> {Some 0x10b, Some 0x20b} then Some CELLAR_ERR_PE_BAD_MAGIC
      else if length d < nt + 24 + osz + 40 * nsec then Some CELLAR_ERR_PE_TRUNCATED
      else if nsec > 0 \<and> \<not> alloc nsec then Some CELLAR_ERR_OUT_OF_MEMORY else None)"

lemma dos_at_fields: "dos_at d k = Some dos \<Longrightarrow> u16_at d k = Some (e_magic dos) \<and> u32_at d (k + 60) = Some (e_lfanew dos)"
  by (auto simp: dos_at_def Option.bind_eq_Some_conv)

lemma coff_at_fields:
  "coff_at d k = Some coff \<Longrightarrow> u16_at d (k + 2) = Some (coff_number_of_sections coff) \<and>
     u16_at d (k + 16) = Some (coff_size_of_optional_header coff)"
  by (auto simp: coff_at_def Option.bind_eq_Some_conv)

lemma opt_of_magic:
  assumes "opt_bytes d off sz = Some b" "opt_of b = Some opt" "2 \<le> sz"
  shows "u16_at d off = Some (opt_magic opt)"
proof -
  have "u16_at b 0 = Some (opt_magic opt)" using assms(2) by (auto simp: opt_of_def Option.bind_eq_Some_conv)
  moreover have "u16_at b 0 = u16_at d off"
    using assms(1,3) by (auto simp: opt_bytes_def mem_read_def u16_at_def sizeof_opt_def cellar_le16_append
        cellar_le16_take split: if_splits)
  ultimately show ?thesis by simp
qed

lemma collect_sections:
  assumes "off + n * sizeof_section \<le> length d"
  shows "collect (\<lambda>i. section_at d (off + i * sizeof_section)) [0..<n] \<noteq> None"
proof -
  have "\<exists>ys. collect (\<lambda>i. section_at d (off + i * sizeof_section)) [0..<n] = Some ys"
  proof (intro collect_ex section_at_ex)
    fix i assume "i \<in> set [0..<n]"
    then have "i * 40 + 40 \<le> n * 40" by (simp add: Suc_leI)
    then show "off + i * sizeof_section + 40 \<le> length d" using assms by (simp add: sizeof_section_def)
  qed
  then show ?thesis by auto
qed

fun err_of :: "'a cres \<Rightarrow> cellar_status option" where
  "err_of (Err e) = Some e"
| "err_of _ = None"

lemma parse_tail_verdict:
  assumes "coff_at d (nt + 4) = Some coff"
  shows "err_of (parse_tail alloc d dos coff (nt + 24)) =
    (let nsec = unat (the (u16_at d (nt + 6))); osz = unat (the (u16_at d (nt + 20))) in
      if osz < 2 \<or> length d < nt + 24 + osz then Some CELLAR_ERR_PE_TRUNCATED
      else if u16_at d (nt + 24) \<notin> {Some 0x10b, Some 0x20b} then Some CELLAR_ERR_PE_BAD_MAGIC
      else if length d < nt + 24 + osz + 40 * nsec then Some CELLAR_ERR_PE_TRUNCATED
      else if nsec > 0 \<and> \<not> alloc nsec then Some CELLAR_ERR_OUT_OF_MEMORY else None)"
proof -
  define osz where "osz = unat (coff_size_of_optional_header coff)"
  define nsec where "nsec = unat (coff_number_of_sections coff)"
  have f: "the (u16_at d (nt + 6)) = coff_number_of_sections coff"
    "the (u16_at d (nt + 20)) = coff_size_of_optional_header coff"
    using coff_at_fields [OF assms] by (simp_all add: add.commute)
  show ?thesis
  proof (cases "osz < 2 \<or> length d < nt + 24 + osz")
    case True
    then show ?thesis by (auto simp: f Let_def parse_tail_def osz_def)
  next
    case False
    then obtain b opt where b: "opt_bytes d (nt + 24) osz = Some b" "opt_of b = Some opt"
      using opt_bytes_Some [of "nt + 24" osz d] opt_of_ex by fastforce
    have m: "u16_at d (nt + 24) = Some (opt_magic opt)" using opt_of_magic [OF b] False by simp
    have c: "collect (\<lambda>i. section_at d (nt + 24 + osz + i * sizeof_section)) [0..<nsec] \<noteq> None"
      if "\<not> length d < nt + 24 + osz + nsec * sizeof_section"
      using collect_sections [of "nt + 24 + osz" nsec d] that by simp
    show ?thesis
      using False b m c
      by (auto simp: f Let_def parse_tail_def osz_def [symmetric] nsec_def [symmetric] or_fault_def pe_consts
          sizeof_section_def mult.commute)
  qed
qed

lemma parse_headers_err: "err_of (cellar_parse_headers alloc (Some d)) = header_verdict alloc d"
proof (cases "length d < 64")
  case True
  then show ?thesis by (simp add: cellar_parse_headers_def header_verdict_def sizeof_defs Let_def)
next
  case False
  then obtain dos where dos: "dos_at d 0 = Some dos" using dos_at_ex [of 0 d] by auto
  note fd = dos_at_fields [OF dos, simplified]
  let ?nt = "unat (e_lfanew dos)"
  show ?thesis
  proof (cases "length d < ?nt + 24")
    case True
    then show ?thesis using False dos fd
      by (auto simp: cellar_parse_headers_def header_verdict_def sizeof_defs Let_def or_fault_def pe_consts)
  next
    case small: False
    then obtain sg coff where s: "u32_at d ?nt = Some sg" "coff_at d (?nt + 4) = Some coff"
      using u32_at_ex [of ?nt d] coff_at_ex [of "?nt + 4" d] by auto
    have "?nt \<le> length d - 24" using small by simp
    then have "err_of (cellar_parse_headers alloc (Some d)) =
        (if e_magic dos \<noteq> 0x5A4D then Some CELLAR_ERR_PE_NOT_PE
         else if sg \<noteq> 0x4550 then Some CELLAR_ERR_PE_NOT_PE
         else err_of (parse_tail alloc d dos coff (?nt + 24)))"
      using False dos s by (simp add: cellar_parse_headers_def sizeof_defs or_fault_def pe_consts add.commute)
    then show ?thesis using False small fd s
      by (simp add: header_verdict_def parse_tail_verdict [OF s(2)] Let_def)
  qed
qed

lemma parse_ok_iff: "is_ok (cellar_parse_headers alloc (Some d)) \<longleftrightarrow> header_verdict alloc d = None"
  using parse_headers_err [of alloc d] parse_headers_no_fault [of alloc "Some d"]
  by (cases "cellar_parse_headers alloc (Some d)") (auto dest: sym)

section \<open>RVA translation: facts\<close>

text \<open>An image is well formed when the mapped buffer has the recorded size.\<close>

definition image_wf :: "cellar_image \<Rightarrow> bool" where
  "image_wf img \<longleftrightarrow>
     (case img_mapped img of None \<Rightarrow> img_mapped_size img = 0 | Some m \<Rightarrow> length m = img_mapped_size img)"

lemma image_rva_offset: "cellar_image_rva img rva = Some p \<Longrightarrow> p = unat rva"
  by (auto simp: cellar_image_rva_def split: option.splits if_splits)

lemma image_rva_mapped: "cellar_image_rva img rva = Some p \<Longrightarrow> img_mapped img \<noteq> None"
  by (auto simp: cellar_image_rva_def split: option.splits)

text \<open>The checked sum is the mathematical one unless it leaves 64 bits, which needs a length of at
  least \<open>2 ^ 64 - 2 ^ 32 + 1\<close>.\<close>

lemma unat_u32_lt: "unat (x :: u32) < 2 ^ 32" and unat_u64_lt: "unat (y :: u64) < 2 ^ 64"
  using unsigned_less [of x, where ?'a = nat] unsigned_less [of y, where ?'a = nat] by simp_all

lemma unat_read_end: "unat (ucast (rva :: u32) + (len :: u64)) =
    (if unat rva + unat len < 2 ^ 64 then unat rva + unat len else unat rva + unat len - 2 ^ 64)"
proof -
  note b = unat_u32_lt [of rva] unat_u64_lt [of len]
  have u: "unat (ucast rva :: u64) = unat rva" using b(1) by (simp add: unsigned_ucast_eq take_bit_nat_eq_self)
  have "unat (ucast rva + len) = (unat rva + unat len) mod 2 ^ 64" by (simp add: unat_word_ariths u)
  then show ?thesis using b by (simp add: mod_if [of "unat rva + unat len"])
qed

lemma unat_read_end_small: "unat len \<le> 2 ^ 32 \<Longrightarrow> unat (ucast (rva :: u32) + (len :: u64)) = unat rva + unat len"
  using unat_u32_lt [of rva] by (simp add: unat_read_end)

lemma image_read_no_fault: "image_wf img \<Longrightarrow> unat len \<le> 2 ^ 32 \<Longrightarrow> cellar_image_read img rva len \<noteq> Fault"
  by (auto simp: cellar_image_read_def image_wf_def mem_read_def unat_read_end_small
      dest: image_rva_offset image_rva_mapped split: option.splits)

lemma image_read_copied:
  assumes "cellar_image_read img rva len = Ok (Some bs)"
  shows "len \<noteq> 0 \<and> length bs = unat len \<and>
    (\<exists>m. img_mapped img = Some m \<and> mem_read (unat rva) (unat len) m = Some bs)"
  using assms
  by (auto simp: cellar_image_read_def Option.bind_eq_Some_conv length_mem_read
      dest: image_rva_offset split: if_splits option.splits)

lemma image_read_Some:
  assumes "cellar_image_read img rva len = Ok (Some bs)" "unat len \<le> 2 ^ 32"
  shows "0 < unat len \<and> length bs = unat len \<and> unat rva + unat len \<le> img_mapped_size img \<and>
    (\<exists>m. img_mapped img = Some m \<and> mem_read (unat rva) (unat len) m = Some bs)"
proof -
  have "unat rva + unat len \<le> img_mapped_size img"
    using assms by (auto simp: cellar_image_read_def unat_read_end_small split: if_splits option.splits)
  then show ?thesis using image_read_copied [OF assms(1)] by (auto simp: unat_gt_0)
qed

lemma image_read_Fault_iff:
  assumes "image_wf img" "img_mapped_size img < 2 ^ 64"
  shows "cellar_image_read img rva len = Fault \<longleftrightarrow> cellar_image_rva img rva \<noteq> None \<and>
    2 ^ 64 \<le> unat rva + unat len \<and> unat rva + unat len - 2 ^ 64 \<le> img_mapped_size img"
proof (cases "cellar_image_rva img rva")
  case (Some p)
  then obtain m where m: "img_mapped img = Some m" "p = unat rva" using image_rva_mapped image_rva_offset by blast
  then have l: "length m = img_mapped_size img" using assms(1) by (simp add: image_wf_def)
  have z: "len = 0 \<longleftrightarrow> unat len = 0" by (simp add: unat_eq_0)
  show ?thesis
    using unat_u32_lt [of rva] assms(2)
    by (auto simp: cellar_image_read_def Some m l mem_read_def unat_read_end)
qed (simp add: cellar_image_read_def)

lemma image_rva_raw_rva:
  "cellar_image_rva_raw img rva = Some q \<Longrightarrow> img_mapped img \<noteq> None \<Longrightarrow>
     cellar_image_rva img rva = Some (unat rva)"
  by (auto simp: cellar_image_rva_raw_def cellar_image_rva_def split: option.splits if_splits)

section \<open>Properties\<close>

text \<open>C7. The header parser never reads outside the buffer it is given, whatever the bytes are
  and whatever the allocator answers: every malformed input ends in an error status.\<close>

theorem parse_headers_memory_safe: "cellar_parse_headers alloc data \<noteq> Fault"
  by (rule parse_headers_no_fault)

text \<open>C8. The status of every rejected buffer: the parser returns an error exactly when the checks of the PE
  format, read at their absolute offsets in the file, fail, and its code is that of the first check that fails.\<close>

theorem parse_headers_errors:
  "cellar_parse_headers alloc (Some d) = Err e \<longleftrightarrow> header_verdict alloc d = Some e"
  using parse_headers_err [of alloc d] by (cases "cellar_parse_headers alloc (Some d)") auto

text \<open>C6. A buffer that the header parser accepts carries both signatures and a known magic, its
  section table lies inside the buffer, and the image's headers and section views are the
  decoded bytes of the file.\<close>

theorem parse_headers_correct:
  assumes "cellar_parse_headers alloc (Some d) = Ok img"
  shows "headers_of d img"
  using assms by (rule parse_headers_headers_of)

text \<open>A minimal PE: DOS header with \<open>e_lfanew = 64\<close>, NT signature, COFF header without
  sections, and a two-byte optional header.\<close>

definition tiny_pe :: bytes where
  "tiny_pe = wput16 0x5A4D @ replicate 58 0 @ wput32 64 @ wput32 0x4550 @ wput16 0x14c @ wput16 0 @
     replicate 12 0 @ wput16 2 @ wput16 0x2000 @ wput16 0x10b"

lemma tiny_pe_ok: "is_ok (cellar_parse_headers (\<lambda>_. True) (Some tiny_pe))"
  unfolding parse_ok_iff by code_simp

theorem parse_headers_correct_witness:
  "\<exists>img. cellar_parse_headers (\<lambda>_. True) (Some tiny_pe) = Ok img \<and> headers_of tiny_pe img"
proof -
  obtain img where "cellar_parse_headers (\<lambda>_. True) (Some tiny_pe) = Ok img"
    using tiny_pe_ok by (cases "cellar_parse_headers (\<lambda>_. True) (Some tiny_pe)") auto
  then show ?thesis using parse_headers_correct by blast
qed

text \<open>C9. The exact safety of the checked read, for every address and every \<^verbatim>\<open>size_t\<close> length: on a
  well-formed image it leaves the mapping if and only if the address translates and the sum of address and
  length wraps 64 bits to a value inside the mapping; every other call that succeeds returns exactly the
  requested bytes of the mapping, and it succeeds whenever the bytes are there.\<close>

theorem image_read_safe:
  assumes "image_wf img" "img_mapped_size img < 2 ^ 64"
  shows "(cellar_image_read img rva len = Fault \<longleftrightarrow> cellar_image_rva img rva \<noteq> None \<and>
      2 ^ 64 \<le> unat rva + unat len \<and> unat rva + unat len - 2 ^ 64 \<le> img_mapped_size img) \<and>
    (cellar_image_read img rva len = Ok (Some bs) \<longleftrightarrow> cellar_image_rva img rva \<noteq> None \<and> len \<noteq> 0 \<and>
      (\<exists>m. img_mapped img = Some m \<and> unat rva + unat len \<le> length m \<and>
           bs = take (unat len) (drop (unat rva) m)))"
proof -
  have "cellar_image_read img rva len = Ok (Some bs)"
    if "cellar_image_rva img rva \<noteq> None" "len \<noteq> 0" "img_mapped img = Some m"
      "unat rva + unat len \<le> length m" "bs = take (unat len) (drop (unat rva) m)" for m
  proof -
    have "length m = img_mapped_size img" using assms(1) that(3) by (simp add: image_wf_def)
    then have "unat (ucast rva + len) \<le> img_mapped_size img" using that(4) assms(2) by (simp add: unat_read_end)
    moreover have "cellar_image_rva img rva = Some (unat rva)"
      using that(1) image_rva_offset [of img rva] by (cases "cellar_image_rva img rva") simp_all
    ultimately show ?thesis using that by (simp add: cellar_image_read_def mem_read_def)
  qed
  moreover have "cellar_image_rva img rva \<noteq> None" if "cellar_image_read img rva len = Ok (Some bs)"
    using that by (auto simp: cellar_image_read_def split: if_splits option.splits)
  ultimately show ?thesis
    using image_read_Fault_iff [OF assms, of rva len] image_read_copied [of img rva len bs]
    by (auto simp: mem_read_def split: if_splits)
qed

definition blank_opt :: pe_optional_header where
  "blank_opt = \<lparr>opt_magic = 0, opt_linker = [], opt_size_of_code = 0,
     opt_size_of_initialized_data = 0, opt_size_of_uninitialized_data = 0,
     opt_address_of_entry_point = 0, opt_base_of_code = 0, opt_base_of_data = 0,
     opt_image_base = 0, opt_section_alignment = 0, opt_file_alignment = 0, opt_versions = [],
     opt_size_of_image = 0, opt_size_of_headers = 0, opt_checksum = 0, opt_subsystem = 0,
     opt_dll_characteristics = 0, opt_size_of_stack_reserve = 0, opt_size_of_stack_commit = 0,
     opt_size_of_heap_reserve = 0, opt_size_of_heap_commit = 0, opt_loader_flags = 0,
     opt_number_of_rva_and_sizes = 0,
     opt_data_directory = replicate 16 \<lparr>dd_virtual_address = 0, dd_size = 0\<rparr>\<rparr>"

text \<open>An image whose 16 mapped bytes are headers, for evaluating reads.\<close>

definition demo_image :: cellar_image where
  "demo_image = \<lparr>img_raw = None, img_raw_size = 0,
     img_dos = \<lparr>e_magic = 0, e_middle = [], e_lfanew = 0\<rparr>,
     img_coff = \<lparr>coff_machine = 0, coff_number_of_sections = 0, coff_time_date_stamp = 0,
        coff_pointer_to_symbol_table = 0, coff_number_of_symbols = 0,
        coff_size_of_optional_header = 0, coff_characteristics = 0\<rparr>,
     img_opt = blank_opt\<lparr>opt_size_of_headers := 16\<rparr>, img_sections = [],
     img_mapped = Some [0,1,2,3,4,5,6,7,8,9,10,11,12,13,14,15], img_mapped_size = 16,
     img_imports = [], img_export_names = None, img_export_name_count = 0, img_is_dll = False,
     img_sections_mapped = True, img_imports_parsed = False, img_exports_parsed = False,
     img_relocs_parsed = False\<rparr>"

theorem image_read_safe_witness:
  "cellar_image_read demo_image 4 3 = Ok (Some [4, 5, 6]) \<and>
   cellar_image_read demo_image 4 0xFFFFFFFFFFFFFFFE = Fault"
proof -
  have wf: "image_wf demo_image" "img_mapped_size demo_image < 2 ^ 64"
    by (simp_all add: image_wf_def demo_image_def)
  have r: "cellar_image_rva demo_image 4 \<noteq> None" by (simp add: cellar_image_rva_def demo_image_def)
  show ?thesis
    using r image_read_safe [OF wf, of 4 3 "[4, 5, 6]"] image_read_safe [OF wf, of 4 "0xFFFFFFFFFFFFFFFE"]
    by (simp add: demo_image_def)
qed

end
