(* ===== verification/Registry.thy ===== *)
theory Registry
  imports Tables
begin

text \<open>
  The Win32 export registry: \<^verbatim>\<open>src/win32/api.c\<close>, the export tables of
  \<^verbatim>\<open>src/win32/mod_*.c\<close> and the bootstrap \<^verbatim>\<open>src/win32/init.c\<close>. A function pointer is
  represented by the name of the C function it points to.
\<close>

section \<open>Modules and the registry array\<close>

record cellar_export_entry =
  ex_name :: string
  ex_fn :: string

record cellar_module =
  mod_name :: string
  mod_exports :: "cellar_export_entry list"

record registry =
  g_modules :: "cellar_module list"
  g_module_cap :: nat

definition registry_empty :: registry where
  "registry_empty = \<lparr>g_modules = [], g_module_cap = 0\<rparr>"

text \<open>
  \<open>realloc_ok n\<close> says whether the allocator grants an array of \<open>n\<close> descriptors; a failed
  growth drops the module. \<open>None\<close> is the NULL descriptor.
\<close>

definition cellar_win32_register_module ::
    "(nat \<Rightarrow> bool) \<Rightarrow> cellar_module option \<Rightarrow> registry \<Rightarrow> registry" where
  "cellar_win32_register_module realloc_ok m r =
     (case m of None \<Rightarrow> r
      | Some md \<Rightarrow>
          if length (g_modules r) = g_module_cap r then
            let ncap = (if g_module_cap r \<noteq> 0 then g_module_cap r * 2 else 8) in
            if \<not> realloc_ok ncap then r
            else r\<lparr>g_modules := g_modules r @ [md], g_module_cap := ncap\<rparr>
          else r\<lparr>g_modules := g_modules r @ [md]\<rparr>)"

section \<open>Lookups\<close>

text \<open>The text before the last dot, as \<^verbatim>\<open>strrchr\<close> finds it.\<close>

definition module_stem :: "string \<Rightarrow> string" where
  "module_stem a = (case rsplit_at CHR ''.'' a of None \<Rightarrow> a | Some (b, e) \<Rightarrow> b)"

definition module_name_eq :: "string \<Rightarrow> string \<Rightarrow> bool" where
  "module_name_eq a b =
     (let a' = module_stem a; b' = module_stem b in
      if length a' \<noteq> length b' then False
      else list_all (\<lambda>(x, y). tolower_c x = tolower_c y) (zip a' b'))"

definition cellar_win32_find_module :: "registry \<Rightarrow> string option \<Rightarrow> cellar_module option" where
  "cellar_win32_find_module r name =
     (case name of None \<Rightarrow> None
      | Some n \<Rightarrow> lookup_by module_name_eq mod_name n (g_modules r))"

definition cellar_win32_module_count :: "registry \<Rightarrow> nat" where
  "cellar_win32_module_count r = length (g_modules r)"

definition cellar_win32_module_at :: "registry \<Rightarrow> nat \<Rightarrow> cellar_module option" where
  "cellar_win32_module_at r i =
     (if cellar_win32_module_count r \<le> i then None else Some (g_modules r ! i))"

definition cellar_win32_export_exists :: "registry \<Rightarrow> string option \<Rightarrow> string option \<Rightarrow> bool" where
  "cellar_win32_export_exists r module fn =
     (case (cellar_win32_find_module r module, fn) of
        (Some m, Some f) \<Rightarrow> list_ex (\<lambda>e. ex_name e = f) (mod_exports m)
      | _ \<Rightarrow> False)"

definition cellar_win32_lookup :: "registry \<Rightarrow> string option \<Rightarrow> string option \<Rightarrow> string option" where
  "cellar_win32_lookup r module fn =
     (case (cellar_win32_find_module r module, fn) of
        (Some m, Some f) \<Rightarrow> map_option ex_fn (List.find (\<lambda>e. ex_name e = f) (mod_exports m))
      | _ \<Rightarrow> None)"

definition cellar_win32_resolve ::
    "registry \<Rightarrow> string option \<Rightarrow> string option \<Rightarrow> u16 \<Rightarrow> string option" where
  "cellar_win32_resolve r module fn ordinal =
     (case fn of
        Some f \<Rightarrow> (case cellar_win32_lookup r module (Some f) of Some p \<Rightarrow> Some p | None \<Rightarrow> None)
      | None \<Rightarrow> None)"

section \<open>The built-in modules\<close>

definition exports_of :: "(string \<times> string) list \<Rightarrow> cellar_export_entry list" where
  "exports_of xs = map (\<lambda>(n, f). \<lparr>ex_name = n, ex_fn = f\<rparr>) xs"

definition k_kernel32_module :: cellar_module where
  "k_kernel32_module = \<lparr>mod_name = ''KERNEL32.dll'', mod_exports = exports_of
    [(''ExitProcess'', ''cellar_ExitProcess''), (''GetStdHandle'', ''cellar_GetStdHandle''),
     (''WriteFile'', ''cellar_WriteFile''), (''GetModuleHandleA'', ''cellar_GetModuleHandleA''),
     (''LoadLibraryA'', ''cellar_LoadLibraryA''), (''FreeLibrary'', ''cellar_FreeLibrary''),
     (''GetProcAddress'', ''cellar_GetProcAddress''), (''GetLastError'', ''cellar_GetLastError''),
     (''SetLastError'', ''cellar_SetLastError''), (''Sleep'', ''cellar_Sleep'')]\<rparr>"

definition k_ntdll_module :: cellar_module where
  "k_ntdll_module = \<lparr>mod_name = ''ntdll.dll'', mod_exports = exports_of
    [(''RtlGetVersion'', ''cellar_RtlGetVersion''),
     (''NtQueryInformationProcess'', ''cellar_NtQueryInformationProcess'')]\<rparr>"

definition k_user32_module :: cellar_module where
  "k_user32_module = \<lparr>mod_name = ''USER32.dll'', mod_exports = exports_of
    [(''MessageBoxA'', ''cellar_MessageBoxA''), (''GetDesktopWindow'', ''cellar_GetDesktopWindow''),
     (''GetForegroundWindow'', ''cellar_GetForegroundWindow''),
     (''GetSystemMetrics'', ''cellar_GetSystemMetrics'')]\<rparr>"

definition k_advapi32_module :: cellar_module where
  "k_advapi32_module = \<lparr>mod_name = ''ADVAPI32.dll'', mod_exports = exports_of
    [(''RegOpenKeyExA'', ''cellar_RegOpenKeyExA''), (''RegSetValueExA'', ''cellar_RegSetValueExA''),
     (''RegQueryValueExA'', ''cellar_RegQueryValueExA''), (''RegCloseKey'', ''cellar_RegCloseKey'')]\<rparr>"

definition k_shell32_module :: cellar_module where
  "k_shell32_module = \<lparr>mod_name = ''SHELL32.dll'', mod_exports = exports_of
    [(''SHGetFolderPathA'', ''cellar_SHGetFolderPathA''), (''ShellExecuteA'', ''cellar_ShellExecuteA'')]\<rparr>"

definition k_ole32_module :: cellar_module where
  "k_ole32_module = \<lparr>mod_name = ''ole32.dll'', mod_exports = exports_of
    [(''CoInitializeEx'', ''cellar_CoInitializeEx''), (''CoUninitialize'', ''cellar_CoUninitialize''),
     (''CoCreateInstance'', ''cellar_CoCreateInstance'')]\<rparr>"

definition k_comdlg32_module :: cellar_module where
  "k_comdlg32_module = \<lparr>mod_name = ''comdlg32.dll'', mod_exports = exports_of
    [(''GetOpenFileNameA'', ''cellar_GetOpenFileNameA''), (''GetSaveFileNameA'', ''cellar_GetSaveFileNameA'')]\<rparr>"

definition k_gdi32_module :: cellar_module where
  "k_gdi32_module = \<lparr>mod_name = ''gdi32.dll'', mod_exports = exports_of
    [(''CreateCompatibleDC'', ''cellar_CreateCompatibleDC''), (''DeleteDC'', ''cellar_DeleteDC''),
     (''GetDeviceCaps'', ''cellar_GetDeviceCaps'')]\<rparr>"

definition k_ws2_32_module :: cellar_module where
  "k_ws2_32_module = \<lparr>mod_name = ''ws2_32.dll'', mod_exports = exports_of
    [(''WSAStartup'', ''cellar_WSAStartup''), (''WSACleanup'', ''cellar_WSACleanup''),
     (''socket'', ''cellar_socket''), (''closesocket'', ''cellar_closesocket''),
     (''htons'', ''cellar_htons_w'')]\<rparr>"

definition k_version_module :: cellar_module where
  "k_version_module = \<lparr>mod_name = ''version.dll'', mod_exports = exports_of
    [(''GetFileVersionInfoSizeA'', ''cellar_GetFileVersionInfoSizeA''),
     (''GetFileVersionInfoA'', ''cellar_GetFileVersionInfoA''),
     (''GetVersionExA'', ''cellar_GetVersionExA'')]\<rparr>"

definition k_winmm_module :: cellar_module where
  "k_winmm_module = \<lparr>mod_name = ''WINMM.dll'', mod_exports = exports_of
    [(''waveOutGetNumDevs'', ''cellar_waveOutGetNumDevs''),
     (''waveOutGetDevCaps'', ''cellar_waveOutGetDevCaps''), (''waveOutOpen'', ''cellar_waveOutOpen''),
     (''waveOutClose'', ''cellar_waveOutClose''),
     (''waveOutPrepareHeader'', ''cellar_waveOutPrepareHeader''),
     (''waveOutUnprepareHeader'', ''cellar_waveOutUnprepareHeader''),
     (''waveOutWrite'', ''cellar_waveOutWrite''), (''waveOutReset'', ''cellar_waveOutReset''),
     (''waveOutGetPosition'', ''cellar_waveOutGetPosition''), (''PlaySoundA'', ''cellar_PlaySoundA''),
     (''timeGetTime'', ''cellar_timeGetTime''), (''timeBeginPeriod'', ''cellar_timeBeginPeriod''),
     (''timeEndPeriod'', ''cellar_timeEndPeriod'')]\<rparr>"

text \<open>The registrations of \<^verbatim>\<open>cellar_win32_init\<close>, in its order.\<close>

definition init_modules :: "cellar_module list" where
  "init_modules = [k_kernel32_module, k_ntdll_module, k_user32_module, k_advapi32_module,
     k_shell32_module, k_ole32_module, k_comdlg32_module, k_gdi32_module, k_ws2_32_module,
     k_version_module, k_winmm_module]"

definition cellar_win32_init :: "(nat \<Rightarrow> bool) \<Rightarrow> registry \<Rightarrow> registry" where
  "cellar_win32_init realloc_ok r =
     fold (\<lambda>m. cellar_win32_register_module realloc_ok (Some m)) init_modules r"

section \<open>Facts\<close>

text \<open>The array invariant: the descriptors fit the allocated capacity.\<close>

definition registry_inv :: "registry \<Rightarrow> bool" where
  "registry_inv r \<longleftrightarrow> length (g_modules r) \<le> g_module_cap r"

lemma registry_inv_empty [cinv]: "registry_inv registry_empty"
  by (simp add: registry_inv_def registry_empty_def)

lemma registry_inv_register [cinv]:
  "registry_inv r \<Longrightarrow> registry_inv (cellar_win32_register_module ok m r)"
  by (cases "length (g_modules r)")
    (auto simp: registry_inv_def cellar_win32_register_module_def Let_def split: option.splits)

lemma register_modules:
  "g_modules (cellar_win32_register_module (\<lambda>_. True) (Some m) r) = g_modules r @ [m]"
  by (simp add: cellar_win32_register_module_def Let_def)

lemma init_registry_modules:
  "g_modules (cellar_win32_init (\<lambda>_. True) r) = g_modules r @ init_modules"
proof -
  have "g_modules (fold (\<lambda>m. cellar_win32_register_module (\<lambda>_. True) (Some m)) ms r)
      = g_modules r @ ms" for ms
    by (induction ms arbitrary: r) (simp_all add: register_modules)
  then show ?thesis by (simp add: cellar_win32_init_def)
qed

lemma module_name_eq_iff:
  "module_name_eq a b \<longleftrightarrow> map tolower_c (module_stem a) = map tolower_c (module_stem b)"
  by (auto simp: module_name_eq_def Let_def list_all_length list_eq_iff_nth_eq)

interpretation module_key: key_equiv module_name_eq
  by unfold_locales (auto simp: module_name_eq_iff)

lemma lookup_exists:
  "cellar_win32_lookup r m f \<noteq> None \<longleftrightarrow> cellar_win32_export_exists r m f"
proof (cases "cellar_win32_find_module r m")
  case (Some md)
  have "List.find (\<lambda>e. ex_name e = g) xs \<noteq> None \<longleftrightarrow> list_ex (\<lambda>e. ex_name e = g) xs" for g xs
    by (induction xs) auto
  with Some show ?thesis
    by (auto simp: cellar_win32_lookup_def cellar_win32_export_exists_def split: option.splits)
qed (simp add: cellar_win32_lookup_def cellar_win32_export_exists_def)

text \<open>
  The contract of the registry that the loader and the analyzer rely on: named imports resolve
  exactly when the export exists, ordinal imports never resolve, and module names that differ
  only in case and extension are interchangeable.
\<close>

locale export_resolver =
  fixes resolve :: "'r \<Rightarrow> string option \<Rightarrow> string option \<Rightarrow> u16 \<Rightarrow> 'f option"
    and exists :: "'r \<Rightarrow> string option \<Rightarrow> string option \<Rightarrow> bool"
    and name_eq :: "string \<Rightarrow> string \<Rightarrow> bool"
  assumes resolve_named: "resolve r m (Some f) ord \<noteq> None \<longleftrightarrow> exists r m (Some f)"
    and resolve_ordinal: "resolve r m None ord = None"
    and resolve_cong: "name_eq a b \<Longrightarrow> resolve r (Some a) fo ord = resolve r (Some b) fo ord"
begin

lemma resolved_iff: "resolve r m fo ord \<noteq> None \<longleftrightarrow> (\<exists>f. fo = Some f \<and> exists r m (Some f))"
  using resolve_named resolve_ordinal by (cases fo) auto

lemma unresolved_count:
  "length (filter (\<lambda>(m, fo, ord). resolve r m fo ord = None) imps) =
     length (filter (\<lambda>(m, fo, ord). fo = None) imps) +
     length (filter (\<lambda>(m, fo, ord). fo \<noteq> None \<and> \<not> exists r m fo) imps)"
proof (induction imps)
  case Nil
  then show ?case by simp
next
  case (Cons i imps)
  obtain m fo ord where "i = (m, fo, ord)" by (cases i)
  then show ?case using Cons resolved_iff [of r m fo ord] by (cases fo) auto
qed

end

interpretation win32: export_resolver cellar_win32_resolve cellar_win32_export_exists module_name_eq
proof
  show "cellar_win32_resolve r m (Some f) ord \<noteq> None \<longleftrightarrow> cellar_win32_export_exists r m (Some f)"
    for r m f ord
    using lookup_exists [of r m "Some f"] by (auto simp: cellar_win32_resolve_def split: option.splits)
  show "cellar_win32_resolve r m None ord = None" for r m ord
    by (simp add: cellar_win32_resolve_def)
  show "cellar_win32_resolve r (Some m) fo ord = cellar_win32_resolve r (Some m') fo ord"
    if "module_name_eq m m'" for r m m' fo ord
  proof -
    have "cellar_win32_find_module r (Some m) = cellar_win32_find_module r (Some m')"
      using module_key.lookup_by_cong [OF that, of mod_name "g_modules r"]
      by (simp add: cellar_win32_find_module_def)
    then show ?thesis
      by (simp add: cellar_win32_resolve_def cellar_win32_lookup_def split: option.split)
  qed
qed

lemma find_module_register:
  assumes "cellar_win32_find_module r (Some n) = Some m"
  shows "cellar_win32_find_module (cellar_win32_register_module ok x r) (Some n) = Some m"
proof -
  have "List.find P xs = Some m \<Longrightarrow> List.find P (xs @ ys) = Some m" for P xs ys
    by (induction xs) (auto split: if_splits)
  then show ?thesis using assms
    by (auto simp: cellar_win32_find_module_def cellar_win32_register_module_def lookup_by_def Let_def
        split: option.splits)
qed

section \<open>Properties\<close>

text \<open>C11. Registering a module never changes what an import that already resolved is bound to:
  the first registered module of a name keeps serving it, whatever is registered later and
  whether or not the allocator grants the growth.\<close>

theorem register_keeps_resolution:
  assumes "cellar_win32_resolve r (Some n) (Some f) ord = Some p"
  shows "cellar_win32_resolve (cellar_win32_register_module ok x r) (Some n) (Some f) ord = Some p"
proof -
  from assms obtain m where "cellar_win32_find_module r (Some n) = Some m"
    by (auto simp: cellar_win32_resolve_def cellar_win32_lookup_def split: option.splits)
  with assms show ?thesis
    by (simp add: cellar_win32_resolve_def cellar_win32_lookup_def find_module_register)
qed

theorem register_keeps_resolution_witness:
  "cellar_win32_resolve
     (cellar_win32_register_module (\<lambda>_. True) (Some k_user32_module)
        \<lparr>g_modules = [k_kernel32_module], g_module_cap = 8\<rparr>)
     (Some ''kernel32'') (Some ''Sleep'') 0 = Some ''cellar_Sleep''"
  by (rule register_keeps_resolution) code_simp

end
