(* ===== verification/Perf.thy ===== *)
theory Perf
  imports Tables
begin

text \<open>
  The performance kit, \<^verbatim>\<open>src/perf/perf.c\<close>: the counters the loader and the audio path bump,
  the tunables, and the bounded trace ring. The clock (\<^verbatim>\<open>cellar_monotonic_ms\<close>) is an
  argument of the operation that reads it.
\<close>

section \<open>Counters and tunables\<close>

record perf_counters =
  pc_images_loaded :: u64
  pc_imports_resolved :: u64
  pc_map_bytes :: u64
  pc_mmap_reads :: u64
  pc_audio_bytes :: u64
  pc_perf_freq_hints :: u64
  pc_prefault_calls :: u64

definition perf_counters_zero :: perf_counters where
  "perf_counters_zero = \<lparr>pc_images_loaded = 0, pc_imports_resolved = 0, pc_map_bytes = 0,
     pc_mmap_reads = 0, pc_audio_bytes = 0, pc_perf_freq_hints = 0, pc_prefault_calls = 0\<rparr>"

record perf_options =
  po_papi :: int
  po_mmap_threshold :: int
  po_large_pages :: int

definition g_options_default :: perf_options where
  "g_options_default = \<lparr>po_papi = 0, po_mmap_threshold = 64 * 1024, po_large_pages = 0\<rparr>"

definition cellar_perf_count_images :: "perf_counters \<Rightarrow> perf_counters" where
  "cellar_perf_count_images c = c\<lparr>pc_images_loaded := pc_images_loaded c + 1\<rparr>"

definition cellar_perf_count_imports :: "u64 \<Rightarrow> perf_counters \<Rightarrow> perf_counters" where
  "cellar_perf_count_imports n c = c\<lparr>pc_imports_resolved := pc_imports_resolved c + n\<rparr>"

definition cellar_perf_count_map :: "u64 \<Rightarrow> perf_counters \<Rightarrow> perf_counters" where
  "cellar_perf_count_map b c = c\<lparr>pc_map_bytes := pc_map_bytes c + b\<rparr>"

definition cellar_perf_count_mmap_read :: "perf_counters \<Rightarrow> perf_counters" where
  "cellar_perf_count_mmap_read c = c\<lparr>pc_mmap_reads := pc_mmap_reads c + 1\<rparr>"

definition cellar_perf_count_audio :: "u64 \<Rightarrow> perf_counters \<Rightarrow> perf_counters" where
  "cellar_perf_count_audio b c = c\<lparr>pc_audio_bytes := pc_audio_bytes c + b\<rparr>"

definition cellar_perf_set_options ::
    "perf_options option \<Rightarrow> perf_options \<Rightarrow> cellar_status \<times> perf_options" where
  "cellar_perf_set_options opt g =
     (case opt of None \<Rightarrow> (CELLAR_ERR_INVALID_ARGUMENT, g) | Some p \<Rightarrow> (CELLAR_OK, p))"

text \<open>\<open>granted\<close> is the answer of \<^verbatim>\<open>setpriority\<close>.\<close>

definition cellar_perf_hint_high_performance ::
    "bool \<Rightarrow> perf_counters \<Rightarrow> cellar_status \<times> perf_counters" where
  "cellar_perf_hint_high_performance granted c =
     (if granted then (CELLAR_OK, c\<lparr>pc_perf_freq_hints := pc_perf_freq_hints c + 1\<rparr>)
      else (CELLAR_ERR_NOT_IMPLEMENTED, c))"

text \<open>The offsets that \<^verbatim>\<open>cellar_prefault\<close> touches: one per page below \<open>len\<close>.\<close>

definition prefault_offsets :: "nat \<Rightarrow> nat \<Rightarrow> nat list" where
  "prefault_offsets pagesize len =
     (let ps = (if pagesize = 0 then 4096 else pagesize)
      in map (\<lambda>k. k * ps) [0..<(len + ps - 1) div ps])"

definition cellar_prefault ::
    "nat \<Rightarrow> bytes \<Rightarrow> nat \<Rightarrow> perf_counters \<Rightarrow> perf_counters cres" where
  "cellar_prefault pagesize data len c =
     (if list_all (\<lambda>off. off < length data) (prefault_offsets pagesize len)
      then Ok (c\<lparr>pc_prefault_calls := pc_prefault_calls c + 1\<rparr>) else Fault)"

section \<open>The trace ring\<close>

record perf_sample =
  sm_label :: string
  sm_value :: u64
  sm_t_ms :: u64

record perf_ring =
  g_ring :: "perf_sample list"
  g_ring_pos :: nat
  g_ring_count :: nat

definition CELLAR_PERF_RING_CAP :: nat where "CELLAR_PERF_RING_CAP = 256"

definition perf_ring_init :: perf_ring where
  "perf_ring_init =
     \<lparr>g_ring = replicate CELLAR_PERF_RING_CAP \<lparr>sm_label = [], sm_value = 0, sm_t_ms = 0\<rparr>,
      g_ring_pos = 0, g_ring_count = 0\<rparr>"

definition perf_push :: "perf_sample \<Rightarrow> perf_ring \<Rightarrow> perf_ring" where
  "perf_push s r =
     r\<lparr>g_ring := (g_ring r)[g_ring_pos r := s],
       g_ring_pos := (g_ring_pos r + 1) mod CELLAR_PERF_RING_CAP,
       g_ring_count := (if g_ring_count r < CELLAR_PERF_RING_CAP then g_ring_count r + 1
                        else g_ring_count r)\<rparr>"

definition cellar_perf_trace :: "u64 \<Rightarrow> string \<Rightarrow> u64 \<Rightarrow> perf_ring \<Rightarrow> perf_ring" where
  "cellar_perf_trace now label value r =
     perf_push \<lparr>sm_label = label, sm_value = value, sm_t_ms = now\<rparr> r"

text \<open>\<open>out\<close> says whether the output pointer is non-NULL; the copied samples are the result.\<close>

definition cellar_perf_ring_drain :: "bool \<Rightarrow> nat \<Rightarrow> perf_ring \<Rightarrow> perf_sample list" where
  "cellar_perf_ring_drain out n r =
     (if \<not> out \<or> n = 0 then []
      else let copy = (if n < g_ring_count r then n else g_ring_count r);
               oldest = (g_ring_pos r + CELLAR_PERF_RING_CAP - g_ring_count r) mod CELLAR_PERF_RING_CAP
           in map (\<lambda>i. g_ring r ! ((oldest + i) mod CELLAR_PERF_RING_CAP)) [0..<copy])"

section \<open>Facts\<close>

definition perf_inv :: "perf_ring \<Rightarrow> bool" where
  "perf_inv r \<longleftrightarrow> length (g_ring r) = CELLAR_PERF_RING_CAP \<and> g_ring_pos r < CELLAR_PERF_RING_CAP \<and>
     g_ring_count r \<le> CELLAR_PERF_RING_CAP"

definition perf_hist :: "perf_ring \<Rightarrow> perf_sample list \<times> nat \<times> nat" where
  "perf_hist r = (g_ring r, g_ring_pos r, g_ring_count r)"

lemma perf_inv_init [cinv]: "perf_inv perf_ring_init"
  by (simp add: perf_inv_def perf_ring_init_def CELLAR_PERF_RING_CAP_def)

interpretation perf_log: sliding_log CELLAR_PERF_RING_CAP perf_hist perf_push perf_inv
  by unfold_locales
    (auto simp: perf_inv_def perf_hist_def perf_push_def push_slot_def hist_inv_def
      CELLAR_PERF_RING_CAP_def)

lemma drain_window:
  assumes "perf_inv r" "0 < n"
  shows "cellar_perf_ring_drain True n r = take n (window (perf_hist r))"
proof -
  have c: "length (g_ring r) = CELLAR_PERF_RING_CAP" using assms by (simp add: perf_inv_def)
  have "(x mod CELLAR_PERF_RING_CAP + i) mod CELLAR_PERF_RING_CAP = (x + i) mod CELLAR_PERF_RING_CAP"
    for x i by (simp add: mod_add_left_eq)
  then show ?thesis using assms(2)
    by (simp add: cellar_perf_ring_drain_def perf_hist_def window_def c Let_def take_map min_def)
qed

lemma prefault_in_bounds: "off \<in> set (prefault_offsets ps len) \<Longrightarrow> off < len"
proof -
  assume a: "off \<in> set (prefault_offsets ps len)"
  define q where "q = (if ps = 0 then 4096 else ps)"
  have q: "0 < q" by (simp add: q_def)
  from a obtain k where k: "off = k * q" "k < (len + q - 1) div q"
    unfolding prefault_offsets_def Let_def q_def [symmetric] set_map set_upt by (blast dest: atLeastLessThan_iff [THEN iffD1])
  then have "Suc k * q \<le> (len + q - 1) div q * q" by (intro mult_le_mono1) simp
  also have "\<dots> \<le> len + q - 1" by simp
  finally show "off < len" using k q by simp
qed

section \<open>Properties\<close>

text \<open>C32. Draining the trace ring after any sequence of traced samples returns the oldest entries of
  the last 256 samples, in the order they were recorded; in particular the ring never loses a
  sample before 256 newer ones arrived.\<close>

theorem perf_ring_contents:
  assumes "0 < n"
  shows "cellar_perf_ring_drain True n
      (fold (\<lambda>s. cellar_perf_trace (sm_t_ms s) (sm_label s) (sm_value s)) samples perf_ring_init)
    = take n (drop (length samples - 256) samples)"
proof -
  have tr: "(\<lambda>s. cellar_perf_trace (sm_t_ms s) (sm_label s) (sm_value s)) = perf_push"
  proof (intro ext)
    fix s r
    show "cellar_perf_trace (sm_t_ms s) (sm_label s) (sm_value s) r = perf_push s r"
      by (cases s) (simp add: cellar_perf_trace_def)
  qed
  have "window (perf_hist perf_ring_init) = []"
    by (simp add: window_def perf_hist_def perf_ring_init_def)
  then show ?thesis
    using drain_window [OF perf_log.inv_fold [OF perf_inv_init] assms]
      perf_log.window_fold [OF perf_inv_init, of samples]
    by (simp add: CELLAR_PERF_RING_CAP_def tr)
qed

theorem perf_ring_contents_witness:
  "cellar_perf_ring_drain True 1
      (fold (\<lambda>s. cellar_perf_trace (sm_t_ms s) (sm_label s) (sm_value s))
      [\<lparr>sm_label = ''a'', sm_value = 1, sm_t_ms = 5\<rparr>, \<lparr>sm_label = ''b'', sm_value = 2, sm_t_ms = 6\<rparr>]
      perf_ring_init)
    = [\<lparr>sm_label = ''a'', sm_value = 1, sm_t_ms = 5\<rparr>]"
  using perf_ring_contents [of 1
      "[\<lparr>sm_label = ''a'', sm_value = 1, sm_t_ms = 5\<rparr>, \<lparr>sm_label = ''b'', sm_value = 2, sm_t_ms = 6\<rparr>]"]
  by simp

end
