(* ===== verification/Fs.thy ===== *)
theory Fs
  imports Util "HOL-Library.AList"
begin

text \<open>
  The part of POSIX that the program uses of the file system, as explicit state: a tree of
  directories and regular files under normalised absolute paths, the working directory, and the
  paths at which the host refuses to create or write (read-only media, permissions). Symbolic
  links are not modelled, so \<^verbatim>\<open>..\<close> is resolved lexically. On top of it,
  \<^verbatim>\<open>cellar_mkdir_p\<close> of \<^verbatim>\<open>src/loader/cellar_util.c\<close>.
\<close>

section \<open>State and path resolution\<close>

datatype node = Dir | File string

type_synonym path = "string list"

record fs =
  fs_nodes :: "(path \<times> node) list"
  fs_cwd :: path
  fs_denied :: "path \<Rightarrow> bool"

fun split_slash :: "string \<Rightarrow> string list" where
  "split_slash [] = [[]]"
| "split_slash (c # s) =
     (if c = CHR ''/'' then [] # split_slash s
      else (case split_slash s of w # ws \<Rightarrow> (c # w) # ws | [] \<Rightarrow> [[c]]))"

definition norm_step :: "path \<Rightarrow> string \<Rightarrow> path" where
  "norm_step acc w =
     (if w = [] \<or> w = ''.'' then acc else if w = ''..'' then butlast acc else acc @ [w])"

definition resolve_from :: "path \<Rightarrow> string \<Rightarrow> path" where
  "resolve_from cwd p =
     foldl norm_step (if p \<noteq> [] \<and> hd p = CHR ''/'' then [] else cwd) (split_slash p)"

definition resolve :: "fs \<Rightarrow> string \<Rightarrow> path" where
  "resolve f p = resolve_from (fs_cwd f) p"

definition node_at :: "fs \<Rightarrow> path \<Rightarrow> node option" where
  "node_at f k = (if k = [] then Some Dir else map_of (fs_nodes f) k)"

section \<open>System calls\<close>

definition fs_stat :: "fs \<Rightarrow> string \<Rightarrow> node option" where
  "fs_stat f p = (if p = [] then None else node_at f (resolve f p))"

text \<open>\<^verbatim>\<open>fopen(p, "rb")\<close> and reading to the end; a directory opens but yields no bytes.\<close>

definition fs_read :: "fs \<Rightarrow> string \<Rightarrow> string option" where
  "fs_read f p =
     (case fs_stat f p of None \<Rightarrow> None | Some (File c) \<Rightarrow> Some c | Some Dir \<Rightarrow> Some [])"

definition can_create :: "fs \<Rightarrow> path \<Rightarrow> bool" where
  "can_create f k \<longleftrightarrow> k \<noteq> [] \<and> node_at f (butlast k) = Some Dir \<and> \<not> fs_denied f k"

text \<open>\<^verbatim>\<open>fopen(p, "w")\<close>, writing \<open>c\<close>, closing; \<open>None\<close> when the open fails.\<close>

definition fs_write :: "fs \<Rightarrow> string \<Rightarrow> string \<Rightarrow> fs option" where
  "fs_write f p c =
     (let k = resolve f p in
      if p = [] \<or> \<not> can_create f k \<or> node_at f k = Some Dir then None
      else Some (f\<lparr>fs_nodes := AList.update k (File c) (fs_nodes f)\<rparr>))"

datatype mkdir_result = MkOk | MkExists | MkFail

definition fs_mkdir :: "fs \<Rightarrow> string \<Rightarrow> fs \<times> mkdir_result" where
  "fs_mkdir f p =
     (let k = resolve f p in
      if p = [] then (f, MkFail)
      else if node_at f k \<noteq> None then (f, MkExists)
      else if can_create f k then (f\<lparr>fs_nodes := AList.update k Dir (fs_nodes f)\<rparr>, MkOk)
      else (f, MkFail))"

definition children :: "fs \<Rightarrow> path \<Rightarrow> string list" where
  "children f k = map last (filter (\<lambda>q. q \<noteq> [] \<and> butlast q = k) (map fst (fs_nodes f)))"

text \<open>\<^verbatim>\<open>remove\<close>: unlinks a file, removes an empty directory; the flag is success.\<close>

definition fs_remove :: "fs \<Rightarrow> string \<Rightarrow> fs \<times> bool" where
  "fs_remove f p =
     (let k = resolve f p in
      if p = [] \<or> k = [] \<or> fs_denied f k then (f, False)
      else (case node_at f k of None \<Rightarrow> (f, False)
            | Some (File _) \<Rightarrow> (f\<lparr>fs_nodes := AList.delete k (fs_nodes f)\<rparr>, True)
            | Some Dir \<Rightarrow>
                if children f k = [] then (f\<lparr>fs_nodes := AList.delete k (fs_nodes f)\<rparr>, True)
                else (f, False)))"

section \<open>cellar\_mkdir\_p\<close>

fun mkdir_all :: "fs \<Rightarrow> string list \<Rightarrow> fs \<times> int" where
  "mkdir_all f [] = (f, 0)"
| "mkdir_all f (p # ps) =
     (case fs_mkdir f p of (f', MkFail) \<Rightarrow> (f', -1) | (f', _) \<Rightarrow> mkdir_all f' ps)"

definition strip_slashes :: "string \<Rightarrow> string" where
  "strip_slashes s = rev (dropWhile (\<lambda>c. c = CHR ''/'') (rev s))"

text \<open>The prefixes that end before a slash at position 1 or later, then the whole path.\<close>

definition mkdir_prefixes :: "string \<Rightarrow> string list" where
  "mkdir_prefixes t = map (\<lambda>i. take i t) (filter (\<lambda>i. t ! i = CHR ''/'') [1..<length t]) @ [t]"

definition cellar_mkdir_p :: "fs \<Rightarrow> string option \<Rightarrow> fs \<times> int" where
  "cellar_mkdir_p f path =
     (case path of None \<Rightarrow> (f, -1)
      | Some p \<Rightarrow> if p = [] then (f, -1)
                 else mkdir_all f (mkdir_prefixes (strip_slashes (snprintf_s 1024 p))))"

section \<open>Facts\<close>

lemma split_slash_nonempty: "split_slash s \<noteq> []"
  by (cases s) (auto split: list.split)

lemma split_slash_append:
  "split_slash (a @ CHR ''/'' # b) = split_slash a @ split_slash b"
proof (induction a)
  case (Cons c a)
  show ?case
  proof (cases "c = CHR ''/''")
    case False
    then show ?thesis using Cons split_slash_nonempty [of a] by (cases "split_slash a") auto
  qed (use Cons in simp)
qed simp

lemma split_slash_noslash: "CHR ''/'' \<notin> set s \<Longrightarrow> split_slash s = [s]"
  by (induction s) (auto split: list.split)

lemma resolve_append:
  assumes "a \<noteq> []"
  shows "resolve f (a @ CHR ''/'' # b) = foldl norm_step (resolve f a) (split_slash b)"
  using assms by (simp add: resolve_def resolve_from_def split_slash_append)

lemma resolve_child:
  assumes "a \<noteq> []" "CHR ''/'' \<notin> set n" "n \<noteq> []" "n \<noteq> ''.''" "n \<noteq> ''..''"
  shows "resolve f (a @ CHR ''/'' # n) = resolve f a @ [n]"
  using assms by (simp add: resolve_append split_slash_noslash norm_step_def)

lemma resolve_cwd: "fs_cwd g = fs_cwd f \<Longrightarrow> resolve g p = resolve f p"
  by (simp add: resolve_def)

lemma node_at_update:
  "k \<noteq> [] \<Longrightarrow> node_at (f\<lparr>fs_nodes := AList.update k n (fs_nodes f)\<rparr>) k' =
     (if k' = k then Some n else node_at f k')"
  by (simp add: node_at_def update_conv)

lemma node_at_delete:
  "k \<noteq> [] \<Longrightarrow> node_at (f\<lparr>fs_nodes := AList.delete k (fs_nodes f)\<rparr>) k' =
     (if k' = k then None else node_at f k')"
  by (simp add: node_at_def delete_conv')

lemma fs_write_some:
  assumes "fs_write f p c = Some f'"
  shows "fs_cwd f' = fs_cwd f" "fs_denied f' = fs_denied f" "p \<noteq> []" "resolve f p \<noteq> []"
    "node_at f' k = (if k = resolve f p then Some (File c) else node_at f k)"
    "node_at f (resolve f p) \<noteq> Some Dir" "node_at f (butlast (resolve f p)) = Some Dir"
  using assms
  by (auto simp: fs_write_def Let_def can_create_def node_at_update split: if_splits)

lemma fs_read_write_same: "fs_write f p c = Some f' \<Longrightarrow> fs_read f' p = Some c"
  using fs_write_some [of f p c f'] by (simp add: fs_read_def fs_stat_def resolve_def)

lemma fs_read_write_other:
  "fs_write f p c = Some f' \<Longrightarrow> resolve f q \<noteq> resolve f p \<Longrightarrow> fs_read f' q = fs_read f q"
  using fs_write_some [of f p c f'] by (simp add: fs_read_def fs_stat_def resolve_def)

lemma fs_write_again: "fs_write f p c = Some f' \<Longrightarrow> fs_write f' p d \<noteq> None"
proof -
  assume a: "fs_write f p c = Some f'"
  note w = fs_write_some [OF a]
  have r: "resolve f' p = resolve f p" using w(1) by (rule resolve_cwd)
  have "butlast (resolve f p) \<noteq> resolve f p"
    using w(4) by (metis append_butlast_last_id append_self_conv list.distinct(1))
  moreover from a have "can_create f (resolve f p)" by (auto simp: fs_write_def Let_def split: if_splits)
  ultimately have "can_create f' (resolve f p)"
    using w(2,5) by (simp add: can_create_def)
  then show ?thesis using w(3,5) by (simp add: fs_write_def Let_def r)
qed

text \<open>The contract that the clients of text files use.\<close>

locale file_store =
  fixes wr :: "'s \<Rightarrow> string \<Rightarrow> string \<Rightarrow> 's option"
    and rd :: "'s \<Rightarrow> string \<Rightarrow> string option"
    and same :: "'s \<Rightarrow> string \<Rightarrow> string \<Rightarrow> bool"
  assumes rd_wr_same: "wr s p c = Some s' \<Longrightarrow> rd s' p = Some c"
    and rd_wr_other: "wr s p c = Some s' \<Longrightarrow> \<not> same s q p \<Longrightarrow> rd s' q = rd s q"
    and same_refl: "same s p p"
    and same_wr: "wr s p c = Some s' \<Longrightarrow> same s' = same s"
begin

lemma save_load: "wr s p (print x) = Some s' \<Longrightarrow> map_option parse (rd s' p) = Some (parse (print x))"
  by (simp add: rd_wr_same)

lemma last_write_wins:
  "wr s p c = Some s' \<Longrightarrow> wr s' p d = Some s'' \<Longrightarrow> rd s'' p = Some d"
  by (rule rd_wr_same)

lemma write_other_keeps:
  "wr s p c = Some s' \<Longrightarrow> wr s' q d = Some s'' \<Longrightarrow> \<not> same s p q \<Longrightarrow> rd s'' p = Some c"
  by (metis rd_wr_other rd_wr_same same_wr)

end

interpretation disk: file_store fs_write fs_read "\<lambda>f p q. resolve f p = resolve f q"
  by unfold_locales
    (auto simp: fs_read_write_same fs_read_write_other fun_eq_iff resolve_def
      dest: fs_write_some(1))

lemma fs_mkdir_frame:
  assumes "fs_mkdir f p = (f', r)"
  shows "fs_cwd f' = fs_cwd f" "fs_denied f' = fs_denied f"
    "r \<noteq> MkFail \<Longrightarrow> p \<noteq> [] \<and> node_at f' (resolve f p) \<noteq> None"
    "node_at f k \<noteq> None \<Longrightarrow> node_at f' k = node_at f k"
    "node_at f k = None \<Longrightarrow> node_at f' k = None \<or> node_at f' k = Some Dir"
  using assms
  by (auto simp: fs_mkdir_def Let_def can_create_def node_at_update split: if_splits)

lemma mkdir_all_frame:
  assumes "mkdir_all f ps = (f', r)"
  shows "fs_cwd f' = fs_cwd f \<and> fs_denied f' = fs_denied f \<and>
    (\<forall>k. node_at f k \<noteq> None \<longrightarrow> node_at f' k = node_at f k) \<and>
    (\<forall>k. node_at f k = None \<longrightarrow> node_at f' k = None \<or> node_at f' k = Some Dir) \<and>
    (r = 0 \<longrightarrow> (\<forall>p\<in>set ps. p \<noteq> [] \<and> node_at f' (resolve f p) \<noteq> None))"
  using assms
proof (induction ps arbitrary: f)
  case Nil
  then show ?case by simp
next
  case (Cons p ps)
  obtain g m where g: "fs_mkdir f p = (g, m)" by (cases "fs_mkdir f p")
  note fr = fs_mkdir_frame [OF g]
  show ?case
  proof (cases "m = MkFail")
    case True
    then show ?thesis using Cons.prems g fr by auto
  next
    case False
    then have rest: "mkdir_all g ps = (f', r)" using Cons.prems g by (cases m) auto
    have res: "resolve g q = resolve f q" for q using fr(1) by (rule resolve_cwd)
    from Cons.IH [OF rest] fr False show ?thesis
      by (simp add: res) (metis option.distinct(1))
  qed
qed

lemma mkdir_p_frame:
  assumes "cellar_mkdir_p f path = (f', r)"
  shows "fs_cwd f' = fs_cwd f" "fs_denied f' = fs_denied f"
    "node_at f k \<noteq> None \<Longrightarrow> node_at f' k = node_at f k"
    "node_at f k = None \<Longrightarrow> node_at f' k = None \<or> node_at f' k = Some Dir"
    "r = 0 \<Longrightarrow> path = Some p \<Longrightarrow> node_at f' (resolve f (strip_slashes (snprintf_s 1024 p))) \<noteq> None"
  using assms mkdir_all_frame
  by (fastforce simp: cellar_mkdir_p_def mkdir_prefixes_def split: option.splits if_splits)+

lemma mkdir_p_read:
  assumes "cellar_mkdir_p f path = (f', r)" "fs_read f q = Some c"
  shows "fs_read f' q = Some c"
proof -
  have "resolve f' q = resolve f q" by (rule resolve_cwd) (rule mkdir_p_frame(1) [OF assms(1)])
  then show ?thesis
    using assms(2) mkdir_p_frame(3) [OF assms(1), of "resolve f q"]
    by (auto simp: fs_read_def fs_stat_def split: if_splits option.splits)
qed

section \<open>Properties\<close>

text \<open>When \<^verbatim>\<open>cellar_mkdir_p\<close> reports success, the path (up to its buffer of 1023 characters
  and trailing slashes) exists afterwards; whether it succeeds or fails, every file and directory
  that existed before is untouched and all it adds is directories.\<close>

theorem mkdir_p_correct:
  assumes "cellar_mkdir_p f (Some p) = (f', r)"
  shows "(r = 0 \<longrightarrow> node_at f' (resolve f (strip_slashes (snprintf_s 1024 p))) \<noteq> None) \<and>
    (\<forall>k. node_at f k \<noteq> None \<longrightarrow> node_at f' k = node_at f k) \<and>
    (\<forall>k. node_at f k = None \<longrightarrow> node_at f' k \<in> {None, Some Dir})"
  using mkdir_p_frame [OF assms] by blast

definition empty_fs :: fs where
  "empty_fs = \<lparr>fs_nodes = [], fs_cwd = [], fs_denied = (\<lambda>_. False)\<rparr>"

theorem mkdir_p_correct_witness:
  "\<exists>f'. cellar_mkdir_p empty_fs (Some ''/a/b/'') = (f', 0) \<and> node_at f' [''a'', ''b''] \<noteq> None"
proof -
  let ?f = "fst (cellar_mkdir_p empty_fs (Some ''/a/b/''))"
  have r: "snd (cellar_mkdir_p empty_fs (Some ''/a/b/'')) = 0" by code_simp
  then have "cellar_mkdir_p empty_fs (Some ''/a/b/'') = (?f, 0)" by (metis prod.collapse)
  moreover have "resolve empty_fs (strip_slashes (snprintf_s 1024 ''/a/b/'')) = [''a'', ''b'']"
    by code_simp
  ultimately show ?thesis using mkdir_p_correct [of empty_fs "''/a/b/''" ?f 0] by auto
qed

end
