(* ===== verification/Loader.thy ===== *)
theory Loader
  imports PE Registry Perf Fs
begin

unbundle bit_operations_syntax

text \<open>
  The loading pipeline, \<^verbatim>\<open>src/loader/loader.c\<close>: section mapping, import binding, export
  indexing, relocation-block validation, and the entry points. Allocation answers are
  arguments. The loops that the source bounds only by file data are
  \<^theory_text>\<open>partial_function (option)\<close>: \<open>None\<close> is a loop that does not return. Dynamic
  tracing is off, so \<^verbatim>\<open>CELLAR_TRACE\<close> reads nothing.
\<close>

section \<open>Section mapping\<close>

text \<open>One iteration of the copy loop: skipped, copied, or a \<^verbatim>\<open>memcpy\<close> that reads past the raw
  file.\<close>

definition map_section :: "bytes \<Rightarrow> bytes \<Rightarrow> section_view \<Rightarrow> (bytes \<times> section_view) cres" where
  "map_section raw mapped s =
     (let rs = unat (sv_raw_size s); ro = unat (sv_raw_offset s); va = unat (sv_virtual_address s) in
      if rs = 0 \<or> length raw \<le> ro then Ok (mapped, s)
      else if length mapped < va + rs then Ok (mapped, s)
      else (case mem_read ro rs raw of None \<Rightarrow> Fault
            | Some bs \<Rightarrow> Ok (mem_write va bs mapped, s\<lparr>sv_mapped := Some va\<rparr>)))"

fun map_loop :: "bytes \<Rightarrow> bytes \<Rightarrow> section_view list \<Rightarrow> (bytes \<times> section_view list) cres" where
  "map_loop raw mapped [] = Ok (mapped, [])"
| "map_loop raw mapped (s # ss) =
     cbind (map_section raw mapped s) (\<lambda>(m, s').
       cbind (map_loop raw m ss) (\<lambda>(m', ss'). Ok (m', s' # ss')))"

record load_env =
  le_alloc :: "nat \<Rightarrow> bool"
  le_options :: perf_options
  le_pagesize :: nat
  le_registry :: registry

definition map_sections ::
    "load_env \<Rightarrow> cellar_image \<Rightarrow> perf_counters \<Rightarrow> (cellar_image \<times> perf_counters) cres" where
  "map_sections env img c =
     (let size = unat (opt_size_of_image (img_opt img)) in
      if size = 0 then Err CELLAR_ERR_PE_BAD_SECTIONS
      else if \<not> le_alloc env size then Err CELLAR_ERR_OUT_OF_MEMORY
      else
        let raw = (case img_raw img of None \<Rightarrow> [] | Some r \<Rightarrow> r);
            hdr = min (unat (opt_size_of_headers (img_opt img))) size;
            m0 = mem_write 0 (take (min hdr (length raw)) raw) (replicate size 0)
        in cbind (map_loop raw m0 (img_sections img)) (\<lambda>(m, ss).
             cbind (if po_papi (le_options env) \<noteq> 0 then cellar_prefault (le_pagesize env) m size c else Ok c)
               (\<lambda>c'. Ok (img\<lparr>img_mapped := Some m, img_mapped_size := size, img_sections := ss,
                   img_sections_mapped := True\<rparr>, c'))))"

section \<open>Imports\<close>

definition thunk_size :: "cellar_image \<Rightarrow> u32" where
  "thunk_size img = (if opt_magic (img_opt img) = CELLAR_PE_MAGIC_PE32 then 4 else 8)"

text \<open>\<open>Ok None\<close> is the result \<open>false\<close>; otherwise the value and whether it is an ordinal.\<close>

definition read_thunk :: "cellar_image \<Rightarrow> u32 \<Rightarrow> (u64 \<times> bool) option cres" where
  "read_thunk img rva =
     (case (cellar_image_rva img rva, img_mapped img) of
        (Some p, Some m) \<Rightarrow>
          if opt_magic (img_opt img) = CELLAR_PE_MAGIC_PE32 then
            cbind (or_fault (u32_at m p)) (\<lambda>v.
              Ok (Some (ucast (v AND 0x7FFFFFFF), v AND 0x80000000 \<noteq> 0)))
          else
            cbind (or_fault (u64_at m p)) (\<lambda>v.
              Ok (Some (v AND 0x7FFFFFFFFFFFFFFF, v AND 0x8000000000000000 \<noteq> 0)))
      | _ \<Rightarrow> Ok None)"

text \<open>The NUL-terminated string at an offset; \<open>None\<close> when it runs off the mapped image.\<close>

definition cstr_at :: "bytes \<Rightarrow> nat \<Rightarrow> string option" where
  "cstr_at m off =
     (let s = drop off m in
      if 0 \<in> set s then Some (map byte_char (takeWhile (\<lambda>b. b \<noteq> 0) s)) else None)"

text \<open>\<^verbatim>\<open>strcmp\<close> of a table name with the string in memory stops at the first difference.\<close>

fun mem_streq :: "string \<Rightarrow> bytes \<Rightarrow> bool option" where
  "mem_streq n [] = None"
| "mem_streq [] (b # bs) = Some (b = 0)"
| "mem_streq (c # cs) (b # bs) = (if b = char_byte c then mem_streq cs bs else Some False)"

fun export_scan :: "cellar_export_entry list \<Rightarrow> bytes \<Rightarrow> string option cres" where
  "export_scan [] s = Ok None"
| "export_scan (e # es) s =
     cbind (or_fault (mem_streq (ex_name e) s)) (\<lambda>eq.
       if eq then Ok (Some (ex_fn e)) else export_scan es s)"

text \<open>\<^verbatim>\<open>cellar_win32_resolve\<close> on the pointers of an import: with an empty registry the module
  name is never read.\<close>

definition resolve_mem :: "registry \<Rightarrow> bytes \<Rightarrow> nat \<Rightarrow> nat option \<Rightarrow> string option cres" where
  "resolve_mem reg m module fn =
     (case fn of None \<Rightarrow> Ok None
      | Some f \<Rightarrow>
          if g_modules reg = [] then Ok None
          else cbind (or_fault (cstr_at m module)) (\<lambda>name.
            case cellar_win32_find_module reg (Some name) of None \<Rightarrow> Ok None
            | Some md \<Rightarrow> export_scan (mod_exports md) (drop f m)))"

text \<open>The growth of the import array: capacity 16, then doubling.\<close>

definition grow_imports :: "(nat \<Rightarrow> bool) \<Rightarrow> nat \<Rightarrow> nat \<Rightarrow> nat cres" where
  "grow_imports alloc n cap =
     (if n = cap then
        let ncap = (if cap \<noteq> 0 then cap * 2 else 16) in
        if \<not> alloc ncap then Err CELLAR_ERR_OUT_OF_MEMORY else Ok ncap
      else Ok cap)"

text \<open>The name or ordinal of a thunk.\<close>

definition thunk_name :: "cellar_image \<Rightarrow> u64 \<Rightarrow> bool \<Rightarrow> (nat option \<times> u16) cres" where
  "thunk_name img val ordinal =
     (if ordinal then Ok (None, ucast val)
      else (case cellar_image_rva img (ucast val) of
              None \<Rightarrow> Err CELLAR_ERR_PE_BAD_IMPORTS
            | Some fni \<Rightarrow> Ok (Some (fni + 2), 0)))"

text \<open>The body of the thunk loop at one thunk: \<open>Ok None\<close> is \<^verbatim>\<open>break\<close>.\<close>

definition thunk_body ::
    "load_env \<Rightarrow> cellar_image \<Rightarrow> nat \<Rightarrow> u32 \<Rightarrow> cellar_import list \<times> nat \<Rightarrow>
       (cellar_import list \<times> nat) option cres" where
  "thunk_body env img module iat st =
     cbind (read_thunk img iat) (\<lambda>t. case t of None \<Rightarrow> Ok None
       | Some (val, ordinal) \<Rightarrow>
          if \<not> ordinal \<and> val = 0 then Ok None
          else cbind (thunk_name img val ordinal) (\<lambda>(fn, ord).
              cbind (grow_imports (le_alloc env) (length (fst st)) (snd st)) (\<lambda>cap.
                cbind (resolve_mem (le_registry env) (the (img_mapped img)) module fn) (\<lambda>p.
                  Ok (Some (fst st @ [\<lparr>imp_module = module, imp_name = fn, imp_ordinal = ord,
                              imp_resolved = p\<rparr>], cap))))))"

partial_function (option) thunk_loop ::
    "load_env \<Rightarrow> cellar_image \<Rightarrow> nat \<Rightarrow> u32 \<Rightarrow> u32 \<Rightarrow> cellar_import list \<times> nat \<Rightarrow>
       (cellar_import list \<times> nat) cres option" where
  "thunk_loop env img module iat_rva idx st =
     (case thunk_body env img module (iat_rva + idx * thunk_size img) st of
        Fault \<Rightarrow> Some Fault
      | Err e \<Rightarrow> Some (Err e)
      | Ok None \<Rightarrow> Some (Ok st)
      | Ok (Some st') \<Rightarrow> thunk_loop env img module iat_rva (idx + 1) st')"

record import_descriptor =
  id_characteristics :: u32
  id_time_date_stamp :: u32
  id_forwarder_chain :: u32
  id_name_rva :: u32
  id_first_thunk :: u32

definition descriptor_of :: "bytes \<Rightarrow> import_descriptor option" where
  "descriptor_of b =
    do { c \<leftarrow> u32_at b 0; t \<leftarrow> u32_at b 4; f \<leftarrow> u32_at b 8; n \<leftarrow> u32_at b 12; i \<leftarrow> u32_at b 16;
         Some \<lparr>id_characteristics = c, id_time_date_stamp = t, id_forwarder_chain = f,
               id_name_rva = n, id_first_thunk = i\<rparr> }"

definition sizeof_descriptor :: nat where "sizeof_descriptor = 20"

text \<open>What one descriptor asks for: the end of the table, a descriptor to skip, or a module to
  bind (name offset and thunk array).\<close>

datatype desc_step = DescEnd | DescSkip | DescBind nat u32

definition desc_step :: "cellar_image \<Rightarrow> u32 \<Rightarrow> desc_step cres" where
  "desc_step img rva =
     cbind (cellar_image_read img rva (of_nat sizeof_descriptor)) (\<lambda>r. case r of None \<Rightarrow> Ok DescEnd
       | Some b \<Rightarrow> cbind (or_fault (descriptor_of b)) (\<lambda>d.
           if id_characteristics d = 0 \<and> id_first_thunk d = 0 \<and> id_name_rva d = 0 then Ok DescEnd
           else
             let iat = (if id_first_thunk d \<noteq> 0 then id_first_thunk d else id_characteristics d) in
             if iat = 0 then Ok DescSkip
             else (case cellar_image_rva img (id_name_rva d) of
                     None \<Rightarrow> Err CELLAR_ERR_PE_BAD_IMPORTS
                   | Some p \<Rightarrow> Ok (DescBind p iat))))"

partial_function (option) import_loop ::
    "load_env \<Rightarrow> cellar_image \<Rightarrow> u32 \<Rightarrow> cellar_import list \<times> nat \<Rightarrow>
       (cellar_import list \<times> nat) cres option" where
  "import_loop env img rva st =
     (case desc_step img rva of
        Fault \<Rightarrow> Some Fault
      | Err e \<Rightarrow> Some (Err e)
      | Ok DescEnd \<Rightarrow> Some (Ok st)
      | Ok DescSkip \<Rightarrow> import_loop env img (rva + of_nat sizeof_descriptor) st
      | Ok (DescBind p iat) \<Rightarrow>
          Option.bind (thunk_loop env img p iat 0 st) (\<lambda>r.
            case r of Fault \<Rightarrow> Some Fault | Err e \<Rightarrow> Some (Err e)
            | Ok st' \<Rightarrow> import_loop env img (rva + of_nat sizeof_descriptor) st'))"

definition data_dir :: "cellar_image \<Rightarrow> nat \<Rightarrow> pe_data_directory" where
  "data_dir img i = opt_data_directory (img_opt img) ! i"

definition CELLAR_PE_DIR_EXPORT :: nat where "CELLAR_PE_DIR_EXPORT = 0"
definition CELLAR_PE_DIR_IMPORT :: nat where "CELLAR_PE_DIR_IMPORT = 1"
definition CELLAR_PE_DIR_BASERELOC :: nat where "CELLAR_PE_DIR_BASERELOC = 5"

definition parse_imports ::
    "load_env \<Rightarrow> cellar_image \<Rightarrow> perf_counters \<Rightarrow> (cellar_image \<times> perf_counters) cres option" where
  "parse_imports env img c =
     (let dir = data_dir img CELLAR_PE_DIR_IMPORT in
      if dd_virtual_address dir = 0 \<or> dd_size dir = 0 then Some (Ok (img, c))
      else Option.bind (import_loop env img (dd_virtual_address dir) ([], 0)) (\<lambda>r.
        case r of Fault \<Rightarrow> Some Fault | Err e \<Rightarrow> Some (Err e)
        | Ok (is, cap) \<Rightarrow>
            Some (Ok (img\<lparr>img_imports := is, img_imports_parsed := True\<rparr>,
                      cellar_perf_count_imports (of_nat (length is)) c))))"

section \<open>Exports\<close>

record export_directory =
  ed_name_rva :: u32
  ed_ordinal_base :: u32
  ed_number_of_functions :: u32
  ed_number_of_names :: u32
  ed_address_of_functions :: u32
  ed_address_of_names :: u32
  ed_address_of_name_ordinals :: u32

definition sizeof_export_directory :: nat where "sizeof_export_directory = 40"

definition export_directory_of :: "bytes \<Rightarrow> export_directory option" where
  "export_directory_of b =
    do { n \<leftarrow> u32_at b 12; ob \<leftarrow> u32_at b 16; nf \<leftarrow> u32_at b 20; nn \<leftarrow> u32_at b 24;
         af \<leftarrow> u32_at b 28; an \<leftarrow> u32_at b 32; ao \<leftarrow> u32_at b 36;
         Some \<lparr>ed_name_rva = n, ed_ordinal_base = ob, ed_number_of_functions = nf,
               ed_number_of_names = nn, ed_address_of_functions = af,
               ed_address_of_names = an, ed_address_of_name_ordinals = ao\<rparr> }"

text \<open>\<^verbatim>\<open>memchr(p, 0, 4096)\<close> and the copy: at most 4096 bytes up to the terminator; leaving the
  image before either is a fault.\<close>

definition export_name_at :: "bytes \<Rightarrow> nat \<Rightarrow> string cres" where
  "export_name_at m p =
     (let s = take 4096 (drop p m) in
      if 0 \<in> set s then Ok (map byte_char (takeWhile (\<lambda>b. b \<noteq> 0) s))
      else if length s = 4096 then Ok (map byte_char s) else Fault)"

fun export_names_loop ::
    "load_env \<Rightarrow> cellar_image \<Rightarrow> u32 list \<Rightarrow> string option list cres" where
  "export_names_loop env img [] = Ok []"
| "export_names_loop env img (rva # rvas) =
     cbind
       (case (cellar_image_rva img rva, img_mapped img) of
          (Some p, Some m) \<Rightarrow> cbind (export_name_at m p) (\<lambda>n.
             Ok (if le_alloc env (length n + 1) then Some n else None))
        | _ \<Rightarrow> Ok None)
       (\<lambda>n. cbind (export_names_loop env img rvas) (\<lambda>ns. Ok (n # ns)))"

definition parse_exports :: "load_env \<Rightarrow> cellar_image \<Rightarrow> cellar_image cres" where
  "parse_exports env img =
     (let dir = data_dir img CELLAR_PE_DIR_EXPORT in
      if dd_virtual_address dir = 0 \<or> dd_size dir = 0 then Ok img
      else cbind (cellar_image_read img (dd_virtual_address dir) (of_nat sizeof_export_directory)) (\<lambda>r.
        case r of None \<Rightarrow> Err CELLAR_ERR_PE_BAD_EXPORTS
        | Some b \<Rightarrow> cbind (or_fault (export_directory_of b)) (\<lambda>ed.
            let n = unat (ed_number_of_names ed); img1 = img\<lparr>img_export_name_count := n\<rparr> in
            if n = 0 then Ok img1
            else if 0x100000 < n then Err CELLAR_ERR_PE_BAD_EXPORTS
            else if \<not> le_alloc env (n * 8) \<or> \<not> le_alloc env (n * 4) then Err CELLAR_ERR_OUT_OF_MEMORY
            else cbind (cellar_image_read img (ed_address_of_names ed) (of_nat (n * 4))) (\<lambda>r2.
              case r2 of None \<Rightarrow> Err CELLAR_ERR_PE_BAD_EXPORTS
              | Some nb \<Rightarrow> cbind (or_fault (collect (\<lambda>i. u32_at nb (4 * i)) [0..<n])) (\<lambda>rvas.
                  cbind (export_names_loop env img rvas) (\<lambda>names.
                    Ok (img1\<lparr>img_export_names := Some names, img_exports_parsed := True\<rparr>)))))))"

section \<open>Base relocations\<close>

record base_reloc =
  br_virtual_address :: u32
  br_size_of_block :: u32

definition base_reloc_of :: "bytes \<Rightarrow> base_reloc option" where
  "base_reloc_of b =
    do { v \<leftarrow> u32_at b 0; s \<leftarrow> u32_at b 4; Some \<lparr>br_virtual_address = v, br_size_of_block = s\<rparr> }"

definition sizeof_base_reloc :: nat where "sizeof_base_reloc = 8"

text \<open>One iteration at \<open>rva\<close>: \<open>Ok None\<close> leaves the loop, \<open>Ok (Some rva')\<close> goes on. The guard is
  computed in \<^verbatim>\<open>size_t\<close>, the block end in 32 bits.\<close>

definition reloc_step :: "cellar_image \<Rightarrow> u32 \<Rightarrow> u32 \<Rightarrow> u32 option cres" where
  "reloc_step img end rva =
     (if \<not> unat rva + sizeof_base_reloc \<le> unat end then Ok None
      else cbind (cellar_image_read img rva (of_nat sizeof_base_reloc)) (\<lambda>r. case r of None \<Rightarrow> Ok None
        | Some b \<Rightarrow> cbind (or_fault (base_reloc_of b)) (\<lambda>block.
            if unat (br_size_of_block block) < sizeof_base_reloc then Err CELLAR_ERR_PE_BAD_RELOCATIONS
            else if rva + br_size_of_block block > end then Err CELLAR_ERR_PE_BAD_RELOCATIONS
            else Ok (Some (rva + br_size_of_block block)))))"

partial_function (option) reloc_loop :: "cellar_image \<Rightarrow> u32 \<Rightarrow> u32 \<Rightarrow> unit cres option" where
  "reloc_loop img end rva =
     (case reloc_step img end rva of
        Fault \<Rightarrow> Some Fault
      | Err e \<Rightarrow> Some (Err e)
      | Ok None \<Rightarrow> Some (Ok ())
      | Ok (Some rva') \<Rightarrow> reloc_loop img end rva')"

definition parse_relocs :: "cellar_image \<Rightarrow> cellar_image cres option" where
  "parse_relocs img =
     (let dir = data_dir img CELLAR_PE_DIR_BASERELOC in
      if dd_virtual_address dir = 0 \<or> dd_size dir = 0 then Some (Ok img)
      else Option.bind
        (reloc_loop img (dd_virtual_address dir + dd_size dir) (dd_virtual_address dir))
        (\<lambda>r. Some (cbind r (\<lambda>_. Ok (img\<lparr>img_relocs_parsed := True\<rparr>)))))"

section \<open>Entry points\<close>

definition CELLAR_LOAD_MAP_SECTIONS :: u32 where "CELLAR_LOAD_MAP_SECTIONS = 1"
definition CELLAR_LOAD_PARSE_IMPORTS :: u32 where "CELLAR_LOAD_PARSE_IMPORTS = 2"
definition CELLAR_LOAD_PARSE_EXPORTS :: u32 where "CELLAR_LOAD_PARSE_EXPORTS = 4"
definition CELLAR_LOAD_PARSE_RELOCS :: u32 where "CELLAR_LOAD_PARSE_RELOCS = 8"
definition CELLAR_LOAD_DEFAULT :: u32 where
  "CELLAR_LOAD_DEFAULT = CELLAR_LOAD_MAP_SECTIONS OR CELLAR_LOAD_PARSE_IMPORTS"

lemmas load_flags = CELLAR_LOAD_MAP_SECTIONS_def CELLAR_LOAD_PARSE_IMPORTS_def
  CELLAR_LOAD_PARSE_EXPORTS_def CELLAR_LOAD_PARSE_RELOCS_def CELLAR_LOAD_DEFAULT_def

text \<open>A stage that may not return, on an image and the counters.\<close>

type_synonym stage = "cellar_image \<times> perf_counters \<Rightarrow> (cellar_image \<times> perf_counters) cres option"

definition when_flag :: "u32 \<Rightarrow> u32 \<Rightarrow> stage \<Rightarrow> stage" where
  "when_flag flags fl f st = (if flags AND fl \<noteq> 0 then f st else Some (Ok st))"

definition obind :: "'a cres option \<Rightarrow> ('a \<Rightarrow> 'b cres option) \<Rightarrow> 'b cres option" where
  "obind m f = Option.bind m (\<lambda>r. case r of Fault \<Rightarrow> Some Fault | Err e \<Rightarrow> Some (Err e) | Ok x \<Rightarrow> f x)"

definition cellar_image_load_buffer ::
    "load_env \<Rightarrow> bytes option \<Rightarrow> u32 \<Rightarrow> perf_counters \<Rightarrow> (cellar_image \<times> perf_counters) cres option" where
  "cellar_image_load_buffer env data flags c =
     (case data of None \<Rightarrow> Some (Err CELLAR_ERR_INVALID_ARGUMENT)
      | Some d \<Rightarrow>
        obind (Some (cellar_parse_headers (le_alloc env) (Some d))) (\<lambda>img.
        if \<not> le_alloc env (if length d \<noteq> 0 then length d else 1) then Some (Err CELLAR_ERR_OUT_OF_MEMORY)
        else
        obind (when_flag flags CELLAR_LOAD_MAP_SECTIONS
                 (\<lambda>(i, k). Some (map_sections env i k))
                 (img\<lparr>img_raw := Some d, img_raw_size := length d\<rparr>, c)) (\<lambda>s1.
        obind (when_flag flags CELLAR_LOAD_PARSE_IMPORTS (\<lambda>(i, k). parse_imports env i k) s1) (\<lambda>s2.
        obind (when_flag flags CELLAR_LOAD_PARSE_EXPORTS
                 (\<lambda>(i, k). Some (cbind (parse_exports env i) (\<lambda>i'. Ok (i', k)))) s2) (\<lambda>s3.
        obind (when_flag flags CELLAR_LOAD_PARSE_RELOCS
                 (\<lambda>(i, k). obind (parse_relocs i) (\<lambda>i'. Some (Ok (i', k)))) s3) (\<lambda>(img', c').
        let c1 = cellar_perf_count_images c';
            c2 = (if img_sections_mapped img'
                  then cellar_perf_count_map (of_nat (img_mapped_size img')) c1 else c1)
        in Some (Ok (img', c2))))))))"

definition read_file_all :: "load_env \<Rightarrow> fs \<Rightarrow> string \<Rightarrow> bytes cres" where
  "read_file_all env f path =
     (case fs_read f path of None \<Rightarrow> Err CELLAR_ERR_INVALID_ARGUMENT
      | Some s \<Rightarrow>
          if \<not> le_alloc env (if length s \<noteq> 0 then length s else 1) then Err CELLAR_ERR_OUT_OF_MEMORY
          else Ok (map char_byte s))"

text \<open>\<^verbatim>\<open>(int)mf.size\<close> truncates to 32 bits and reads them as signed.\<close>

definition read_file_perf ::
    "load_env \<Rightarrow> fs \<Rightarrow> string \<Rightarrow> perf_counters \<Rightarrow> bytes cres \<times> perf_counters" where
  "read_file_perf env f path c =
     (case fs_stat f path of
        Some (File s) \<Rightarrow>
          if length s > 0 \<and> sint (of_nat (length s) :: u32) \<ge> po_mmap_threshold (le_options env) then
            if \<not> le_alloc env (length s) then (Err CELLAR_ERR_OUT_OF_MEMORY, c)
            else (Ok (map char_byte s), cellar_perf_count_mmap_read c)
          else (read_file_all env f path, c)
      | _ \<Rightarrow> (read_file_all env f path, c))"

definition cellar_image_load_file ::
    "load_env \<Rightarrow> fs \<Rightarrow> string \<Rightarrow> u32 \<Rightarrow> perf_counters \<Rightarrow> (cellar_image \<times> perf_counters) cres option" where
  "cellar_image_load_file env f path flags c =
     (case read_file_perf env f path c of
        (Err e, c') \<Rightarrow> Some (Err e)
      | (Fault, c') \<Rightarrow> Some Fault
      | (Ok b, c') \<Rightarrow> cellar_image_load_buffer env (Some b) flags c')"

section \<open>Section mapping: facts\<close>

text \<open>The guards of the copy loop, and the sections whose raw range leaves the file although they
  pass them.\<close>

definition copied :: "nat \<Rightarrow> nat \<Rightarrow> section_view \<Rightarrow> bool" where
  "copied rawlen maplen s \<longleftrightarrow>
     sv_raw_size s \<noteq> 0 \<and> unat (sv_raw_offset s) < rawlen \<and>
     unat (sv_virtual_address s) + unat (sv_raw_size s) \<le> maplen"

definition overread :: "nat \<Rightarrow> nat \<Rightarrow> section_view \<Rightarrow> bool" where
  "overread rawlen maplen s \<longleftrightarrow> copied rawlen maplen s \<and>
     rawlen < unat (sv_raw_offset s) + unat (sv_raw_size s)"

lemma map_section_eq:
  "map_section raw m s =
     (if \<not> copied (length raw) (length m) s then Ok (m, s)
      else if overread (length raw) (length m) s then Fault
      else Ok (mem_write (unat (sv_virtual_address s))
                 (take (unat (sv_raw_size s)) (drop (unat (sv_raw_offset s)) raw)) m,
               s\<lparr>sv_mapped := Some (unat (sv_virtual_address s))\<rparr>))"
  by (auto simp: map_section_def copied_def overread_def Let_def mem_read_def unat_eq_0 split: option.splits)

lemma map_section_length:
  assumes "map_section raw m s = Ok (m', s')"
  shows "length m' = length m"
  using assms
  by (auto simp: map_section_eq copied_def overread_def length_mem_write split: if_splits)

lemma map_loop_length: "map_loop raw m ss = Ok (m', ss') \<Longrightarrow> length m' = length m"
  by (induction ss arbitrary: m m' ss')
    (auto simp: cbind_Ok_iff dest!: map_section_length)

lemma map_loop_Err: "map_loop raw m ss \<noteq> Err e"
proof (induction ss arbitrary: m)
  case (Cons s ss)
  then show ?case by (auto simp: cbind_Err_iff map_section_eq)
qed simp

lemma map_loop_Fault_iff:
  "map_loop raw m ss = Fault \<longleftrightarrow> (\<exists>s\<in>set ss. overread (length raw) (length m) s)"
proof (induction ss arbitrary: m)
  case Nil
  then show ?case by simp
next
  case (Cons s ss)
  show ?case
  proof (cases "map_section raw m s")
    case (Ok r)
    obtain m' s' where r: "r = (m', s')" by (cases r)
    have n: "\<not> overread (length raw) (length m) s"
      using Ok by (auto simp: map_section_eq overread_def split: if_splits)
    have "map_loop raw m (s # ss) = Fault \<longleftrightarrow> map_loop raw m' ss = Fault"
      by (auto simp: Ok r cbind_Fault_iff)
    with n Cons.IH [of m'] map_section_length [OF Ok [unfolded r]] show ?thesis by simp
  next
    case (Err e)
    then show ?thesis by (simp add: map_section_eq split: if_splits)
  next
    case Fault
    then have "overread (length raw) (length m) s" by (simp add: map_section_eq split: if_splits)
    then show ?thesis by (simp add: Fault)
  qed
qed

text \<open>Bytes of a copied section that no later copied section overlaps are the file's bytes.\<close>

definition vrange :: "section_view \<Rightarrow> nat set" where
  "vrange s = {unat (sv_virtual_address s) ..< unat (sv_virtual_address s) + unat (sv_raw_size s)}"

lemma map_section_other:
  assumes "map_section raw m s = Ok (m', s')" "copied (length raw) (length m) s \<longrightarrow> i \<notin> vrange s"
    "i < length m"
  shows "m' ! i = m ! i"
  using assms
  by (auto simp: map_section_eq copied_def overread_def vrange_def nth_mem_write split: if_splits)

lemma map_section_same:
  assumes "map_section raw m s = Ok (m', s')" "copied (length raw) (length m) s" "i \<in> vrange s"
  shows "m' ! i = raw ! (unat (sv_raw_offset s) + (i - unat (sv_virtual_address s)))"
  using assms
  by (auto simp: map_section_eq copied_def overread_def vrange_def nth_mem_write split: if_splits)

lemma map_loop_other:
  assumes "map_loop raw m ss = Ok (m', ss')" "i < length m"
    "\<forall>s\<in>set ss. copied (length raw) (length m) s \<longrightarrow> i \<notin> vrange s"
  shows "m' ! i = m ! i"
  using assms
proof (induction ss arbitrary: m ss')
  case Nil
  then show ?case by simp
next
  case (Cons s ss)
  from Cons.prems(1) obtain m1 s1 ss1 where
    st: "map_section raw m s = Ok (m1, s1)" "map_loop raw m1 ss = Ok (m', ss1)"
    by (auto simp: cbind_Ok_iff)
  have l: "length m1 = length m" using st(1) by (rule map_section_length)
  have "m' ! i = m1 ! i"
    using Cons.IH [OF st(2)] Cons.prems(2,3) l by simp
  also have "m1 ! i = m ! i"
    using map_section_other [OF st(1)] Cons.prems(2,3) by simp
  finally show ?case .
qed

lemma map_loop_same:
  assumes "map_loop raw m ss = Ok (m', ss')" "k < length ss" "copied (length raw) (length m) (ss ! k)"
    "i \<in> vrange (ss ! k)"
    "\<forall>j. k < j \<and> j < length ss \<and> copied (length raw) (length m) (ss ! j) \<longrightarrow> i \<notin> vrange (ss ! j)"
  shows "m' ! i = raw ! (unat (sv_raw_offset (ss ! k)) + (i - unat (sv_virtual_address (ss ! k))))"
  using assms
proof (induction ss arbitrary: m ss' k)
  case Nil
  then show ?case by simp
next
  case (Cons s ss)
  from Cons.prems(1) obtain m1 s1 ss1 where
    st: "map_section raw m s = Ok (m1, s1)" "map_loop raw m1 ss = Ok (m', ss1)"
    by (auto simp: cbind_Ok_iff)
  have l: "length m1 = length m" using st(1) by (rule map_section_length)
  show ?case
  proof (cases k)
    case 0
    then have c: "copied (length raw) (length m) s" "i \<in> vrange s" using Cons.prems by auto
    then have "i < length m" by (auto simp: copied_def vrange_def)
    moreover have "\<forall>s\<in>set ss. copied (length raw) (length m1) s \<longrightarrow> i \<notin> vrange s"
      using Cons.prems(5) 0 l by (force simp: in_set_conv_nth)
    ultimately have "m' ! i = m1 ! i" using map_loop_other [OF st(2)] l by simp
    then show ?thesis using map_section_same [OF st(1) c] 0 by simp
  next
    case (Suc k')
    have "m' ! i = raw ! (unat (sv_raw_offset (ss ! k')) + (i - unat (sv_virtual_address (ss ! k'))))"
    proof (rule Cons.IH [OF st(2)])
      show "\<forall>j. k' < j \<and> j < length ss \<and> copied (length raw) (length m1) (ss ! j) \<longrightarrow> i \<notin> vrange (ss ! j)"
      proof (intro allI impI)
        fix j assume "k' < j \<and> j < length ss \<and> copied (length raw) (length m1) (ss ! j)"
        then show "i \<notin> vrange (ss ! j)" using Cons.prems(5) [rule_format, of "Suc j"] Suc l by simp
      qed
    qed (use Cons.prems Suc l in auto)
    then show ?thesis using Suc by simp
  qed
qed

text \<open>The state after \<^verbatim>\<open>map_sections\<close>.\<close>

lemma map_sections_Ok:
  assumes "map_sections env img c = Ok (img', c')"
  shows "image_wf img' \<and> img_mapped_size img' = unat (opt_size_of_image (img_opt img)) \<and>
    img_sections_mapped img' \<and> img_mapped img' \<noteq> None \<and> img_opt img' = img_opt img \<and>
    img_raw img' = img_raw img \<and> img_mapped_size img' \<noteq> 0 \<and> img_imports img' = img_imports img"
  using assms
  by (auto simp: map_sections_def Let_def cbind_Ok_iff image_wf_def length_mem_write
      dest!: map_loop_length split: if_splits)

lemma prefault_ok: "length m = n \<Longrightarrow> cellar_prefault ps m n c \<noteq> Fault \<and> cellar_prefault ps m n c \<noteq> Err e"
  by (auto simp: cellar_prefault_def list_all_iff dest: prefault_in_bounds)

section \<open>Imports: facts\<close>

lemma wf_mapped_length: "image_wf img \<Longrightarrow> img_mapped img = Some m \<Longrightarrow> length m = img_mapped_size img"
  by (simp add: image_wf_def)

text \<open>A thunk that was read lies inside the mapped image, so its successor does not wrap.\<close>

lemma read_thunk_Some:
  assumes "read_thunk img rva = Ok (Some t)"
  obtains m where "img_mapped img = Some m" "unat rva + unat (thunk_size img) \<le> length m"
proof -
  from assms obtain m where m: "img_mapped img = Some m" "cellar_image_rva img rva = Some (unat rva)"
    by (auto simp: read_thunk_def dest: image_rva_offset split: option.splits)
  have "\<not> length m < unat rva + unat (thunk_size img)"
    using assms m u32_at_None_iff [of m "unat rva"] u64_at_None_iff [of m "unat rva"]
    by (auto simp: read_thunk_def thunk_size_def cbind_Ok_iff or_fault_Ok_iff split: if_splits)
  with m(1) that show ?thesis by simp
qed

lemma thunk_body_Some:
  assumes "thunk_body env img module iat st = Ok (Some st')"
  obtains m where "img_mapped img = Some m" "unat iat + unat (thunk_size img) \<le> length m"
proof -
  from assms obtain t where t: "read_thunk img iat = Ok (Some t)"
    unfolding thunk_body_def cbind_Ok_iff by (auto split: option.splits)
  show ?thesis by (rule read_thunk_Some [OF t]) (rule that)
qed

lemma unat_add_below: "unat (a::u32) + unat b < 2 ^ 32 \<Longrightarrow> unat (a + b) = unat a + unat b"
  by (simp add: unat_word_ariths)

lemma thunk_size_pos: "0 < unat (thunk_size img)"
  by (simp add: thunk_size_def)

lemma thunk_loop_returns:
  assumes "image_wf img" "img_mapped_size img < 2 ^ 32"
  shows "\<exists>r. thunk_loop env img module iat idx st = Some r"
proof (induction "img_mapped_size img - unat (iat + idx * thunk_size img)" arbitrary: idx st
    rule: less_induct)
  case less
  let ?rva = "iat + idx * thunk_size img"
  show ?case
  proof (cases "\<exists>st'. thunk_body env img module ?rva st = Ok (Some st')")
    case False
    then show ?thesis
      by (subst thunk_loop.simps)
        (cases "thunk_body env img module ?rva st"; auto split: option.splits)
  next
    case True
    then obtain st' where b: "thunk_body env img module ?rva st = Ok (Some st')" by blast
    then obtain m where m: "img_mapped img = Some m" "unat ?rva + unat (thunk_size img) \<le> length m"
      by (rule thunk_body_Some)
    have l: "length m = img_mapped_size img" using assms(1) m(1) by (rule wf_mapped_length)
    have next_rva: "iat + (idx + 1) * thunk_size img = ?rva + thunk_size img"
      by (simp add: algebra_simps)
    have "unat (?rva + thunk_size img) = unat ?rva + unat (thunk_size img)"
      using m(2) l assms(2) by (intro unat_add_below) simp
    then have "img_mapped_size img - unat (iat + (idx + 1) * thunk_size img)
        < img_mapped_size img - unat ?rva"
      using m(2) l thunk_size_pos [of img] unfolding next_rva by linarith
    then obtain r where "thunk_loop env img module iat (idx + 1) st' = Some r"
      using less.hyps by blast
    then show ?thesis using b by (subst thunk_loop.simps) simp
  qed
qed

lemma desc_step_going:
  assumes "desc_step img rva = Ok s" "s \<noteq> DescEnd"
  shows "unat rva + sizeof_descriptor \<le> img_mapped_size img"
  using assms image_read_Some [of img rva "of_nat sizeof_descriptor"]
  by (auto simp: sizeof_descriptor_def desc_step_def cbind_Ok_iff split: option.splits if_splits)

lemma import_loop_returns:
  assumes "image_wf img" "img_mapped_size img < 2 ^ 32"
  shows "\<exists>r. import_loop env img rva st = Some r"
proof (induction "img_mapped_size img - unat rva" arbitrary: rva st rule: less_induct)
  case less
  let ?rva' = "rva + of_nat sizeof_descriptor"
  have step: "\<exists>r. import_loop env img ?rva' st' = Some r"
    if "desc_step img rva = Ok s" "s \<noteq> DescEnd" for s st'
  proof -
    have b: "unat rva + sizeof_descriptor \<le> img_mapped_size img" using that by (rule desc_step_going)
    then have "unat ?rva' = unat rva + sizeof_descriptor"
      using assms(2) by (subst unat_add_below) (simp_all add: sizeof_descriptor_def)
    then have "img_mapped_size img - unat ?rva' < img_mapped_size img - unat rva"
      using b by (simp add: sizeof_descriptor_def)
    then show ?thesis by (rule less.hyps)
  qed
  show ?case
  proof (cases "desc_step img rva")
    case (Ok s)
    show ?thesis
    proof (cases s)
      case DescEnd
      then show ?thesis using Ok by (subst import_loop.simps) simp
    next
      case DescSkip
      then show ?thesis using Ok step [OF Ok, of st] by (subst import_loop.simps) simp
    next
      case (DescBind p iat)
      obtain r where r: "thunk_loop env img p iat 0 st = Some r"
        using thunk_loop_returns [OF assms] by blast
      show ?thesis
        using Ok DescBind r step [OF Ok, of "case r of Ok st' \<Rightarrow> st'"]
        by (subst import_loop.simps) (cases r; simp)
    qed
  qed (subst import_loop.simps, simp)+
qed

lemma parse_imports_returns:
  "image_wf img \<Longrightarrow> img_mapped_size img < 2 ^ 32 \<Longrightarrow> \<exists>r. parse_imports env img c = Some r"
  using import_loop_returns [of img env "dd_virtual_address (data_dir img CELLAR_PE_DIR_IMPORT)" "([], 0)"]
  by (auto simp: parse_imports_def Let_def split: cres.splits)

text \<open>Binding agrees with the registry: \<^verbatim>\<open>strcmp\<close> on terminated strings is string equality.\<close>

lemma mem_streq_cstr:
  assumes "0 \<in> set bs" "no_nul n"
  shows "mem_streq n bs = Some (n = map byte_char (takeWhile (\<lambda>b. b \<noteq> 0) bs))"
  using assms
proof (induction n bs rule: mem_streq.induct)
  case (3 c cs b bs)
  have c: "char_byte c \<noteq> 0" using "3.prems"(2) by (auto simp: char_byte_NUL_iff no_nul_def)
  show ?case
  proof (cases "b = char_byte c")
    case True
    then show ?thesis using 3 c by (auto simp: no_nul_def)
  next
    case False
    then have "c \<noteq> byte_char b" by (metis byte_char_byte)
    then show ?thesis using False by auto
  qed
qed auto

lemma export_scan_find:
  assumes "0 \<in> set bs" "\<forall>e\<in>set es. no_nul (ex_name e)"
  shows "export_scan es bs =
    Ok (map_option ex_fn (List.find (\<lambda>e. ex_name e = map byte_char (takeWhile (\<lambda>b. b \<noteq> 0) bs)) es))"
  using assms(2)
proof (induction es)
  case (Cons e es)
  then show ?case using mem_streq_cstr [OF assms(1), of "ex_name e"] by (simp add: or_fault_def)
qed simp

definition registry_names_ok :: "registry \<Rightarrow> bool" where
  "registry_names_ok r \<longleftrightarrow> (\<forall>m\<in>set (g_modules r). \<forall>e\<in>set (mod_exports m). no_nul (ex_name e))"

lemma resolve_mem_eq:
  assumes "registry_names_ok reg" "cstr_at m mo = Some mn" "cstr_at m fo = Some fname"
  shows "resolve_mem reg m mo (Some fo) = Ok (cellar_win32_resolve reg (Some mn) (Some fname) ord)"
proof (cases "g_modules reg = []")
  case True
  then show ?thesis
    by (simp add: resolve_mem_def cellar_win32_resolve_def cellar_win32_lookup_def
        cellar_win32_find_module_def)
next
  case False
  have f: "0 \<in> set (drop fo m)" "fname = map byte_char (takeWhile (\<lambda>b. b \<noteq> 0) (drop fo m))"
    using assms(3) by (auto simp: cstr_at_def Let_def split: if_splits)
  show ?thesis
  proof (cases "cellar_win32_find_module reg (Some mn)")
    case None
    then show ?thesis using False assms(2)
      by (simp add: resolve_mem_def or_fault_def cellar_win32_resolve_def cellar_win32_lookup_def)
  next
    case (Some md)
    then have "md \<in> set (g_modules reg)"
      by (auto simp: cellar_win32_find_module_def dest: lookup_by_Some)
    then have "\<forall>e\<in>set (mod_exports md). no_nul (ex_name e)"
      using assms(1) by (simp add: registry_names_ok_def)
    from export_scan_find [OF f(1) this] show ?thesis
      using False assms(2) Some f(2)
      by (simp add: resolve_mem_def or_fault_def cellar_win32_resolve_def cellar_win32_lookup_def
          split: option.split)
  qed
qed

lemma bind_res_Ok_iff:
  "Option.bind m (\<lambda>r. case r of Ok x \<Rightarrow> f x | Err e \<Rightarrow> Some (Err e) | Fault \<Rightarrow> Some Fault) = Some (Ok y)
     \<longleftrightarrow> (\<exists>x. m = Some (Ok x) \<and> f x = Some (Ok y))"
  by (cases m) (auto split: cres.splits)

declare thunk_loop.simps [code] import_loop.simps [code] reloc_loop.simps [code]

lemmas thunk_loop_induct = thunk_loop.raw_induct [rotated, consumes 1, case_names step]
lemmas import_loop_induct = import_loop.raw_induct [rotated, consumes 1, case_names step]
lemmas reloc_loop_induct = reloc_loop.raw_induct [rotated, consumes 1, case_names step]

text \<open>What one bound import records of the thunk it comes from.\<close>

definition bound_at :: "load_env \<Rightarrow> cellar_image \<Rightarrow> nat \<Rightarrow> u32 \<Rightarrow> cellar_import \<Rightarrow> bool" where
  "bound_at env img module rva i \<longleftrightarrow>
     (\<exists>val ordinal.
        read_thunk img rva = Ok (Some (val, ordinal)) \<and> (ordinal \<or> val \<noteq> 0) \<and>
        thunk_name img val ordinal = Ok (imp_name i, imp_ordinal i) \<and> imp_module i = module \<and>
        resolve_mem (le_registry env) (the (img_mapped img)) module (imp_name i) = Ok (imp_resolved i))"

definition thunk_end :: "cellar_image \<Rightarrow> u32 \<Rightarrow> bool" where
  "thunk_end img rva \<longleftrightarrow> read_thunk img rva = Ok None \<or> read_thunk img rva = Ok (Some (0, False))"

lemma thunk_body_bound:
  assumes "thunk_body env img module rva st = Ok (Some st')"
  shows "\<exists>i. fst st' = fst st @ [i] \<and> bound_at env img module rva i"
proof -
  from assms obtain val ordinal where t: "read_thunk img rva = Ok (Some (val, ordinal))"
    unfolding thunk_body_def cbind_Ok_iff by (auto split: option.splits)
  with assms have v: "ordinal \<or> val \<noteq> 0" by (auto simp: thunk_body_def)
  with assms t show ?thesis by (fastforce simp: thunk_body_def cbind_Ok_iff bound_at_def)
qed

lemma thunk_body_end:
  assumes "thunk_body env img module rva st = Ok None"
  shows "thunk_end img rva"
proof (cases "read_thunk img rva")
  case (Ok t)
  show ?thesis
  proof (cases t)
    case None
    then show ?thesis by (simp add: thunk_end_def Ok)
  next
    case (Some vo)
    obtain val ordinal where vo: "vo = (val, ordinal)" by (cases vo)
    have "\<not> ordinal \<and> val = 0"
    proof (rule ccontr)
      assume "\<not> (\<not> ordinal \<and> val = 0)"
      with assms show False
        by (simp only: thunk_body_def Ok Some vo cbind.simps option.case prod.case if_False)
          (auto simp: cbind_Ok_iff)
    qed
    then show ?thesis by (simp add: thunk_end_def Ok Some vo)
  qed
qed (use assms in \<open>simp_all add: thunk_body_def\<close>)

lemma thunk_loop_spec:
  assumes "thunk_loop env img module iat idx st = Some r" "r = Ok st'"
  shows "\<exists>new. fst st' = fst st @ new \<and>
    (\<forall>k < length new. bound_at env img module (iat + (idx + of_nat k) * thunk_size img) (new ! k)) \<and>
    thunk_end img (iat + (idx + of_nat (length new)) * thunk_size img)"
  using assms
proof (induction arbitrary: st' rule: thunk_loop_induct)
  case (step lp env img module iat idx st r)
  let ?rva = "iat + idx * thunk_size img"
  show ?case
  proof (cases "thunk_body env img module ?rva st")
    case (Ok q)
    show ?thesis
    proof (cases q)
      case None
      then have "st' = st" "thunk_end img ?rva"
        using step.hyps step.prems Ok by (auto dest: thunk_body_end)
      then show ?thesis by (intro exI [of _ "[]"]) simp
    next
      case (Some s1)
      then have "lp env img module iat (idx + 1) s1 = Some (Ok st')" using step.hyps step.prems Ok Some by simp
      from step.IH [OF this refl] obtain new where new:
        "fst st' = fst s1 @ new"
        "\<forall>k < length new. bound_at env img module (iat + (idx + 1 + of_nat k) * thunk_size img) (new ! k)"
        "thunk_end img (iat + (idx + 1 + of_nat (length new)) * thunk_size img)"
        by blast
      obtain i where i: "fst s1 = fst st @ [i]" "bound_at env img module ?rva i"
        using thunk_body_bound Ok Some by blast
      have "bound_at env img module (iat + (idx + of_nat k) * thunk_size img) ((i # new) ! k)"
        if "k < length (i # new)" for k
        using that new(2) i(2) by (cases k) (simp_all add: add.assoc)
      then show ?thesis using new i by (intro exI [of _ "i # new"]) (simp add: add.assoc)
    qed
  qed (use step.hyps step.prems in auto)
qed

lemma import_loop_bound:
  assumes "import_loop env img rva st = Some r" "r = Ok st'"
    "\<forall>i\<in>set (fst st). \<exists>rva. bound_at env img (imp_module i) rva i"
  shows "\<forall>i\<in>set (fst st'). \<exists>rva. bound_at env img (imp_module i) rva i"
  using assms
proof (induction rule: import_loop_induct)
  case (step lp env img rva st r)
  show ?case
  proof (cases "desc_step img rva")
    case (Ok s)
    show ?thesis
    proof (cases s)
      case (DescBind p iat)
      then obtain s1 where s1: "thunk_loop env img p iat 0 st = Some (Ok s1)"
        "lp env img (rva + of_nat sizeof_descriptor) s1 = Some (Ok st')"
        using step.hyps step.prems(1) Ok
        by (auto simp: bind_res_Ok_iff)
      from thunk_loop_spec [OF s1(1) refl] obtain new where new: "fst s1 = fst st @ new"
        "\<forall>k < length new. bound_at env img p (iat + (0 + of_nat k) * thunk_size img) (new ! k)"
        by blast
      have "\<exists>rva. bound_at env img (imp_module i) rva i" if i: "i \<in> set new" for i
      proof -
        from i obtain k where "k < length new" "i = new ! k" by (auto simp: in_set_conv_nth)
        with new(2) have b: "bound_at env img p (iat + (0 + of_nat k) * thunk_size img) i" by blast
        then have "imp_module i = p" unfolding bound_at_def by blast
        with b show ?thesis by blast
      qed
      then have "\<forall>i\<in>set (fst s1). \<exists>rva. bound_at env img (imp_module i) rva i"
        using step.prems(2) unfolding new(1) set_append by blast
      then show ?thesis by (rule step.IH [OF s1(2) refl])
    next
      case DescEnd
      then have "st' = st" using step.hyps step.prems(1) Ok by simp
      then show ?thesis using step.prems(2) by blast
    next
      case DescSkip
      then have "lp env img (rva + of_nat sizeof_descriptor) st = Some (Ok st')"
        using step.hyps step.prems(1) Ok by simp
      then show ?thesis using step.prems(2) by (rule step.IH [OF _ refl])
    qed
  next
    case (Err e)
    then show ?thesis using step.hyps step.prems(1) by simp
  next
    case Fault
    then show ?thesis using step.hyps step.prems(1) by simp
  qed
qed

lemma parse_imports_bound:
  assumes "parse_imports env img c = Some (Ok (img', c'))" "img_imports img = []"
  shows "(\<forall>i\<in>set (img_imports img'). \<exists>rva. bound_at env img (imp_module i) rva i) \<and>
    img_mapped img' = img_mapped img \<and> img_opt img' = img_opt img \<and>
    img_mapped_size img' = img_mapped_size img \<and> img_raw img' = img_raw img \<and>
    img_sections_mapped img' = img_sections_mapped img \<and>
    pc_imports_resolved c' = pc_imports_resolved c + of_nat (length (img_imports img')) \<and>
    pc_images_loaded c' = pc_images_loaded c \<and> pc_map_bytes c' = pc_map_bytes c"
proof (cases "dd_virtual_address (data_dir img CELLAR_PE_DIR_IMPORT) = 0 \<or>
    dd_size (data_dir img CELLAR_PE_DIR_IMPORT) = 0")
  case True
  then have "img' = img" "c' = c" using assms(1) by (auto simp: parse_imports_def)
  then show ?thesis using assms(2) by simp
next
  case False
  then obtain st where st:
    "import_loop env img (dd_virtual_address (data_dir img CELLAR_PE_DIR_IMPORT)) ([], 0) = Some (Ok st)"
    "img' = img\<lparr>img_imports := fst st, img_imports_parsed := True\<rparr>"
    "c' = cellar_perf_count_imports (of_nat (length (fst st))) c"
    using assms(1)
    by (auto simp: parse_imports_def bind_res_Ok_iff)
  from import_loop_bound [OF st(1) refl] show ?thesis
    by (simp add: st cellar_perf_count_imports_def bound_at_def read_thunk_def cellar_image_rva_def
        section_for_rva_def thunk_name_def)
qed

section \<open>Relocations: facts\<close>

lemma reloc_step_Some:
  assumes "reloc_step img end rva = Ok (Some rva')"
  shows "unat rva + 8 \<le> unat end \<and> (\<exists>b block. cellar_image_read img rva 8 = Ok (Some b) \<and>
    base_reloc_of b = Some block \<and> 8 \<le> unat (br_size_of_block block) \<and>
    rva' = rva + br_size_of_block block \<and> rva' \<le> end)"
  using assms
  by (auto simp: reloc_step_def cbind_Ok_iff or_fault_Ok_iff sizeof_base_reloc_def
      split: if_splits option.splits)

text \<open>The blocks do not wrap the address space.\<close>

definition relocs_bounded :: "cellar_image \<Rightarrow> bool" where
  "relocs_bounded img \<longleftrightarrow>
     (\<forall>rva b block. cellar_image_read img rva 8 = Ok (Some b) \<longrightarrow> base_reloc_of b = Some block \<longrightarrow>
        unat rva + unat (br_size_of_block block) < 2 ^ 32)"

lemma reloc_loop_returns:
  assumes "relocs_bounded img"
  shows "\<exists>r. reloc_loop img end rva = Some r"
proof (induction "unat end - unat rva" arbitrary: rva rule: less_induct)
  case less
  show ?case
  proof (cases "\<exists>rva'. reloc_step img end rva = Ok (Some rva')")
    case False
    then show ?thesis
      by (subst reloc_loop.simps) (cases "reloc_step img end rva"; auto split: option.splits)
  next
    case True
    then obtain rva' where s: "reloc_step img end rva = Ok (Some rva')" by blast
    from reloc_step_Some [OF s] obtain b block where
      b: "cellar_image_read img rva 8 = Ok (Some b)" "base_reloc_of b = Some block" and
      z: "unat rva + 8 \<le> unat end" "8 \<le> unat (br_size_of_block block)"
        "rva' = rva + br_size_of_block block" by blast
    have "unat rva' = unat rva + unat (br_size_of_block block)"
      using assms b z by (simp only: z relocs_bounded_def) (intro unat_add_below, blast)
    then have "unat end - unat rva' < unat end - unat rva" using z by linarith
    then obtain r where "reloc_loop img end rva' = Some r" using less by blast
    then show ?thesis using s by (subst reloc_loop.simps) simp
  qed
qed

lemma reloc_loop_cycle:
  assumes "reloc_loop img end rva = Some r"
    "reloc_step img end a = Ok (Some b)" "reloc_step img end b = Ok (Some a)"
  shows "rva \<noteq> a \<and> rva \<noteq> b"
  using assms
proof (induction rule: reloc_loop_induct)
  case (step lp img e rva r)
  show ?case
  proof (rule ccontr)
    assume "\<not> (rva \<noteq> a \<and> rva \<noteq> b)"
    with step.hyps step.prems have "lp img e a = Some r \<or> lp img e b = Some r" by auto
    with step.IH step.prems show False by blast
  qed
qed

lemma parse_relocs_frame:
  assumes "parse_relocs img = Some (Ok img')"
  shows "img' = img \<or> img' = img\<lparr>img_relocs_parsed := True\<rparr>"
  using assms
  by (auto simp: parse_relocs_def Let_def Option.bind_eq_Some_conv cbind_Ok_iff split: if_splits)

lemma parse_exports_frame:
  assumes "parse_exports env img = Ok img'"
  shows "img_raw img' = img_raw img \<and> img_opt img' = img_opt img \<and> img_mapped img' = img_mapped img \<and>
    img_mapped_size img' = img_mapped_size img \<and> img_imports img' = img_imports img \<and>
    img_sections img' = img_sections img \<and> img_sections_mapped img' = img_sections_mapped img"
proof (cases "dd_virtual_address (data_dir img CELLAR_PE_DIR_EXPORT) = 0 \<or>
    dd_size (data_dir img CELLAR_PE_DIR_EXPORT) = 0")
  case False
  from assms obtain b ed where "export_directory_of b = Some ed"
    and r: "(let n = unat (ed_number_of_names ed); img1 = img\<lparr>img_export_name_count := n\<rparr> in
            if n = 0 then Ok img1
            else if 0x100000 < n then Err CELLAR_ERR_PE_BAD_EXPORTS
            else if \<not> le_alloc env (n * 8) \<or> \<not> le_alloc env (n * 4) then Err CELLAR_ERR_OUT_OF_MEMORY
            else cbind (cellar_image_read img (ed_address_of_names ed) (of_nat (n * 4))) (\<lambda>r2.
              case r2 of None \<Rightarrow> Err CELLAR_ERR_PE_BAD_EXPORTS
              | Some nb \<Rightarrow> cbind (or_fault (collect (\<lambda>i. u32_at nb (4 * i)) [0..<n])) (\<lambda>rvas.
                  cbind (export_names_loop env img rvas) (\<lambda>names.
                    Ok (img1\<lparr>img_export_names := Some names, img_exports_parsed := True\<rparr>))))) = Ok img'"
    unfolding parse_exports_def Let_def [of "data_dir img CELLAR_PE_DIR_EXPORT"] if_not_P [OF False]
    by (auto simp: cbind_Ok_iff or_fault_Ok_iff split: option.splits)
  from r show ?thesis
    by (auto simp: Let_def cbind_Ok_iff split: if_splits option.splits)
qed (use assms in \<open>auto simp: parse_exports_def\<close>)

section \<open>The pipeline: facts\<close>

lemma obind_Ok_iff: "obind m f = Some (Ok y) \<longleftrightarrow> (\<exists>x. m = Some (Ok x) \<and> f x = Some (Ok y))"
  by (auto simp: obind_def bind_res_Ok_iff)

lemma obind_returns:
  "\<exists>r. m = Some r \<Longrightarrow> (\<And>x. m = Some (Ok x) \<Longrightarrow> \<exists>r. f x = Some r) \<Longrightarrow> \<exists>r. obind m f = Some r"
  by (auto simp: obind_def split: cres.splits)

definition image_flags_ok :: "cellar_image \<Rightarrow> bool" where
  "image_flags_ok i \<longleftrightarrow> image_wf i \<and> img_mapped_size i < 2 ^ 32"

text \<open>What the stages leave alone.\<close>

definition same_core :: "cellar_image \<Rightarrow> cellar_image \<Rightarrow> bool" where
  "same_core a b \<longleftrightarrow> img_raw a = img_raw b \<and> img_opt a = img_opt b \<and> img_mapped a = img_mapped b \<and>
     img_mapped_size a = img_mapped_size b \<and> img_sections_mapped a = img_sections_mapped b"

lemma same_core_refl: "same_core a a" and
  same_core_trans: "same_core a b \<Longrightarrow> same_core b c \<Longrightarrow> same_core a c"
  by (auto simp: same_core_def)

lemma same_core_wf: "same_core a b \<Longrightarrow> image_wf b \<Longrightarrow> image_wf a"
  by (cases "img_mapped b") (auto simp: same_core_def image_wf_def)

lemma headers_unmapped:
  "cellar_parse_headers alloc (Some d) = Ok img \<Longrightarrow>
     img_mapped img = None \<and> img_mapped_size img = 0 \<and> img_imports img = [] \<and> \<not> img_sections_mapped img"
  by (auto simp: cellar_parse_headers_def parse_tail_def Let_def cbind_Ok_iff split: if_splits)

lemma map_stage:
  assumes "map_sections env img c = Ok (i, k)"
  shows "image_flags_ok i \<and> img_imports i = img_imports img \<and> img_raw i = img_raw img \<and>
    img_opt i = img_opt img \<and> img_sections_mapped i \<and>
    img_mapped_size i = unat (opt_size_of_image (img_opt img)) \<and>
    pc_images_loaded k = pc_images_loaded c \<and> pc_map_bytes k = pc_map_bytes c \<and>
    pc_imports_resolved k = pc_imports_resolved c"
proof -
  have "unat (opt_size_of_image (img_opt img)) < 2 ^ 32"
    using unsigned_less [of "opt_size_of_image (img_opt img)"] by simp
  moreover have "pc_images_loaded k = pc_images_loaded c \<and> pc_map_bytes k = pc_map_bytes c \<and>
      pc_imports_resolved k = pc_imports_resolved c"
    using assms
    by (auto simp: map_sections_def Let_def cbind_Ok_iff cellar_prefault_def split: if_splits)
  ultimately show ?thesis using map_sections_Ok [OF assms] by (simp add: image_flags_ok_def)
qed

text \<open>The state between the stages of a load of \<open>d\<close>.\<close>

definition loading :: "bytes \<Rightarrow> cellar_image \<Rightarrow> perf_counters \<Rightarrow> cellar_image \<times> perf_counters \<Rightarrow> bool" where
  "loading d img0 c s \<longleftrightarrow>
     (case s of (i, k) \<Rightarrow> image_flags_ok i \<and> img_raw i = Some d \<and> img_opt i = img_opt img0 \<and>
        (img_sections_mapped i \<longrightarrow> img_mapped_size i = unat (opt_size_of_image (img_opt img0))) \<and>
        (\<not> img_sections_mapped i \<longrightarrow> img_mapped_size i = 0) \<and>
        pc_images_loaded k = pc_images_loaded c \<and> pc_map_bytes k = pc_map_bytes c)"

lemma loading_same_core:
  "loading d img0 c (i, k) \<Longrightarrow> same_core i' i \<Longrightarrow> pc_images_loaded k' = pc_images_loaded k \<Longrightarrow>
     pc_map_bytes k' = pc_map_bytes k \<Longrightarrow> loading d img0 c (i', k')"
  using same_core_wf [of i' i] by (auto simp: loading_def image_flags_ok_def same_core_def)

lemma loading_start:
  "cellar_parse_headers alloc (Some d) = Ok img0 \<Longrightarrow>
     loading d img0 c (img0\<lparr>img_raw := Some d, img_raw_size := length d\<rparr>, c)"
  using headers_unmapped [of alloc d img0]
  by (simp add: loading_def image_flags_ok_def image_wf_def)

lemma parse_imports_core:
  assumes "parse_imports env img c = Some (Ok (img', c'))"
  shows "same_core img' img \<and> pc_images_loaded c' = pc_images_loaded c \<and> pc_map_bytes c' = pc_map_bytes c"
  using assms
  by (auto simp: parse_imports_def Let_def bind_res_Ok_iff same_core_def cellar_perf_count_imports_def
      split: if_splits)

lemma when_flag_cases:
  "when_flag flags b f st = Some (Ok st') \<Longrightarrow> (flags AND b = 0 \<and> st' = st) \<or> (flags AND b \<noteq> 0 \<and> f st = Some (Ok st'))"
  by (auto simp: when_flag_def split: if_splits)

text \<open>The stages of a successful load, made explicit.\<close>

lemma load_buffer_stages:
  assumes "cellar_image_load_buffer env (Some d) flags c = Some (Ok (img, c'))"
  obtains img0 s1 s2 s3 k where
    "cellar_parse_headers (le_alloc env) (Some d) = Ok img0"
    "when_flag flags CELLAR_LOAD_MAP_SECTIONS (\<lambda>(i, k). Some (map_sections env i k))
       (img0\<lparr>img_raw := Some d, img_raw_size := length d\<rparr>, c) = Some (Ok s1)"
    "when_flag flags CELLAR_LOAD_PARSE_IMPORTS (\<lambda>(i, k). parse_imports env i k) s1 = Some (Ok s2)"
    "when_flag flags CELLAR_LOAD_PARSE_EXPORTS
       (\<lambda>(i, k). Some (cbind (parse_exports env i) (\<lambda>i'. Ok (i', k)))) s2 = Some (Ok s3)"
    "when_flag flags CELLAR_LOAD_PARSE_RELOCS
       (\<lambda>(i, k). obind (parse_relocs i) (\<lambda>i'. Some (Ok (i', k)))) s3 = Some (Ok (img, k))"
    "c' = (if img_sections_mapped img
           then cellar_perf_count_map (of_nat (img_mapped_size img)) (cellar_perf_count_images k)
           else cellar_perf_count_images k)"
  using assms
  unfolding cellar_image_load_buffer_def option.case obind_Ok_iff Let_def
  by (auto simp: obind_Ok_iff split: if_splits)

lemma stage_imports:
  assumes "loading d img0 c s" "when_flag flags b (\<lambda>(i, k). parse_imports env i k) s = Some (Ok s')"
  shows "loading d img0 c s'"
  using when_flag_cases [OF assms(2)] assms(1) parse_imports_core
  by (cases s; cases s') (auto intro: loading_same_core)

lemma stage_exports:
  assumes "loading d img0 c s"
    "when_flag flags b (\<lambda>(i, k). Some (cbind (parse_exports env i) (\<lambda>i'. Ok (i', k)))) s = Some (Ok s')"
  shows "loading d img0 c s'"
  using when_flag_cases [OF assms(2)] assms(1) parse_exports_frame
  by (cases s; cases s') (auto simp: cbind_Ok_iff same_core_def intro: loading_same_core)

lemma stage_relocs:
  assumes "loading d img0 c s"
    "when_flag flags b (\<lambda>(i, k). obind (parse_relocs i) (\<lambda>i'. Some (Ok (i', k)))) s = Some (Ok s')"
  shows "loading d img0 c s'"
proof -
  obtain i k where s: "s = (i, k)" by (cases s)
  from when_flag_cases [OF assms(2)] show ?thesis
  proof
    assume "flags AND b \<noteq> 0 \<and> (\<lambda>(i, k). obind (parse_relocs i) (\<lambda>i'. Some (Ok (i', k)))) s = Some (Ok s')"
    then obtain i' where i': "parse_relocs i = Some (Ok i')" "s' = (i', k)"
      by (auto simp: s obind_Ok_iff)
    have "same_core i' i" using parse_relocs_frame [OF i'(1)] by (auto simp: same_core_def)
    then show ?thesis using assms(1) by (auto simp: s i' intro: loading_same_core)
  qed (use assms in simp)
qed

lemma stage_map:
  assumes "loading d img0 c (i0, c)" "\<not> img_sections_mapped i0"
    "when_flag flags b (\<lambda>(i, k). Some (map_sections env i k)) (i0, c) = Some (Ok (i, k))"
  shows "loading d img0 c (i, k) \<and> (img_sections_mapped i \<longleftrightarrow> flags AND b \<noteq> 0)"
  using when_flag_cases [OF assms(3)] assms(1,2)
  by (auto simp: loading_def dest!: map_stage)

lemma load_buffer_loaded:
  assumes "cellar_image_load_buffer env (Some d) flags c = Some (Ok (img, c'))"
  shows "\<exists>img0. cellar_parse_headers (le_alloc env) (Some d) = Ok img0 \<and> headers_of d img0 \<and>
    img_raw img = Some d \<and> img_opt img = img_opt img0 \<and> image_wf img \<and>
    pc_images_loaded c' = pc_images_loaded c + 1 \<and>
    pc_map_bytes c' = pc_map_bytes c + of_nat (img_mapped_size img) \<and>
    (img_sections_mapped img \<longrightarrow> img_mapped_size img = unat (opt_size_of_image (img_opt img0)))"
proof -
  obtain img0 s1 s2 s3 k where st:
    "cellar_parse_headers (le_alloc env) (Some d) = Ok img0"
    "when_flag flags CELLAR_LOAD_MAP_SECTIONS (\<lambda>(i, k). Some (map_sections env i k))
       (img0\<lparr>img_raw := Some d, img_raw_size := length d\<rparr>, c) = Some (Ok s1)"
    "when_flag flags CELLAR_LOAD_PARSE_IMPORTS (\<lambda>(i, k). parse_imports env i k) s1 = Some (Ok s2)"
    "when_flag flags CELLAR_LOAD_PARSE_EXPORTS
       (\<lambda>(i, k). Some (cbind (parse_exports env i) (\<lambda>i'. Ok (i', k)))) s2 = Some (Ok s3)"
    "when_flag flags CELLAR_LOAD_PARSE_RELOCS
       (\<lambda>(i, k). obind (parse_relocs i) (\<lambda>i'. Some (Ok (i', k)))) s3 = Some (Ok (img, k))"
    "c' = (if img_sections_mapped img
           then cellar_perf_count_map (of_nat (img_mapped_size img)) (cellar_perf_count_images k)
           else cellar_perf_count_images k)"
    by (rule load_buffer_stages [OF assms])
  obtain i1 k1 where s1: "s1 = (i1, k1)" by (cases s1)
  have "loading d img0 c (i1, k1)"
    using stage_map [OF loading_start [OF st(1)] _ st(2) [unfolded s1]] headers_unmapped [OF st(1)] by simp
  from stage_imports [OF this st(3) [unfolded s1]] have "loading d img0 c s2" .
  from stage_relocs [OF stage_exports [OF this st(4)] st(5)] have "loading d img0 c (img, k)" .
  then show ?thesis using st(1,6) parse_headers_headers_of [OF st(1)]
    by (auto simp: loading_def image_flags_ok_def cellar_perf_count_map_def cellar_perf_count_images_def)
qed

lemma when_flag_returns: "(flags AND b \<noteq> 0 \<Longrightarrow> \<exists>r. f st = Some r) \<Longrightarrow> \<exists>r. when_flag flags b f st = Some r"
  by (auto simp: when_flag_def)

lemma load_buffer_returns:
  assumes "flags AND CELLAR_LOAD_PARSE_RELOCS = 0"
  shows "\<exists>r. cellar_image_load_buffer env data flags c = Some r"
proof (cases data)
  case None
  then show ?thesis by (simp add: cellar_image_load_buffer_def)
next
  case (Some d)
  have imp: "\<exists>r. when_flag flags b (\<lambda>(i, k). parse_imports env i k) s = Some r"
    if "loading d img0 c s" for b s img0
    using that
    by (intro when_flag_returns) (auto simp: loading_def image_flags_ok_def intro: parse_imports_returns)
  have exp: "\<exists>r. when_flag flags b (\<lambda>(i, k). Some (cbind (parse_exports env i) (\<lambda>i'. Ok (i', k)))) s = Some r"
    for b s by (cases s) (simp add: when_flag_def)
  have maps: "\<exists>r. when_flag flags b (\<lambda>(i, k). Some (map_sections env i k)) s = Some r" for b s
    by (cases s) (simp add: when_flag_def)
  have tail: "\<exists>r. obind (when_flag flags CELLAR_LOAD_PARSE_RELOCS f s) (\<lambda>(img', c'). Some (g img' c')) = Some r"
    for f s g by (cases s) (simp add: when_flag_def assms obind_def)
  have main: "\<exists>r. (if \<not> le_alloc env (if length d \<noteq> 0 then length d else 1) then Some (Err CELLAR_ERR_OUT_OF_MEMORY)
      else obind (when_flag flags CELLAR_LOAD_MAP_SECTIONS (\<lambda>(i, k). Some (map_sections env i k))
                 (img0\<lparr>img_raw := Some d, img_raw_size := length d\<rparr>, c)) (\<lambda>s1.
        obind (when_flag flags CELLAR_LOAD_PARSE_IMPORTS (\<lambda>(i, k). parse_imports env i k) s1) (\<lambda>s2.
        obind (when_flag flags CELLAR_LOAD_PARSE_EXPORTS
                 (\<lambda>(i, k). Some (cbind (parse_exports env i) (\<lambda>i'. Ok (i', k)))) s2) (\<lambda>s3.
        obind (when_flag flags CELLAR_LOAD_PARSE_RELOCS
                 (\<lambda>(i, k). obind (parse_relocs i) (\<lambda>i'. Some (Ok (i', k)))) s3) (\<lambda>(img', c').
          Some (g img' c')))))) = Some r"
    if h: "cellar_parse_headers (le_alloc env) (Some d) = Ok img0" for img0 g
  proof -
    have l1: "loading d img0 c s1"
      if "when_flag flags CELLAR_LOAD_MAP_SECTIONS (\<lambda>(i, k). Some (map_sections env i k))
       (img0\<lparr>img_raw := Some d, img_raw_size := length d\<rparr>, c) = Some (Ok s1)" for s1
    proof -
      obtain i k where s1: "s1 = (i, k)" by (cases s1)
      show ?thesis
        using stage_map [OF loading_start [OF h] _ that [unfolded s1]] headers_unmapped [OF h] s1 by simp
    qed
    have "\<exists>r. obind (when_flag flags CELLAR_LOAD_MAP_SECTIONS (\<lambda>(i, k). Some (map_sections env i k))
                 (img0\<lparr>img_raw := Some d, img_raw_size := length d\<rparr>, c)) (\<lambda>s1.
        obind (when_flag flags CELLAR_LOAD_PARSE_IMPORTS (\<lambda>(i, k). parse_imports env i k) s1) (\<lambda>s2.
        obind (when_flag flags CELLAR_LOAD_PARSE_EXPORTS
                 (\<lambda>(i, k). Some (cbind (parse_exports env i) (\<lambda>i'. Ok (i', k)))) s2) (\<lambda>s3.
        obind (when_flag flags CELLAR_LOAD_PARSE_RELOCS
                 (\<lambda>(i, k). obind (parse_relocs i) (\<lambda>i'. Some (Ok (i', k)))) s3) (\<lambda>(img', c').
          Some (g img' c'))))) = Some r"
      by (rule obind_returns [OF maps], rule obind_returns [OF imp [OF l1]], assumption,
          rule obind_returns [OF exp], rule tail)
    then show ?thesis by simp
  qed
  show ?thesis
    unfolding cellar_image_load_buffer_def Some option.case Let_def
    by (rule obind_returns, simp, rule main, simp)
qed

section \<open>Properties\<close>

text \<open>C12. Section mapping reads outside the file exactly when some section header passes the two
  guards of the copy loop (its raw offset lies in the file, its virtual range in the image) while
  its raw range runs past the end of the file: the guards do not compare the end of the raw range
  with the file size.\<close>

theorem map_sections_fault_iff:
  assumes "img_raw img = Some raw" "\<And>n. le_alloc env n"
  shows "map_sections env img c = Fault \<longleftrightarrow>
    opt_size_of_image (img_opt img) \<noteq> 0 \<and>
    (\<exists>s\<in>set (img_sections img). overread (length raw) (unat (opt_size_of_image (img_opt img))) s)"
proof -
  let ?n = "unat (opt_size_of_image (img_opt img))"
  define m0 where "m0 = mem_write 0 (take (min (min (unat (opt_size_of_headers (img_opt img))) ?n) (length raw)) raw)
      (replicate ?n (0::u8))"
  have l: "length m0 = ?n" by (simp add: m0_def length_mem_write)
  have pf: "map_loop raw m0 (img_sections img) = Ok (m, ss) \<Longrightarrow> cellar_prefault ps m ?n c \<noteq> Fault" for m ss ps
    using map_loop_length [of raw m0 "img_sections img" m ss] prefault_ok l by metis
  have "map_sections env img c = Fault \<longleftrightarrow> ?n \<noteq> 0 \<and> map_loop raw m0 (img_sections img) = Fault"
    using assms pf by (auto simp: map_sections_def Let_def m0_def cbind_Fault_iff split: if_splits)
  then show ?thesis by (simp add: map_loop_Fault_iff l unat_eq_0)
qed

definition free_env :: load_env where
  "free_env = \<lparr>le_alloc = (\<lambda>_. True), le_options = g_options_default, le_pagesize = 4096,
     le_registry = cellar_win32_init (\<lambda>_. True) registry_empty\<rparr>"

definition text_section :: "u32 \<Rightarrow> section_view" where
  "text_section raw_size = \<lparr>sv_name = [], sv_virtual_address = 4, sv_virtual_size = 4,
     sv_raw_offset = 2, sv_raw_size = raw_size, sv_characteristics = 0, sv_mapped = None\<rparr>"

text \<open>A 16-byte image over a file of four bytes with one section.\<close>

definition section_image :: "u32 \<Rightarrow> cellar_image" where
  "section_image raw_size = demo_image\<lparr>img_raw := Some [9, 8, 7, 6], img_raw_size := 4,
     img_opt := (img_opt demo_image)\<lparr>opt_size_of_image := 16, opt_size_of_headers := 1\<rparr>,
     img_sections := [text_section raw_size]\<rparr>"

theorem map_sections_fault_iff_witness:
  "map_sections free_env (section_image 3) perf_counters_zero = Fault"
  by (subst map_sections_fault_iff [where raw = "[9, 8, 7, 6]"])
    (simp_all add: section_image_def text_section_def free_env_def overread_def copied_def)

text \<open>C13. After successful mapping the image has exactly the declared size, and every byte of a
  copied section that no later copied section overlaps is the corresponding byte of the file.\<close>

theorem map_sections_bytes:
  assumes "map_sections env img c = Ok (img', c')" "img_raw img = Some raw"
    and "k < length (img_sections img)" "s = img_sections img ! k"
    and "copied (length raw) (unat (opt_size_of_image (img_opt img))) s" "i \<in> vrange s"
    and "\<forall>j. k < j \<and> j < length (img_sections img) \<and>
        copied (length raw) (unat (opt_size_of_image (img_opt img))) (img_sections img ! j) \<longrightarrow>
        i \<notin> vrange (img_sections img ! j)"
  shows "\<exists>m. img_mapped img' = Some m \<and> length m = unat (opt_size_of_image (img_opt img)) \<and>
    m ! i = raw ! (unat (sv_raw_offset s) + (i - unat (sv_virtual_address s)))"
proof -
  let ?n = "unat (opt_size_of_image (img_opt img))"
  obtain m0 m ss where m: "map_loop raw m0 (img_sections img) = Ok (m, ss)" "length m0 = ?n"
    "img_mapped img' = Some m"
    using assms(1,2)
    by (auto simp: map_sections_def Let_def cbind_Ok_iff length_mem_write split: if_splits)
  have "m ! i = raw ! (unat (sv_raw_offset s) + (i - unat (sv_virtual_address s)))"
    using map_loop_same [OF m(1) assms(3), of i] assms(4-7) m(2) by simp
  then show ?thesis using m map_loop_length [OF m(1)] by simp
qed

theorem map_sections_bytes_witness:
  "\<exists>img' c' m. map_sections free_env (section_image 2) perf_counters_zero = Ok (img', c') \<and>
     img_mapped img' = Some m \<and> m ! 5 = 6"
proof -
  have "is_ok (map_sections free_env (section_image 2) perf_counters_zero)" by code_simp
  then obtain img' c' where r: "map_sections free_env (section_image 2) perf_counters_zero = Ok (img', c')"
    by (cases "map_sections free_env (section_image 2) perf_counters_zero") auto
  have e: "img_sections (section_image 2) = [text_section 2]" "img_raw (section_image 2) = Some [9, 8, 7, 6]"
    "unat (opt_size_of_image (img_opt (section_image 2))) = 16"
    by (simp_all add: section_image_def)
  have "\<exists>m. img_mapped img' = Some m \<and> length m = unat (opt_size_of_image (img_opt (section_image 2))) \<and>
      m ! 5 = [9, 8, 7, 6] ! (unat (sv_raw_offset (text_section 2)) + (5 - unat (sv_virtual_address (text_section 2))))"
    by (rule map_sections_bytes [OF r e(2), where k = 0])
      (simp_all only: e, auto simp: text_section_def copied_def vrange_def)
  then show ?thesis using r by (auto simp: text_section_def)
qed

text \<open>Loading with the default stages (map sections, bind imports) terminates, whatever the
  bytes, the registry and the allocator: neither the descriptor loop nor the thunk loop, which
  the source bounds by the file's contents only, can run forever. (Whether it ends in an image, a
  status or an access outside an object is the matter of theory \<open>LoadSafety\<close>.)\<close>

lemma load_default_terminates:
  "\<exists>r. cellar_image_load_buffer env data CELLAR_LOAD_DEFAULT c = Some r"
  by (rule load_buffer_returns) (simp add: load_flags)

text \<open>C1. A successful load gives an image over exactly the bytes of the buffer whose headers the
  parser accepted, with a consistent mapping of the declared size, and it counts one image and
  the mapped bytes.\<close>

theorem load_buffer_correct:
  assumes "cellar_image_load_buffer env (Some d) flags c = Some (Ok (img, c'))"
  shows "(\<exists>img0. cellar_parse_headers (le_alloc env) (Some d) = Ok img0 \<and> headers_of d img0 \<and>
      img_opt img = img_opt img0 \<and>
      (img_sections_mapped img \<longrightarrow> img_mapped_size img = unat (opt_size_of_image (img_opt img0)))) \<and>
    img_raw img = Some d \<and> image_wf img \<and> pc_images_loaded c' = pc_images_loaded c + 1 \<and>
    pc_map_bytes c' = pc_map_bytes c + of_nat (img_mapped_size img)"
  using load_buffer_loaded [OF assms] by blast

text \<open>The first 88 bytes of a PE without sections; the 56 bytes after the signature are free.\<close>

definition pe_front :: "bytes \<Rightarrow> u16 \<Rightarrow> bytes" where
  "pe_front mid opt_size = wput16 0x5A4D @ take 58 (mid @ replicate 58 0) @ wput32 64 @ wput32 0x4550 @
     wput16 0x14c @ wput16 0 @ replicate 12 0 @ wput16 opt_size @ wput16 0x2000"

definition small_pe :: bytes where
  "small_pe = pe_front [] 68 @ wput16 0x10b @ replicate 58 0 @ wput32 8 @ wput32 8"

text \<open>A PE of 252 bytes with two base relocation blocks, at 4 and 20, of which the second wraps
  back to the first.\<close>

definition evil_pe :: bytes where
  "evil_pe = pe_front ([0, 0] @ wput32 0 @ wput32 16 @ replicate 8 0 @ wput32 0 @ wput32 0xFFFFFFF0) 164 @
     wput16 0x10b @ replicate 58 0 @ wput32 40 @ wput32 40 @ replicate 88 0 @ wput32 4 @ wput32 32"

definition load_ok :: "(cellar_image \<times> perf_counters) cres option \<Rightarrow> bool" where
  "load_ok r = (case r of Some (Ok _) \<Rightarrow> True | _ \<Rightarrow> False)"

lemma load_okE: "load_ok r \<Longrightarrow> (\<And>i c. r = Some (Ok (i, c)) \<Longrightarrow> P) \<Longrightarrow> P"
  by (auto simp: load_ok_def split: option.splits cres.splits)

lemma small_pe_loads:
  "load_ok (cellar_image_load_buffer free_env (Some small_pe) CELLAR_LOAD_MAP_SECTIONS perf_counters_zero)"
  by code_simp

theorem load_buffer_correct_witness:
  "\<exists>img c'. cellar_image_load_buffer free_env (Some small_pe) CELLAR_LOAD_MAP_SECTIONS perf_counters_zero =
     Some (Ok (img, c')) \<and> pc_images_loaded c' = 1 \<and> image_wf img"
proof -
  obtain img c' where r:
    "cellar_image_load_buffer free_env (Some small_pe) CELLAR_LOAD_MAP_SECTIONS perf_counters_zero = Some (Ok (img, c'))"
    using small_pe_loads by (rule load_okE)
  show ?thesis using load_buffer_correct [OF r] r by (auto simp: perf_counters_zero_def)
qed

text \<open>C5. Import binding agrees with the registry: every import of the loaded image whose module and
  function names are terminated strings of the image is bound to what
  \<^verbatim>\<open>cellar_win32_resolve\<close> answers for these names, imports by ordinal stay unresolved, and the
  counter grows by the number of imports.\<close>

theorem imports_bound_correctly:
  assumes "parse_imports env img c = Some (Ok (img', c'))" "img_imports img = []"
    and "img_mapped img = Some m" "registry_names_ok (le_registry env)"
  shows "pc_imports_resolved c' = pc_imports_resolved c + of_nat (length (img_imports img')) \<and>
    (\<forall>i\<in>set (img_imports img').
       (imp_name i = None \<longrightarrow> imp_resolved i = None) \<and>
       (\<forall>f mn fname. imp_name i = Some f \<and> cstr_at m (imp_module i) = Some mn \<and> cstr_at m f = Some fname \<longrightarrow>
          imp_resolved i = cellar_win32_resolve (le_registry env) (Some mn) (Some fname) (imp_ordinal i)))"
proof -
  note b = parse_imports_bound [OF assms(1,2)]
  have "(imp_name i = None \<longrightarrow> imp_resolved i = None) \<and>
       (\<forall>f mn fname. imp_name i = Some f \<and> cstr_at m (imp_module i) = Some mn \<and> cstr_at m f = Some fname \<longrightarrow>
          imp_resolved i = cellar_win32_resolve (le_registry env) (Some mn) (Some fname) (imp_ordinal i))"
    if "i \<in> set (img_imports img')" for i
  proof -
    have "resolve_mem (le_registry env) m (imp_module i) (imp_name i) = Ok (imp_resolved i)"
      using b that assms(3) by (auto simp: bound_at_def)
    moreover from this have "imp_name i = None \<longrightarrow> imp_resolved i = None"
      by (auto simp: resolve_mem_def)
    ultimately show ?thesis
      using resolve_mem_eq [OF assms(4), of m "imp_module i" _ _ _ "imp_ordinal i"] by fastforce
  qed
  then show ?thesis using b by blast
qed

text \<open>A mapped image whose import table asks for \<^verbatim>\<open>KERNEL32.dll!Sleep\<close>.\<close>

definition import_image :: cellar_image where
  "import_image = demo_image\<lparr>
     img_mapped := Some ([0, 0] @ replicate 12 0 @ wput32 58 @ wput32 42 @ replicate 20 0 @
       wput32 50 @ wput32 0 @ [0, 0] @ map char_byte ''Sleep'' @ [0] @
       map char_byte ''KERNEL32.dll'' @ [0]),
     img_mapped_size := 71,
     img_opt := (img_opt demo_image)\<lparr>opt_magic := 0x10b, opt_size_of_headers := 71,
       opt_data_directory := replicate 16 \<lparr>dd_virtual_address = 2, dd_size = 40\<rparr>\<rparr>\<rparr>"

definition kernel_env :: load_env where
  "kernel_env = free_env\<lparr>le_registry :=
     cellar_win32_register_module (\<lambda>_. True) (Some k_kernel32_module) registry_empty\<rparr>"

theorem imports_bound_correctly_witness:
  "\<exists>img' c' i. parse_imports kernel_env import_image perf_counters_zero = Some (Ok (img', c')) \<and>
     img_imports img' = [i] \<and> imp_resolved i = Some ''cellar_Sleep'' \<and>
     cellar_win32_resolve (le_registry kernel_env) (Some ''KERNEL32.dll'') (Some ''Sleep'') 0 = imp_resolved i"
proof -
  have "(case parse_imports kernel_env import_image perf_counters_zero of
      Some (Ok (i, c)) \<Rightarrow> img_imports i | _ \<Rightarrow> [])
      = [\<lparr>imp_module = 58, imp_name = Some 52, imp_ordinal = 0, imp_resolved = Some ''cellar_Sleep''\<rparr>]"
    by code_simp
  then obtain img' c' where r: "parse_imports kernel_env import_image perf_counters_zero = Some (Ok (img', c'))"
    and i: "img_imports img'
      = [\<lparr>imp_module = 58, imp_name = Some 52, imp_ordinal = 0, imp_resolved = Some ''cellar_Sleep''\<rparr>]"
    by (auto split: option.splits cres.splits)
  have e: "img_imports import_image = []" by (simp add: import_image_def demo_image_def)
  have m: "img_mapped import_image = Some (the (img_mapped import_image))"
    by (simp add: import_image_def)
  have n: "registry_names_ok (le_registry kernel_env)" by code_simp
  have s: "cstr_at (the (img_mapped import_image)) 58 = Some ''KERNEL32.dll''"
    "cstr_at (the (img_mapped import_image)) 52 = Some ''Sleep''" by code_simp+
  show ?thesis
    using imports_bound_correctly [OF r e m n] i s r by simp
qed

text \<open>Validation of the base relocation table returns when no block header of the image declares
  a size that wraps the 32-bit address space; and it accepts only what it should: the image is
  unchanged up to the flag.\<close>

theorem relocs_return:
  assumes "relocs_bounded img"
  shows "\<exists>r. parse_relocs img = Some r \<and>
    (\<forall>img'. r = Ok img' \<longrightarrow> img' = img \<or> img' = img\<lparr>img_relocs_parsed := True\<rparr>)"
proof -
  obtain r where "parse_relocs img = Some r"
    using reloc_loop_returns [OF assms, of
        "dd_virtual_address (data_dir img CELLAR_PE_DIR_BASERELOC) + dd_size (data_dir img CELLAR_PE_DIR_BASERELOC)"
        "dd_virtual_address (data_dir img CELLAR_PE_DIR_BASERELOC)"]
    by (cases "dd_virtual_address (data_dir img CELLAR_PE_DIR_BASERELOC) = 0 \<or>
          dd_size (data_dir img CELLAR_PE_DIR_BASERELOC) = 0")
      (auto simp: parse_relocs_def Let_def)
  then show ?thesis using parse_relocs_frame by blast
qed

definition reloc_image :: cellar_image where
  "reloc_image = demo_image\<lparr>img_mapped := Some (wput32 0 @ wput32 8), img_mapped_size := 8,
     img_opt := (img_opt demo_image)\<lparr>opt_size_of_headers := 8,
       opt_data_directory := replicate 16 \<lparr>dd_virtual_address = 0, dd_size = 8\<rparr>\<rparr>\<rparr>"

theorem relocs_return_witness: "\<exists>r. parse_relocs reloc_image = Some r"
proof -
  have "relocs_bounded reloc_image"
    unfolding relocs_bounded_def
  proof (intro allI impI)
    fix rva b block
    assume a: "cellar_image_read reloc_image rva 8 = Ok (Some b)" "base_reloc_of b = Some block"
    from image_read_Some [OF a(1)] have "unat rva = 0" "b = wput32 0 @ wput32 8"
      by (auto simp: reloc_image_def mem_read_def)
    moreover have "base_reloc_of (wput32 0 @ wput32 8) = Some \<lparr>br_virtual_address = 0, br_size_of_block = 8\<rparr>"
      by code_simp
    ultimately show "unat rva + unat (br_size_of_block block) < 2 ^ 32" using a(2) by auto
  qed
  from relocs_return [OF this] show ?thesis by blast
qed

text \<open>The parsed headers of \<open>evil_pe\<close>.\<close>

definition evil_headers :: cellar_image where
  "evil_headers = (case cellar_parse_headers (\<lambda>_. True) (Some evil_pe) of Ok i \<Rightarrow> i | _ \<Rightarrow> demo_image)"

lemma is_ok_case: "is_ok r \<Longrightarrow> r = Ok (case r of Ok i \<Rightarrow> i | _ \<Rightarrow> x)"
  by (cases r) auto

lemma load_None:
  assumes "cellar_parse_headers (le_alloc env) (Some d) = Ok i0" "\<And>n. le_alloc env n"
    "map_sections env (i0\<lparr>img_raw := Some d, img_raw_size := length d\<rparr>) c = Ok (i, k)"
    "parse_relocs i = None"
  shows "cellar_image_load_buffer env (Some d) (CELLAR_LOAD_MAP_SECTIONS OR CELLAR_LOAD_PARSE_RELOCS) c = None"
  using assms
  by (simp add: cellar_image_load_buffer_def obind_def when_flag_def load_flags Let_def)

lemma evil_headers_ok: "cellar_parse_headers (le_alloc free_env) (Some evil_pe) = Ok evil_headers"
proof -
  have "is_ok (cellar_parse_headers (\<lambda>_. True) (Some evil_pe))" unfolding parse_ok_iff by code_simp
  then show ?thesis
    unfolding evil_headers_def free_env_def load_env.simps by (rule is_ok_case)
qed

lemma evil_image_parts:
  "(case map_sections free_env (evil_headers\<lparr>img_raw := Some evil_pe, img_raw_size := length evil_pe\<rparr>)
        perf_counters_zero of
      Ok (i, c) \<Rightarrow> (img_sections i, img_mapped_size i, opt_size_of_headers (img_opt i),
                   data_dir i CELLAR_PE_DIR_BASERELOC, map_option (drop 4) (img_mapped i))
    | _ \<Rightarrow> ([], 0, 0, \<lparr>dd_virtual_address = 0, dd_size = 0\<rparr>, None)) =
   ([], 40, 40, \<lparr>dd_virtual_address = 4, dd_size = 32\<rparr>,
    Some (wput32 0 @ wput32 16 @ replicate 8 0 @ wput32 0 @ wput32 0xFFFFFFF0 @ replicate 12 0))"
  by code_simp

text \<open>Without that bound the loader can hang: on the 252-byte file \<open>evil_pe\<close> the sum of the
  block address and the block size wraps in 32 bits back to the first block, the end check
  passes, and a load that validates relocations never returns.\<close>

theorem load_hangs_on_wrapping_block:
  "cellar_image_load_buffer free_env (Some evil_pe)
     (CELLAR_LOAD_MAP_SECTIONS OR CELLAR_LOAD_PARSE_RELOCS) perf_counters_zero = None"
proof -
  let ?m = "map_sections free_env (evil_headers\<lparr>img_raw := Some evil_pe, img_raw_size := length evil_pe\<rparr>)
      perf_counters_zero"
  obtain i k where m: "?m = Ok (i, k)"
    using evil_image_parts by (cases ?m) auto
  from evil_image_parts obtain b where i: "img_mapped_size i = 40" "opt_size_of_headers (img_opt i) = 40"
    "data_dir i CELLAR_PE_DIR_BASERELOC = \<lparr>dd_virtual_address = 4, dd_size = 32\<rparr>"
    "img_mapped i = Some b"
    "drop 4 b = wput32 0 @ wput32 16 @ replicate 8 0 @ wput32 0 @ wput32 0xFFFFFFF0 @ replicate 12 0"
    unfolding m by auto
  have len: "length b = 40"
    using map_sections_Ok [OF m] i by (simp add: image_wf_def)
  have d20: "drop 20 b = wput32 0 @ wput32 0xFFFFFFF0 @ replicate 12 0"
    using arg_cong [OF i(5), where f = "drop 16"] by simp
  have rd: "cellar_image_read i 4 8 = Ok (Some (wput32 0 @ wput32 16))"
    "cellar_image_read i 20 8 = Ok (Some (wput32 0 @ wput32 0xFFFFFFF0))"
    using i(5) len d20 by (simp_all add: cellar_image_read_def cellar_image_rva_def i mem_read_def)
  have blocks: "base_reloc_of (wput32 0 @ wput32 16) = Some \<lparr>br_virtual_address = 0, br_size_of_block = 16\<rparr>"
    "base_reloc_of (wput32 0 @ wput32 0xFFFFFFF0) =
       Some \<lparr>br_virtual_address = 0, br_size_of_block = 0xFFFFFFF0\<rparr>"
    by code_simp+
  have s: "reloc_step i 36 4 = Ok (Some 20)" "reloc_step i 36 20 = Ok (Some 4)"
    by (simp_all add: reloc_step_def sizeof_base_reloc_def rd blocks or_fault_def)
  have "reloc_loop i 36 4 = None"
    using reloc_loop_cycle [OF _ s] by (cases "reloc_loop i 36 4") auto
  then have "parse_relocs i = None" by (simp add: parse_relocs_def i)
  then show ?thesis by (intro load_None [OF evil_headers_ok _ m]) (simp_all add: free_env_def)
qed

end
