(* ===== verification/Compat.thy ===== *)
theory Compat
  imports Loader Text
begin

unbundle bit_operations_syntax

text \<open>
  The application compatibility analyzer, \<^verbatim>\<open>src/compat/compat.c\<close>: classification of imports into
  subsystems by DLL prefix and function name, scores per subsystem against the registered export
  tables, missing-API diagnostics, technology detection, the issue list and the recommended
  configuration. The report renderer is the text it prints. Import names are C strings in the
  mapped image, read with \<open>cstr_at\<close>; a string without terminator is a \<open>Fault\<close>.
\<close>

section \<open>Data\<close>

datatype compat_category =
    CELLAR_CAT_GRAPHICS | CELLAR_CAT_AUDIO | CELLAR_CAT_INPUT | CELLAR_CAT_NETWORKING
  | CELLAR_CAT_FILESYSTEM | CELLAR_CAT_THREADING | CELLAR_CAT_SYSTEM

definition all_categories :: "compat_category list" where
  "all_categories = [CELLAR_CAT_GRAPHICS, CELLAR_CAT_AUDIO, CELLAR_CAT_INPUT, CELLAR_CAT_NETWORKING,
     CELLAR_CAT_FILESYSTEM, CELLAR_CAT_THREADING, CELLAR_CAT_SYSTEM]"

fun cellar_compat_category_name :: "compat_category \<Rightarrow> string" where
  "cellar_compat_category_name CELLAR_CAT_GRAPHICS = ''Graphics''"
| "cellar_compat_category_name CELLAR_CAT_AUDIO = ''Audio''"
| "cellar_compat_category_name CELLAR_CAT_INPUT = ''Input''"
| "cellar_compat_category_name CELLAR_CAT_NETWORKING = ''Networking''"
| "cellar_compat_category_name CELLAR_CAT_FILESYSTEM = ''Filesystem''"
| "cellar_compat_category_name CELLAR_CAT_THREADING = ''Threading''"
| "cellar_compat_category_name CELLAR_CAT_SYSTEM = ''Windows APIs''"

datatype issue_level = CELLAR_ISSUE_INFO | CELLAR_ISSUE_WARN | CELLAR_ISSUE_ERROR

definition CELLAR_MAX_ISSUES :: nat where "CELLAR_MAX_ISSUES = 16"
definition CELLAR_MAX_MISSING :: nat where "CELLAR_MAX_MISSING = 64"

record compat_issue =
  iss_level :: issue_level
  iss_text :: string

record missing_api =
  ma_module :: string
  ma_function :: string
  ma_called_by :: string
  ma_recommendation :: string

record compat_score =
  sc_category :: compat_category
  sc_total :: u32
  sc_supported :: u32
  sc_percent :: int

record cellar_analysis =
  an_called_by :: string
  an_is_64bit :: bool
  an_valid_pe :: bool
  an_scores :: "compat_score list"
  an_issues :: "compat_issue list"
  an_missing :: "missing_api list"
  an_graphics :: string
  an_audio :: string
  an_input :: string
  an_networking :: string
  an_gfx_rec :: string
  an_audio_rec :: string
  an_input_rec :: string
  an_shader_cache :: bool
  an_overall :: int

section \<open>Classification\<close>

definition k_gfx_dlls :: "string list" where
  "k_gfx_dlls = [''d3d12'', ''d3d11'', ''d3d10'', ''d3d9'', ''d3d8'', ''d3dx'', ''dxgi'', ''ddraw'',
     ''opengl32'', ''glu32'', ''vulkan'', ''gdi32'', ''dwmapi'', ''d3dcompiler'', ''dwrite'', ''d2d1'']"

definition k_audio_dlls :: "string list" where
  "k_audio_dlls = [''winmm'', ''dsound'', ''xaudio2'', ''mmdevapi'', ''avrt'', ''msacm32'']"

definition k_input_dlls :: "string list" where
  "k_input_dlls = [''dinput8'', ''dinput'', ''xinput'', ''wininput'']"

definition k_net_dlls :: "string list" where
  "k_net_dlls = [''ws2_32'', ''wsock32'', ''wininet'', ''winhttp'', ''iphlpapi'', ''dnsapi'',
     ''secur32'', ''schannel'', ''credui'']"

definition k_sys_dlls :: "string list" where
  "k_sys_dlls = [''user32'', ''ntdll'', ''comctl32'', ''comdlg32'', ''ole32'', ''oleaut32'',
     ''uxtheme'', ''imm32'', ''setupapi'', ''crypt32'', ''bcrypt'', ''winspool'',
     ''propsys'', ''shcore'', ''advapi32'', ''shell32'', ''shlwapi'', ''version'',
     ''combase'', ''windows.storage'']"

definition k_fs_thread_dlls :: "string list" where
  "k_fs_thread_dlls = [''kernel32'', ''kernelbase'', ''msvcrt'', ''ucrtbase'', ''api-ms-win-crt-'',
     ''api-ms-win-core-file-'', ''api-ms-win-core-threadpool-'', ''api-ms-win-core-processthreads-'']"

definition prefix_match :: "string \<Rightarrow> string list \<Rightarrow> bool" where
  "prefix_match dll table = list_ex (\<lambda>pre. has_prefix_ci dll pre) table"

definition is_kernel_family :: "string \<Rightarrow> bool" where
  "is_kernel_family dll = prefix_match dll k_fs_thread_dlls"

definition contains :: "string \<Rightarrow> string \<Rightarrow> bool" where
  "contains s p \<longleftrightarrow> strstr s p \<noteq> None"

definition is_thread_api :: "string \<Rightarrow> bool" where
  "is_thread_api fn = list_ex (contains fn) [''Thread'', ''CriticalSection'', ''Semaphore'',
     ''WaitFor'', ''Mutex'', ''GetCurrent'', ''CreateProcess'', ''Sleep'', ''_beginthreadex'',
     ''EnterCritical'']"

definition is_file_api :: "string \<Rightarrow> bool" where
  "is_file_api fn = list_ex (contains fn) [''File'', ''MoveFile'', ''DeleteFile'', ''FindFirst'',
     ''GetFileAttributes'', ''GetTempPath'', ''GetCurrentDirectory'', ''SetCurrentDirectory'',
     ''GetFullPath'', ''GetDriveType'', ''ReadFile'', ''WriteFile'']"

text \<open>\<open>None\<close> is \<^verbatim>\<open>CELLAR_CAT_COUNT\<close>: a third-party DLL that is not scored.\<close>

definition classify :: "string \<Rightarrow> string option \<Rightarrow> compat_category option" where
  "classify dll fn =
     (if prefix_match dll k_gfx_dlls then Some CELLAR_CAT_GRAPHICS
      else if prefix_match dll k_audio_dlls then Some CELLAR_CAT_AUDIO
      else if prefix_match dll k_input_dlls then Some CELLAR_CAT_INPUT
      else if prefix_match dll k_net_dlls then Some CELLAR_CAT_NETWORKING
      else if is_kernel_family dll then
        (case fn of
           None \<Rightarrow> Some CELLAR_CAT_SYSTEM
         | Some f \<Rightarrow>
             if is_thread_api f then Some CELLAR_CAT_THREADING
             else if is_file_api f then Some CELLAR_CAT_FILESYSTEM
             else Some CELLAR_CAT_SYSTEM)
      else if prefix_match dll k_sys_dlls then Some CELLAR_CAT_SYSTEM
      else None)"

section \<open>Technology detection\<close>

definition detect_tech :: "string \<Rightarrow> cellar_analysis \<Rightarrow> cellar_analysis" where
  "detect_tech dll a =
     a\<lparr>an_graphics :=
         (if has_prefix_ci dll ''d3d12'' then ''Direct3D 12''
          else if has_prefix_ci dll ''d3d11'' then ''Direct3D 11''
          else if has_prefix_ci dll ''d3d9'' then ''Direct3D 9''
          else if has_prefix_ci dll ''opengl32'' then ''OpenGL''
          else if has_prefix_ci dll ''vulkan'' then ''Vulkan'' else an_graphics a),
       an_audio :=
         (if has_prefix_ci dll ''xaudio2'' \<or> has_prefix_ci dll ''dsound'' then ''XAudio2 / DirectSound''
          else if has_prefix_ci dll ''mmdevapi'' then ''WASAPI''
          else if has_prefix_ci dll ''winmm'' then (if an_audio a = [] then ''WINMM'' else an_audio a)
          else an_audio a),
       an_input :=
         (if has_prefix_ci dll ''xinput'' then ''XInput''
          else if has_prefix_ci dll ''dinput8'' then ''DirectInput'' else an_input a),
       an_networking :=
         (if has_prefix_ci dll ''ws2_32'' then ''Winsock''
          else if has_prefix_ci dll ''wininet'' then ''WinINet''
          else if has_prefix_ci dll ''winhttp'' then ''WinHTTP'' else an_networking a)\<rparr>"

section \<open>Issues and missing APIs\<close>

definition add_issue :: "issue_level \<Rightarrow> string \<Rightarrow> cellar_analysis \<Rightarrow> cellar_analysis" where
  "add_issue lv text a =
     (if length (an_issues a) \<ge> CELLAR_MAX_ISSUES then a
      else a\<lparr>an_issues := an_issues a @ [\<lparr>iss_level = lv, iss_text = snprintf_s 128 text\<rparr>]\<rparr>)"

definition missing_of :: "string \<Rightarrow> string option \<Rightarrow> u16 \<Rightarrow> string \<Rightarrow> missing_api" where
  "missing_of md fn ordinal called_by =
     (let fname = snprintf_s 128 (case fn of Some f \<Rightarrow> f | None \<Rightarrow> ''#'' @ dec (unat ordinal))
      in \<lparr>ma_module = snprintf_s 64 md, ma_function = snprintf_s 128 fname,
          ma_called_by = snprintf_s 256 called_by,
          ma_recommendation = snprintf_s 192
            (''implement '' @ md @ ''!'' @ fname @ '' (register via cellar_win32_register_module)'')\<rparr>)"

definition add_missing ::
    "string \<Rightarrow> string option \<Rightarrow> u16 \<Rightarrow> string \<Rightarrow> cellar_analysis \<Rightarrow> cellar_analysis" where
  "add_missing md fn ordinal called_by a =
     (if length (an_missing a) \<ge> CELLAR_MAX_MISSING then a
      else a\<lparr>an_missing := an_missing a @ [missing_of md fn ordinal called_by]\<rparr>)"

section \<open>The analyzer\<close>

record import_text =
  it_module :: string
  it_name :: "string option"
  it_ordinal :: u16

definition import_text_of :: "bytes \<Rightarrow> cellar_import \<Rightarrow> import_text option" where
  "import_text_of m im =
     do { md \<leftarrow> cstr_at m (imp_module im);
          nm \<leftarrow> (case imp_name im of None \<Rightarrow> Some None | Some k \<Rightarrow> map_option Some (cstr_at m k));
          Some \<lparr>it_module = md, it_name = nm, it_ordinal = imp_ordinal im\<rparr> }"

fun import_texts :: "bytes \<Rightarrow> cellar_import list \<Rightarrow> import_text list option" where
  "import_texts m [] = Some []"
| "import_texts m (im # ims) =
     do { t \<leftarrow> import_text_of m im; ts \<leftarrow> import_texts m ims; Some (t # ts) }"

fun cat_index :: "compat_category \<Rightarrow> nat" where
  "cat_index CELLAR_CAT_GRAPHICS = 0"
| "cat_index CELLAR_CAT_AUDIO = 1"
| "cat_index CELLAR_CAT_INPUT = 2"
| "cat_index CELLAR_CAT_NETWORKING = 3"
| "cat_index CELLAR_CAT_FILESYSTEM = 4"
| "cat_index CELLAR_CAT_THREADING = 5"
| "cat_index CELLAR_CAT_SYSTEM = 6"

text \<open>The counters \<^verbatim>\<open>totals\<close> and \<^verbatim>\<open>supported\<close> of the scoring block.\<close>

record tally =
  ta_totals :: "u32 list"
  ta_supported :: "u32 list"

definition bump :: "nat \<Rightarrow> u32 list \<Rightarrow> u32 list" where
  "bump i xs = xs[i := xs ! i + 1]"

definition import_supported :: "registry \<Rightarrow> import_text \<Rightarrow> bool" where
  "import_supported reg im =
     (case it_name im of None \<Rightarrow> False
      | Some n \<Rightarrow> cellar_win32_export_exists reg (Some (it_module im)) (Some n))"

fun score_imports :: "registry \<Rightarrow> import_text list \<Rightarrow> tally \<Rightarrow> cellar_analysis \<Rightarrow> tally \<times> cellar_analysis" where
  "score_imports reg [] t a = (t, a)"
| "score_imports reg (im # ims) t a =
     (case classify (it_module im) (it_name im) of
        None \<Rightarrow> score_imports reg ims t a
      | Some cat \<Rightarrow>
          let t1 = t\<lparr>ta_totals := bump (cat_index cat) (ta_totals t)\<rparr>;
              has = import_supported reg im;
              t2 = (if has then t1\<lparr>ta_supported := bump (cat_index cat) (ta_supported t1)\<rparr> else t1);
              a1 = (if has then a
                    else case it_name im of
                      Some n \<Rightarrow> add_missing (it_module im) (Some n) 0 (an_called_by a) a
                    | None \<Rightarrow> add_missing (it_module im) None (it_ordinal im) (an_called_by a) a)
          in score_imports reg ims t2 (detect_tech (it_module im) a1))"

definition percent_of :: "u32 \<Rightarrow> u32 \<Rightarrow> int \<Rightarrow> int" where
  "percent_of good tot none = (if tot \<noteq> 0 then sint (good * 100 div tot) else none)"

definition score_of :: "tally \<Rightarrow> compat_category \<Rightarrow> compat_score" where
  "score_of t c =
     (let tot = ta_totals t ! cat_index c; good = ta_supported t ! cat_index c
      in \<lparr>sc_category = c, sc_total = tot, sc_supported = good, sc_percent = percent_of good tot (-1)\<rparr>)"

definition finish_scores :: "tally \<Rightarrow> cellar_analysis \<Rightarrow> cellar_analysis" where
  "finish_scores t a =
     a\<lparr>an_scores := map (score_of t) all_categories,
       an_overall := percent_of (sum_list (ta_supported t)) (sum_list (ta_totals t)) 100\<rparr>"

definition score_at :: "cellar_analysis \<Rightarrow> compat_category \<Rightarrow> compat_score" where
  "score_at a c = an_scores a ! cat_index c"

definition em_dash :: string where
  "em_dash = [CHR 0xE2, CHR 0x80, CHR 0x94]"

definition graphics_issues :: "cellar_analysis \<Rightarrow> cellar_analysis" where
  "graphics_issues a =
     (if sc_total (score_at a CELLAR_CAT_GRAPHICS) = 0 then a
      else
        let p = sc_percent (score_at a CELLAR_CAT_GRAPHICS);
            a1 = a\<lparr>an_shader_cache := True,
                   an_gfx_rec := (if has_prefix_ci (an_graphics a) ''Direct3D'' then ''Vulkan'' else ''OpenGL'')\<rparr>;
            a2 = (if p < 100 then add_issue CELLAR_ISSUE_WARN
                    ((if an_graphics a \<noteq> [] then an_graphics a else ''Graphics'') @
                     '' graphics coverage is partial ('' @ show_int p @ ''%)'') a1 else a1);
            a3 = (if contains (an_graphics a) ''12'' then add_issue CELLAR_ISSUE_WARN
                    (''D3D12 feature-level requirement '' @ em_dash @ '' Vulkan fallback recommended'') a2 else a2)
        in (if contains (an_graphics a) ''11''
            then add_issue CELLAR_ISSUE_INFO ''D3D11 feature-level requirement'' a3 else a3))"

definition audio_choice :: "cellar_analysis \<Rightarrow> cellar_analysis" where
  "audio_choice a =
     (let s = score_at a CELLAR_CAT_AUDIO
      in if sc_total s \<noteq> 0 \<and> sc_percent s < 100 then a\<lparr>an_audio_rec := ''PipeWire''\<rparr> else a)"

definition is_timer_api :: "string \<Rightarrow> bool" where
  "is_timer_api fn = (fn \<in> set [''QueryPerformanceCounter'', ''QueryPerformanceFrequency'',
     ''timeGetTime'', ''GetSystemTimePreciseAsFileTime''])"

definition timer_issue :: "import_text list \<Rightarrow> cellar_analysis \<Rightarrow> cellar_analysis" where
  "timer_issue ims a =
     (case List.find is_timer_api (List.map_filter it_name ims) of
        None \<Rightarrow> a
      | Some fn \<Rightarrow> add_issue CELLAR_ISSUE_WARN (''High-resolution timer usage ('' @ take 40 fn @ '')'') a)"

definition thread_imports :: "import_text list \<Rightarrow> u32" where
  "thread_imports ims = of_nat (length (filter is_thread_api (List.map_filter it_name ims)))"

definition sync_issue :: "import_text list \<Rightarrow> cellar_analysis \<Rightarrow> cellar_analysis" where
  "sync_issue ims a =
     (if thread_imports ims > 4
      then add_issue CELLAR_ISSUE_WARN (''Advanced synchronization usage ('' @ dec (unat (thread_imports ims)) @
             '' thread/threadpool APIs)'') a
      else a)"

definition missing_issue :: "cellar_analysis \<Rightarrow> cellar_analysis" where
  "missing_issue a =
     (if an_missing a \<noteq> []
      then add_issue CELLAR_ISSUE_ERROR
             (dec (length (an_missing a)) @ '' required API(s) not implemented by Cellar'') a
      else a)"

definition ordinal_issue :: "import_text list \<Rightarrow> cellar_analysis \<Rightarrow> cellar_analysis" where
  "ordinal_issue ims a =
     (case List.find (\<lambda>im. it_name im = None) ims of
        None \<Rightarrow> a
      | Some im \<Rightarrow> add_issue CELLAR_ISSUE_INFO
          (''Ordinal import ('' @ it_module im @ ''!#'' @ dec (unat (it_ordinal im)) @
           '') needs ordinal binding'') a)"

definition analysis_start :: "bool \<Rightarrow> string \<Rightarrow> cellar_analysis" where
  "analysis_start is64 called_by =
     \<lparr>an_called_by = snprintf_s 256 called_by, an_is_64bit = is64, an_valid_pe = True,
      an_scores = [], an_issues = [], an_missing = [], an_graphics = [], an_audio = [], an_input = [],
      an_networking = [], an_gfx_rec = ''Software'', an_audio_rec = ''ALSA'',
      an_input_rec = ''XInput backend'', an_shader_cache = False, an_overall = 0\<rparr>"

definition tally_zero :: tally where
  "tally_zero = \<lparr>ta_totals = replicate 7 0, ta_supported = replicate 7 0\<rparr>"

definition analyze_imports :: "registry \<Rightarrow> bool \<Rightarrow> string \<Rightarrow> import_text list \<Rightarrow> cellar_analysis" where
  "analyze_imports reg is64 called_by ims =
     (let (t, a) = score_imports reg ims tally_zero (analysis_start is64 called_by)
      in ordinal_issue ims (missing_issue (sync_issue ims (timer_issue ims
           (audio_choice (graphics_issues (finish_scores t a)))))))"

definition cellar_compat_analyze ::
    "registry \<Rightarrow> cellar_image option \<Rightarrow> string option \<Rightarrow> cellar_analysis cres" where
  "cellar_compat_analyze reg img called_by =
     (case img of None \<Rightarrow> Err CELLAR_ERR_INVALID_ARGUMENT
      | Some im \<Rightarrow>
          cbind (or_fault (import_texts (case img_mapped im of None \<Rightarrow> [] | Some m \<Rightarrow> m) (img_imports im)))
            (\<lambda>ims. Ok (analyze_imports reg (opt_magic (img_opt im) = CELLAR_PE_MAGIC_PE32_PLUS)
               (case called_by of None \<Rightarrow> [] | Some c \<Rightarrow> c) ims)))"

section \<open>Facts\<close>

definition in_cat :: "compat_category \<Rightarrow> import_text \<Rightarrow> bool" where
  "in_cat c im \<longleftrightarrow> classify (it_module im) (it_name im) = Some c"

definition scored :: "import_text \<Rightarrow> bool" where
  "scored im \<longleftrightarrow> classify (it_module im) (it_name im) \<noteq> None"

definition missing_entry :: "string \<Rightarrow> import_text \<Rightarrow> missing_api" where
  "missing_entry called im =
     missing_of (it_module im) (it_name im) (case it_name im of Some _ \<Rightarrow> 0 | None \<Rightarrow> it_ordinal im) called"

lemma cat_index_less: "cat_index c < 7"
  by (cases c) auto

lemma cat_index_inj: "cat_index c = cat_index d \<longleftrightarrow> c = d"
  by (cases c; cases d) auto

lemma all_categories_nth: "all_categories ! cat_index c = c"
  by (cases c) (simp_all add: all_categories_def)

lemma length_all_categories [clen]: "length all_categories = 7"
  by (simp add: all_categories_def)

lemma nth_bump: "i < length xs \<Longrightarrow> j < length xs \<Longrightarrow> bump i xs ! j = xs ! j + (if i = j then 1 else 0)"
  by (simp add: bump_def nth_list_update)

lemma length_bump [simp]: "length (bump i xs) = length xs"
  by (simp add: bump_def)

lemma detect_tech_frame [simp]:
  "an_missing (detect_tech d a) = an_missing a" "an_called_by (detect_tech d a) = an_called_by a"
  "an_issues (detect_tech d a) = an_issues a" "an_scores (detect_tech d a) = an_scores a"
  by (simp_all add: detect_tech_def)

lemma add_missing_frame [simp]:
  "an_called_by (add_missing m f k c a) = an_called_by a"
  "an_issues (add_missing m f k c a) = an_issues a"
  by (simp_all add: add_missing_def)

lemma add_issue_frame [simp]:
  "an_called_by (add_issue l t a) = an_called_by a" "an_missing (add_issue l t a) = an_missing a"
  "an_scores (add_issue l t a) = an_scores a" "an_overall (add_issue l t a) = an_overall a"
  by (simp_all add: add_issue_def)

text \<open>What the scoring loop computes: counts per category, and the first 64 unsupported imports.\<close>

lemma score_imports_counts:
  assumes "score_imports reg ims t a = (t', a')" "length (ta_totals t) = 7" "length (ta_supported t) = 7"
  shows "length (ta_totals t') = 7 \<and> length (ta_supported t') = 7 \<and>
    ta_totals t' ! cat_index c = ta_totals t ! cat_index c + of_nat (length (filter (in_cat c) ims)) \<and>
    ta_supported t' ! cat_index c = ta_supported t ! cat_index c +
      of_nat (length (filter (\<lambda>im. in_cat c im \<and> import_supported reg im) ims))"
  using assms
proof (induction ims arbitrary: t a)
  case Nil
  then show ?case by simp
next
  case (Cons im ims)
  show ?case
  proof (cases "classify (it_module im) (it_name im)")
    case None
    then show ?thesis using Cons by (simp add: in_cat_def)
  next
    case (Some cat)
    have i: "cat_index cat < 7" "cat_index c < 7" by (rule cat_index_less)+
    define t1 where "t1 = t\<lparr>ta_totals := bump (cat_index cat) (ta_totals t)\<rparr>"
    define t2 where "t2 = (if import_supported reg im
      then t1\<lparr>ta_supported := bump (cat_index cat) (ta_supported t1)\<rparr> else t1)"
    have len: "length (ta_totals t2) = 7" "length (ta_supported t2) = 7"
      using Cons.prems by (simp_all add: t1_def t2_def)
    obtain b where b: "score_imports reg ims t2 b = (t', a')"
      using Cons.prems(1) Some unfolding t2_def t1_def score_imports.simps Let_def by simp
    have tot: "ta_totals t2 ! cat_index c = ta_totals t ! cat_index c + (if cat = c then 1 else 0)"
      using Cons.prems(2) i by (auto simp: t1_def t2_def nth_bump cat_index_inj)
    have sup: "ta_supported t2 ! cat_index c = ta_supported t ! cat_index c +
        (if cat = c \<and> import_supported reg im then 1 else 0)"
      using Cons.prems(3) i by (auto simp: t1_def t2_def nth_bump cat_index_inj)
    from Cons.IH [OF b len] tot sup Some show ?thesis
      by (auto simp: in_cat_def)
  qed
qed

lemma take_append_take: "length xs \<le> n \<Longrightarrow> take n (take n (xs @ [x]) @ ys) = take n (xs @ x # ys)"
proof -
  assume len: "length xs \<le> n"
  show ?thesis
  proof (cases "length xs = n")
    case False
    with len obtain k where "n = length xs + Suc k" by (metis add_Suc_right less_iff_Suc_add le_neq_implies_less)
    then show ?thesis by simp
  qed simp
qed

lemma score_imports_missing:
  assumes "score_imports reg ims t a = (t', a')" "length (an_missing a) \<le> CELLAR_MAX_MISSING"
  shows "an_missing a' = take CELLAR_MAX_MISSING (an_missing a @
      map (missing_entry (an_called_by a)) (filter (\<lambda>im. scored im \<and> \<not> import_supported reg im) ims)) \<and>
    an_called_by a' = an_called_by a \<and> an_issues a' = an_issues a"
  using assms
proof (induction ims arbitrary: t a)
  case Nil
  then show ?case by simp
next
  case (Cons im ims)
  show ?case
  proof (cases "classify (it_module im) (it_name im)")
    case None
    then show ?thesis using Cons by (simp add: scored_def)
  next
    case (Some cat)
    define a1 where "a1 = (if import_supported reg im then a
      else case it_name im of
          Some n \<Rightarrow> add_missing (it_module im) (Some n) 0 (an_called_by a) a
        | None \<Rightarrow> add_missing (it_module im) None (it_ordinal im) (an_called_by a) a)"
    obtain t2 where b: "score_imports reg ims t2 (detect_tech (it_module im) a1) = (t', a')"
      using Cons.prems(1) Some by (simp add: Let_def a1_def)
    have mis: "an_missing a1 = (if import_supported reg im then an_missing a
        else take CELLAR_MAX_MISSING (an_missing a @ [missing_entry (an_called_by a) im]))"
      using Cons.prems(2)
      by (auto simp: a1_def add_missing_def missing_entry_def split: option.splits)
    have fr: "an_called_by a1 = an_called_by a" "an_issues a1 = an_issues a"
      by (auto simp: a1_def split: option.splits)
    have len: "length (an_missing (detect_tech (it_module im) a1)) \<le> CELLAR_MAX_MISSING"
      using mis Cons.prems(2) by auto
    show ?thesis
      using Cons.IH [OF b len] fr mis Some take_append_take [OF Cons.prems(2)]
      by (auto simp: scored_def)
  qed
qed

lemma later_phases_frame [simp]:
  "an_missing (graphics_issues a) = an_missing a" "an_scores (graphics_issues a) = an_scores a"
  "an_overall (graphics_issues a) = an_overall a"
  "an_missing (audio_choice a) = an_missing a" "an_scores (audio_choice a) = an_scores a"
  "an_overall (audio_choice a) = an_overall a"
  "an_missing (timer_issue ims a) = an_missing a" "an_scores (timer_issue ims a) = an_scores a"
  "an_overall (timer_issue ims a) = an_overall a"
  "an_missing (sync_issue ims a) = an_missing a" "an_scores (sync_issue ims a) = an_scores a"
  "an_overall (sync_issue ims a) = an_overall a"
  "an_missing (missing_issue a) = an_missing a" "an_scores (missing_issue a) = an_scores a"
  "an_overall (missing_issue a) = an_overall a"
  "an_missing (ordinal_issue ims a) = an_missing a" "an_scores (ordinal_issue ims a) = an_scores a"
  "an_overall (ordinal_issue ims a) = an_overall a"
  by (simp_all add: graphics_issues_def audio_choice_def timer_issue_def sync_issue_def
      missing_issue_def ordinal_issue_def Let_def split: option.split)

lemma percent_of_exact:
  assumes "m \<le> n" "n * 100 < 2 ^ 32"
  shows "percent_of (of_nat m) (of_nat n) z = (if n = 0 then z else int (m * 100 div n))"
proof (cases "n = 0")
  case True
  then show ?thesis by (simp add: percent_of_def)
next
  case False
  have n: "unat (of_nat n :: u32) = n"
    using assms by (simp add: unat_of_nat take_bit_nat_eq_self)
  have m: "unat (of_nat m * 100 :: u32) = m * 100"
  proof -
    have "of_nat m * 100 = (of_nat (m * 100) :: u32)" by simp
    moreover have "unat (of_nat (m * 100) :: u32) = m * 100"
      using assms by (simp add: unat_of_nat take_bit_nat_eq_self del: of_nat_mult)
    ultimately show ?thesis by (simp only:)
  qed
  have le: "m * 100 div n \<le> 100"
    using div_le_mono [of "m * 100" "100 * n" n] assms(1) False by simp
  have "unat (of_nat m * 100 div of_nat n :: u32) = m * 100 div n"
    by (simp only: unat_div n m)
  then have "uint (of_nat m * 100 div of_nat n :: u32) = int (m * 100 div n)"
    by (metis uint_nat)
  moreover have "int (m * 100 div n) < 2 ^ 31"
  proof -
    have "int (m * 100 div n) \<le> 100" using le by (metis of_nat_le_iff of_nat_numeral)
    then show ?thesis by simp
  qed
  ultimately have "sint (of_nat m * 100 div of_nat n :: u32) = int (m * 100 div n)"
    by (simp add: sint_uint signed_take_bit_int_eq_self)
  moreover have "(of_nat n :: u32) \<noteq> 0" using n False by (metis unat_0)
  ultimately show ?thesis using False by (simp add: percent_of_def)
qed

lemma sum_list_bump: "i < length xs \<Longrightarrow> sum_list (bump i xs) = sum_list xs + 1"
proof -
  assume i: "i < length xs"
  have "sum_list xs = sum_list (take i xs) + (xs ! i + sum_list (drop (Suc i) xs))"
    using i by (metis id_take_nth_drop sum_list.Cons sum_list_append)
  then show ?thesis using i by (simp add: bump_def upd_conv_take_nth_drop)
qed

lemma score_imports_sums:
  assumes "score_imports reg ims t a = (t', a')" "length (ta_totals t) = 7" "length (ta_supported t) = 7"
  shows "sum_list (ta_totals t') = sum_list (ta_totals t) + of_nat (length (filter scored ims)) \<and>
    sum_list (ta_supported t') = sum_list (ta_supported t) +
      of_nat (length (filter (\<lambda>im. scored im \<and> import_supported reg im) ims))"
  using assms
proof (induction ims arbitrary: t a)
  case (Cons im ims)
  show ?case
  proof (cases "classify (it_module im) (it_name im)")
    case None
    then show ?thesis using Cons by (simp add: scored_def)
  next
    case (Some cat)
    have i: "cat_index cat < 7" by (rule cat_index_less)
    define t2 where "t2 = t\<lparr>ta_totals := bump (cat_index cat) (ta_totals t),
      ta_supported := (if import_supported reg im then bump (cat_index cat) (ta_supported t)
                       else ta_supported t)\<rparr>"
    obtain b where b: "score_imports reg ims t2 b = (t', a')"
      using Cons.prems(1) Some by (auto simp: Let_def t2_def split: if_splits)
    have "length (ta_totals t2) = 7" "length (ta_supported t2) = 7"
      using Cons.prems by (simp_all add: t2_def)
    from Cons.IH [OF b this] Cons.prems Some i show ?thesis
      by (auto simp: scored_def t2_def sum_list_bump)
  qed
qed simp

section \<open>Properties\<close>

text \<open>C25. The scores are exact: for an image with fewer than \<open>2 ^ 32 / 100\<close> imports the analysis
  succeeds, each subsystem is scored with the integer percentage of its imports that the registered
  tables provide (\<open>-1\<close> when it has none), the overall figure is the same over all classified
  imports, and the missing-API list is exactly the first 64 classified imports that are not
  provided, in import order.\<close>

theorem analyze_scores_exact:
  assumes "import_texts (case img_mapped im of None \<Rightarrow> [] | Some m \<Rightarrow> m) (img_imports im) = Some ims"
    and "length ims * 100 < 2 ^ 32"
  shows "\<exists>a. cellar_compat_analyze reg (Some im) called = Ok a \<and>
    (\<forall>c. sc_category (score_at a c) = c \<and>
       sc_percent (score_at a c) =
         (if filter (in_cat c) ims = [] then -1
          else int (length (filter (\<lambda>i. in_cat c i \<and> import_supported reg i) ims) * 100
                    div length (filter (in_cat c) ims)))) \<and>
    an_overall a = (if filter scored ims = [] then 100
       else int (length (filter (\<lambda>i. scored i \<and> import_supported reg i) ims) * 100
                 div length (filter scored ims))) \<and>
    an_missing a = take 64 (map (missing_entry (snprintf_s 256 (case called of None \<Rightarrow> [] | Some c \<Rightarrow> c)))
       (filter (\<lambda>i. scored i \<and> \<not> import_supported reg i) ims))"
proof -
  define nm where "nm = (case called of None \<Rightarrow> [] | Some c \<Rightarrow> c)"
  define s0 where "s0 = analysis_start (opt_magic (img_opt im) = CELLAR_PE_MAGIC_PE32_PLUS) nm"
  obtain t a1 where sc: "score_imports reg ims tally_zero s0 = (t, a1)" by fastforce
  define a where "a = analyze_imports reg (opt_magic (img_opt im) = CELLAR_PE_MAGIC_PE32_PLUS) nm ims"
  have res: "cellar_compat_analyze reg (Some im) called = Ok a"
    using assms(1) by (simp add: cellar_compat_analyze_def or_fault_def a_def nm_def)
  have a: "an_scores a = map (score_of t) all_categories"
    "an_overall a = percent_of (sum_list (ta_supported t)) (sum_list (ta_totals t)) 100"
    "an_missing a = an_missing a1"
    using sc by (simp_all add: a_def analyze_imports_def s0_def finish_scores_def)
  have z: "length (ta_totals tally_zero) = 7" "length (ta_supported tally_zero) = 7"
    by (simp_all add: tally_zero_def)
  have small: "length (filter P ims) * 100 < 2 ^ 32" for P
    using length_filter_le [of P ims] assms(2) by linarith
  have sub: "length (filter (\<lambda>i. P i \<and> Q i) ims) \<le> length (filter P ims)" for P Q
    by (metis filter_filter length_filter_le)
  have score: "score_at a c = score_of t c" for c
    using cat_index_less [of c] by (simp add: score_at_def a clen all_categories_nth)
  have p: "sc_percent (score_at a c) = percent_of
      (of_nat (length (filter (\<lambda>i. in_cat c i \<and> import_supported reg i) ims)))
      (of_nat (length (filter (in_cat c) ims))) (-1)" for c
    using score_imports_counts [OF sc z, of c] cat_index_less [of c]
    by (simp add: score score_of_def Let_def tally_zero_def)
  have o: "an_overall a = percent_of
      (of_nat (length (filter (\<lambda>i. scored i \<and> import_supported reg i) ims)))
      (of_nat (length (filter scored ims))) 100"
    using score_imports_sums [OF sc z] by (simp add: a tally_zero_def sum_list_replicate)
  have m: "an_missing a = take 64 (map (missing_entry (snprintf_s 256 nm))
      (filter (\<lambda>i. scored i \<and> \<not> import_supported reg i) ims))"
    using score_imports_missing [OF sc] by (simp add: a s0_def analysis_start_def CELLAR_MAX_MISSING_def)
  show ?thesis
    using res p o m percent_of_exact [OF sub small]
    by (intro exI [of _ a]) (simp add: score score_of_def Let_def nm_def)
qed

text \<open>An image that imports \<^verbatim>\<open>d3d12.dll!beep\<close> and an ordinal of the same DLL.\<close>

definition d3d_image :: cellar_image where
  "d3d_image = demo_image\<lparr>img_mapped := Some (map char_byte (''d3d12.dll'' @ [CHR 0x00] @ ''beep'' @ [CHR 0x00, CHR 0x00])),
     img_imports := [\<lparr>imp_module = 0, imp_name = Some 10, imp_ordinal = 0, imp_resolved = None\<rparr>,
                     \<lparr>imp_module = 0, imp_name = None, imp_ordinal = 7, imp_resolved = None\<rparr>]\<rparr>"

definition beep_registry :: registry where
  "beep_registry = \<lparr>g_modules = [\<lparr>mod_name = ''d3d12'', mod_exports = [\<lparr>ex_name = ''beep'', ex_fn = ''k''\<rparr>]\<rparr>],
     g_module_cap = 1\<rparr>"

theorem analyze_scores_exact_witness:
  "\<exists>a. cellar_compat_analyze beep_registry (Some d3d_image) None = Ok a \<and> an_overall a = 50 \<and>
     sc_percent (score_at a CELLAR_CAT_GRAPHICS) = 50 \<and> sc_percent (score_at a CELLAR_CAT_INPUT) = -1 \<and>
     map ma_function (an_missing a) = [''#7'']"
proof -
  define ims where "ims = [\<lparr>it_module = ''d3d12.dll'', it_name = Some ''beep'', it_ordinal = 0\<rparr>,
    \<lparr>it_module = ''d3d12.dll'', it_name = None, it_ordinal = 7\<rparr>]"
  have t: "import_texts (case img_mapped d3d_image of None \<Rightarrow> [] | Some m \<Rightarrow> m)
      (img_imports d3d_image) = Some ims"
    unfolding ims_def by code_simp
  have n: "length ims * 100 < 2 ^ 32" by (simp add: ims_def)
  have cls: "filter scored ims = ims" "filter (in_cat CELLAR_CAT_GRAPHICS) ims = ims"
    "filter (in_cat CELLAR_CAT_INPUT) ims = []"
    "filter (\<lambda>i. scored i \<and> import_supported beep_registry i) ims = [hd ims]"
    "filter (\<lambda>i. in_cat CELLAR_CAT_GRAPHICS i \<and> import_supported beep_registry i) ims = [hd ims]"
    "filter (\<lambda>i. scored i \<and> \<not> import_supported beep_registry i) ims = [ims ! 1]"
    unfolding ims_def by code_simp+
  have ne: "ims \<noteq> []" "length ims = 2" by (simp_all add: ims_def)
  have f: "ma_function (missing_entry [] (ims ! 1)) = ''#7''" unfolding ims_def by code_simp
  show ?thesis
    using analyze_scores_exact [OF t n, of beep_registry None] cls ne f
    by (fastforce simp: snprintf_s_def)
qed

section \<open>The report\<close>

definition pad_right :: "nat \<Rightarrow> string \<Rightarrow> string" where
  "pad_right w s = s @ replicate (w - length s) CHR '' ''"

definition bar :: "nat \<Rightarrow> int \<Rightarrow> string" where
  "bar n percent =
     (if n < 21 then []
      else map (\<lambda>i. if int i < (percent * 20 + 50) div 100 then CHR ''#'' else CHR '' '') [0..<20])"

definition or_none :: "string \<Rightarrow> string" where
  "or_none s = (if s \<noteq> [] then s else ''(none)'')"

definition score_line :: "compat_score \<Rightarrow> string" where
  "score_line s =
     (if sc_percent s < 0 then pad_right 16 (cellar_compat_category_name (sc_category s)) @ '' N/A''
      else pad_right 16 (cellar_compat_category_name (sc_category s)) @ '' ['' @ bar 24 (sc_percent s) @ ''] '' @
        pad_left 3 CHR '' '' (show_int (sc_percent s)) @ ''%  ('' @ dec (unat (sc_supported s)) @ ''/'' @
        dec (unat (sc_total s)) @ '')'')"

definition issue_line :: "compat_issue \<Rightarrow> string" where
  "issue_line i = CHR '' '' # (case iss_level i of CELLAR_ISSUE_ERROR \<Rightarrow> ''X'' | CELLAR_ISSUE_WARN \<Rightarrow> ''!''
     | CELLAR_ISSUE_INFO \<Rightarrow> ''-'') @ '' '' @ iss_text i"

definition missing_lines :: "missing_api \<Rightarrow> string list" where
  "missing_lines m = [''  Module:       '' @ ma_module m, ''  Missing API:  '' @ ma_function m,
     ''  Called by:    '' @ ma_called_by m, ''  Recommenation:'' @ ma_recommendation m, ''  ---'']"

definition cellar_compat_report :: "cellar_analysis option \<Rightarrow> string" where
  "cellar_compat_report a =
     (case a of None \<Rightarrow> []
      | Some a \<Rightarrow> unlines (
          [''============================================'',
           ''   COMPATIBILITY ANALYSIS '' @ em_dash @ '' '' @ an_called_by a,
           ''============================================'',
           ''Architecture:        '' @ (if an_is_64bit a then ''x64'' else ''x86''),
           ''PE format:           '' @ (if an_valid_pe a then ''Valid'' else ''Invalid''),
           ''Graphics:            '' @ or_none (an_graphics a),
           ''Audio:               '' @ or_none (an_audio a),
           ''Input:               '' @ or_none (an_input a),
           ''Networking:          '' @ or_none (an_networking a),
           [], ''Windows APIs''] @
          map score_line (an_scores a) @
          [''Overall             '' @ pad_left 3 CHR '' '' (show_int (an_overall a)) @ ''%''] @
          (if an_issues a = [] then []
           else [[], ''Potential issues'', ''-----------------''] @ map issue_line (an_issues a)) @
          (if an_missing a = [] then []
           else [[], ''Compatibility failures (missing APIs)'', ''-------------------------------------''] @
             concat (map missing_lines (take 8 (an_missing a))) @
             (if length (an_missing a) > 8
              then [''  ... and '' @ dec (length (an_missing a) - 8) @ '' more''] else [])) @
          [[], ''Recommended configuration'', ''-------------------------'',
           ''Graphics: '' @ an_gfx_rec a, ''Audio:    '' @ an_audio_rec a, ''Input:    '' @ an_input_rec a,
           ''Shader cache: '' @ (if an_shader_cache a then ''ENABLED'' else ''disabled''), []]))"

lemma length_bar [clen]: "21 \<le> n \<Longrightarrow> length (bar n p) = 20"
  by (simp add: bar_def)

lemma bar_filled: "21 \<le> n \<Longrightarrow> 0 \<le> p \<Longrightarrow> p \<le> 100 \<Longrightarrow>
  length (filter (\<lambda>c. c = CHR ''#'') (bar n p)) = nat ((p * 20 + 50) div 100)"
proof -
  assume a: "21 \<le> n" "0 \<le> p" "p \<le> 100"
  define k where "k = nat ((p * 20 + 50) div 100)"
  have k: "int k = (p * 20 + 50) div 100" "k \<le> 20" using a by (auto simp: k_def)
  have "filter (\<lambda>c. c = CHR ''#'') (bar n p) = map (\<lambda>_. CHR ''#'') (filter (\<lambda>i. i < k) [0..<20])"
    using a(1) by (auto simp: bar_def filter_map o_def simp flip: k(1) intro!: map_cong filter_cong)
  moreover have "filter (\<lambda>i. i < k) [0..<20] = [0..<k]"
  proof -
    have "[0..<20] = [0..<k] @ [k..<20]" using k(2) by (metis le0 upt_add_eq_append le_add_diff_inverse)
    then show ?thesis by simp
  qed
  ultimately show ?thesis by (simp add: k_def)
qed

end
