(* ===== verification/Inspect.thy ===== *)
theory Inspect
  imports Compat
begin

unbundle bit_operations_syntax

text \<open>
  The application inspector, \<^verbatim>\<open>src/inspect/inspect.c\<close>: what an image imports, the directories it
  has, the walk over its resource tree in search of a manifest, and the report.
\<close>

definition CELLAR_PE_DIR_RESOURCE :: nat where "CELLAR_PE_DIR_RESOURCE = 2"
definition CELLAR_PE_DIR_TLS :: nat where "CELLAR_PE_DIR_TLS = 9"
definition CELLAR_PE_DIR_DELAYIMPORT :: nat where "CELLAR_PE_DIR_DELAYIMPORT = 13"
definition CELLAR_PE_DIR_COM :: nat where "CELLAR_PE_DIR_COM = 14"
definition CELLAR_INSPECT_MAX_DLLS :: nat where "CELLAR_INSPECT_MAX_DLLS = 32"

record cellar_inspect =
  ins_path :: string
  ins_basename :: string
  ins_is_64bit :: bool
  ins_is_dll :: bool
  ins_machine :: u16
  ins_subsystem :: u16
  ins_import_count :: nat
  ins_export_count :: nat
  ins_unique_dlls :: "string list"
  ins_has_tls :: bool
  ins_has_resources :: bool
  ins_has_manifest :: bool
  ins_has_com :: bool
  ins_has_delay_imports :: bool
  ins_is_dotnet :: bool
  ins_needs_vcruntime :: bool
  ins_needs_dotnet :: bool
  ins_graphics :: string
  ins_audio :: string
  ins_input :: string
  ins_networking :: string
  ins_tls_rva :: u32
  ins_tls_size :: u32
  ins_resource_rva :: u32
  ins_resource_size :: u32
  ins_com_rva :: u32
  ins_com_size :: u32

definition inspect_zero :: cellar_inspect where
  "inspect_zero = \<lparr>ins_path = [], ins_basename = [], ins_is_64bit = False, ins_is_dll = False,
     ins_machine = 0, ins_subsystem = 0, ins_import_count = 0, ins_export_count = 0,
     ins_unique_dlls = [], ins_has_tls = False, ins_has_resources = False, ins_has_manifest = False,
     ins_has_com = False, ins_has_delay_imports = False, ins_is_dotnet = False,
     ins_needs_vcruntime = False, ins_needs_dotnet = False, ins_graphics = [], ins_audio = [],
     ins_input = [], ins_networking = [], ins_tls_rva = 0, ins_tls_size = 0, ins_resource_rva = 0,
     ins_resource_size = 0, ins_com_rva = 0, ins_com_size = 0\<rparr>"

section \<open>Imports\<close>

definition basename_of :: "string option \<Rightarrow> nat \<Rightarrow> string" where
  "basename_of path n =
     (case path of None \<Rightarrow> snprintf_s n ''(memory)''
      | Some p \<Rightarrow>
          if p = [] then snprintf_s n ''(memory)''
          else (case rsplit_at CHR ''/'' p of None \<Rightarrow> snprintf_s n p | Some (_, b) \<Rightarrow> snprintf_s n b))"

definition add_unique_dll :: "string \<Rightarrow> cellar_inspect \<Rightarrow> cellar_inspect" where
  "add_unique_dll dll ins =
     (if dll = [] then ins
      else if list_ex (\<lambda>d. strcasecmp_eq d dll) (ins_unique_dlls ins) then ins
      else if length (ins_unique_dlls ins) \<ge> CELLAR_INSPECT_MAX_DLLS then ins
      else ins\<lparr>ins_unique_dlls := ins_unique_dlls ins @ [snprintf_s 64 dll]\<rparr>)"

definition dll_is :: "string \<Rightarrow> string \<Rightarrow> bool" where
  "dll_is dll pre = has_prefix_ci dll pre"

definition classify_dll :: "string \<Rightarrow> cellar_inspect \<Rightarrow> cellar_inspect" where
  "classify_dll dll ins =
     (let clr = dll_is dll ''mscoree'' \<or> dll_is dll ''clr'' \<or> dll_is dll ''mscorlib'' in
      ins\<lparr>ins_graphics :=
            (if dll_is dll ''d3d12'' then ''Direct3D 12''
             else if dll_is dll ''d3d11'' then ''Direct3D 11''
             else if dll_is dll ''d3d9'' then ''Direct3D 9''
             else if dll_is dll ''opengl32'' then ''OpenGL''
             else if dll_is dll ''vulkan'' then ''Vulkan'' else ins_graphics ins),
          ins_audio :=
            (if dll_is dll ''xaudio2'' \<or> dll_is dll ''dsound'' then ''XAudio2''
             else if dll_is dll ''mmdevapi'' then ''WASAPI''
             else if dll_is dll ''winmm'' \<and> ins_audio ins = [] then ''WINMM'' else ins_audio ins),
          ins_input :=
            (if dll_is dll ''xinput'' then ''XInput''
             else if dll_is dll ''dinput'' then ''DirectInput'' else ins_input ins),
          ins_networking :=
            (if dll_is dll ''ws2_32'' \<or> dll_is dll ''wsock32'' then ''Winsock'' else ins_networking ins),
          ins_is_dotnet := (clr \<or> ins_is_dotnet ins),
          ins_needs_dotnet := (clr \<or> ins_needs_dotnet ins),
          ins_needs_vcruntime :=
            (dll_is dll ''msvcr'' \<or> dll_is dll ''vcruntime'' \<or> dll_is dll ''ucrtbase'' \<or>
             dll_is dll ''msvcp'' \<or> ins_needs_vcruntime ins)\<rparr>)"

fun scan_modules :: "import_text list \<Rightarrow> cellar_inspect \<Rightarrow> cellar_inspect" where
  "scan_modules [] ins = ins"
| "scan_modules (im # ims) ins =
     scan_modules ims (classify_dll (it_module im) (add_unique_dll (it_module im) ins))"

section \<open>Resources\<close>

text \<open>The recursion stops below depth 3; the first argument counts the levels left, so depth 0 is
  4. The second function is the loop over the entries of one directory.\<close>

definition u16_of :: "bytes \<Rightarrow> nat \<Rightarrow> u16" where
  "u16_of b k = (case cellar_le16 (drop k b) of None \<Rightarrow> 0 | Some v \<Rightarrow> v)"

definition u32_of :: "bytes \<Rightarrow> nat \<Rightarrow> u32" where
  "u32_of b k = (case cellar_le32 (drop k b) of None \<Rightarrow> 0 | Some v \<Rightarrow> v)"

definition entry_count :: "bytes \<Rightarrow> nat" where
  "entry_count hdr = min 256 (unat (u16_of hdr 12 + u16_of hdr 14))"

fun walk_resources :: "cellar_image \<Rightarrow> u32 \<Rightarrow> nat \<Rightarrow> u32 \<Rightarrow> bool \<Rightarrow> bool cres"
  and walk_entries :: "cellar_image \<Rightarrow> u32 \<Rightarrow> nat \<Rightarrow> u32 \<Rightarrow> nat list \<Rightarrow> bool \<Rightarrow> bool cres" where
  "walk_resources img root 0 off found = Ok found"
| "walk_resources img root (Suc k) off found =
     cbind (cellar_image_read img (root + off) 16) (\<lambda>r.
       case r of None \<Rightarrow> Ok found
       | Some hdr \<Rightarrow> walk_entries img root k off [0..<entry_count hdr] found)"
| "walk_entries img root k off [] found = Ok found"
| "walk_entries img root k off (i # is) found =
     cbind (cellar_image_read img (root + off + 16 + of_nat i * 8) 8) (\<lambda>r.
       case r of None \<Rightarrow> Ok found
       | Some ent \<Rightarrow>
           let name = u32_of ent 0; offset = u32_of ent 4;
               f1 = (found \<or> (k = 3 \<and> name AND 0x80000000 = 0 \<and> name AND 0xFFFF = 24))
           in cbind (if offset AND 0x80000000 \<noteq> 0
                     then walk_resources img root k (offset AND 0x7FFFFFFF) f1 else Ok f1)
                (\<lambda>f2. walk_entries img root k off is f2))"

section \<open>Inspection\<close>

definition present :: "pe_data_directory \<Rightarrow> bool" where
  "present d \<longleftrightarrow> dd_virtual_address d \<noteq> 0 \<and> dd_size d \<noteq> 0"

definition inspect_directories :: "cellar_image \<Rightarrow> bool \<Rightarrow> cellar_inspect \<Rightarrow> cellar_inspect" where
  "inspect_directories img manifest ins =
     (let tls = data_dir img CELLAR_PE_DIR_TLS; res = data_dir img CELLAR_PE_DIR_RESOURCE;
          com = data_dir img CELLAR_PE_DIR_COM; dly = data_dir img CELLAR_PE_DIR_DELAYIMPORT in
      ins\<lparr>ins_tls_rva := dd_virtual_address tls, ins_tls_size := dd_size tls, ins_has_tls := present tls,
          ins_resource_rva := dd_virtual_address res, ins_resource_size := dd_size res,
          ins_has_resources := present res, ins_has_manifest := manifest,
          ins_com_rva := dd_virtual_address com, ins_com_size := dd_size com, ins_has_com := present com,
          ins_is_dotnet := (present com \<or> ins_is_dotnet ins),
          ins_needs_dotnet := (present com \<or> ins_needs_dotnet ins),
          ins_has_delay_imports := present dly\<rparr>)"

definition cellar_inspect_image ::
    "cellar_image option \<Rightarrow> string option \<Rightarrow> cellar_inspect cres" where
  "cellar_inspect_image img path =
     (case img of None \<Rightarrow> Err CELLAR_ERR_INVALID_ARGUMENT
      | Some im \<Rightarrow>
          let i0 = inspect_zero\<lparr>
                ins_path := (case path of None \<Rightarrow> [] | Some p \<Rightarrow> snprintf_s 512 p),
                ins_basename := basename_of path 128,
                ins_is_64bit := (opt_magic (img_opt im) = CELLAR_PE_MAGIC_PE32_PLUS),
                ins_is_dll := img_is_dll im, ins_machine := coff_machine (img_coff im),
                ins_subsystem := opt_subsystem (img_opt im),
                ins_import_count := length (img_imports im),
                ins_export_count := img_export_name_count im\<rparr>
          in cbind (or_fault (import_texts (case img_mapped im of None \<Rightarrow> [] | Some m \<Rightarrow> m)
                                (img_imports im))) (\<lambda>ims.
             cbind (if present (data_dir im CELLAR_PE_DIR_RESOURCE)
                    then walk_resources im (dd_virtual_address (data_dir im CELLAR_PE_DIR_RESOURCE)) 4 0 False
                    else Ok False) (\<lambda>manifest.
               Ok (inspect_directories im manifest (scan_modules ims i0)))))"

section \<open>The report\<close>

definition machine_name :: "u16 \<Rightarrow> string" where
  "machine_name m =
     (if m = 0x014c then ''x86'' else if m = 0x8664 then ''x64'' else if m = 0x01c0 then ''ARM''
      else if m = 0xaa64 then ''ARM64'' else ''unknown'')"

definition yes_no :: "bool \<Rightarrow> string" where
  "yes_no b = (if b then ''yes'' else ''no'')"

definition required :: "bool \<Rightarrow> string" where
  "required b = (if b then ''Required'' else ''not required'')"

definition cellar_inspect_report :: "cellar_inspect option \<Rightarrow> string" where
  "cellar_inspect_report ins =
     (case ins of None \<Rightarrow> []
      | Some i \<Rightarrow> unlines (
          [''============================================'',
           ''   APPLICATION INSPECTOR '' @ em_dash @ '' '' @ ins_basename i,
           ''============================================'',
           ''PE architecture:     '' @ machine_name (ins_machine i) @ '' ('' @
             (if ins_is_64bit i then ''PE32+'' else ''PE32'') @ '')'',
           ''Kind:                '' @ (if ins_is_dll i then ''DLL'' else ''executable''),
           ''Imported DLLs:       '' @ dec (length (ins_unique_dlls i)),
           ''Imported APIs:       '' @ dec (ins_import_count i),
           ''Exported APIs:       '' @ dec (ins_export_count i),
           ''Manifest:            '' @ (if ins_has_manifest i then ''present'' else ''none''),
           ''TLS:                 '' @ yes_no (ins_has_tls i),
           ''Resources:           '' @ yes_no (ins_has_resources i),
           ''Delay-load imports:  '' @ yes_no (ins_has_delay_imports i),
           ''COM / CLR directory: '' @ yes_no (ins_has_com i),
           ''.NET:                '' @ required (ins_needs_dotnet i),
           ''VC Runtime:          '' @ required (ins_needs_vcruntime i),
           ''Graphics:            '' @ or_none (ins_graphics i),
           ''Audio:               '' @ or_none (ins_audio i),
           ''Input:               '' @ or_none (ins_input i),
           ''Networking:          '' @ or_none (ins_networking i)] @
          (if ins_unique_dlls i = [] then []
           else [[], ''Imported modules:''] @ map (\<lambda>d. ''  '' @ d) (ins_unique_dlls i)) @
          [[]]))"

section \<open>Facts\<close>

lemma walk_no_fault:
  "image_wf img \<Longrightarrow> walk_resources img root k off found \<noteq> Fault"
  "image_wf img \<Longrightarrow> walk_entries img root k off is found \<noteq> Fault"
proof (induction img root k off found and img root k off "is" found rule: walk_resources_walk_entries.induct)
  case (2 img root k off found)
  then show ?case using image_read_no_fault [of img 16] by (auto simp: cbind_Fault_iff split: option.splits)
next
  case (4 img root k off i "is" found)
  then show ?case using image_read_no_fault [of img 8]
    by (auto simp: cbind_Fault_iff Let_def split: option.splits if_splits)
qed auto

lemma walk_not_err:
  "walk_resources img root k off found \<noteq> Err e"
  "walk_entries img root k off is found \<noteq> Err e"
proof (induction img root k off found and img root k off "is" found rule: walk_resources_walk_entries.induct)
  case (2 img root k off found)
  then show ?case by (auto simp: cbind_Err_iff cellar_image_read_def split: option.splits if_splits)
next
  case (4 img root k off i "is" found)
  then show ?case
    by (auto simp: cbind_Err_iff Let_def cellar_image_read_def split: option.splits if_splits)
qed auto

definition dlls_ok :: "string list \<Rightarrow> bool" where
  "dlls_ok ds \<longleftrightarrow> length ds \<le> CELLAR_INSPECT_MAX_DLLS \<and> list_all (\<lambda>d. length d < 64) ds"

lemma add_unique_dll_ok [cinv]: "dlls_ok (ins_unique_dlls ins) \<Longrightarrow> dlls_ok (ins_unique_dlls (add_unique_dll d ins))"
  by (auto simp: add_unique_dll_def dlls_ok_def clen)

lemma classify_dll_frame [simp]: "ins_unique_dlls (classify_dll d ins) = ins_unique_dlls ins"
  by (simp add: classify_dll_def Let_def)

lemma scan_modules_ok [cinv]: "dlls_ok (ins_unique_dlls ins) \<Longrightarrow> dlls_ok (ins_unique_dlls (scan_modules ims ins))"
  by (induction ims arbitrary: ins) (simp_all add: add_unique_dll_ok)

text \<open>With module names that fit their slot, the list has no two entries equal up to case, and it
  holds every imported module as long as it is not full.\<close>

lemma scan_modules_unique:
  assumes "unique_keys strcasecmp_eq (\<lambda>d. d) (ins_unique_dlls ins)" "\<forall>im\<in>set ims. length (it_module im) < 64"
  shows "unique_keys strcasecmp_eq (\<lambda>d. d) (ins_unique_dlls (scan_modules ims ins))"
  using assms
proof (induction ims arbitrary: ins)
  case (Cons im ims)
  have "unique_keys strcasecmp_eq (\<lambda>d. d) (ins_unique_dlls (add_unique_dll (it_module im) ins))"
  proof -
    have snoc: "unique_keys strcasecmp_eq (\<lambda>d. d) (xs @ [y])"
      if "unique_keys strcasecmp_eq (\<lambda>d. d) xs" "\<not> list_ex (\<lambda>d. strcasecmp_eq d y) xs" for xs and y :: string
      using that by (induction xs) auto
    show ?thesis using Cons.prems snoc by (auto simp: add_unique_dll_def snprintf_s_id)
  qed
  then show ?case using Cons by simp
qed simp

lemma scan_modules_keeps:
  "d \<in> set (ins_unique_dlls ins) \<Longrightarrow> d \<in> set (ins_unique_dlls (scan_modules ims ins))"
  by (induction ims arbitrary: ins) (auto simp: add_unique_dll_def)

text \<open>Every entry is an imported module, cut to its slot; until the list is full, no module is missing,
  whatever the length of its name.\<close>

lemma scan_modules_sound:
  "d \<in> set (ins_unique_dlls (scan_modules ims ins)) \<Longrightarrow>
     d \<in> set (ins_unique_dlls ins) \<or> (\<exists>im\<in>set ims. it_module im \<noteq> [] \<and> d = snprintf_s 64 (it_module im))"
proof (induction ims arbitrary: ins)
  case (Cons im ims)
  then have "d \<in> set (ins_unique_dlls (add_unique_dll (it_module im) ins)) \<or>
      (\<exists>im\<in>set ims. it_module im \<noteq> [] \<and> d = snprintf_s 64 (it_module im))" by fastforce
  then show ?case by (auto simp: add_unique_dll_def split: if_splits)
qed simp

lemma scan_modules_mono: "length (ins_unique_dlls i) \<le> length (ins_unique_dlls (scan_modules js i))"
proof (induction js arbitrary: i)
  case (Cons j js)
  have "length (ins_unique_dlls i) \<le> length (ins_unique_dlls (add_unique_dll (it_module j) i))"
    by (simp add: add_unique_dll_def)
  also have "\<dots> \<le> length (ins_unique_dlls (scan_modules js (classify_dll (it_module j) (add_unique_dll (it_module j) i))))"
    using Cons.IH [of "classify_dll (it_module j) (add_unique_dll (it_module j) i)"] by simp
  finally show ?case by simp
qed simp

lemma add_unique_dll_listed:
  assumes "dlls_ok (ins_unique_dlls ins)" "dll \<noteq> []"
    "length (ins_unique_dlls (add_unique_dll dll ins)) < CELLAR_INSPECT_MAX_DLLS"
  shows "\<exists>d\<in>set (ins_unique_dlls (add_unique_dll dll ins)). strcasecmp_eq d (snprintf_s 64 dll)"
proof (cases "list_ex (\<lambda>d. strcasecmp_eq d dll) (ins_unique_dlls ins)")
  case True
  then obtain d where d: "d \<in> set (ins_unique_dlls ins)" "strcasecmp_eq d dll" by (auto simp: list_ex_iff)
  moreover have "length d < 64" using assms(1) d(1) by (auto simp: dlls_ok_def list_all_iff)
  moreover have "length d = length dll" using d(2) by (auto simp: strcasecmp_eq_def dest: map_eq_imp_length_eq)
  ultimately show ?thesis using True by (auto simp: add_unique_dll_def snprintf_s_id)
next
  case False
  then show ?thesis using assms(2,3) by (simp add: add_unique_dll_def split: if_splits)
qed

lemma scan_modules_complete:
  assumes "dlls_ok (ins_unique_dlls ins)" "im \<in> set ims" "it_module im \<noteq> []"
    and "length (ins_unique_dlls (scan_modules ims ins)) < CELLAR_INSPECT_MAX_DLLS"
  shows "\<exists>d\<in>set (ins_unique_dlls (scan_modules ims ins)). strcasecmp_eq d (snprintf_s 64 (it_module im))"
  using assms
proof (induction ims arbitrary: ins)
  case (Cons x ims)
  define b where "b = classify_dll (it_module x) (add_unique_dll (it_module x) ins)"
  have ok: "dlls_ok (ins_unique_dlls b)" using Cons.prems(1) by (simp add: b_def cinv)
  show ?case
  proof (cases "im = x")
    case True
    have "length (ins_unique_dlls b) < CELLAR_INSPECT_MAX_DLLS"
      using scan_modules_mono [of b ims] Cons.prems(4) by (simp add: b_def)
    then obtain d where d: "d \<in> set (ins_unique_dlls b)" "strcasecmp_eq d (snprintf_s 64 (it_module x))"
      using add_unique_dll_listed [OF Cons.prems(1)] Cons.prems(3) True by (auto simp: b_def)
    have "d \<in> set (ins_unique_dlls (scan_modules (x # ims) ins))"
      using scan_modules_keeps [OF d(1), of ims] by (simp add: b_def)
    then show ?thesis using d(2) True by blast
  next
    case False
    then show ?thesis using Cons.IH [OF ok] Cons.prems by (simp add: b_def)
  qed
qed simp

text \<open>A name of 64 characters or more never equals its own cut entry: it is listed at every import.\<close>

lemma long_name_listed_again:
  assumes "64 \<le> length dll" "dlls_ok (ins_unique_dlls ins)" "length (ins_unique_dlls ins) < CELLAR_INSPECT_MAX_DLLS"
  shows "ins_unique_dlls (add_unique_dll dll ins) = ins_unique_dlls ins @ [snprintf_s 64 dll]"
proof -
  have "\<not> strcasecmp_eq d dll" if "d \<in> set (ins_unique_dlls ins)" for d
    using that assms(1,2) by (auto simp: dlls_ok_def list_all_iff strcasecmp_eq_def dest!: map_eq_imp_length_eq)
  then show ?thesis using assms(1,3) by (auto simp: add_unique_dll_def list_ex_iff)
qed

section \<open>Properties\<close>

text \<open>C26. Inspecting a well-formed image whose import strings are terminated always returns a
  description, however the resource tree is shaped (the walk stays inside the mapped image and
  ends). Its module list respects the bounds of its arrays and holds imported modules only, each cut
  to the 63 characters of its slot; unless all 32 slots are taken, every imported module with a name is
  in it, up to case and the cut. No module is in it twice (up to case) if the imported names have at most
  63 characters.\<close>

theorem inspect_image_correct:
  assumes "image_wf img"
    and "import_texts (case img_mapped img of None \<Rightarrow> [] | Some m \<Rightarrow> m) (img_imports img) = Some ims"
  shows "\<exists>ins. cellar_inspect_image (Some img) path = Ok ins \<and> dlls_ok (ins_unique_dlls ins) \<and>
    (\<forall>d\<in>set (ins_unique_dlls ins). \<exists>im\<in>set ims. it_module im \<noteq> [] \<and> d = snprintf_s 64 (it_module im)) \<and>
    (length (ins_unique_dlls ins) = CELLAR_INSPECT_MAX_DLLS \<or>
     (\<forall>im\<in>set ims. it_module im \<noteq> [] \<longrightarrow>
        (\<exists>d\<in>set (ins_unique_dlls ins). strcasecmp_eq d (snprintf_s 64 (it_module im))))) \<and>
    ((\<forall>im\<in>set ims. length (it_module im) < 64) \<longrightarrow>
     unique_keys strcasecmp_eq (\<lambda>d. d) (ins_unique_dlls ins))"
proof -
  let ?w = "walk_resources img (dd_virtual_address (data_dir img CELLAR_PE_DIR_RESOURCE)) 4 0 False"
  have "\<exists>m. (if present (data_dir img CELLAR_PE_DIR_RESOURCE) then ?w else Ok False) = Ok m"
    using walk_no_fault(1) [OF assms(1)] walk_not_err(1) by (cases ?w) auto
  then obtain m where m: "(if present (data_dir img CELLAR_PE_DIR_RESOURCE) then ?w else Ok False) = Ok m"
    by blast
  obtain i0 where i0: "cellar_inspect_image (Some img) path = Ok (inspect_directories img m (scan_modules ims i0))"
    "ins_unique_dlls i0 = []"
    using assms(2) m by (simp add: cellar_inspect_image_def Let_def or_fault_def inspect_zero_def)
  have ok: "dlls_ok (ins_unique_dlls i0)" by (simp add: dlls_ok_def i0(2))
  define ins where "ins = inspect_directories img m (scan_modules ims i0)"
  have u: "ins_unique_dlls ins = ins_unique_dlls (scan_modules ims i0)"
    by (simp add: ins_def inspect_directories_def Let_def)
  have k: "dlls_ok (ins_unique_dlls ins)" unfolding u using ok by (rule scan_modules_ok)
  have sound: "\<exists>im\<in>set ims. it_module im \<noteq> [] \<and> d = snprintf_s 64 (it_module im)"
    if "d \<in> set (ins_unique_dlls ins)" for d
    using scan_modules_sound [OF that [unfolded u]] i0(2) by simp
  have complete: "\<exists>d\<in>set (ins_unique_dlls ins). strcasecmp_eq d (snprintf_s 64 (it_module im))"
    if "length (ins_unique_dlls ins) < CELLAR_INSPECT_MAX_DLLS" "im \<in> set ims" "it_module im \<noteq> []" for im
    using scan_modules_complete [OF ok that(2,3)] that(1) unfolding u .
  have unique: "unique_keys strcasecmp_eq (\<lambda>d. d) (ins_unique_dlls ins)" if "\<forall>im\<in>set ims. length (it_module im) < 64"
    unfolding u by (rule scan_modules_unique) (use that i0(2) in auto)
  have "length (ins_unique_dlls ins) = CELLAR_INSPECT_MAX_DLLS \<or>
      length (ins_unique_dlls ins) < CELLAR_INSPECT_MAX_DLLS" using k by (auto simp: dlls_ok_def)
  then show ?thesis
    using i0(1) k sound complete unique unfolding ins_def [symmetric] by blast
qed

theorem inspect_image_correct_witness:
  "\<exists>ins. cellar_inspect_image (Some d3d_image) (Some ''/games/beep.exe'') = Ok ins \<and>
     (\<exists>d\<in>set (ins_unique_dlls ins). strcasecmp_eq d ''d3d12.dll'')"
proof -
  define ims where "ims = [\<lparr>it_module = ''d3d12.dll'', it_name = Some ''beep'', it_ordinal = 0\<rparr>,
    \<lparr>it_module = ''d3d12.dll'', it_name = None, it_ordinal = 7\<rparr>]"
  have wf: "image_wf d3d_image" by (simp add: image_wf_def d3d_image_def demo_image_def)
  have t: "import_texts (case img_mapped d3d_image of None \<Rightarrow> [] | Some m \<Rightarrow> m)
      (img_imports d3d_image) = Some ims"
    unfolding ims_def by code_simp
  have c: "\<exists>i. cellar_inspect_image (Some d3d_image) (Some ''/games/beep.exe'') = Ok i \<and>
      length (ins_unique_dlls i) = 1"
  proof -
    have "(case cellar_inspect_image (Some d3d_image) (Some ''/games/beep.exe'') of
        Ok i \<Rightarrow> length (ins_unique_dlls i) = 1 | _ \<Rightarrow> False)" by code_simp
    then show ?thesis by (auto split: cres.splits)
  qed
  show ?thesis
    using inspect_image_correct [OF wf t, of "Some ''/games/beep.exe''"] c
    by (fastforce simp: ims_def CELLAR_INSPECT_MAX_DLLS_def snprintf_s_id)
qed

end
