(* ===== verification/Profile.thy ===== *)
theory Profile
  imports Fs Text
begin

text \<open>
  \<^verbatim>\<open>src/compat/profile.c\<close>: the Windows version behaviour profiles, the prefix directory, and the
  per-application profiles saved as \<^verbatim>\<open>key=value\<close> files. \<open>fgets_lines\<close>, the lines a
  \<^verbatim>\<open>fgets\<close> loop with a buffer of fixed size sees, is shared by the text formats of the program.
\<close>

section \<open>Reading lines through a buffer\<close>

text \<open>\<^verbatim>\<open>fgets(line, n, f)\<close> returns at most \<open>n - 1\<close> characters, so a longer line comes in pieces.
  The result has the newline removed and ends at a NUL. A line of exactly \<open>n - 1\<close> characters leaves its newline for
  the next call, which sees an empty line.\<close>

function chunks :: "nat \<Rightarrow> string \<Rightarrow> string list" where
  "chunks n s = (if n < 2 \<or> length s < n - 1 then [s] else take (n - 1) s # chunks n (drop (n - 1) s))"
  by pat_completeness auto
termination by (relation "measure (\<lambda>(n, s). length s)") auto

declare chunks.simps [simp del]

definition fgets_lines :: "nat \<Rightarrow> string \<Rightarrow> string list" where
  "fgets_lines n text = map cstr
     (let ws = split_on NL text; body = concat (map (chunks n) (butlast ws)); tl = chunks n (last ws)
      in body @ (if last tl = [] then butlast tl else tl))"

lemma chunks_short: "length s < n - 1 \<Longrightarrow> chunks n s = [s]"
  by (subst chunks.simps) simp

definition line_fits :: "nat \<Rightarrow> string \<Rightarrow> bool" where
  "line_fits n l \<longleftrightarrow> NL \<notin> set l \<and> no_nul l \<and> length l < n - 1"

lemma fgets_lines_unlines:
  assumes "list_all (line_fits n) ls" "1 < n"
  shows "fgets_lines n (unlines ls) = ls"
proof -
  have s: "split_on NL (unlines ls) = ls @ [[]]"
    using assms(1) by (simp add: split_on_unlines list_all_iff line_fits_def)
  have "concat (map (chunks n) ls) = ls"
    using assms(1) by (induction ls) (auto simp: chunks_short line_fits_def)
  moreover have "map cstr ls = ls"
    using assms(1) by (auto simp: list_all_iff line_fits_def cstr_id intro!: map_idI)
  ultimately show ?thesis using assms(2) by (simp add: fgets_lines_def s Let_def chunks_short)
qed

section \<open>Windows versions\<close>

datatype version_mode = CELLAR_WIN_7 | CELLAR_WIN_81 | CELLAR_WIN_10 | CELLAR_WIN_11

record version_profile =
  vp_mode :: version_mode
  vp_name :: string
  vp_major :: u16
  vp_minor :: u16
  vp_build :: u16
  vp_sp_major :: u16
  vp_sp_minor :: u16
  vp_product_type :: u32
  vp_high_dpi :: bool
  vp_utf8 :: bool
  vp_touch :: bool
  vp_threadpool :: bool
  vp_arm :: bool

definition k_win7 :: version_profile where
  "k_win7 = \<lparr>vp_mode = CELLAR_WIN_7, vp_name = ''Windows 7'', vp_major = 6, vp_minor = 1, vp_build = 7601,
     vp_sp_major = 1, vp_sp_minor = 0, vp_product_type = 1, vp_high_dpi = False, vp_utf8 = False,
     vp_touch = False, vp_threadpool = False, vp_arm = False\<rparr>"

definition k_win81 :: version_profile where
  "k_win81 = \<lparr>vp_mode = CELLAR_WIN_81, vp_name = ''Windows 8.1'', vp_major = 6, vp_minor = 3, vp_build = 9600,
     vp_sp_major = 0, vp_sp_minor = 0, vp_product_type = 1, vp_high_dpi = False, vp_utf8 = False,
     vp_touch = True, vp_threadpool = True, vp_arm = False\<rparr>"

definition k_win10 :: version_profile where
  "k_win10 = \<lparr>vp_mode = CELLAR_WIN_10, vp_name = ''Windows 10'', vp_major = 10, vp_minor = 0, vp_build = 19045,
     vp_sp_major = 0, vp_sp_minor = 0, vp_product_type = 1, vp_high_dpi = True, vp_utf8 = True,
     vp_touch = True, vp_threadpool = True, vp_arm = False\<rparr>"

definition k_win11 :: version_profile where
  "k_win11 = \<lparr>vp_mode = CELLAR_WIN_11, vp_name = ''Windows 11'', vp_major = 10, vp_minor = 0, vp_build = 22631,
     vp_sp_major = 0, vp_sp_minor = 0, vp_product_type = 1, vp_high_dpi = True, vp_utf8 = True,
     vp_touch = True, vp_threadpool = True, vp_arm = True\<rparr>"

text \<open>The mode is an \<^verbatim>\<open>int\<close> that may come from a file; values outside the enumeration mean
  Windows 10.\<close>

definition cellar_version_profile :: "int \<Rightarrow> version_profile" where
  "cellar_version_profile m =
     (if m = 0 then k_win7 else if m = 1 then k_win81 else if m = 2 then k_win10
      else if m = 3 then k_win11 else k_win10)"

section \<open>The prefix directory\<close>

type_synonym environment = "string \<Rightarrow> string option"

definition cellar_prefix_dir :: "environment \<Rightarrow> string" where
  "cellar_prefix_dir env =
     (case env ''CELLAR_PREFIX'' of
        Some (c # p) \<Rightarrow> snprintf_s 1024 (c # p)
      | _ \<Rightarrow> snprintf_s 1024
          ((case env ''HOME'' of Some (c # h) \<Rightarrow> c # h | _ \<Rightarrow> ''.'') @ ''/.cellar/prefixes''))"

section \<open>Key-value text\<close>

text \<open>\<^verbatim>\<open>find_field\<close> scans line starts; \<open>rest\<close> is the text from the current line on.\<close>

function find_field :: "string \<Rightarrow> string \<Rightarrow> nat \<Rightarrow> string option" where
  "find_field rest key n =
     (if rest = [] then None
      else if has_prefix rest key \<and> has_prefix (drop (length key) rest) ''='' then
        Some (take (n - 1) (takeWhile (\<lambda>c. c \<noteq> NL) (drop (length key + 1) rest)))
      else (case split_at NL rest of None \<Rightarrow> None | Some (_, r) \<Rightarrow> find_field r key n))"
  by pat_completeness auto
termination by (relation "measure (\<lambda>(r, k, n). length r)") (auto dest: split_at_length)

declare find_field.simps [simp del]

definition field_int :: "string \<Rightarrow> string \<Rightarrow> int \<Rightarrow> int" where
  "field_int conf key d = (case find_field conf key 64 of None \<Rightarrow> d | Some b \<Rightarrow> scan_int b)"

section \<open>Profiles\<close>

record app_profile =
  pr_app_name :: string
  pr_version_mode :: int
  pr_gfx_backend :: string
  pr_audio_backend :: string
  pr_dll_overrides :: string
  pr_low_latency :: int
  pr_shader_cache :: int
  pr_last_good :: int

definition profile_lines :: "app_profile \<Rightarrow> string list" where
  "profile_lines p =
     [''# Cellar compatibility profile for '' @ pr_app_name p,
      ''version_mode='' @ show_int (pr_version_mode p),
      ''gfx_backend='' @ pr_gfx_backend p, ''audio_backend='' @ pr_audio_backend p,
      ''dll_overrides='' @ pr_dll_overrides p,
      ''low_latency_sync='' @ show_int (pr_low_latency p),
      ''shader_cache_enabled='' @ show_int (pr_shader_cache p),
      ''last_good='' @ show_int (pr_last_good p)]"

definition cellar_profile_save :: "string option \<Rightarrow> app_profile option \<Rightarrow> fs \<Rightarrow> fs cres" where
  "cellar_profile_save prefix_dir prof f =
     (case (prefix_dir, prof) of
        (Some pd, Some p) \<Rightarrow>
          if pr_app_name p = [] then Err CELLAR_ERR_INVALID_ARGUMENT
          else
            let f1 = fst (fs_mkdir f pd);
                dir = snprintf_s 1024 (pd @ ''/'' @ pr_app_name p);
                f2 = fst (fs_mkdir f1 dir);
                path = snprintf_s 1152 (dir @ ''/profile.conf'')
            in (case fs_write f2 path (unlines (profile_lines p)) of
                  None \<Rightarrow> Err CELLAR_ERR_INVALID_ARGUMENT | Some f' \<Rightarrow> Ok f')
      | _ \<Rightarrow> Err CELLAR_ERR_INVALID_ARGUMENT)"

definition profile_of_text :: "string \<Rightarrow> string \<Rightarrow> app_profile" where
  "profile_of_text app buf =
     (let str = (\<lambda>key n. case find_field buf key n of None \<Rightarrow> [] | Some v \<Rightarrow> v) in
      \<lparr>pr_app_name = snprintf_s 128 app,
       pr_version_mode = field_int buf ''version_mode'' 2,
       pr_gfx_backend = str ''gfx_backend'' 32, pr_audio_backend = str ''audio_backend'' 32,
       pr_dll_overrides = str ''dll_overrides'' 512,
       pr_low_latency = field_int buf ''low_latency_sync'' 0,
       pr_shader_cache = field_int buf ''shader_cache_enabled'' 0,
       pr_last_good = field_int buf ''last_good'' 0\<rparr>)"

text \<open>The file is read into a buffer of 8192 bytes and used as a C string.\<close>

definition cellar_profile_load ::
    "string option \<Rightarrow> string option \<Rightarrow> fs \<Rightarrow> app_profile cres" where
  "cellar_profile_load prefix_dir app f =
     (case (prefix_dir, app) of
        (Some pd, Some a) \<Rightarrow>
          (case fs_read f (snprintf_s 1152 (pd @ ''/'' @ a @ ''/profile.conf'')) of
             None \<Rightarrow> Err CELLAR_ERR_INVALID_ARGUMENT
           | Some text \<Rightarrow> Ok (profile_of_text a (cstr (take 8191 text))))
      | _ \<Rightarrow> Err CELLAR_ERR_INVALID_ARGUMENT)"

definition cellar_profile_mark_last_good :: "string option \<Rightarrow> app_profile option \<Rightarrow> fs \<Rightarrow> fs cres" where
  "cellar_profile_mark_last_good prefix_dir prof f =
     (case prof of None \<Rightarrow> Err CELLAR_ERR_INVALID_ARGUMENT
      | Some p \<Rightarrow> cellar_profile_save prefix_dir (Some (p\<lparr>pr_last_good := 1\<rparr>)) f)"

section \<open>Facts\<close>

lemma find_field_head:
  "NL \<notin> set v \<Longrightarrow> find_field ((key @ ''='' @ v @ [NL]) @ r) key n = Some (take (n - 1) v)"
proof -
  assume "NL \<notin> set v"
  then have "takeWhile (\<lambda>c. c \<noteq> NL) (v @ NL # r) = v" by (induction v) auto
  then show ?thesis by (subst find_field.simps) (simp add: has_prefix_def)
qed

lemma has_prefix_append: "has_prefix s (a @ b) \<longleftrightarrow> has_prefix s a \<and> has_prefix (drop (length a) s) b"
proof -
  have "has_prefix s p \<longleftrightarrow> (\<exists>t. s = p @ t)" for s p :: string
    by (metis append_eq_conv_conj has_prefix_def)
  then show ?thesis by fastforce
qed

lemma find_field_skip:
  assumes "NL \<notin> set l" "\<not> has_prefix (l @ NL # r) (key @ ''='')"
  shows "find_field ((l @ [NL]) @ r) key n = find_field r key n"
proof -
  have "\<not> (has_prefix (l @ NL # r) key \<and> has_prefix (drop (length key) (l @ NL # r)) ''='')"
    using assms(2) by (simp add: has_prefix_append)
  then show ?thesis
    using split_at_append [OF assms(1), of r]
    by (subst find_field.simps) auto
qed

text \<open>A line that does not start with the wanted key is skipped.\<close>

definition other_line :: "string \<Rightarrow> string \<Rightarrow> bool" where
  "other_line key l \<longleftrightarrow> NL \<notin> set l \<and> NL \<notin> set key \<and> \<not> has_prefix l (key @ ''='')"

lemma find_field_unlines_skip:
  assumes "other_line key l"
  shows "find_field (unlines (l # ls)) key n = find_field (unlines ls) key n"
proof -
  have nl: "NL \<notin> set (key @ ''='')" using assms by (simp add: other_line_def NL_def)
  have "\<not> has_prefix (l @ NL # unlines ls) (key @ ''='')"
  proof
    assume h: "has_prefix (l @ NL # unlines ls) (key @ ''='')"
    show False
    proof (cases "length (key @ ''='') \<le> length l")
      case True
      then show ?thesis using h assms by (simp add: has_prefix_def other_line_def)
    next
      case False
      then have "NL \<in> set (take (length (key @ ''='')) (l @ NL # unlines ls))"
        by (cases "Suc (length key) - length l") auto
      then show ?thesis using h nl by (simp only: has_prefix_def)
    qed
  qed
  then show ?thesis using assms find_field_skip by (simp add: unlines_def other_line_def)
qed

lemma find_field_unlines_hit:
  "NL \<notin> set v \<Longrightarrow> find_field (unlines ((key @ ''='' @ v) # ls)) key n = Some (take (n - 1) v)"
  using find_field_head [of v key "unlines ls" n] by (simp add: unlines_def)

text \<open>The values of a C \<^verbatim>\<open>int\<close>.\<close>

lemma length_show_int [clen]: "int32 i \<Longrightarrow> length (show_int i) \<le> 11"
proof -
  assume i: "int32 i"
  have d: "length (dec n) \<le> 10" if "n < 10 ^ 10" for n
    using length_digits [of 10 n 10] that by (simp add: dec_def)
  have "nat (- i) < 10 ^ 10" "nat i < 10 ^ 10" using i by (auto simp: int32_def)
  then show ?thesis using d [of "nat (- i)"] d [of "nat i"] by (simp add: show_int_def)
qed

lemma dec_chars: "c \<in> set (dec n) \<Longrightarrow> c \<noteq> NL \<and> c \<noteq> CHR 0x00"
  using dec_digits [of c n] by (auto simp: is_digit_def NL_def Let_def)

lemma show_int_chars: "c \<in> set (show_int i) \<Longrightarrow> c \<noteq> NL \<and> c \<noteq> CHR 0x00"
  by (auto simp: show_int_def NL_def dest: dec_chars split: if_splits)

lemma NL_show_int [simp]: "NL \<notin> set (show_int i)" "CHR 0x00 \<notin> set (show_int i)" "CHR 0x0A \<notin> set (show_int i)"
  using show_int_chars [unfolded NL_def] by (auto simp: NL_def)

text \<open>What a string field of \<open>n\<close> bytes can hold so that it survives a line-based format.\<close>

definition field_ok :: "nat \<Rightarrow> string \<Rightarrow> bool" where
  "field_ok n s \<longleftrightarrow> length s < n \<and> NL \<notin> set s \<and> no_nul s"

lemma field_int_show: "int32 i \<Longrightarrow> find_field conf key 64 = Some (take 63 (show_int i)) \<Longrightarrow> field_int conf key d = i"
  using length_show_int [of i] by (simp add: field_int_def scan_int_show)

definition profile_ok :: "app_profile \<Rightarrow> bool" where
  "profile_ok p \<longleftrightarrow> pr_app_name p \<noteq> [] \<and> field_ok 128 (pr_app_name p) \<and>
     field_ok 32 (pr_gfx_backend p) \<and> field_ok 32 (pr_audio_backend p) \<and> field_ok 512 (pr_dll_overrides p) \<and>
     int32 (pr_version_mode p) \<and> int32 (pr_low_latency p) \<and> int32 (pr_shader_cache p) \<and> int32 (pr_last_good p)"

lemma profile_lines_fields:
  assumes "profile_ok p"
  shows "find_field (unlines (profile_lines p)) ''version_mode'' n = Some (take (n - 1) (show_int (pr_version_mode p)))"
    "find_field (unlines (profile_lines p)) ''gfx_backend'' n = Some (take (n - 1) (pr_gfx_backend p))"
    "find_field (unlines (profile_lines p)) ''audio_backend'' n = Some (take (n - 1) (pr_audio_backend p))"
    "find_field (unlines (profile_lines p)) ''dll_overrides'' n = Some (take (n - 1) (pr_dll_overrides p))"
    "find_field (unlines (profile_lines p)) ''low_latency_sync'' n = Some (take (n - 1) (show_int (pr_low_latency p)))"
    "find_field (unlines (profile_lines p)) ''shader_cache_enabled'' n = Some (take (n - 1) (show_int (pr_shader_cache p)))"
    "find_field (unlines (profile_lines p)) ''last_good'' n = Some (take (n - 1) (show_int (pr_last_good p)))"
proof -
  have nl: "NL \<notin> set (pr_app_name p)" "NL \<notin> set (pr_gfx_backend p)" "NL \<notin> set (pr_audio_backend p)"
    "NL \<notin> set (pr_dll_overrides p)"
    using assms by (auto simp: profile_ok_def field_ok_def)
  note hit = find_field_unlines_hit [where key = "''version_mode''"]
    find_field_unlines_hit [where key = "''gfx_backend''"]
    find_field_unlines_hit [where key = "''audio_backend''"]
    find_field_unlines_hit [where key = "''dll_overrides''"]
    find_field_unlines_hit [where key = "''low_latency_sync''"]
    find_field_unlines_hit [where key = "''shader_cache_enabled''"]
    find_field_unlines_hit [where key = "''last_good''"]
  note s = profile_lines_def find_field_unlines_skip other_line_def has_prefix_def
  have nlc: "NL \<noteq> c" if "c \<noteq> CHR 0x0A" for c using that by (simp add: NL_def)
  show "find_field (unlines (profile_lines p)) ''version_mode'' n = Some (take (n - 1) (show_int (pr_version_mode p)))"
    using hit nl by (simp add: s nlc)
  show "find_field (unlines (profile_lines p)) ''gfx_backend'' n = Some (take (n - 1) (pr_gfx_backend p))"
    using hit nl by (simp add: s nlc)
  show "find_field (unlines (profile_lines p)) ''audio_backend'' n = Some (take (n - 1) (pr_audio_backend p))"
    using hit nl by (simp add: s nlc)
  show "find_field (unlines (profile_lines p)) ''dll_overrides'' n = Some (take (n - 1) (pr_dll_overrides p))"
    using hit nl by (simp add: s nlc)
  show "find_field (unlines (profile_lines p)) ''low_latency_sync'' n = Some (take (n - 1) (show_int (pr_low_latency p)))"
    using hit nl by (simp add: s nlc)
  show "find_field (unlines (profile_lines p)) ''shader_cache_enabled'' n = Some (take (n - 1) (show_int (pr_shader_cache p)))"
    using hit nl by (simp add: s nlc)
  show "find_field (unlines (profile_lines p)) ''last_good'' n = Some (take (n - 1) (show_int (pr_last_good p)))"
    using hit nl by (simp add: s nlc)
qed

lemma length_unlines: "length (unlines ls) = sum_list (map (\<lambda>l. length l + 1) ls)"
  by (induction ls) (simp_all add: unlines_def)

lemma no_nul_unlines: "list_all no_nul ls \<Longrightarrow> no_nul (unlines ls)"
  by (induction ls) (auto simp: unlines_def no_nul_def NL_def)

lemma profile_text_whole:
  assumes "profile_ok p"
  shows "cstr (take 8191 (unlines (profile_lines p))) = unlines (profile_lines p)"
proof -
  have len: "length (pr_app_name p) < 128" "length (pr_gfx_backend p) < 32" "length (pr_audio_backend p) < 32"
    "length (pr_dll_overrides p) < 512"
    using assms by (simp_all add: profile_ok_def field_ok_def)
  have ints: "length (show_int (pr_version_mode p)) \<le> 11" "length (show_int (pr_low_latency p)) \<le> 11"
    "length (show_int (pr_shader_cache p)) \<le> 11" "length (show_int (pr_last_good p)) \<le> 11"
    using assms by (simp_all add: profile_ok_def length_show_int)
  have "length (unlines (profile_lines p)) \<le> 8191"
    using len ints by (simp add: length_unlines profile_lines_def)
  moreover have "no_nul (unlines (profile_lines p))"
    by (rule no_nul_unlines) (use assms in \<open>simp add: profile_lines_def profile_ok_def field_ok_def no_nul_def\<close>)
  ultimately show ?thesis by (simp add: cstr_id)
qed

section \<open>Properties\<close>

text \<open>A profile that was saved is loaded back field by field: for every profile whose strings
  fit their arrays and hold no line break, under every prefix directory short enough for the path
  buffers, whatever else the file system holds.\<close>

theorem profile_roundtrip:
  assumes "profile_ok p" "length pd + length (pr_app_name p) < 1023"
    and "cellar_profile_save (Some pd) (Some p) f = Ok f'"
  shows "cellar_profile_load (Some pd) (Some (pr_app_name p)) f' = Ok p"
proof -
  let ?path = "pd @ ''/'' @ pr_app_name p @ ''/profile.conf''"
  have paths: "snprintf_s 1152 (snprintf_s 1024 (pd @ ''/'' @ pr_app_name p) @ ''/profile.conf'') = ?path"
    "snprintf_s 1152 ?path = ?path"
    using assms(2) by (simp_all add: snprintf_s_id)
  obtain g where w: "fs_write g ?path (unlines (profile_lines p)) = Some f'"
    using assms(1,3) unfolding cellar_profile_save_def paths(1) [symmetric]
    by (auto simp: profile_ok_def Let_def split: if_splits option.splits)
  note r = disk.rd_wr_same [OF w]
  obtain app vm gfx audio dll ll sh lg where p: "p = \<lparr>pr_app_name = app, pr_version_mode = vm,
      pr_gfx_backend = gfx, pr_audio_backend = audio, pr_dll_overrides = dll, pr_low_latency = ll,
      pr_shader_cache = sh, pr_last_good = lg\<rparr>" by (cases p)
  have "profile_of_text (pr_app_name p) (unlines (profile_lines p)) = p"
    using profile_lines_fields [OF assms(1)] field_int_show assms(1)
    by (simp add: profile_of_text_def p profile_ok_def field_ok_def snprintf_s_id)
  then show ?thesis
    using profile_text_whole [OF assms(1)] by (simp add: cellar_profile_load_def paths(2) r del: append.simps)
qed

definition demo_profile :: app_profile where
  "demo_profile = \<lparr>pr_app_name = ''game.exe'', pr_version_mode = 3, pr_gfx_backend = ''Vulkan'',
     pr_audio_backend = ''ALSA'', pr_dll_overrides = ''d3d9=native,winmm=bundled'', pr_low_latency = 1,
     pr_shader_cache = -2, pr_last_good = 0\<rparr>"

theorem profile_roundtrip_witness:
  "\<exists>f'. cellar_profile_save (Some ''/p'') (Some demo_profile) empty_fs = Ok f' \<and>
     cellar_profile_load (Some ''/p'') (Some ''game.exe'') f' = Ok demo_profile"
proof -
  have ok: "profile_ok demo_profile"
    by (simp add: profile_ok_def field_ok_def demo_profile_def int32_def NL_def no_nul_def)
  have "is_ok (cellar_profile_save (Some ''/p'') (Some demo_profile) empty_fs)" by code_simp
  then obtain f' where f': "cellar_profile_save (Some ''/p'') (Some demo_profile) empty_fs = Ok f'"
    by (cases "cellar_profile_save (Some ''/p'') (Some demo_profile) empty_fs") auto
  have n: "length ''/p'' + length (pr_app_name demo_profile) < 1023" "pr_app_name demo_profile = ''game.exe''"
    by (simp_all add: demo_profile_def)
  show ?thesis using profile_roundtrip [OF ok n(1) f'] f' by (simp add: n(2))
qed

end
