(* ===== verification/Db.thy ===== *)
theory Db
  imports Inspect Tables Profile
begin

text \<open>
  The persistent compatibility database, \<^verbatim>\<open>src/db/db.c\<close>: entries keyed by application name
  ignoring case, the text format they are saved in, and the parser that reads it back.
\<close>

section \<open>Data\<close>

datatype compat_rating = CELLAR_RATING_UNKNOWN | CELLAR_RATING_LOW | CELLAR_RATING_MEDIUM | CELLAR_RATING_HIGH

text \<open>The enumerators are 0 to 3; the \<^verbatim>\<open>int\<close> of the field can hold any value that was parsed.\<close>

fun rating_int :: "compat_rating \<Rightarrow> int" where
  "rating_int CELLAR_RATING_UNKNOWN = 0"
| "rating_int CELLAR_RATING_LOW = 1"
| "rating_int CELLAR_RATING_MEDIUM = 2"
| "rating_int CELLAR_RATING_HIGH = 3"

definition cellar_rating_name :: "int \<Rightarrow> string" where
  "cellar_rating_name r =
     (if r = rating_int CELLAR_RATING_HIGH then ''HIGH''
      else if r = rating_int CELLAR_RATING_MEDIUM then ''MEDIUM''
      else if r = rating_int CELLAR_RATING_LOW then ''LOW'' else ''UNKNOWN'')"

record db_entry =
  de_application :: string
  de_architecture :: string
  de_graphics :: string
  de_audio :: string
  de_input :: string
  de_needs_dotnet :: int
  de_needs_vcruntime :: int
  de_rating :: int
  de_issues :: "string list"

record cellar_db =
  db_entries :: "db_entry list"
  db_cap :: nat
  db_path :: string

definition entry_zero :: db_entry where
  "entry_zero = \<lparr>de_application = [], de_architecture = [], de_graphics = [], de_audio = [],
     de_input = [], de_needs_dotnet = 0, de_needs_vcruntime = 0, de_rating = 0, de_issues = []\<rparr>"

definition db_empty :: "string \<Rightarrow> cellar_db" where
  "db_empty path = \<lparr>db_entries = [], db_cap = 0, db_path = snprintf_s 1024 path\<rparr>"

section \<open>The table\<close>

fun replace_entry :: "db_entry \<Rightarrow> db_entry list \<Rightarrow> db_entry list option" where
  "replace_entry e [] = None"
| "replace_entry e (x # xs) =
     (if strcasecmp_eq (de_application x) (de_application e) then Some (e # xs)
      else map_option (\<lambda>r. x # r) (replace_entry e xs))"

text \<open>\<open>alloc n\<close> says whether \<^verbatim>\<open>realloc\<close> grants room for \<open>n\<close> entries.\<close>

definition cellar_db_put :: "(nat \<Rightarrow> bool) \<Rightarrow> db_entry \<Rightarrow> cellar_db \<Rightarrow> cellar_db cres" where
  "cellar_db_put alloc e db =
     (if de_application e = [] then Err CELLAR_ERR_INVALID_ARGUMENT
      else (case replace_entry e (db_entries db) of
              Some es \<Rightarrow> Ok (db\<lparr>db_entries := es\<rparr>)
            | None \<Rightarrow>
                if length (db_entries db) = db_cap db then
                  let ncap = (if db_cap db \<noteq> 0 then db_cap db * 2 else 8) in
                  if \<not> alloc ncap then Err CELLAR_ERR_OUT_OF_MEMORY
                  else Ok (db\<lparr>db_cap := ncap, db_entries := db_entries db @ [e]\<rparr>)
                else Ok (db\<lparr>db_entries := db_entries db @ [e]\<rparr>)))"

definition cellar_db_find :: "cellar_db option \<Rightarrow> string option \<Rightarrow> db_entry option" where
  "cellar_db_find db app =
     (case (db, app) of
        (Some d, Some a) \<Rightarrow> lookup_by strcasecmp_eq de_application a (db_entries d)
      | _ \<Rightarrow> None)"

definition cellar_db_count :: "cellar_db option \<Rightarrow> nat" where
  "cellar_db_count db = (case db of None \<Rightarrow> 0 | Some d \<Rightarrow> length (db_entries d))"

definition cellar_db_at :: "cellar_db option \<Rightarrow> nat \<Rightarrow> db_entry option" where
  "cellar_db_at db i =
     (case db of None \<Rightarrow> None | Some d \<Rightarrow> if i \<ge> length (db_entries d) then None else Some (db_entries d ! i))"

section \<open>Saving\<close>

definition entry_lines :: "db_entry \<Rightarrow> string list" where
  "entry_lines e =
     [CHR ''['' # de_application e @ '']'',
      ''architecture='' @ de_architecture e, ''graphics='' @ de_graphics e, ''audio='' @ de_audio e,
      ''input='' @ de_input e, ''dotnet='' @ show_int (de_needs_dotnet e),
      ''vcruntime='' @ show_int (de_needs_vcruntime e), ''rating='' @ show_int (de_rating e)] @
     map (\<lambda>t. ''issue='' @ t) (de_issues e) @ [[]]"

definition db_text :: "db_entry list \<Rightarrow> string" where
  "db_text es = unlines (''# cellar-compat-db 1'' # concat (map entry_lines es))"

text \<open>The directory of the database is created first; a failure to do so shows when the file is
  opened.\<close>

definition make_parent :: "string \<Rightarrow> fs \<Rightarrow> fs" where
  "make_parent path f =
     (case rsplit_at CHR ''/'' (snprintf_s 1024 path) of
        None \<Rightarrow> f | Some (dir, _) \<Rightarrow> fst (cellar_mkdir_p f (Some dir)))"

definition cellar_db_save :: "cellar_db \<Rightarrow> fs \<Rightarrow> fs cres" where
  "cellar_db_save db f =
     (if db_path db = [] then Err CELLAR_ERR_INVALID_ARGUMENT
      else (case fs_write (make_parent (db_path db) f) (db_path db) (db_text (db_entries db)) of
              None \<Rightarrow> Err CELLAR_ERR_INVALID_ARGUMENT | Some f' \<Rightarrow> Ok f'))"

section \<open>Opening\<close>

definition put_ignoring :: "(nat \<Rightarrow> bool) \<Rightarrow> db_entry \<Rightarrow> cellar_db \<Rightarrow> cellar_db" where
  "put_ignoring alloc e db = (case cellar_db_put alloc e db of Ok d \<Rightarrow> d | _ \<Rightarrow> db)"

definition field_line :: "string \<Rightarrow> string \<Rightarrow> db_entry \<Rightarrow> db_entry" where
  "field_line k v cur =
     (if k = ''architecture'' then cur\<lparr>de_architecture := snprintf_s 16 v\<rparr>
      else if k = ''graphics'' then cur\<lparr>de_graphics := snprintf_s 32 v\<rparr>
      else if k = ''audio'' then cur\<lparr>de_audio := snprintf_s 32 v\<rparr>
      else if k = ''input'' then cur\<lparr>de_input := snprintf_s 32 v\<rparr>
      else if k = ''dotnet'' then cur\<lparr>de_needs_dotnet := scan_int v\<rparr>
      else if k = ''vcruntime'' then cur\<lparr>de_needs_vcruntime := scan_int v\<rparr>
      else if k = ''rating'' then cur\<lparr>de_rating := scan_int v\<rparr>
      else if k = ''issue'' \<and> length (de_issues cur) < 8
      then cur\<lparr>de_issues := de_issues cur @ [snprintf_s 160 v]\<rparr>
      else cur)"

text \<open>One line of the file; the entry under construction is \<open>None\<close> before the first header.\<close>

definition db_line :: "(nat \<Rightarrow> bool) \<Rightarrow> string \<Rightarrow> cellar_db \<times> db_entry option \<Rightarrow> cellar_db \<times> db_entry option" where
  "db_line alloc line st =
     (case st of (db, cur) \<Rightarrow>
        (case line of [] \<Rightarrow> st
         | c # rest \<Rightarrow>
             if c = CHR ''#'' then st
             else if c = CHR ''['' then
               ((case cur of None \<Rightarrow> db | Some e \<Rightarrow> put_ignoring alloc e db),
                Some (entry_zero\<lparr>de_application := snprintf_s 128
                        (case split_at CHR '']'' rest of None \<Rightarrow> rest | Some (a, _) \<Rightarrow> a)\<rparr>))
             else (case cur of None \<Rightarrow> st
                   | Some e \<Rightarrow>
                       (case split_at CHR ''='' line of None \<Rightarrow> st
                        | Some (k, v) \<Rightarrow> (db, Some (field_line k v e))))))"

definition db_parse :: "(nat \<Rightarrow> bool) \<Rightarrow> string \<Rightarrow> string \<Rightarrow> cellar_db" where
  "db_parse alloc path text =
     (case fold (db_line alloc) (fgets_lines 512 text) (db_empty path, None) of
        (db, None) \<Rightarrow> db | (db, Some e) \<Rightarrow> put_ignoring alloc e db)"

definition cellar_db_open :: "(nat \<Rightarrow> bool) \<Rightarrow> fs \<Rightarrow> string option \<Rightarrow> cellar_db cres" where
  "cellar_db_open alloc f path =
     (case path of None \<Rightarrow> Err CELLAR_ERR_INVALID_ARGUMENT
      | Some p \<Rightarrow>
          if p = [] then Err CELLAR_ERR_INVALID_ARGUMENT
          else (case fs_read f p of None \<Rightarrow> Ok (db_empty p) | Some text \<Rightarrow> Ok (db_parse alloc p text)))"

definition cellar_db_default_path :: "environment \<Rightarrow> nat \<Rightarrow> string" where
  "cellar_db_default_path env n = cellar_path_join n (Some (cellar_prefix_dir env)) (Some ''compat.db'')"

section \<open>Entries from an analysis\<close>

definition entry_from_inspect :: "cellar_inspect \<Rightarrow> db_entry" where
  "entry_from_inspect ins =
     \<lparr>de_application = snprintf_s 128 (ins_basename ins),
      de_architecture = (if ins_machine ins = 0x8664 then ''x64'' else if ins_machine ins = 0xaa64 then ''ARM64''
        else if ins_is_64bit ins then ''x64'' else ''x86''),
      de_graphics = snprintf_s 32 (ins_graphics ins), de_audio = snprintf_s 32 (ins_audio ins),
      de_input = snprintf_s 32 (ins_input ins),
      de_needs_dotnet = of_bool (ins_needs_dotnet ins), de_needs_vcruntime = of_bool (ins_needs_vcruntime ins),
      de_rating = rating_int CELLAR_RATING_UNKNOWN, de_issues = []\<rparr>"

definition orelse :: "string \<Rightarrow> string \<Rightarrow> string" where
  "orelse a b = (if a = [] then b else a)"

definition entry_with_analysis :: "cellar_analysis \<Rightarrow> db_entry \<Rightarrow> db_entry" where
  "entry_with_analysis a e =
     e\<lparr>de_graphics := orelse (de_graphics e) (snprintf_s 32 (an_graphics a)),
       de_audio := orelse (de_audio e) (snprintf_s 32 (an_audio a)),
       de_input := orelse (de_input e) (snprintf_s 32 (an_input a)),
       de_application := orelse (de_application e) (snprintf_s 128 (an_called_by a)),
       de_architecture := orelse (de_architecture e) (if an_is_64bit a then ''x64'' else ''x86''),
       de_rating := rating_int (if an_overall a \<ge> 90 then CELLAR_RATING_HIGH
          else if an_overall a \<ge> 60 then CELLAR_RATING_MEDIUM else CELLAR_RATING_LOW),
       de_issues := take 8 (de_issues e @
          map (\<lambda>i. snprintf_s 160 (iss_text i)) (filter (\<lambda>i. iss_level i \<noteq> CELLAR_ISSUE_INFO) (an_issues a)))\<rparr>"

definition cellar_db_from_analysis :: "cellar_inspect option \<Rightarrow> cellar_analysis option \<Rightarrow> db_entry" where
  "cellar_db_from_analysis ins a =
     (let e = (case ins of None \<Rightarrow> entry_zero | Some i \<Rightarrow> entry_from_inspect i)
      in case a of None \<Rightarrow> e | Some x \<Rightarrow> entry_with_analysis x e)"

definition cellar_db_report :: "db_entry option \<Rightarrow> string" where
  "cellar_db_report e =
     (case e of None \<Rightarrow> []
      | Some e \<Rightarrow> unlines (
          [''Application: '' @ de_application e,
           ''Architecture: '' @ (if de_architecture e \<noteq> [] then de_architecture e else ''?''), [],
           ''Graphics: '' @ or_none (de_graphics e), ''Audio: '' @ or_none (de_audio e),
           ''Input: '' @ or_none (de_input e),
           ''.NET: '' @ required (de_needs_dotnet e \<noteq> 0),
           ''VC Runtime: '' @ required (de_needs_vcruntime e \<noteq> 0), [],
           ''Compatibility: '' @ cellar_rating_name (de_rating e),
           ''Known issues: '' @ dec (length (de_issues e))] @
          map (\<lambda>t. ''  - '' @ t) (de_issues e)))"

section \<open>Facts\<close>

lemma replace_entry_upsert:
  "replace_entry e es =
     (if lookup_by strcasecmp_eq de_application (de_application e) es = None then None
      else Some (upsert strcasecmp_eq de_application (\<lambda>x e. e) e es))"
  by (induction es) auto

lemma db_put_upsert:
  "cellar_db_put alloc e db = Ok db' \<Longrightarrow>
     db_entries db' = upsert strcasecmp_eq de_application (\<lambda>x e. e) e (db_entries db)"
  using upsert_fresh [of strcasecmp_eq de_application e "db_entries db"]
  by (auto simp: cellar_db_put_def replace_entry_upsert Let_def split: if_splits)

interpretation compat_db: keyed_table strcasecmp_eq db_entries de_application "\<lambda>x e. e"
    "cellar_db_put alloc" "\<lambda>db k. cellar_db_find (Some db) (Some k)"
  by unfold_locales (auto simp: cellar_db_find_def dest: db_put_upsert)

text \<open>The array is never over-full.\<close>

definition db_inv :: "cellar_db \<Rightarrow> bool" where
  "db_inv db \<longleftrightarrow> length (db_entries db) \<le> db_cap db \<and> unique_keys strcasecmp_eq de_application (db_entries db)"

lemma db_put_inv [cinv]: "cellar_db_put alloc e db = Ok db' \<Longrightarrow> db_inv db \<Longrightarrow> db_inv db'"
proof -
  assume a: "cellar_db_put alloc e db = Ok db'" "db_inv db"
  have "length (upsert strcasecmp_eq de_application (\<lambda>x e. e) e (db_entries db)) = length (db_entries db)"
    if "lookup_by strcasecmp_eq de_application (de_application e) (db_entries db) \<noteq> None"
    using that by (simp add: length_upsert)
  with a show ?thesis
    using compat_db.put_unique [OF a(1)]
    by (auto simp: db_inv_def cellar_db_put_def replace_entry_upsert Let_def split: if_splits)
qed

section \<open>The text format\<close>

definition entry_ok :: "db_entry \<Rightarrow> bool" where
  "entry_ok e \<longleftrightarrow> de_application e \<noteq> [] \<and> field_ok 128 (de_application e) \<and> CHR '']'' \<notin> set (de_application e) \<and>
     field_ok 16 (de_architecture e) \<and> field_ok 32 (de_graphics e) \<and> field_ok 32 (de_audio e) \<and>
     field_ok 32 (de_input e) \<and> int32 (de_needs_dotnet e) \<and> int32 (de_needs_vcruntime e) \<and>
     int32 (de_rating e) \<and> length (de_issues e) \<le> 8 \<and> list_all (field_ok 160) (de_issues e)"

lemma entry_lines_fit:
  assumes "entry_ok e"
  shows "list_all (line_fits 512) (entry_lines e)"
proof -
  have ints: "length (show_int (de_needs_dotnet e)) \<le> 11" "length (show_int (de_needs_vcruntime e)) \<le> 11"
    "length (show_int (de_rating e)) \<le> 11"
    using assms by (simp_all add: entry_ok_def length_show_int)
  have "list_all (line_fits 512) (map (\<lambda>t. ''issue='' @ t) (de_issues e))"
    using assms by (auto simp: entry_ok_def list_all_iff line_fits_def field_ok_def no_nul_def NL_def)
  then show ?thesis
    using assms ints
    by (simp add: entry_lines_def entry_ok_def line_fits_def field_ok_def no_nul_def NL_def)
qed

definition flush :: "(nat \<Rightarrow> bool) \<Rightarrow> cellar_db \<times> db_entry option \<Rightarrow> cellar_db" where
  "flush alloc st = (case st of (db, None) \<Rightarrow> db | (db, Some e) \<Rightarrow> put_ignoring alloc e db)"

lemma fold_issue_lines:
  assumes "length (de_issues c) + length ts \<le> 8" "list_all (field_ok 160) ts"
  shows "fold (db_line alloc) (map (\<lambda>t. ''issue='' @ t) ts) (db, Some c) =
    (db, Some (c\<lparr>de_issues := de_issues c @ ts\<rparr>))"
  using assms
proof (induction ts arbitrary: c)
  case (Cons t ts)
  have "db_line alloc (''issue='' @ t) (db, Some c) = (db, Some (c\<lparr>de_issues := de_issues c @ [t]\<rparr>))"
    using Cons.prems by (simp add: db_line_def field_line_def field_ok_def snprintf_s_id)
  then show ?case using Cons by simp
qed simp

lemma fold_entry_lines:
  assumes "entry_ok e"
  shows "fold (db_line alloc) (entry_lines e) (db, cur) = (flush alloc (db, cur), Some e)"
proof -
  obtain app arch gfx audio inp dn vc rt iss where e: "e = \<lparr>de_application = app, de_architecture = arch,
      de_graphics = gfx, de_audio = audio, de_input = inp, de_needs_dotnet = dn, de_needs_vcruntime = vc,
      de_rating = rt, de_issues = iss\<rparr>" by (cases e)
  have ok: "length app < 128" "CHR '']'' \<notin> set app" "length arch < 16" "length gfx < 32" "length audio < 32"
    "length inp < 32" "length iss \<le> 8" "list_all (field_ok 160) iss"
    using assms by (simp_all add: e entry_ok_def field_ok_def)
  have ints: "int32 dn" "int32 vc" "int32 rt" using assms by (simp_all add: e entry_ok_def)
  have hdr: "db_line alloc (CHR ''['' # app @ '']'') (db, cur) =
      (flush alloc (db, cur), Some (entry_zero\<lparr>de_application := app\<rparr>))"
    using ok(1) split_at_append [OF ok(2), of "[]"]
    by (simp add: db_line_def flush_def snprintf_s_id split: option.splits)
  have fields: "fold (db_line alloc) [''architecture='' @ arch, ''graphics='' @ gfx, ''audio='' @ audio,
      ''input='' @ inp, ''dotnet='' @ show_int dn, ''vcruntime='' @ show_int vc, ''rating='' @ show_int rt]
      (d, Some (entry_zero\<lparr>de_application := app\<rparr>)) = (d, Some (e\<lparr>de_issues := []\<rparr>))" for d
    using ok ints by (simp add: db_line_def field_line_def entry_zero_def e snprintf_s_id scan_int_show)
  have iss: "fold (db_line alloc) (map (\<lambda>t. ''issue='' @ t) iss) (d, Some (e\<lparr>de_issues := []\<rparr>)) = (d, Some e)" for d
    using fold_issue_lines [of "e\<lparr>de_issues := []\<rparr>" iss alloc d] ok(7,8) by (simp add: e)
  have blank: "db_line alloc [] st = st" for st by (cases st) (simp add: db_line_def)
  have "entry_lines e = [CHR ''['' # app @ '']''] @ [''architecture='' @ arch, ''graphics='' @ gfx,
      ''audio='' @ audio, ''input='' @ inp, ''dotnet='' @ show_int dn, ''vcruntime='' @ show_int vc,
      ''rating='' @ show_int rt] @ map (\<lambda>t. ''issue='' @ t) iss @ [[]]"
    by (simp add: entry_lines_def e)
  then show ?thesis
    by (simp only: fold_append comp_apply fold.simps id_apply hdr fields [unfolded fold.simps comp_apply id_apply]
        iss blank)
qed

lemma fold_entries:
  assumes "list_all entry_ok es"
  shows "flush alloc (fold (db_line alloc) (concat (map entry_lines es)) st) =
    fold (put_ignoring alloc) es (flush alloc st)"
  using assms
proof (induction es arbitrary: st)
  case (Cons e es)
  obtain db cur where st: "st = (db, cur)" by (cases st)
  have "flush alloc (fold (db_line alloc) (concat (map entry_lines (e # es))) st) =
      flush alloc (fold (db_line alloc) (concat (map entry_lines es)) (flush alloc st, Some e))"
    using Cons.prems fold_entry_lines [of e alloc db cur] by (simp add: st)
  also have "\<dots> = fold (put_ignoring alloc) es (put_ignoring alloc e (flush alloc st))"
    using Cons by (simp add: flush_def)
  finally show ?case by simp
qed simp

lemma put_ignoring_fresh:
  assumes "\<And>n. alloc n" "de_application e \<noteq> []"
    "lookup_by strcasecmp_eq de_application (de_application e) (db_entries db) = None"
  shows "db_entries (put_ignoring alloc e db) = db_entries db @ [e]" "db_path (put_ignoring alloc e db) = db_path db"
  using assms by (simp_all add: put_ignoring_def cellar_db_put_def replace_entry_upsert Let_def)

lemma fold_put_entries:
  assumes "\<And>n. alloc n" "list_all (\<lambda>e. de_application e \<noteq> []) es"
    "unique_keys strcasecmp_eq de_application (db_entries db @ es)"
  shows "db_entries (fold (put_ignoring alloc) es db) = db_entries db @ es \<and>
    db_path (fold (put_ignoring alloc) es db) = db_path db"
  using assms(2,3)
proof (induction es arbitrary: db)
  case (Cons e es)
  have fresh: "lookup_by strcasecmp_eq k x xs = None"
    if "unique_keys strcasecmp_eq k (xs @ y # ys)" "x = k y" for k x y and xs ys :: "db_entry list"
    using that by (induction xs) auto
  have "lookup_by strcasecmp_eq de_application (de_application e) (db_entries db) = None"
    using fresh [OF Cons.prems(2)] by simp
  note p = put_ignoring_fresh [OF assms(1) _ this]
  show ?case using Cons.IH [of "put_ignoring alloc e db"] Cons.prems p by simp
qed simp

lemma db_parse_text:
  assumes "\<And>n. alloc n" "list_all entry_ok es" "unique_keys strcasecmp_eq de_application es"
  shows "db_entries (db_parse alloc path (db_text es)) = es \<and>
    db_path (db_parse alloc path (db_text es)) = snprintf_s 1024 path"
proof -
  have fit: "list_all (line_fits 512) (''# cellar-compat-db 1'' # concat (map entry_lines es))"
    using assms(2) entry_lines_fit by (auto simp: list_all_iff line_fits_def NL_def no_nul_def)
  have lines: "fgets_lines 512 (db_text es) = ''# cellar-compat-db 1'' # concat (map entry_lines es)"
    unfolding db_text_def by (rule fgets_lines_unlines [OF fit]) simp
  have parse: "db_parse alloc path (db_text es) = fold (put_ignoring alloc) es (db_empty path)"
    using fold_entries [OF assms(2), of alloc "(db_empty path, None)"]
    by (simp add: db_parse_def lines db_line_def flush_def split: prod.splits option.splits)
  have "list_all (\<lambda>e. de_application e \<noteq> []) es" using assms(2) by (auto simp: list_all_iff entry_ok_def)
  then show ?thesis
    using fold_put_entries [OF assms(1), of es "db_empty path"] assms(3) by (simp add: parse db_empty_def)
qed

section \<open>Properties\<close>

text \<open>What is saved is opened again: for a database whose entries fit their arrays, hold no line
  breaks and have no bracket in their names, saving it and opening its path gives the same entries
  in the same order, whatever else is on the disk.\<close>

theorem db_save_open:
  assumes "db_inv db" "list_all entry_ok (db_entries db)" "length (db_path db) < 1024"
    and "cellar_db_save db f = Ok f'" "\<forall>n. alloc n"
  shows "\<exists>db'. cellar_db_open alloc f' (Some (db_path db)) = Ok db' \<and>
    db_entries db' = db_entries db \<and> db_path db' = db_path db"
proof -
  have ne: "db_path db \<noteq> []" using assms(4) by (auto simp: cellar_db_save_def)
  obtain g where w: "fs_write g (db_path db) (db_text (db_entries db)) = Some f'"
    using assms(4) by (auto simp: cellar_db_save_def split: if_splits option.splits)
  show ?thesis
    using db_parse_text [of alloc "db_entries db" "db_path db"] assms disk.rd_wr_same [OF w] ne
    by (simp add: cellar_db_open_def db_inv_def snprintf_s_id)
qed

definition demo_entry :: db_entry where
  "demo_entry = \<lparr>de_application = ''game.exe'', de_architecture = ''x64'', de_graphics = ''Direct3D 11'',
     de_audio = ''WASAPI'', de_input = [], de_needs_dotnet = 1, de_needs_vcruntime = 0, de_rating = 3,
     de_issues = [''no = sound'', []]\<rparr>"

theorem db_save_open_witness:
  "\<exists>f'. cellar_db_save \<lparr>db_entries = [demo_entry], db_cap = 8, db_path = ''/d/compat.db''\<rparr> empty_fs = Ok f' \<and>
     (\<exists>db'. cellar_db_open (\<lambda>_. True) f' (Some ''/d/compat.db'') = Ok db' \<and> db_entries db' = [demo_entry])"
proof -
  let ?db = "\<lparr>db_entries = [demo_entry], db_cap = 8, db_path = ''/d/compat.db''\<rparr>"
  have ok: "db_inv ?db" "list_all entry_ok (db_entries ?db)" "length (db_path ?db) < 1024" "\<forall>n::nat. True"
    by (simp_all add: db_inv_def entry_ok_def field_ok_def demo_entry_def int32_def NL_def no_nul_def)
  have "is_ok (cellar_db_save ?db empty_fs)" by code_simp
  then obtain f' where f': "cellar_db_save ?db empty_fs = Ok f'"
    by (cases "cellar_db_save ?db empty_fs") auto
  show ?thesis using db_save_open [OF ok(1-3) f' ok(4)] f' by fastforce
qed

text \<open>The database is a map from names, ignoring case, to entries: a put is found under every
  spelling of its name, leaves every other entry alone, and keeps the table free of duplicates and
  inside its array.\<close>

theorem db_put_find:
  assumes "cellar_db_put alloc e db = Ok db'" "db_inv db"
  shows "(\<forall>n. cellar_db_find (Some db') (Some n) =
      (if strcasecmp_eq (de_application e) n then Some e else cellar_db_find (Some db) (Some n))) \<and> db_inv db'"
  using compat_db.get_put_same [OF assms(1)] compat_db.get_put_other [OF assms(1)] db_put_inv [OF assms]
  by (auto split: option.splits)

theorem db_put_find_witness:
  "\<exists>db'. cellar_db_put (\<lambda>_. True) demo_entry (db_empty ''x'') = Ok db' \<and>
     cellar_db_find (Some db') (Some ''GAME.exe'') = Some demo_entry"
proof -
  have i: "db_inv (db_empty ''x'')" by (simp add: db_inv_def db_empty_def)
  have p: "\<exists>db'. cellar_db_put (\<lambda>_. True) demo_entry (db_empty ''x'') = Ok db'"
    by (simp add: cellar_db_put_def demo_entry_def db_empty_def Let_def)
  have "strcasecmp_eq (de_application demo_entry) ''GAME.exe''" by code_simp
  then show ?thesis using p db_put_find [OF _ i] by fastforce
qed

end
