(* ===== verification/Shell.thy ===== *)
theory Shell
  imports Fs Text
begin

text \<open>
  The virtual Windows folders of a bottle, \<^verbatim>\<open>src/shell/shell.c\<close>: the table of environment paths,
  the creation of the directory tree, and the expansion of \<^verbatim>\<open>%VAR%\<close> references.
\<close>

definition CELLAR_ENV_APPDATA :: nat where "CELLAR_ENV_APPDATA = 0"
definition CELLAR_ENV_LOCALAPPDATA :: nat where "CELLAR_ENV_LOCALAPPDATA = 1"
definition CELLAR_ENV_PROGRAMDATA :: nat where "CELLAR_ENV_PROGRAMDATA = 2"
definition CELLAR_ENV_TEMP :: nat where "CELLAR_ENV_TEMP = 3"
definition CELLAR_ENV_USERPROFILE :: nat where "CELLAR_ENV_USERPROFILE = 4"
definition CELLAR_ENV_WINDIR :: nat where "CELLAR_ENV_WINDIR = 5"
definition CELLAR_ENV_SYSTEMROOT :: nat where "CELLAR_ENV_SYSTEMROOT = 6"
definition CELLAR_ENV_PROGRAMFILES :: nat where "CELLAR_ENV_PROGRAMFILES = 7"
definition CELLAR_ENV_HOMEDRIVE :: nat where "CELLAR_ENV_HOMEDRIVE = 8"
definition CELLAR_ENV_HOMEPATH :: nat where "CELLAR_ENV_HOMEPATH = 9"
definition CELLAR_ENV_COUNT :: nat where "CELLAR_ENV_COUNT = 10"

lemmas env_defs = CELLAR_ENV_APPDATA_def CELLAR_ENV_LOCALAPPDATA_def CELLAR_ENV_PROGRAMDATA_def
  CELLAR_ENV_TEMP_def CELLAR_ENV_USERPROFILE_def CELLAR_ENV_WINDIR_def CELLAR_ENV_SYSTEMROOT_def
  CELLAR_ENV_PROGRAMFILES_def CELLAR_ENV_HOMEDRIVE_def CELLAR_ENV_HOMEPATH_def CELLAR_ENV_COUNT_def

definition k_env_names :: "string list" where
  "k_env_names = [''APPDATA'', ''LOCALAPPDATA'', ''PROGRAMDATA'', ''TEMP'', ''USERPROFILE'', ''WINDIR'',
     ''SYSTEMROOT'', ''PROGRAMFILES'', ''HOMEDRIVE'', ''HOMEPATH'']"

record shell_state =
  sh_bottle :: string
  sh_paths :: "string list"
  sh_inited :: bool

definition shell_start :: shell_state where
  "shell_start = \<lparr>sh_bottle = [], sh_paths = replicate CELLAR_ENV_COUNT [], sh_inited = False\<rparr>"

definition cellar_shell_init :: "string option \<Rightarrow> shell_state \<Rightarrow> shell_state cres" where
  "cellar_shell_init bottle s =
     (case bottle of None \<Rightarrow> Err CELLAR_ERR_INVALID_ARGUMENT
      | Some b \<Rightarrow>
          if b = [] then Err CELLAR_ERR_INVALID_ARGUMENT
          else
            let drive = cellar_path_join 640 (Some b) (Some ''drive_c'');
                sub = (\<lambda>d n. cellar_path_join 512 (Some d) (Some n));
                windir = sub drive ''windows'';
                profile = sub drive ''users/user'';
                local = sub profile ''AppData/Local''
            in Ok \<lparr>sh_bottle = snprintf_s 512 b,
                   sh_paths = [sub profile ''AppData/Roaming'', local, sub drive ''ProgramData'',
                     sub local ''Temp'', profile, windir, snprintf_s 512 windir,
                     sub drive ''Program Files'', ''C:'', CHR 0x5C # ''users'' @ CHR 0x5C # ''user''],
                   sh_inited = True\<rparr>)"

fun ensure_loop :: "fs \<Rightarrow> string list \<Rightarrow> fs \<times> bool" where
  "ensure_loop f [] = (f, True)"
| "ensure_loop f (p # ps) =
     (case cellar_mkdir_p f (Some p) of (f', r) \<Rightarrow> if r \<noteq> 0 then (f', False) else ensure_loop f' ps)"

definition env_dirs :: "shell_state \<Rightarrow> string list" where
  "env_dirs s = map (\<lambda>v. sh_paths s ! v)
     (filter (\<lambda>v. v \<noteq> CELLAR_ENV_HOMEDRIVE \<and> v \<noteq> CELLAR_ENV_HOMEPATH) [0..<CELLAR_ENV_COUNT])"

definition cellar_shell_ensure_dirs :: "shell_state \<Rightarrow> fs \<Rightarrow> fs \<times> cellar_status" where
  "cellar_shell_ensure_dirs s f =
     (if \<not> sh_inited s then (f, CELLAR_ERR_INVALID_ARGUMENT)
      else (case ensure_loop f (env_dirs s) of
              (f1, False) \<Rightarrow> (f1, CELLAR_ERR_INVALID_ARGUMENT)
            | (f1, True) \<Rightarrow>
                let sub = (\<lambda>d n. cellar_path_join 640 (Some d) (Some n)) in
                (fold (\<lambda>p g. fst (cellar_mkdir_p g (Some p)))
                   [sub (sh_paths s ! CELLAR_ENV_WINDIR) ''system32'',
                    sub (sh_paths s ! CELLAR_ENV_WINDIR) ''fonts'',
                    sub (sh_paths s ! CELLAR_ENV_USERPROFILE) ''Desktop'',
                    sub (sh_bottle s) ''dosdevices''] f1, CELLAR_OK)))"

definition cellar_shell_get :: "shell_state \<Rightarrow> nat \<Rightarrow> string" where
  "cellar_shell_get s v = (if \<not> sh_inited s \<or> v \<ge> CELLAR_ENV_COUNT then [] else sh_paths s ! v)"

definition cellar_shell_name :: "nat \<Rightarrow> string" where
  "cellar_shell_name v = (if v \<ge> CELLAR_ENV_COUNT then [] else k_env_names ! v)"

definition lookup_var :: "shell_state \<Rightarrow> string \<Rightarrow> string option" where
  "lookup_var s name =
     map_option (\<lambda>v. sh_paths s ! v) (List.find (\<lambda>v. strcasecmp_eq (k_env_names ! v) name) [0..<CELLAR_ENV_COUNT])"

section \<open>Expansion\<close>

text \<open>A reference at the start of the rest of the input: its value and the text after it.\<close>

definition var_ref :: "shell_state \<Rightarrow> string \<Rightarrow> (string \<times> string) option" where
  "var_ref s p =
     (case p of [] \<Rightarrow> None
      | c # r \<Rightarrow>
          if c \<noteq> CHR ''%'' then None
          else (case split_at CHR ''%'' r of None \<Rightarrow> None
                | Some (name, rest) \<Rightarrow>
                    if name = [] then None else map_option (\<lambda>v. (v, rest)) (lookup_var s name)))"

lemma var_ref_shorter: "var_ref s p = Some (v, rest) \<Longrightarrow> length rest < length p"
  by (auto simp: var_ref_def dest: split_at_length split: list.splits if_splits option.splits)

function expand_loop :: "shell_state \<Rightarrow> nat \<Rightarrow> string \<Rightarrow> string \<Rightarrow> string" where
  "expand_loop s cap p out =
     (case p of [] \<Rightarrow> out
      | c # r \<Rightarrow>
          if \<not> length out + 1 < cap then out
          else (case var_ref s p of
                  Some (val, rest) \<Rightarrow>
                    expand_loop s cap rest
                      (out @ (if length out + length val \<ge> cap then take (cap - 1 - length out) val else val))
                | None \<Rightarrow> expand_loop s cap r (out @ [c])))"
  by pat_completeness auto
termination by (relation "measure (\<lambda>(s, cap, p, out). length p)") (auto dest: var_ref_shorter)

declare expand_loop.simps [simp del]

definition cellar_shell_expand :: "shell_state \<Rightarrow> string option \<Rightarrow> nat \<Rightarrow> string cres" where
  "cellar_shell_expand s inp cap =
     (case inp of None \<Rightarrow> Err CELLAR_ERR_INVALID_ARGUMENT
      | Some i \<Rightarrow>
          if cap = 0 \<or> \<not> sh_inited s then Err CELLAR_ERR_INVALID_ARGUMENT
          else Ok (expand_loop s cap i []))"

section \<open>Facts\<close>

text \<open>What the expansion computes when the buffer is large enough.\<close>

function expand_spec :: "shell_state \<Rightarrow> string \<Rightarrow> string" where
  "expand_spec s p =
     (case p of [] \<Rightarrow> []
      | c # r \<Rightarrow> (case var_ref s p of Some (val, rest) \<Rightarrow> val @ expand_spec s rest
                  | None \<Rightarrow> c # expand_spec s r))"
  by pat_completeness auto
termination by (relation "measure (\<lambda>(s, p). length p)") (auto dest: var_ref_shorter)

declare expand_spec.simps [simp del]

text \<open>The C loop computes the first \<open>cap - 1\<close> characters of the full expansion.\<close>

lemma expand_loop_spec:
  "length out < cap \<Longrightarrow> expand_loop s cap p out = take (cap - 1) (out @ expand_spec s p)"
proof (induction s cap p out rule: expand_loop.induct)
  case (1 s cap p out)
  show ?case
  proof (cases p)
    case Nil
    then show ?thesis using "1.prems" by (simp add: expand_loop.simps expand_spec.simps)
  next
    case (Cons c r)
    show ?thesis
    proof (cases "length out + 1 < cap")
      case False
      then have "length out = cap - 1" using "1.prems" by simp
      then show ?thesis using False Cons by (simp add: expand_loop.simps)
    next
      case True
      note room = True
      show ?thesis
      proof (cases "var_ref s p")
        case None
        then show ?thesis using "1.IH"(1) [OF Cons _ None] room Cons
          by (simp add: expand_loop.simps [of s cap "c # r"] expand_spec.simps [of s "c # r"])
      next
        case (Some x)
        obtain val rest where x: "x = (val, rest)" by (cases x)
        note ih = "1.IH"(2) [OF Cons _ Some x [symmetric]]
        show ?thesis
        proof (cases "length out + length val \<ge> cap")
          case False
          then show ?thesis using ih room Cons Some x
            by (simp add: expand_loop.simps [of s cap "c # r"] expand_spec.simps [of s "c # r"])
        next
          case True
          then show ?thesis using ih room Cons Some x
            by (simp add: expand_loop.simps [of s cap "c # r"] expand_spec.simps [of s "c # r"])
        qed
      qed
    qed
  qed
qed

lemma shell_init_lengths:
  "cellar_shell_init b s = Ok s' \<Longrightarrow>
     length (sh_paths s') = CELLAR_ENV_COUNT \<and> list_all (\<lambda>p. length p < 512) (sh_paths s') \<and> length (sh_bottle s') < 512"
  by (auto simp: cellar_shell_init_def Let_def clen CELLAR_ENV_COUNT_def split: option.splits if_splits)

lemma ensure_loop_dirs:
  assumes "ensure_loop f ps = (f', True)"
  shows "fs_cwd f' = fs_cwd f \<and> (\<forall>k. node_at f k \<noteq> None \<longrightarrow> node_at f' k = node_at f k) \<and>
    (\<forall>p\<in>set ps. node_at f' (resolve f (strip_slashes (snprintf_s 1024 p))) \<noteq> None)"
  using assms
proof (induction ps arbitrary: f)
  case (Cons p ps)
  obtain g r where g: "cellar_mkdir_p f (Some p) = (g, r)" by fastforce
  with Cons.prems have r: "r = 0" "ensure_loop g ps = (f', True)" by (auto split: if_splits)
  note fr = mkdir_p_frame [OF g]
  have cwd: "resolve g q = resolve f q" for q by (rule resolve_cwd) (rule fr(1))
  show ?case using Cons.IH [OF r(2)] fr(1,3) fr(5) [OF r(1) refl] by (simp add: cwd)
qed simp

section \<open>Properties\<close>

text \<open>C34. Expansion is exact and bounded: on an initialised shell the C loop returns the first
  \<open>cap - 1\<close> characters of the text in which every reference to a known variable (any spelling) is
  replaced by its path and everything else is kept, so the result always fits its buffer.\<close>

theorem shell_expand_correct:
  assumes "sh_inited s" "0 < cap"
  shows "cellar_shell_expand s (Some p) cap = Ok (take (cap - 1) (expand_spec s p))"
  using assms expand_loop_spec [of "[]" cap s p] by (simp add: cellar_shell_expand_def)

theorem shell_expand_correct_witness:
  "\<exists>s. cellar_shell_init (Some ''/b'') shell_start = Ok s \<and>
     cellar_shell_expand s (Some ''%windir%;%nope%'') 64 = Ok ''/b/drive_c/windows;%nope%'' \<and>
     cellar_shell_expand s (Some ''%windir%;%nope%'') 5 = Ok ''/b/d''"
proof -
  have "case cellar_shell_init (Some ''/b'') shell_start of
      Ok s \<Rightarrow> sh_inited s \<and> expand_spec s ''%windir%;%nope%'' = ''/b/drive_c/windows;%nope%'' | _ \<Rightarrow> False"
    by code_simp
  then obtain s where s: "cellar_shell_init (Some ''/b'') shell_start = Ok s" "sh_inited s"
    "expand_spec s ''%windir%;%nope%'' = ''/b/drive_c/windows;%nope%''"
    by (auto split: cres.splits)
  show ?thesis
    using s shell_expand_correct [OF s(2), of 64 "''%windir%;%nope%''"]
      shell_expand_correct [OF s(2), of 5 "''%windir%;%nope%''"] by simp
qed

end
