(* ===== verification/FileBytes.thy ===== *)
theory FileBytes
  imports Fs Text
begin

text \<open>
  Binary file formats: little-endian integers in file contents, as the writers and readers of the
  archive (\<^verbatim>\<open>prefix.c\<close>), the shader cache (\<^verbatim>\<open>shadercache.c\<close>) and the WAV format
  (\<^verbatim>\<open>audio.c\<close>) lay them out. A reader returns the value and the rest of the stream, or
  \<open>None\<close> at the end of the file (\<^verbatim>\<open>fread\<close> came up short).
\<close>

definition wr_u32 :: "u32 \<Rightarrow> string" where
  "wr_u32 v = map byte_char (wput32 v)"

definition wr_u64 :: "u64 \<Rightarrow> string" where
  "wr_u64 v = map byte_char (wput64 v)"

definition wr_u16 :: "u16 \<Rightarrow> string" where
  "wr_u16 v = map byte_char (wput16 v)"

definition rd_bytes :: "nat \<Rightarrow> string \<Rightarrow> (string \<times> string) option" where
  "rd_bytes n s = (if n \<le> length s then Some (take n s, drop n s) else None)"

definition rd_u32 :: "string \<Rightarrow> (u32 \<times> string) option" where
  "rd_u32 s = map_option (\<lambda>v. (v, drop 4 s)) (cellar_le32 (map char_byte (take 4 s)))"

definition rd_u64 :: "string \<Rightarrow> (u64 \<times> string) option" where
  "rd_u64 s = map_option (\<lambda>v. (v, drop 8 s)) (cellar_le64 (map char_byte (take 8 s)))"

lemma length_wr [clen, simp]: "length (wr_u16 h) = 2" "length (wr_u32 w) = 4" "length (wr_u64 v) = 8"
  by (simp_all add: wr_u16_def wr_u32_def wr_u64_def)

lemma char_byte_wr [simp]:
  "map char_byte (wr_u16 h) = wput16 h" "map char_byte (wr_u32 w) = wput32 w" "map char_byte (wr_u64 v) = wput64 v"
  by (simp_all add: wr_u16_def wr_u32_def wr_u64_def o_def)

lemma rd_wr_u32: "rd_u32 (wr_u32 v @ r) = Some (v, r)"
  using le32_wput32 [of v "[]"] by (simp add: rd_u32_def)

lemma rd_wr_u64: "rd_u64 (wr_u64 v @ r) = Some (v, r)"
  using le64_wput64 [of v "[]"] by (simp add: rd_u64_def)

lemma rd_bytes_append: "length a = n \<Longrightarrow> rd_bytes n (a @ r) = Some (a, r)"
  by (auto simp: rd_bytes_def)

lemma rd_u32_length: "rd_u32 s = Some (v, r) \<Longrightarrow> length r < length s"
proof -
  assume "rd_u32 s = Some (v, r)"
  then have "r = drop 4 s" "cellar_le32 (map char_byte (take 4 s)) \<noteq> None" by (auto simp: rd_u32_def)
  then show ?thesis by (simp add: cellar_le32_None_iff)
qed

lemma rd_u64_length: "rd_u64 s = Some (v, r) \<Longrightarrow> length r < length s"
proof -
  assume "rd_u64 s = Some (v, r)"
  then have "r = drop 8 s" "cellar_le64 (map char_byte (take 8 s)) \<noteq> None" by (auto simp: rd_u64_def)
  then show ?thesis by (simp add: cellar_le64_None_iff)
qed

lemma rd_bytes_length: "rd_bytes n s = Some (a, r) \<Longrightarrow> length r \<le> length s"
  by (auto simp: rd_bytes_def split: if_splits)

lemma rd_u32_None_iff: "rd_u32 s = None \<longleftrightarrow> length s < 4"
  by (simp add: rd_u32_def cellar_le32_None_iff) (auto simp: min_def)

end
