(* ===== verification/ShaderCache.thy ===== *)
theory ShaderCache
  imports FileBytes
begin

unbundle bit_operations_syntax

text \<open>
  The persistent shader cache, \<^verbatim>\<open>src/gfx/shadercache.c\<close>: the header with the environment that
  must match, the appended entries, lookup by scanning, and the key helpers. The open append stream
  buffers in memory: \<open>sc_pending\<close> is what was written to it and has not reached the file; the C
  library may flush any part of it at any time (\<open>stdio_flush\<close>).
\<close>

definition CELLAR_SHADERCACHE_MAGIC :: u64 where "CELLAR_SHADERCACHE_MAGIC = 0x0143454C53480D00"
definition CELLAR_SHADERCACHE_VERSION :: u8 where "CELLAR_SHADERCACHE_VERSION = 1"

record shader_env =
  se_gpu :: u64
  se_driver :: u64
  se_api :: u32
  se_flags :: u32

record shadercache =
  sc_valid :: bool
  sc_env :: shader_env
  sc_open :: bool
  sc_pending :: string
  sc_path :: string
  sc_entries :: u64

definition env_zero :: shader_env where
  "env_zero = \<lparr>se_gpu = 0, se_driver = 0, se_api = 0, se_flags = 0\<rparr>"

section \<open>Streams\<close>

text \<open>\<^verbatim>\<open>fopen\<close> with \<^verbatim>\<open>"r+b"\<close> and \<^verbatim>\<open>"ab"\<close>.\<close>

definition fopen_update :: "fs \<Rightarrow> string \<Rightarrow> string option" where
  "fopen_update f p =
     (case fs_stat f p of
        Some (File c) \<Rightarrow> (case fs_write f p c of None \<Rightarrow> None | Some _ \<Rightarrow> Some c)
      | _ \<Rightarrow> None)"

definition fopen_append :: "fs \<Rightarrow> string \<Rightarrow> fs option" where
  "fopen_append f p = fs_write f p (case fs_stat f p of Some (File c) \<Rightarrow> c | _ \<Rightarrow> [])"

definition append_data :: "fs \<Rightarrow> string \<Rightarrow> string \<Rightarrow> fs" where
  "append_data f p d =
     (case fs_stat f p of
        Some (File c) \<Rightarrow> (case fs_write f p (c @ d) of None \<Rightarrow> f | Some f' \<Rightarrow> f')
      | _ \<Rightarrow> f)"

text \<open>Writing at an offset after \<^verbatim>\<open>fseek\<close>; a gap is filled with zero bytes.\<close>

definition write_at :: "nat \<Rightarrow> string \<Rightarrow> string \<Rightarrow> string" where
  "write_at off d s = take off (s @ replicate (off - length s) (CHR 0x00)) @ d @ drop (off + length d) s"

section \<open>Opening\<close>

definition write_env :: "shader_env \<Rightarrow> string" where
  "write_env e = wr_u64 (se_gpu e) @ wr_u64 (se_driver e) @ wr_u32 (se_api e) @ wr_u32 (se_flags e)"

definition read_env :: "string \<Rightarrow> shader_env \<times> string" where
  "read_env s =
     (if length s < 24 then (env_zero, [])
      else
        (case rd_u64 s of None \<Rightarrow> (env_zero, []) | Some (g, s1) \<Rightarrow>
        (case rd_u64 s1 of None \<Rightarrow> (env_zero, []) | Some (d, s2) \<Rightarrow>
        (case rd_u32 s2 of None \<Rightarrow> (env_zero, []) | Some (a, s3) \<Rightarrow>
        (case rd_u32 s3 of None \<Rightarrow> (env_zero, []) | Some (fl, s4) \<Rightarrow>
           (\<lparr>se_gpu = g, se_driver = d, se_api = a, se_flags = fl\<rparr>, s4))))))"

definition magic_bytes :: string where
  "magic_bytes = take 7 (wr_u64 CELLAR_SHADERCACHE_MAGIC) @ [byte_char CELLAR_SHADERCACHE_VERSION]"

text \<open>What the header of an existing file says: the environment and the entry count. The count is
  read into the buffer that holds the magic number, so a short read leaves part of it.\<close>

definition parse_header :: "string \<Rightarrow> (shader_env \<times> u64) option" where
  "parse_header s =
     (case rd_u64 s of None \<Rightarrow> None
      | Some (magic, s1) \<Rightarrow>
          if magic = CELLAR_SHADERCACHE_MAGIC \<and> char_byte (s ! 7) = CELLAR_SHADERCACHE_VERSION then
            (case read_env s1 of (e, s2) \<Rightarrow>
               let buf = take 8 s2 @ drop (length (take 8 s2)) (take 8 s) in
               map_option (\<lambda>(n, _). (e, n)) (rd_u64 buf))
          else None)"

definition env_matches :: "shader_env \<Rightarrow> shader_env \<Rightarrow> bool" where
  "env_matches a b \<longleftrightarrow> se_gpu a = se_gpu b \<and> se_driver a = se_driver b \<and> se_api a = se_api b"

text \<open>The flags of the environment are stored but not compared, although the header calls the whole
  struct the identity that must match.\<close>

lemma env_matches_flags: "env_matches e (e\<lparr>se_flags := x\<rparr>)"
  by (simp add: env_matches_def)

definition fresh_header :: "shader_env \<Rightarrow> string" where
  "fresh_header env = magic_bytes @ write_env env @ wr_u64 0"

definition cellar_shadercache_open ::
    "string option \<Rightarrow> shader_env option \<Rightarrow> fs \<Rightarrow> (shadercache \<times> fs) cres" where
  "cellar_shadercache_open path env f =
     (case (path, env) of
        (Some p, Some e) \<Rightarrow>
          let hdr = Option.bind (fopen_update f p) parse_header;
              c = \<lparr>sc_valid = True, sc_env = e, sc_open = True, sc_pending = [],
                   sc_path = snprintf_s 512 p, sc_entries = 0\<rparr>
          in (case (case hdr of Some (fenv, n) \<Rightarrow> if env_matches fenv e then Some n else None
                    | None \<Rightarrow> None) of
                Some n \<Rightarrow>
                  (case fopen_append f p of None \<Rightarrow> Err CELLAR_ERR_INVALID_ARGUMENT
                   | Some f' \<Rightarrow> Ok (c\<lparr>sc_entries := n\<rparr>, f'))
              | None \<Rightarrow>
                  (case fs_write f p (fresh_header e) of None \<Rightarrow> Err CELLAR_ERR_INVALID_ARGUMENT
                   | Some f1 \<Rightarrow>
                       (case fopen_append f1 p of None \<Rightarrow> Err CELLAR_ERR_INVALID_ARGUMENT
                        | Some f' \<Rightarrow> Ok (c, f'))))
      | _ \<Rightarrow> Err CELLAR_ERR_INVALID_ARGUMENT)"

section \<open>Lookup and insertion\<close>

text \<open>The scan: the stored size and the blob, if it is copied (\<open>want\<close>: a destination is given).\<close>

function lookup_scan :: "u64 \<Rightarrow> bool \<Rightarrow> nat \<Rightarrow> string \<Rightarrow> u32 \<times> string option" where
  "lookup_scan key want cap s =
     (case rd_u64 s of None \<Rightarrow> (0, None)
      | Some (k, s1) \<Rightarrow>
          (case rd_u32 s1 of None \<Rightarrow> (0, None)
           | Some (sz, s2) \<Rightarrow>
               if k = key then
                 (sz, if want \<and> unat sz \<le> cap \<and> unat sz \<le> length s2 then Some (take (unat sz) s2) else None)
               else lookup_scan key want cap (drop (unat sz) s2)))"
  by pat_completeness auto
termination
proof (relation "measure (\<lambda>(k, w, c, s). length s)", goal_cases)
  case (2 key want cap s x k s1 y sz s2)
  then have "length s1 < length s" "length s2 < length s1" using rd_u64_length rd_u32_length by fastforce+
  then show ?case by simp
qed simp

declare lookup_scan.simps [simp del]

definition cellar_shadercache_lookup ::
    "shadercache option \<Rightarrow> u64 \<Rightarrow> bool \<Rightarrow> nat \<Rightarrow> fs \<Rightarrow> u32 \<times> string option" where
  "cellar_shadercache_lookup c key want cap f =
     (case c of None \<Rightarrow> (0, None)
      | Some c \<Rightarrow>
          if \<not> sc_valid c \<or> sc_path c = [] then (0, None)
          else (case fs_read f (sc_path c) of None \<Rightarrow> (0, None)
                | Some s \<Rightarrow> lookup_scan key want cap (drop 40 s)))"

definition entry_bytes :: "u64 \<Rightarrow> string \<Rightarrow> string" where
  "entry_bytes key blob = wr_u64 key @ wr_u32 (of_nat (length blob)) @ blob"

definition cellar_shadercache_insert ::
    "u64 \<Rightarrow> string option \<Rightarrow> shadercache \<Rightarrow> shadercache cres" where
  "cellar_shadercache_insert key blob c =
     (case blob of None \<Rightarrow> Err CELLAR_ERR_INVALID_ARGUMENT
      | Some b \<Rightarrow>
          if \<not> sc_valid c \<or> \<not> sc_open c then Err CELLAR_ERR_INVALID_ARGUMENT
          else Ok (c\<lparr>sc_pending := sc_pending c @ entry_bytes key b, sc_entries := sc_entries c + 1\<rparr>))"

text \<open>The C library moves the first \<open>k\<close> buffered bytes to the file.\<close>

definition stdio_flush :: "nat \<Rightarrow> shadercache \<times> fs \<Rightarrow> shadercache \<times> fs" where
  "stdio_flush k st =
     (case st of (c, f) \<Rightarrow>
        (c\<lparr>sc_pending := drop k (sc_pending c)\<rparr>, append_data f (sc_path c) (take k (sc_pending c))))"

definition cellar_shadercache_close :: "shadercache \<Rightarrow> fs \<Rightarrow> shadercache \<times> fs" where
  "cellar_shadercache_close c f =
     (if sc_open c then
        (case stdio_flush (length (sc_pending c)) (c, f) of (c1, f1) \<Rightarrow>
           (c1\<lparr>sc_open := False, sc_valid := False\<rparr>,
            (case fopen_update f1 (sc_path c) of None \<Rightarrow> f1
             | Some s \<Rightarrow> (case fs_write f1 (sc_path c) (write_at 32 (wr_u64 (sc_entries c)) s) of
                 None \<Rightarrow> f1 | Some f2 \<Rightarrow> f2))))
      else (c\<lparr>sc_valid := False\<rparr>, f))"

section \<open>Keys\<close>

definition cellar_shader_hash :: "bytes \<Rightarrow> u64" where
  "cellar_shader_hash data = foldl (\<lambda>h b. (h XOR ucast b) * 1099511628211) 1469598103934665603 data"

definition cellar_shader_cache_key :: "u64 \<Rightarrow> u32 \<Rightarrow> u64" where
  "cellar_shader_cache_key h salt = h XOR push_bit 32 (ucast salt)"

section \<open>Facts\<close>

lemma xor_cancel: "(h XOR a = h XOR b) \<longleftrightarrow> (a = (b :: u64))"
proof
  assume e: "h XOR a = h XOR b"
  show "a = b"
  proof (rule bit_word_eqI)
    fix n assume "n < LENGTH(64)"
    have "bit (h XOR a) n = bit (h XOR b) n" using e by simp
    then show "bit a n = bit b n" by (auto simp: bit_xor_iff)
  qed
qed simp

text \<open>For one shader hash, different salts give different keys.\<close>

lemma cache_key_inj: "cellar_shader_cache_key h a = cellar_shader_cache_key h b \<longleftrightarrow> a = b"
proof -
  have "h XOR push_bit 32 (ucast a) = h XOR push_bit 32 (ucast b) \<longleftrightarrow>
      (push_bit 32 (ucast a) :: u64) = push_bit 32 (ucast b)"
    by (rule xor_cancel)
  moreover have "(push_bit 32 (ucast a) :: u64) = push_bit 32 (ucast b) \<Longrightarrow> a = b"
  proof (rule bit_word_eqI)
    fix n assume e: "(push_bit 32 (ucast a) :: u64) = push_bit 32 (ucast b)" and n: "n < LENGTH(32)"
    have "bit (push_bit 32 (ucast x) :: u64) (n + 32) = bit x n" for x :: u32
      using n by (simp add: bit_simps)
    with e show "bit a n = bit b n" by metis
  qed
  ultimately show ?thesis by (auto simp: cellar_shader_cache_key_def)
qed

definition stream :: "(u64 \<times> string) list \<Rightarrow> string" where
  "stream es = concat (map (\<lambda>(k, b). entry_bytes k b) es)"

definition entries_ok :: "(u64 \<times> string) list \<Rightarrow> bool" where
  "entries_ok es \<longleftrightarrow> list_all (\<lambda>(k, b). length b < 2 ^ 32) es"

lemma stream_simps [simp]:
  "stream [] = []" "stream ((k, b) # es) = entry_bytes k b @ stream es" "stream (es @ fs) = stream es @ stream fs"
  by (simp_all add: stream_def)

lemma length_u32: "length (b :: string) < 2 ^ 32 \<Longrightarrow> unat (of_nat (length b) :: u32) = length b"
  by (simp add: unat_of_nat take_bit_nat_eq_self)

text \<open>The scan finds the first entry stored under the key.\<close>

lemma lookup_scan_stream:
  assumes "entries_ok es"
  shows "lookup_scan key True cap (stream es) =
    (case map_of es key of None \<Rightarrow> (0, None)
     | Some b \<Rightarrow> (of_nat (length b), if length b \<le> cap then Some b else None))"
  using assms
proof (induction es)
  case Nil
  have "rd_u64 [] = None" by (simp add: rd_u64_def cellar_le64_None_iff)
  then show ?case by (subst lookup_scan.simps) simp
next
  case (Cons e es)
  obtain k b where e: "e = (k, b)" by (cases e)
  have lb: "length b < 2 ^ 32" using Cons.prems by (simp add: e entries_ok_def)
  note u = length_u32 [OF lb]
  have "rd_u64 (stream (e # es)) = Some (k, wr_u32 (of_nat (length b)) @ b @ stream es)"
    by (simp add: e entry_bytes_def rd_wr_u64)
  moreover have "entries_ok es" using Cons.prems by (simp add: entries_ok_def)
  ultimately show ?case
    using Cons.IH by (subst lookup_scan.simps) (simp add: e rd_wr_u32 u)
qed

definition header :: "shader_env \<Rightarrow> u64 \<Rightarrow> string" where
  "header e n = magic_bytes @ write_env e @ wr_u64 n"

lemma length_magic [simp]: "length magic_bytes = 8"
  by (simp add: magic_bytes_def)

lemma length_write_env [simp]: "length (write_env e) = 24"
  by (simp add: write_env_def)

lemma length_header [simp]: "length (header e n) = 40"
  by (simp add: header_def)

lemma magic_bytes_eq: "magic_bytes = wr_u64 CELLAR_SHADERCACHE_MAGIC"
  unfolding magic_bytes_def CELLAR_SHADERCACHE_MAGIC_def CELLAR_SHADERCACHE_VERSION_def by code_simp

lemma magic_version: "char_byte (magic_bytes ! 7) = CELLAR_SHADERCACHE_VERSION"
  by (simp add: magic_bytes_def nth_append)

lemma read_write_env: "read_env (write_env e @ r) = (e, r)"
  by (cases e) (simp add: read_env_def write_env_def rd_wr_u64 rd_wr_u32)

lemma parse_header_header: "parse_header (header e n @ r) = Some (e, n)"
proof -
  have "rd_u64 (header e n @ r) = Some (CELLAR_SHADERCACHE_MAGIC, write_env e @ wr_u64 n @ r)"
    by (simp add: header_def magic_bytes_eq rd_wr_u64)
  moreover have "char_byte ((header e n @ r) ! 7) = CELLAR_SHADERCACHE_VERSION"
    using magic_version by (simp add: header_def nth_append)
  moreover have "rd_u64 (wr_u64 n) = Some (n, [])" using rd_wr_u64 [of n "[]"] by simp
  ultimately show ?thesis
    by (simp add: parse_header_def read_write_env Let_def)
qed

lemma write_at_header: "write_at 32 (wr_u64 m) (header e n @ r) = header e m @ r"
  by (simp add: write_at_def header_def)

text \<open>The state of an open cache that holds the entries \<open>es\<close>: the file and the buffered bytes
  together are a header and the stream of the entries.\<close>

definition cache_holds :: "shadercache \<times> fs \<Rightarrow> (u64 \<times> string) list \<Rightarrow> bool" where
  "cache_holds st es \<longleftrightarrow>
     (case st of (c, f) \<Rightarrow>
        sc_valid c \<and> sc_open c \<and> sc_path c \<noteq> [] \<and> sc_entries c = of_nat (length es) \<and>
        (\<exists>w n e. fs_stat f (sc_path c) = Some (File (header e n @ w)) \<and> env_matches e (sc_env c) \<and>
               fs_write f (sc_path c) [] \<noteq> None \<and> w @ sc_pending c = stream es))"

lemma writable_any: "fs_write f p c \<noteq> None \<longleftrightarrow> fs_write f p d \<noteq> None"
  by (auto simp: fs_write_def Let_def)

lemma stat_after_write: "fs_write f p c = Some f' \<Longrightarrow> fs_stat f' p = Some (File c) \<and> fs_write f' p d \<noteq> None"
  using fs_write_some [of f p c f'] fs_write_again [of f p c f' d] by (simp add: fs_stat_def resolve_def)

lemma append_data_stat:
  assumes "fs_stat f p = Some (File c)" "fs_write f p [] \<noteq> None"
  shows "fs_stat (append_data f p d) p = Some (File (c @ d)) \<and> fs_write (append_data f p d) p x \<noteq> None"
proof -
  obtain f' where w: "fs_write f p (c @ d) = Some f'" using assms(2) writable_any by blast
  then show ?thesis using assms(1) stat_after_write [OF w] by (simp add: append_data_def)
qed

lemma cache_holdsE:
  assumes "cache_holds (c, f) es"
  obtains w n e where "sc_valid c" "sc_open c" "sc_path c \<noteq> []" "sc_entries c = of_nat (length es)"
    "fs_stat f (sc_path c) = Some (File (header e n @ w))" "env_matches e (sc_env c)"
    "fs_write f (sc_path c) [] \<noteq> None" "w @ sc_pending c = stream es"
  using assms by (auto simp: cache_holds_def)

lemma holds_flush:
  assumes "cache_holds (c, f) es"
  shows "cache_holds (stdio_flush k (c, f)) es"
proof -
  obtain w n e where h: "sc_valid c" "sc_open c" "sc_path c \<noteq> []" "sc_entries c = of_nat (length es)"
    "fs_stat f (sc_path c) = Some (File (header e n @ w))" "env_matches e (sc_env c)"
    "fs_write f (sc_path c) [] \<noteq> None" "w @ sc_pending c = stream es"
    using assms by (rule cache_holdsE)
  note a = append_data_stat [OF h(5,7), of "take k (sc_pending c)"]
  have t: "(w @ take k (sc_pending c)) @ drop k (sc_pending c) = stream es" using h(8) by simp
  show ?thesis
    unfolding cache_holds_def stdio_flush_def prod.case
    using h(1-4,6) a t by (intro conjI exI [of _ "w @ take k (sc_pending c)"] exI [of _ n] exI [of _ e]) simp_all
qed

lemma holds_insert:
  assumes "cache_holds (c, f) es" "cellar_shadercache_insert key (Some b) c = Ok c'"
  shows "cache_holds (c', f) (es @ [(key, b)])"
proof -
  have c': "c' = c\<lparr>sc_pending := sc_pending c @ entry_bytes key b, sc_entries := sc_entries c + 1\<rparr>"
    using assms(2) by (auto simp: cellar_shadercache_insert_def split: if_splits)
  obtain w n e where h: "sc_valid c" "sc_open c" "sc_path c \<noteq> []" "sc_entries c = of_nat (length es)"
    "fs_stat f (sc_path c) = Some (File (header e n @ w))" "env_matches e (sc_env c)"
    "fs_write f (sc_path c) [] \<noteq> None" "w @ sc_pending c = stream es"
    using assms(1) by (rule cache_holdsE)
  have t: "w @ sc_pending c @ entry_bytes key b = stream (es @ [(key, b)])" by (simp flip: h(8))
  show ?thesis
    unfolding cache_holds_def prod.case
    using h t by (intro conjI exI [of _ w] exI [of _ n] exI [of _ e]) (simp_all add: c')
qed

lemma close_file:
  assumes "cache_holds (c, f) es" "cellar_shadercache_close c f = (c', f')"
  shows "\<exists>e. fs_stat f' (sc_path c) = Some (File (header e (of_nat (length es)) @ stream es)) \<and>
    env_matches e (sc_env c) \<and> fs_write f' (sc_path c) [] \<noteq> None"
proof -
  obtain c1 f1 where fl: "stdio_flush (length (sc_pending c)) (c, f) = (c1, f1)" by fastforce
  have c1: "sc_path c1 = sc_path c" "sc_env c1 = sc_env c" "sc_pending c1 = []"
    using fl by (auto simp: stdio_flush_def)
  have "cache_holds (c1, f1) es" using holds_flush [OF assms(1)] fl by metis
  then obtain w n e where h: "fs_stat f1 (sc_path c) = Some (File (header e n @ stream es))"
    "env_matches e (sc_env c)" "fs_write f1 (sc_path c) [] \<noteq> None"
    by (rule cache_holdsE) (simp add: c1)
  have o: "sc_open c" "sc_entries c = of_nat (length es)" using assms(1) by (auto elim: cache_holdsE)
  obtain f2 where w: "fs_write f1 (sc_path c) (header e (of_nat (length es)) @ stream es) = Some f2"
    using h(3) writable_any by blast
  have "fs_write f1 (sc_path c) (header e n @ stream es) \<noteq> None" using h(3) writable_any by blast
  then have "fopen_update f1 (sc_path c) = Some (header e n @ stream es)"
    using h(1) by (auto simp: fopen_update_def)
  then have "f' = f2" using assms(2) o fl w by (simp add: cellar_shadercache_close_def write_at_header)
  then show ?thesis using stat_after_write [OF w] h(2) by auto
qed

lemma open_existing:
  assumes "fs_stat f p = Some (File (header e (of_nat (length es)) @ stream es))" "fs_write f p [] \<noteq> None"
    "length p < 512" "p \<noteq> []" "env_matches e e'"
  shows "\<exists>c f'. cellar_shadercache_open (Some p) (Some e') f = Ok (c, f') \<and> cache_holds (c, f') es \<and>
    sc_path c = p \<and> sc_pending c = []"
proof -
  let ?txt = "header e (of_nat (length es)) @ stream es"
  let ?c = "\<lparr>sc_valid = True, sc_env = e', sc_open = True, sc_pending = [], sc_path = p,
    sc_entries = of_nat (length es)\<rparr>"
  obtain f' where w: "fs_write f p ?txt = Some f'" using assms(2) writable_any by blast
  note s = stat_after_write [OF w, of "[]"]
  have "fopen_update f p = Some ?txt" "fopen_append f p = Some f'"
    using assms(1) w by (simp_all add: fopen_update_def fopen_append_def)
  then have "cellar_shadercache_open (Some p) (Some e') f = Ok (?c, f')"
    using assms(3,5) parse_header_header [of e "of_nat (length es)" "stream es"]
    by (simp add: cellar_shadercache_open_def snprintf_s_id Let_def)
  moreover have "cache_holds (?c, f') es"
    unfolding cache_holds_def prod.case
    using s assms(4,5) by (intro conjI exI [of _ "stream es"] exI [of _ "of_nat (length es)"] exI [of _ e]) simp_all
  ultimately show ?thesis by fastforce
qed

text \<open>A missing or foreign file, or one for another environment, is started afresh.\<close>

lemma open_afresh:
  assumes "case Option.bind (fopen_update f p) parse_header of Some (e, n) \<Rightarrow> \<not> env_matches e e' | None \<Rightarrow> True"
    "fs_write f p [] \<noteq> None" "length p < 512" "p \<noteq> []"
  shows "\<exists>c f'. cellar_shadercache_open (Some p) (Some e') f = Ok (c, f') \<and> cache_holds (c, f') [] \<and>
    sc_path c = p \<and> sc_pending c = [] \<and> sc_env c = e'"
proof -
  let ?c = "\<lparr>sc_valid = True, sc_env = e', sc_open = True, sc_pending = [], sc_path = p, sc_entries = 0\<rparr>"
  have hf: "fresh_header e' = header e' 0" by (simp add: fresh_header_def header_def)
  obtain f1 where w1: "fs_write f p (header e' 0) = Some f1" using assms(2) writable_any by blast
  note s1 = stat_after_write [OF w1]
  obtain f2 where w2: "fs_write f1 p (header e' 0) = Some f2" using s1 by blast
  note s2 = stat_after_write [OF w2, of "[]"]
  have ap: "fopen_append f1 p = Some f2" using s1 w2 by (simp add: fopen_append_def)
  have "cellar_shadercache_open (Some p) (Some e') f = Ok (?c, f2)"
    using assms(1,3) w1 ap
    by (auto simp: cellar_shadercache_open_def Let_def hf snprintf_s_id split: option.splits)
  moreover have "cache_holds (?c, f2) []"
    unfolding cache_holds_def prod.case
    using s2 assms(4)
    by (intro conjI exI [of _ "[]"] exI [of _ 0] exI [of _ e']) (simp_all add: env_matches_def)
  ultimately show ?thesis by fastforce
qed

lemma lookup_holds:
  assumes "cache_holds (c, f) es" "sc_pending c = []" "entries_ok es"
  shows "cellar_shadercache_lookup (Some c) key True cap f =
    (case map_of es key of None \<Rightarrow> (0, None)
     | Some b \<Rightarrow> (of_nat (length b), if length b \<le> cap then Some b else None))"
  using assms(1)
proof (rule cache_holdsE)
  fix w n e
  assume h: "sc_valid c" "sc_path c \<noteq> []" "fs_stat f (sc_path c) = Some (File (header e n @ w))"
    "w @ sc_pending c = stream es"
  then have "fs_read f (sc_path c) = Some (header e n @ stream es)" using assms(2) by (simp add: fs_read_def)
  then show ?thesis
    using h(1,2) lookup_scan_stream [OF assms(3)] by (simp add: cellar_shadercache_lookup_def)
qed

fun insert_all :: "(u64 \<times> string) list \<Rightarrow> shadercache \<Rightarrow> shadercache cres" where
  "insert_all [] c = Ok c"
| "insert_all ((k, b) # es) c = cbind (cellar_shadercache_insert k (Some b) c) (insert_all es)"

lemma holds_insert_all:
  "cache_holds (c, f) es \<Longrightarrow> insert_all new c = Ok c' \<Longrightarrow> cache_holds (c', f) (es @ new) \<and>
     sc_path c' = sc_path c \<and> sc_env c' = sc_env c"
proof (induction new arbitrary: c es)
  case (Cons x new)
  obtain k b where x: "x = (k, b)" by (cases x)
  then obtain c1 where c1: "cellar_shadercache_insert k (Some b) c = Ok c1" "insert_all new c1 = Ok c'"
    using Cons.prems(2) by (auto simp: cbind_Ok_iff)
  have "sc_path c1 = sc_path c" "sc_env c1 = sc_env c"
    using c1(1) by (auto simp: cellar_shadercache_insert_def split: if_splits)
  then show ?case using Cons.IH [OF holds_insert [OF Cons.prems(1) c1(1)] c1(2)] by (simp add: x)
qed simp

section \<open>Properties\<close>

text \<open>C33. The cache is persistent: entries inserted into an open cache and closed are found by every
  later session that opens the file for the same GPU, driver and API version, whatever its flags, each key
  giving the blob that was stored under it first; a session for another GPU, driver or API version finds an
  empty cache.\<close>

theorem shadercache_persistent:
  assumes "cache_holds (c, f) old" "insert_all new c = Ok c1" "cellar_shadercache_close c1 f = (c2, f2)"
    and "entries_ok (old @ new)" "length (sc_path c) < 512"
  shows "\<exists>c3 f3. cellar_shadercache_open (Some (sc_path c)) (Some env) f2 = Ok (c3, f3) \<and>
    (\<forall>key cap. cellar_shadercache_lookup (Some c3) key True cap f3 =
       (if env_matches (sc_env c) env then
          (case map_of (old @ new) key of None \<Rightarrow> (0, None)
           | Some b \<Rightarrow> (of_nat (length b), if length b \<le> cap then Some b else None))
        else (0, None)))"
proof -
  note h = holds_insert_all [OF assms(1,2)]
  have ne: "sc_path c \<noteq> []" using assms(1) by (auto elim: cache_holdsE)
  obtain e where e: "fs_stat f2 (sc_path c) = Some (File (header e (of_nat (length (old @ new))) @ stream (old @ new)))"
    "env_matches e (sc_env c)" "fs_write f2 (sc_path c) [] \<noteq> None"
    using close_file [OF conjunct1 [OF h] assms(3)] h by auto
  have em: "env_matches e env \<longleftrightarrow> env_matches (sc_env c) env" using e(2) by (auto simp: env_matches_def)
  show ?thesis
  proof (cases "env_matches e env")
    case True
    from open_existing [OF e(1,3) assms(5) ne True] show ?thesis
      using lookup_holds [OF _ _ assms(4)] True em by fastforce
  next
    case False
    have "entries_ok []" by (simp add: entries_ok_def)
    have "fs_write f2 (sc_path c) (header e (of_nat (length (old @ new))) @ stream (old @ new)) \<noteq> None"
      using e(3) writable_any by blast
    then have "case Option.bind (fopen_update f2 (sc_path c)) parse_header of
        Some (e, n) \<Rightarrow> \<not> env_matches e env | None \<Rightarrow> True"
      using e(1) False parse_header_header by (auto simp: fopen_update_def split: option.splits)
    from open_afresh [OF this e(3) assms(5) ne] show ?thesis
      using lookup_holds [OF _ _ \<open>entries_ok []\<close>] False em by fastforce
  qed
qed

theorem shadercache_persistent_witness:
  "\<exists>c f c2 f2 c3 f3. cellar_shadercache_open (Some ''/c'') (Some env_zero) empty_fs = Ok (c, f) \<and>
     cbind (insert_all [(7, ''abc''), (9, ''xy'')] c) (\<lambda>c1. Ok (cellar_shadercache_close c1 f)) = Ok (c2, f2) \<and>
     cellar_shadercache_open (Some ''/c'') (Some (env_zero\<lparr>se_flags := 1\<rparr>)) f2 = Ok (c3, f3) \<and>
     cellar_shadercache_lookup (Some c3) 9 True 10 f3 = (2, Some ''xy'')"
proof -
  have "Option.bind (fopen_update empty_fs ''/c'') parse_header = None" by code_simp
  moreover have "fs_write empty_fs ''/c'' [] \<noteq> None" by code_simp
  ultimately obtain c f where o: "cellar_shadercache_open (Some ''/c'') (Some env_zero) empty_fs = Ok (c, f)"
    "cache_holds (c, f) []" "sc_path c = ''/c''" "sc_env c = env_zero"
    using open_afresh [where f = empty_fs and p = "''/c''" and e' = env_zero] by auto
  have "sc_valid c" "sc_open c" using o(2) by (auto elim: cache_holdsE)
  then obtain c1 where c1: "insert_all [(7, ''abc''), (9, ''xy'')] c = Ok c1"
    by (simp add: cellar_shadercache_insert_def)
  obtain c2 f2 where cl: "cellar_shadercache_close c1 f = (c2, f2)" by fastforce
  have ok: "entries_ok ([] @ [(7, ''abc''), (9, ''xy'')])" "length (sc_path c) < 512"
    by (simp_all add: entries_ok_def o(3))
  obtain c3 f3 where "cellar_shadercache_open (Some ''/c'') (Some (env_zero\<lparr>se_flags := 1\<rparr>)) f2 = Ok (c3, f3)"
    "cellar_shadercache_lookup (Some c3) 9 True 10 f3 = (2, Some ''xy'')"
    using shadercache_persistent [OF o(2) c1 cl ok, of "env_zero\<lparr>se_flags := 1\<rparr>"] by (auto simp: o env_matches_def)
  then show ?thesis using o(1) c1 cl by fastforce
qed

end
