(* ===== verification/Desktop.thy ===== *)
theory Desktop
  imports Fs Text
begin

text \<open>
  Desktop integration: notification history (\<^verbatim>\<open>src/notify/notify.c\<close>) and shortcuts,
  file associations, clipboard and URL hook (\<^verbatim>\<open>src/desktop/desktop.c\<close>). The command line
  that \<^verbatim>\<open>cellar_notify_show\<close> formats is never run and is not modelled.
\<close>

section \<open>Notifications\<close>

record notification =
  nt_app :: string
  nt_summary :: string
  nt_body :: string
  nt_urgency :: int
  nt_id :: u32

definition CELLAR_NOTIFY_CAP :: nat where "CELLAR_NOTIFY_CAP = 16"

record notify_state =
  g_hist :: "notification list"
  g_next :: u32

definition notify_start :: notify_state where "notify_start = \<lparr>g_hist = [], g_next = 1\<rparr>"

definition cellar_notify_show :: "notification option \<Rightarrow> notify_state \<Rightarrow> u32 \<times> notify_state" where
  "cellar_notify_show n s =
     (case n of None \<Rightarrow> (0, s)
      | Some r \<Rightarrow>
          let rec = r\<lparr>nt_id := g_next s\<rparr> in
          (g_next s,
           s\<lparr>g_next := g_next s + 1,
             g_hist := (if length (g_hist s) < CELLAR_NOTIFY_CAP then g_hist s @ [rec]
                        else tl (g_hist s) @ [rec])\<rparr>))"

fun close_first :: "u32 \<Rightarrow> notification list \<Rightarrow> notification list option" where
  "close_first i [] = None"
| "close_first i (n # ns) = (if nt_id n = i then Some ns else map_option (\<lambda>r. n # r) (close_first i ns))"

definition cellar_notify_close :: "u32 \<Rightarrow> notify_state \<Rightarrow> notify_state cres" where
  "cellar_notify_close i s =
     (case close_first i (g_hist s) of None \<Rightarrow> Err CELLAR_ERR_INVALID_ARGUMENT
      | Some h \<Rightarrow> Ok (s\<lparr>g_hist := h\<rparr>))"

definition cellar_notify_history :: "bool \<Rightarrow> nat \<Rightarrow> notify_state \<Rightarrow> notification list" where
  "cellar_notify_history out cap s = (if \<not> out then [] else take cap (g_hist s))"

section \<open>Shortcuts and associations\<close>

record desktop_entry =
  de_name :: string
  de_exec :: string
  de_icon :: string
  de_mime :: string
  de_categories :: string

definition shortcut_id :: "string \<Rightarrow> string" where
  "shortcut_id name = map (\<lambda>c. if c = CHR '' '' then CHR ''-'' else c) (snprintf_s 160 name)"

definition shortcut_lines :: "desktop_entry \<Rightarrow> string list" where
  "shortcut_lines e =
     [''[Desktop Entry]'', ''Type=Application'', ''Name='' @ de_name e,
      ''Exec='' @ (if de_exec e \<noteq> [] then de_exec e else ''cellar'')] @
     (if de_icon e \<noteq> [] then [''Icon='' @ de_icon e] else []) @
     [''Categories='' @ (if de_categories e \<noteq> [] then de_categories e else ''Utility;'')] @
     (if de_mime e \<noteq> [] then [''MimeType='' @ de_mime e] else []) @
     [''StartupNotify=true'']"

text \<open>The directory is made whether or not the file can be written.\<close>

definition cellar_desktop_write_shortcut ::
    "string option \<Rightarrow> desktop_entry option \<Rightarrow> fs \<Rightarrow> fs \<times> cellar_status" where
  "cellar_desktop_write_shortcut dir e f =
     (case (dir, e) of
        (Some d, Some e) \<Rightarrow>
          if de_name e = [] then (f, CELLAR_ERR_INVALID_ARGUMENT)
          else
            let f1 = fst (cellar_mkdir_p f (Some d));
                path = snprintf_s 1024 (d @ ''/'' @ shortcut_id (de_name e) @ ''.desktop'')
            in (case fs_write f1 path (unlines (shortcut_lines e)) of
                  None \<Rightarrow> (f1, CELLAR_ERR_INVALID_ARGUMENT) | Some f2 \<Rightarrow> (f2, CELLAR_OK))
      | _ \<Rightarrow> (f, CELLAR_ERR_INVALID_ARGUMENT))"

text \<open>\<^verbatim>\<open>fopen(p, "a")\<close> and writing \<open>s\<close>.\<close>

definition fs_append :: "fs \<Rightarrow> string \<Rightarrow> string \<Rightarrow> fs option" where
  "fs_append f p s = fs_write f p ((case fs_read f p of None \<Rightarrow> [] | Some c \<Rightarrow> c) @ s)"

definition cellar_desktop_write_mime ::
    "string option \<Rightarrow> string option \<Rightarrow> string option \<Rightarrow> fs \<Rightarrow> fs \<times> cellar_status" where
  "cellar_desktop_write_mime dir mime desktop_id f =
     (case (dir, mime, desktop_id) of
        (Some d, Some m, Some i) \<Rightarrow>
          let f1 = fst (cellar_mkdir_p f (Some d)) in
          (case fs_append f1 (snprintf_s 1024 (d @ ''/mimeapps.list'')) (m @ ''='' @ i @ [NL]) of
             None \<Rightarrow> (f1, CELLAR_ERR_INVALID_ARGUMENT) | Some f2 \<Rightarrow> (f2, CELLAR_OK))
      | _ \<Rightarrow> (f, CELLAR_ERR_INVALID_ARGUMENT))"

definition text_or :: "string \<Rightarrow> string option \<Rightarrow> string" where
  "text_or d s = (case s of None \<Rightarrow> d | Some t \<Rightarrow> t)"

definition cellar_desktop_notify ::
    "string option \<Rightarrow> string option \<Rightarrow> notify_state \<Rightarrow> notify_state \<times> cellar_status" where
  "cellar_desktop_notify summary body s =
     (snd (cellar_notify_show (Some \<lparr>nt_app = snprintf_s 64 ''cellar'',
        nt_summary = snprintf_s 128 (text_or [] summary), nt_body = snprintf_s 256 (text_or [] body),
        nt_urgency = 1, nt_id = 0\<rparr>) s), CELLAR_OK)"

section \<open>Clipboard and URL hook\<close>

record desktop_state =
  g_clipboard :: string
  g_last_url :: string

definition cellar_clipboard_set :: "string option \<Rightarrow> desktop_state \<Rightarrow> desktop_state \<times> cellar_status" where
  "cellar_clipboard_set text s = (s\<lparr>g_clipboard := snprintf_s 4096 (text_or [] text)\<rparr>, CELLAR_OK)"

definition cellar_clipboard_get :: "nat \<Rightarrow> desktop_state \<Rightarrow> string cres" where
  "cellar_clipboard_get cap s =
     (if cap = 0 then Err CELLAR_ERR_INVALID_ARGUMENT else Ok (snprintf_s cap (g_clipboard s)))"

definition cellar_desktop_open_url :: "string option \<Rightarrow> desktop_state \<Rightarrow> desktop_state cres" where
  "cellar_desktop_open_url url s =
     (case url of None \<Rightarrow> Err CELLAR_ERR_INVALID_ARGUMENT
      | Some u \<Rightarrow> Ok (s\<lparr>g_last_url := snprintf_s 512 u\<rparr>))"

definition cellar_desktop_last_url :: "desktop_state \<Rightarrow> string" where
  "cellar_desktop_last_url s = g_last_url s"

section \<open>Facts\<close>

text \<open>The history never outgrows its array, and the identifiers in it are in order of creation and
  below the next one, as long as the counter has not wrapped.\<close>

definition notify_inv :: "notify_state \<Rightarrow> bool" where
  "notify_inv s \<longleftrightarrow> length (g_hist s) \<le> CELLAR_NOTIFY_CAP \<and> sorted_wrt (<) (map nt_id (g_hist s)) \<and>
     (\<forall>n\<in>set (g_hist s). nt_id n < g_next s)"

lemma notify_inv_start: "notify_inv notify_start"
  by (simp add: notify_inv_def notify_start_def)

lemma notify_inv_show [cinv]:
  assumes "notify_inv s" "g_next s \<noteq> -1"
  shows "notify_inv (snd (cellar_notify_show n s))"
proof -
  have "g_next s < g_next s + 1" 
  proof -
    have "1 + g_next s \<noteq> 0" using assms(2) by (metis add.commute add_eq_0_iff2)
    then show ?thesis using unatSuc [of "g_next s"] by (simp add: word_less_nat_alt add.commute)
  qed
  then have lt: "nt_id m < g_next s + 1" if "m \<in> set (g_hist s)" for m
    using assms(1) that by (metis notify_inv_def order.strict_trans)
  have "set (tl (g_hist s)) \<subseteq> set (g_hist s)" by (cases "g_hist s") auto
  then show ?thesis using assms lt \<open>g_next s < g_next s + 1\<close>
    by (cases n; cases "g_hist s")
      (auto simp: cellar_notify_show_def notify_inv_def Let_def sorted_wrt_append CELLAR_NOTIFY_CAP_def)
qed

lemma close_first_parts:
  "close_first i ns = Some r \<Longrightarrow> \<exists>a m b. ns = a @ m # b \<and> nt_id m = i \<and> r = a @ b"
proof (induction ns arbitrary: r)
  case (Cons n ns)
  show ?case
  proof (cases "nt_id n = i")
    case True
    then show ?thesis using Cons.prems by (intro exI [of _ "[]"]) auto
  next
    case False
    then obtain r' where "close_first i ns = Some r'" "r = n # r'" using Cons.prems by auto
    then show ?thesis using Cons.IH by (metis append_Cons)
  qed
qed simp

lemma notify_inv_close [cinv]:
  "notify_inv s \<Longrightarrow> cellar_notify_close i s = Ok s' \<Longrightarrow> notify_inv s'"
  using close_first_parts
  by (fastforce simp: cellar_notify_close_def notify_inv_def sorted_wrt_append split: option.splits)

lemma shortcut_readable:
  assumes "cellar_desktop_write_shortcut (Some d) (Some e) f = (f', CELLAR_OK)"
  shows "fs_read f' (snprintf_s 1024 (d @ ''/'' @ shortcut_id (de_name e) @ ''.desktop'')) =
    Some (unlines (shortcut_lines e))"
  using assms by (auto simp: cellar_desktop_write_shortcut_def Let_def disk.rd_wr_same
      split: if_splits option.splits)

end
