(* ===== verification/Prefix.thy ===== *)
theory Prefix
  imports FileBytes Shell Profile "HOL-Library.Sublist"
begin

text \<open>
  Named Windows environments (bottles), \<^verbatim>\<open>src/prefix/prefix.c\<close>: creation with the directory
  tree and \<^verbatim>\<open>prefix.conf\<close>, deletion, listing, the generic settings on the configuration file,
  and the \<^verbatim>\<open>CBK1\<close> archive format with backup, restore and clone. Directory walks use an
  explicit stack, so the model visits entries in the order of the recursive C code; a walk that
  does not end is \<open>None\<close>. Directories are listed in the order of the file-system state.
\<close>

section \<open>Names and paths\<close>

definition cellar_prefix_path :: "nat \<Rightarrow> string option \<Rightarrow> string option \<Rightarrow> string" where
  "cellar_prefix_path n root name =
     cellar_path_join n (Some (case root of None \<Rightarrow> ''.'' | Some r \<Rightarrow> r))
       (Some (case name of None \<Rightarrow> [] | Some m \<Rightarrow> m))"

definition valid_name :: "string option \<Rightarrow> bool" where
  "valid_name name =
     (case name of None \<Rightarrow> False
      | Some n \<Rightarrow> n \<noteq> [] \<and> CHR ''/'' \<notin> set n \<and> CHR 0x5C \<notin> set n \<and> n \<noteq> ''.'' \<and> n \<noteq> ''..'')"

record prefix_info =
  pi_name :: string
  pi_path :: string
  pi_version_mode :: int
  pi_gfx :: string
  pi_audio :: string
  pi_arch :: string
  pi_runner :: string
  pi_exists :: bool

definition info_zero :: prefix_info where
  "info_zero = \<lparr>pi_name = [], pi_path = [], pi_version_mode = 0, pi_gfx = [], pi_audio = [], pi_arch = [],
     pi_runner = [], pi_exists = False\<rparr>"

section \<open>prefix.conf\<close>

definition conf_path :: "string \<Rightarrow> string" where
  "conf_path bottle = cellar_path_join 640 (Some bottle) (Some ''prefix.conf'')"

definition or_default :: "string \<Rightarrow> string option \<Rightarrow> string" where
  "or_default d x = (case x of None \<Rightarrow> d | Some s \<Rightarrow> s)"

definition conf_text :: "int \<Rightarrow> string option \<Rightarrow> string option \<Rightarrow> string option \<Rightarrow> string option \<Rightarrow> string" where
  "conf_text mode gfx audio arch runner = unlines
     [''version_mode='' @ show_int mode, ''gfx='' @ or_default ''Vulkan'' gfx,
      ''audio='' @ or_default ''ALSA'' audio, ''arch='' @ or_default ''win64'' arch,
      ''runner='' @ or_default ''stable'' runner]"

definition write_conf_full ::
    "string \<Rightarrow> int \<Rightarrow> string option \<Rightarrow> string option \<Rightarrow> string option \<Rightarrow> string option \<Rightarrow> fs \<Rightarrow> fs cres" where
  "write_conf_full bottle mode gfx audio arch runner f =
     (case fs_write f (conf_path bottle) (conf_text mode gfx audio arch runner) of
        None \<Rightarrow> Err CELLAR_ERR_INVALID_ARGUMENT | Some f' \<Rightarrow> Ok f')"

text \<open>A field is what follows the first occurrence of its key anywhere in the text, up to the end of
  the line.\<close>

definition conf_field :: "string \<Rightarrow> string \<Rightarrow> nat \<Rightarrow> string option" where
  "conf_field buf key n =
     map_option (\<lambda>p. take (n - 1) (takeWhile (\<lambda>c. c \<noteq> NL) (drop (length key) p))) (strstr buf key)"

definition read_conf :: "string \<Rightarrow> fs \<Rightarrow> prefix_info \<Rightarrow> prefix_info" where
  "read_conf bottle f out =
     (case fs_read f (conf_path bottle) of None \<Rightarrow> out
      | Some text \<Rightarrow>
          let buf = cstr (take 1023 text) in
          out\<lparr>pi_version_mode := (case strstr buf ''version_mode='' of
                 None \<Rightarrow> pi_version_mode out | Some p \<Rightarrow> scan_int (drop 13 p)),
              pi_gfx := or_default (pi_gfx out) (conf_field buf ''gfx='' 32),
              pi_audio := or_default (pi_audio out) (conf_field buf ''audio='' 32),
              pi_arch := or_default ''win64'' (conf_field buf ''arch='' 8),
              pi_runner := or_default ''stable'' (conf_field buf ''runner='' 32)\<rparr>)"

text \<open>\<open>garbage\<close> is what the uninitialised local holds where the file cannot be read.\<close>

definition write_conf ::
    "prefix_info \<Rightarrow> string \<Rightarrow> int \<Rightarrow> string option \<Rightarrow> string option \<Rightarrow> fs \<Rightarrow> fs cres" where
  "write_conf garbage bottle mode gfx audio f =
     (let info = read_conf bottle f garbage
      in write_conf_full bottle mode gfx audio (Some (pi_arch info)) (Some (pi_runner info)) f)"

section \<open>Creation, information, configuration\<close>

text \<open>The result keeps the file system and the shell paths also where a later step fails.\<close>

definition cellar_prefix_create_arch ::
    "string option \<Rightarrow> string option \<Rightarrow> string option \<Rightarrow> shell_state \<Rightarrow> fs \<Rightarrow> fs \<times> shell_state \<times> cellar_status" where
  "cellar_prefix_create_arch root name arch sh f =
     (let a = (case arch of Some (c # r) \<Rightarrow> if c = CHR ''w'' \<or> c = CHR ''W'' then c # r else ''win64''
               | _ \<Rightarrow> ''win64'') in
      if root = None \<or> \<not> valid_name name then (f, sh, CELLAR_ERR_INVALID_ARGUMENT)
      else
        let f1 = fst (cellar_mkdir_p f root);
            bottle = cellar_prefix_path 640 root name
        in (case cellar_mkdir_p f1 (Some bottle) of (f2, r) \<Rightarrow>
             if r \<noteq> 0 then (f2, sh, CELLAR_ERR_INVALID_ARGUMENT)
             else (case cellar_shell_init (Some bottle) sh of
                Ok sh' \<Rightarrow>
                  (case cellar_shell_ensure_dirs sh' f2 of (f3, st) \<Rightarrow>
                    if st \<noteq> CELLAR_OK then (f3, sh', CELLAR_ERR_INVALID_ARGUMENT)
                    else
                      let f4 = fst (cellar_mkdir_p f3 (Some (cellar_path_join 700 (Some bottle) (Some ''runtime''))));
                          f5 = fst (cellar_mkdir_p f4 (Some (cellar_path_join 700 (Some bottle) (Some ''uninstall''))));
                          a2 = (if has_prefix_ci a ''win32'' then ''win32'' else ''win64'')
                      in (case write_conf_full bottle 2 (Some ''Vulkan'') (Some ''ALSA'') (Some a2) (Some ''stable'') f5 of
                            Ok f6 \<Rightarrow> (f6, sh', CELLAR_OK)
                          | _ \<Rightarrow> (f5, sh', CELLAR_ERR_INVALID_ARGUMENT)))
              | _ \<Rightarrow> (f2, sh, CELLAR_ERR_INVALID_ARGUMENT))))"

definition cellar_prefix_create ::
    "string option \<Rightarrow> string option \<Rightarrow> shell_state \<Rightarrow> fs \<Rightarrow> fs \<times> shell_state \<times> cellar_status" where
  "cellar_prefix_create root name sh f = cellar_prefix_create_arch root name (Some ''win64'') sh f"

definition is_dir :: "fs \<Rightarrow> string \<Rightarrow> bool" where
  "is_dir f p = (case fs_stat f p of Some Dir \<Rightarrow> True | _ \<Rightarrow> False)"

definition is_file :: "fs \<Rightarrow> string \<Rightarrow> bool" where
  "is_file f p = (case fs_stat f p of Some (File _) \<Rightarrow> True | _ \<Rightarrow> False)"

definition cellar_prefix_info :: "string option \<Rightarrow> string option \<Rightarrow> fs \<Rightarrow> prefix_info cres" where
  "cellar_prefix_info root name f =
     (case (root, name) of
        (Some r, Some n) \<Rightarrow>
          if \<not> valid_name name then Err CELLAR_ERR_INVALID_ARGUMENT
          else
            let bottle = cellar_prefix_path 640 root name;
                out = info_zero\<lparr>pi_name := snprintf_s 64 n, pi_path := snprintf_s 512 bottle,
                        pi_exists := is_dir f bottle\<rparr>
            in Ok (if pi_exists out then read_conf bottle f out else out)
      | _ \<Rightarrow> Err CELLAR_ERR_INVALID_ARGUMENT)"

definition cellar_prefix_set_config ::
    "prefix_info \<Rightarrow> string option \<Rightarrow> string option \<Rightarrow> int \<Rightarrow> string option \<Rightarrow> string option \<Rightarrow> fs \<Rightarrow> fs cres" where
  "cellar_prefix_set_config garbage root name mode gfx audio f =
     cbind (cellar_prefix_info root name f) (\<lambda>info.
       if \<not> pi_exists info then Err CELLAR_ERR_INVALID_ARGUMENT
       else write_conf garbage (cellar_prefix_path 640 root name) mode gfx audio f)"

text \<open>The names in a directory, without the dot entries.\<close>

definition list_dir :: "fs \<Rightarrow> string \<Rightarrow> string list option" where
  "list_dir f p = (if is_dir f p then Some (children f (resolve f p)) else None)"

definition listed :: "string \<Rightarrow> fs \<Rightarrow> string \<Rightarrow> bool" where
  "listed root f n \<longleftrightarrow> \<not> has_prefix n ''.'' \<and> n \<noteq> ''workspaces'' \<and>
     is_dir f (snprintf_s 1024 (root @ ''/'' @ n))"

definition cellar_prefix_list :: "string option \<Rightarrow> nat \<Rightarrow> fs \<Rightarrow> prefix_info cres list" where
  "cellar_prefix_list root cap f =
     (case root of None \<Rightarrow> []
      | Some r \<Rightarrow>
          (case list_dir f r of None \<Rightarrow> []
           | Some ns \<Rightarrow> map (\<lambda>n. cellar_prefix_info root (Some n) f) (take cap (filter (listed r f) ns))))"

section \<open>Deletion\<close>

text \<open>\<^verbatim>\<open>rm_rf\<close>: the stack holds paths to enter and directories to remove once they are empty.\<close>

datatype rm_task = Enter string | Leave string

partial_function (option) rm_loop :: "fs \<Rightarrow> rm_task list \<Rightarrow> fs option" where
  "rm_loop f ts =
     (case ts of [] \<Rightarrow> Some f
      | t # r \<Rightarrow>
          (case t of
             Leave p \<Rightarrow> rm_loop (fst (fs_remove f p)) r
           | Enter p \<Rightarrow>
               (case list_dir f p of
                  Some ns \<Rightarrow> rm_loop f (map (\<lambda>n. Enter (snprintf_s 1024 (p @ ''/'' @ n))) ns @ Leave p # r)
                | None \<Rightarrow> if is_file f p then rm_loop (fst (fs_remove f p)) r else rm_loop f r)))"

declare rm_loop.simps [code]

definition rm_rf :: "string \<Rightarrow> fs \<Rightarrow> fs option" where
  "rm_rf p f = rm_loop f [Enter p]"

definition cellar_prefix_delete :: "string option \<Rightarrow> string option \<Rightarrow> fs \<Rightarrow> fs cres option" where
  "cellar_prefix_delete root name f =
     (if root = None \<or> \<not> valid_name name then Some (Err CELLAR_ERR_INVALID_ARGUMENT)
      else map_option Ok (rm_rf (cellar_prefix_path 640 root name) f))"

section \<open>Archives\<close>

definition backup_file :: "string \<Rightarrow> string \<Rightarrow> string" where
  "backup_file rel data =
     wr_u32 (of_nat (length rel)) @ rel @ wr_u32 (of_nat (length data)) @ data"

text \<open>The paths of the children of \<open>rel\<close>, relative to the bottle.\<close>

definition child_rels :: "fs \<Rightarrow> string \<Rightarrow> string \<Rightarrow> string list" where
  "child_rels f bottle rel =
     (case list_dir f (cellar_path_join 1024 (Some bottle) (Some rel)) of None \<Rightarrow> []
      | Some ns \<Rightarrow> map (\<lambda>n. snprintf_s 1024 (if rel \<noteq> [] then rel @ ''/'' @ n else n)) ns)"

text \<open>The walk appends to the stream of the archive; \<open>out\<close> is what was written to it so far. \<open>alloc n\<close> says
  whether \<open>n\<close> bytes can be allocated for the content of a file; a file that gets none is skipped. The archive
  may itself lie in the bottle: what reading it then yields is what the library has flushed of the
  stream at that moment, the first \<open>flushed out\<close> characters.\<close>

partial_function (option) backup_loop ::
    "(nat \<Rightarrow> bool) \<Rightarrow> (string \<Rightarrow> nat) \<Rightarrow> path \<Rightarrow> fs \<Rightarrow> string \<Rightarrow> string list \<Rightarrow> string \<Rightarrow> string option" where
  "backup_loop alloc flushed ak f bottle stack out =
     (case stack of [] \<Rightarrow> Some out
      | rel # r \<Rightarrow>
          (case fs_stat f (cellar_path_join 1024 (Some bottle) (Some rel)) of
             None \<Rightarrow> backup_loop alloc flushed ak f bottle r out
           | Some n \<Rightarrow> (case n of
               File stored \<Rightarrow>
                 let data = (if resolve f (cellar_path_join 1024 (Some bottle) (Some rel)) = ak
                             then take (flushed out) out else stored) in
                 if alloc (if data \<noteq> [] then length data else 1)
                 then backup_loop alloc flushed ak f bottle r (out @ backup_file rel data)
                 else backup_loop alloc flushed ak f bottle r out
             | Dir \<Rightarrow> backup_loop alloc flushed ak f bottle (child_rels f bottle rel @ r) out)))"

declare backup_loop.simps [code]

definition backup_walk :: "(nat \<Rightarrow> bool) \<Rightarrow> (string \<Rightarrow> nat) \<Rightarrow> path \<Rightarrow> fs \<Rightarrow> string \<Rightarrow> string \<Rightarrow> string option" where
  "backup_walk alloc flushed ak f bottle out = backup_loop alloc flushed ak f bottle (child_rels f bottle []) out"

definition archive_magic :: string where "archive_magic = ''CBK1''"

definition cellar_prefix_backup ::
    "(nat \<Rightarrow> bool) \<Rightarrow> (string \<Rightarrow> nat) \<Rightarrow> string option \<Rightarrow> string option \<Rightarrow> string option \<Rightarrow> fs \<Rightarrow> fs cres option" where
  "cellar_prefix_backup alloc flushed root name archive f =
     (case archive of None \<Rightarrow> Some (Err CELLAR_ERR_INVALID_ARGUMENT)
      | Some ap \<Rightarrow>
          if root = None \<or> \<not> valid_name name then Some (Err CELLAR_ERR_INVALID_ARGUMENT)
          else (case fs_write f ap [] of
                  None \<Rightarrow> Some (Err CELLAR_ERR_INVALID_ARGUMENT)
                | Some f1 \<Rightarrow>
                    map_option (\<lambda>out. case fs_write f1 ap (out @ wr_u32 0) of None \<Rightarrow> Ok f1 | Some f2 \<Rightarrow> Ok f2)
                      (backup_walk alloc flushed (resolve f1 ap) f1 (cellar_prefix_path 640 root name) archive_magic)))"

text \<open>One record of an archive: the end of the stream, an error, or a path, its data and the rest.
  \<open>alloc n\<close> says whether \<open>n\<close> bytes can be allocated.\<close>

datatype record_step = EndOfArchive | BadRecord cellar_status | Record string string string

definition read_record :: "(nat \<Rightarrow> bool) \<Rightarrow> string \<Rightarrow> record_step" where
  "read_record alloc s =
     (case rd_u32 s of None \<Rightarrow> EndOfArchive
      | Some (plen, s1) \<Rightarrow>
          if plen = 0 then EndOfArchive
          else if unat plen \<ge> 512 then BadRecord CELLAR_ERR_INVALID_ARGUMENT
          else (case rd_bytes (unat plen) s1 of None \<Rightarrow> BadRecord CELLAR_ERR_INVALID_ARGUMENT
             | Some (raw, s2) \<Rightarrow>
                 let rel = cstr raw in
                 if strstr rel ''..'' \<noteq> None then BadRecord CELLAR_ERR_INVALID_ARGUMENT
                 else (case rd_u32 s2 of None \<Rightarrow> BadRecord CELLAR_ERR_INVALID_ARGUMENT
                    | Some (dlen, s3) \<Rightarrow>
                        if \<not> alloc (if dlen \<noteq> 0 then unat dlen else 1) then BadRecord CELLAR_ERR_OUT_OF_MEMORY
                        else (case rd_bytes (unat dlen) s3 of
                                None \<Rightarrow> BadRecord CELLAR_ERR_INVALID_ARGUMENT
                              | Some (data, s4) \<Rightarrow> Record rel data s4))))"

definition write_record :: "string \<Rightarrow> string \<Rightarrow> string \<Rightarrow> fs \<Rightarrow> fs" where
  "write_record bottle rel data f =
     (let abs = cellar_path_join 1024 (Some bottle) (Some rel);
          f1 = (case rsplit_at CHR ''/'' abs of None \<Rightarrow> f | Some (dir, _) \<Rightarrow> fst (cellar_mkdir_p f (Some dir)))
      in (case fs_write f1 abs data of None \<Rightarrow> f1 | Some f2 \<Rightarrow> f2))"

lemma read_record_shorter: "read_record alloc s = Record rel data r \<Longrightarrow> length r < length s"
  by (auto simp: read_record_def Let_def dest!: rd_u32_length rd_bytes_length
      split: option.splits if_splits)

function restore_loop :: "(nat \<Rightarrow> bool) \<Rightarrow> string \<Rightarrow> string \<Rightarrow> fs \<Rightarrow> fs \<times> cellar_status" where
  "restore_loop alloc bottle s f =
     (case read_record alloc s of
        EndOfArchive \<Rightarrow> (f, CELLAR_OK)
      | BadRecord e \<Rightarrow> (f, e)
      | Record rel data r \<Rightarrow> restore_loop alloc bottle r (write_record bottle rel data f))"
  by pat_completeness auto
termination by (relation "measure (\<lambda>(a, b, s, f). length s)") (auto dest: read_record_shorter)

declare restore_loop.simps [simp del]

definition cellar_prefix_restore ::
    "(nat \<Rightarrow> bool) \<Rightarrow> string option \<Rightarrow> string option \<Rightarrow> string option \<Rightarrow> shell_state \<Rightarrow> fs \<Rightarrow>
       fs \<times> shell_state \<times> cellar_status" where
  "cellar_prefix_restore alloc root name archive sh f =
     (case archive of None \<Rightarrow> (f, sh, CELLAR_ERR_INVALID_ARGUMENT)
      | Some ap \<Rightarrow>
          if root = None \<or> \<not> valid_name name then (f, sh, CELLAR_ERR_INVALID_ARGUMENT)
          else (case fs_read f ap of None \<Rightarrow> (f, sh, CELLAR_ERR_INVALID_ARGUMENT)
             | Some s \<Rightarrow>
                 if take 4 s \<noteq> archive_magic then (f, sh, CELLAR_ERR_INVALID_ARGUMENT)
                 else (case cellar_prefix_create root name sh f of (f1, sh1, _) \<Rightarrow>
                    (case restore_loop alloc (cellar_prefix_path 640 root name) (drop 4 s) f1 of
                       (f2, st) \<Rightarrow> (f2, sh1, st)))))"

definition cellar_prefix_export ::
    "(nat \<Rightarrow> bool) \<Rightarrow> (string \<Rightarrow> nat) \<Rightarrow> string option \<Rightarrow> string option \<Rightarrow> string option \<Rightarrow> fs \<Rightarrow> fs cres option" where
  "cellar_prefix_export alloc flushed root name archive f = cellar_prefix_backup alloc flushed root name archive f"

definition cellar_prefix_import ::
    "(nat \<Rightarrow> bool) \<Rightarrow> string option \<Rightarrow> string option \<Rightarrow> string option \<Rightarrow> shell_state \<Rightarrow> fs \<Rightarrow>
       fs \<times> shell_state \<times> cellar_status" where
  "cellar_prefix_import alloc root name archive sh f = cellar_prefix_restore alloc root name archive sh f"

definition cellar_prefix_clone ::
    "(nat \<Rightarrow> bool) \<Rightarrow> (string \<Rightarrow> nat) \<Rightarrow> u32 \<Rightarrow> string option \<Rightarrow> string option \<Rightarrow> string option \<Rightarrow> shell_state \<Rightarrow> fs \<Rightarrow>
       (fs \<times> shell_state \<times> cellar_status) option" where
  "cellar_prefix_clone alloc flushed pid root src dst sh f =
     (if root = None \<or> \<not> valid_name src \<or> \<not> valid_name dst then Some (f, sh, CELLAR_ERR_INVALID_ARGUMENT)
      else (case cellar_prefix_info root src f of
              Ok info \<Rightarrow>
                if \<not> pi_exists info then Some (f, sh, CELLAR_ERR_INVALID_ARGUMENT)
                else
                  let tmp = snprintf_s 700 (the root @ ''/.clone-'' @ the src @ ''-'' @ dec (unat pid) @ ''.cbk'') in
                  map_option (\<lambda>b. case b of
                      Ok f1 \<Rightarrow> (case cellar_prefix_restore alloc root dst (Some tmp) sh f1 of
                                   (f2, sh2, st) \<Rightarrow> (fst (fs_remove f2 tmp), sh2, st))
                    | Err e \<Rightarrow> (f, sh, e) | Fault \<Rightarrow> (f, sh, CELLAR_ERR_INVALID_ARGUMENT))
                    (cellar_prefix_backup alloc flushed root src (Some tmp) f)
            | _ \<Rightarrow> Some (f, sh, CELLAR_ERR_INVALID_ARGUMENT)))"

section \<open>Settings\<close>

text \<open>The pieces of a text that \<^verbatim>\<open>strchr(p, '\n')\<close> cuts out; what follows a final newline is
  nothing, not an empty line.\<close>

definition is_setting :: "string \<Rightarrow> string \<Rightarrow> bool" where
  "is_setting key line \<longleftrightarrow> length line > length key \<and> has_prefix line key \<and> line ! length key = CHR ''=''"

definition cellar_prefix_get_setting ::
    "string option \<Rightarrow> string option \<Rightarrow> string option \<Rightarrow> nat \<Rightarrow> fs \<Rightarrow> string cres" where
  "cellar_prefix_get_setting root name key cap f =
     (case key of None \<Rightarrow> Err CELLAR_ERR_INVALID_ARGUMENT
      | Some k \<Rightarrow>
          if cap = 0 then Err CELLAR_ERR_INVALID_ARGUMENT
          else cbind (cellar_prefix_info root name f) (\<lambda>info.
            if \<not> pi_exists info then Err CELLAR_ERR_INVALID_ARGUMENT
            else (case fs_read f (conf_path (cellar_prefix_path 640 root name)) of
                    None \<Rightarrow> Err CELLAR_ERR_INVALID_ARGUMENT
                  | Some text \<Rightarrow>
                      (case List.find (is_setting k) (lines_of (cstr (take 2047 text))) of
                         None \<Rightarrow> Ok []
                       | Some line \<Rightarrow> Ok (take (cap - 1) (drop (length k + 1) line))))))"

text \<open>\<open>nline\<close> is the new line with its newline, unless the buffer cut it off.\<close>

definition rewrite_settings :: "string \<Rightarrow> string \<Rightarrow> string list \<Rightarrow> string" where
  "rewrite_settings key nline ls =
     concat (map (\<lambda>l. if is_setting key l then nline else l @ [NL]) ls) @
     (if list_ex (is_setting key) ls then [] else nline)"

definition cellar_prefix_set_setting ::
    "string option \<Rightarrow> string option \<Rightarrow> string option \<Rightarrow> string option \<Rightarrow> fs \<Rightarrow> fs cres" where
  "cellar_prefix_set_setting root name key val f =
     (case (key, val) of
        (Some k, Some v) \<Rightarrow>
          if k = [] then Err CELLAR_ERR_INVALID_ARGUMENT
          else cbind (cellar_prefix_info root name f) (\<lambda>info.
            if \<not> pi_exists info then Err CELLAR_ERR_INVALID_ARGUMENT
            else
              let path = conf_path (cellar_prefix_path 640 root name) in
              (case fs_read f path of None \<Rightarrow> Err CELLAR_ERR_INVALID_ARGUMENT
               | Some text \<Rightarrow>
                   (case fs_write f path (rewrite_settings k (snprintf_s 520 (k @ ''='' @ v @ [NL]))
                                            (lines_of (cstr (take 4095 text)))) of
                      None \<Rightarrow> Err CELLAR_ERR_INVALID_ARGUMENT | Some f' \<Rightarrow> Ok f')))
      | _ \<Rightarrow> Err CELLAR_ERR_INVALID_ARGUMENT)"

section \<open>Facts: archives\<close>





lemmas backup_loop_induct = backup_loop.raw_induct [rotated, consumes 1, case_names step]

section \<open>Facts: the walk\<close>



text \<open>The text of a path relative to the bottle.\<close>

definition rel_text :: "path \<Rightarrow> string" where
  "rel_text q = foldl (\<lambda>acc n. if acc \<noteq> [] then acc @ ''/'' @ n else n) [] q"

lemma rel_text_simps [simp]:
  "rel_text [] = []"
  "rel_text [n] = n"
  "rel_text (q @ [n]) = (if rel_text q \<noteq> [] then rel_text q @ ''/'' @ n else n)"
  by (simp_all add: rel_text_def)

















text \<open>The walk ends: the number of entries at or below the pending paths decreases.\<close>

definition entries_below :: "fs \<Rightarrow> path \<Rightarrow> path set" where
  "entries_below f k = {p \<in> fst ` set (fs_nodes f). prefix k p}"


lemma finite_entries [simp]: "finite (entries_below f k)"
  by (simp add: entries_below_def)












section \<open>Facts: settings\<close>

definition key_ok :: "string \<Rightarrow> bool" where
  "key_ok k \<longleftrightarrow> k \<noteq> [] \<and> CHR ''='' \<notin> set k \<and> NL \<notin> set k \<and> no_nul k"

lemma is_setting_iff: "is_setting k l \<longleftrightarrow> (\<exists>v. l = k @ ''='' @ v)"
proof
  assume "is_setting k l"
  then have "length k < length l" "take (length k) l = k" "l ! length k = CHR ''=''"
    by (simp_all add: is_setting_def has_prefix_def)
  then have "l = k @ CHR ''='' # drop (Suc (length k)) l" by (metis id_take_nth_drop)
  then show "\<exists>v. l = k @ ''='' @ v" by auto
qed (auto simp: is_setting_def has_prefix_def)

lemma is_setting_unique:
  assumes "key_ok k" "key_ok k'" "is_setting k l" "is_setting k' l"
  shows "k = k'"
proof -
  obtain v where l: "l = k @ ''='' @ v" using assms(3) unfolding is_setting_iff by blast
  obtain v' where l': "l = k' @ ''='' @ v'" using assms(4) unfolding is_setting_iff by blast
  have "split_at CHR ''='' l = Some (k, v)" using assms(1) by (simp add: l key_ok_def split_at_append)
  moreover have "split_at CHR ''='' l = Some (k', v')" using assms(2) by (simp add: l' key_ok_def split_at_append)
  ultimately show ?thesis by simp
qed

definition replace_setting :: "string \<Rightarrow> string \<Rightarrow> string list \<Rightarrow> string list" where
  "replace_setting k v ls = map (\<lambda>l. if is_setting k l then k @ ''='' @ v else l) ls @
     (if list_ex (is_setting k) ls then [] else [k @ ''='' @ v])"

lemma rewrite_settings_unlines:
  "rewrite_settings k ((k @ ''='' @ v) @ [NL]) ls = unlines (replace_setting k v ls)"
proof -
  have "concat (map (\<lambda>l. if is_setting k l then (k @ ''='' @ v) @ [NL] else l @ [NL]) ls) =
      unlines (map (\<lambda>l. if is_setting k l then k @ ''='' @ v else l) ls)"
    by (induction ls) (auto simp: unlines_def)
  moreover have "unlines (xs @ ys) = unlines xs @ unlines ys" for xs ys by (simp add: unlines_def)
  moreover have "unlines [] = []" "unlines [l] = l @ [NL]" for l by (simp_all add: unlines_def)
  ultimately show ?thesis unfolding rewrite_settings_def replace_setting_def by presburger
qed

lemma find_replace_same: "List.find (is_setting k) (replace_setting k v ls) = Some (k @ ''='' @ v)"
proof -
  have kv: "is_setting k (k @ ''='' @ v)" by (auto simp: is_setting_iff)
  have "List.find (is_setting k) (map (\<lambda>l. if is_setting k l then k @ ''='' @ v else l) ls @ x) =
      (if list_ex (is_setting k) ls then Some (k @ ''='' @ v) else List.find (is_setting k) x)" for x
    using kv by (induction ls) auto
  then show ?thesis using kv by (simp add: replace_setting_def)
qed

lemma find_replace_other:
  assumes "key_ok k" "key_ok k'" "k \<noteq> k'"
  shows "List.find (is_setting k') (replace_setting k v ls) = List.find (is_setting k') ls"
proof -
  have kv: "\<not> is_setting k' (k @ ''='' @ v)"
    using is_setting_unique [OF assms(1,2)] assms(3) by (auto simp: is_setting_iff)
  have "List.find (is_setting k') (map (\<lambda>l. if is_setting k l then k @ ''='' @ v else l) ls @ x) =
      (case List.find (is_setting k') ls of None \<Rightarrow> List.find (is_setting k') x | Some l \<Rightarrow> Some l)" for x
    using kv is_setting_unique [OF assms(1,2)] assms(3) by (induction ls) auto
  then show ?thesis using kv by (auto simp: replace_setting_def split: option.splits)
qed

lemma lines_of_no_NL: "l \<in> set (lines_of s) \<Longrightarrow> NL \<notin> set l"
proof -
  have "l \<in> set (split_on NL s) \<Longrightarrow> NL \<notin> set l" for l
    by (induction s arbitrary: l) (auto split: if_splits list.splits)
  moreover assume "l \<in> set (lines_of s)"
  then have "l \<in> set (split_on NL s)" by (auto simp: lines_of_def Let_def dest: in_set_butlastD split: if_splits)
  ultimately show ?thesis by blast
qed

lemma lines_of_no_nul: "no_nul s \<Longrightarrow> l \<in> set (lines_of s) \<Longrightarrow> no_nul l"
proof -
  have "l \<in> set (split_on NL s) \<Longrightarrow> set l \<subseteq> set s" for l
    by (induction s arbitrary: l) (fastforce split: if_splits list.splits)+
  moreover assume "no_nul s" "l \<in> set (lines_of s)"
  then have "l \<in> set (split_on NL s)" by (auto simp: lines_of_def Let_def dest: in_set_butlastD split: if_splits)
  ultimately show ?thesis using \<open>no_nul s\<close> by (auto simp: no_nul_def)
qed

lemma prefix_info_write:
  assumes "fs_write f p c = Some f'" "is_dir f b"
  shows "is_dir f' b"
  using fs_write_some [OF assms(1)] assms(2) resolve_cwd [of f' f b]
  by (auto simp: is_dir_def fs_stat_def split: if_splits option.splits node.splits)

lemma info_exists_iff:
  "cellar_prefix_info root name f = Ok info \<Longrightarrow> pi_exists info \<longleftrightarrow> is_dir f (cellar_prefix_path 640 root name)"
  by (auto simp: cellar_prefix_info_def read_conf_def Let_def split: option.splits if_splits)


lemma lines_of_ok: "list_all (\<lambda>l. NL \<notin> set l) (lines_of s)"
  using lines_of_no_NL by (auto simp: list_all_iff)

lemma set_setting_parts:
  assumes "cellar_prefix_set_setting (Some root) (Some name) (Some k) (Some v) f = Ok f'"
    "fs_read f (conf_path (cellar_prefix_path 640 (Some root) (Some name))) = Some text"
    "no_nul text" "length text < 2048" "length k + length v + 2 < 520"
  shows "valid_name (Some name)" "is_dir f (cellar_prefix_path 640 (Some root) (Some name))"
    "fs_write f (conf_path (cellar_prefix_path 640 (Some root) (Some name)))
       (unlines (replace_setting k v (lines_of text))) = Some f'"
proof -
  have n: "snprintf_s 520 (k @ ''='' @ v @ [NL]) = (k @ ''='' @ v) @ [NL]"
    using assms(5) by (simp add: snprintf_s_id)
  have t: "cstr (take 4095 text) = text" using assms(3,4) by (simp add: cstr_id)
  show "valid_name (Some name)"
    using assms(1) by (auto simp: cellar_prefix_set_setting_def cbind_Ok_iff cellar_prefix_info_def split: if_splits)
  show "is_dir f (cellar_prefix_path 640 (Some root) (Some name))"
    using assms(1) info_exists_iff by (auto simp: cellar_prefix_set_setting_def cbind_Ok_iff split: if_splits)
  show "fs_write f (conf_path (cellar_prefix_path 640 (Some root) (Some name)))
       (unlines (replace_setting k v (lines_of text))) = Some f'"
    using assms(1,2) n t rewrite_settings_unlines [of k v]
    by (auto simp: cellar_prefix_set_setting_def cbind_Ok_iff Let_def split: if_splits option.splits)
qed

lemma get_setting_eq:
  assumes "valid_name (Some name)" "is_dir f (cellar_prefix_path 640 (Some root) (Some name))"
    "fs_read f (conf_path (cellar_prefix_path 640 (Some root) (Some name))) = Some text"
    "no_nul text" "length text < 2048" "0 < cap"
  shows "cellar_prefix_get_setting (Some root) (Some name) (Some k) cap f =
    Ok (case List.find (is_setting k) (lines_of text) of None \<Rightarrow> []
        | Some line \<Rightarrow> take (cap - 1) (drop (length k + 1) line))"
proof -
  obtain info where i: "cellar_prefix_info (Some root) (Some name) f = Ok info"
    using assms(1) by (simp add: cellar_prefix_info_def Let_def)
  have "pi_exists info" using info_exists_iff [OF i] assms(2) by simp
  moreover have "cstr (take 2047 text) = text" using assms(4,5) by (simp add: cstr_id)
  ultimately show ?thesis using assms(3,6) i
    by (simp add: cellar_prefix_get_setting_def split: option.splits)
qed

lemma replace_setting_lines:
  assumes "key_ok k" "NL \<notin> set v" "no_nul v" "no_nul text"
  shows "lines_of (unlines (replace_setting k v (lines_of text))) = replace_setting k v (lines_of text)"
    "no_nul (unlines (replace_setting k v (lines_of text)))"
proof -
  have "\<forall>l\<in>set (replace_setting k v (lines_of text)). NL \<notin> set l \<and> no_nul l"
    using assms lines_of_no_NL lines_of_no_nul
    by (auto simp: replace_setting_def key_ok_def no_nul_def NL_def split: if_splits)
  then show "lines_of (unlines (replace_setting k v (lines_of text))) = replace_setting k v (lines_of text)"
    "no_nul (unlines (replace_setting k v (lines_of text)))"
    by (auto intro!: lines_of_unlines no_nul_unlines simp: list_all_iff)
qed

section \<open>Properties\<close>


definition bottle_fs :: fs where
  "bottle_fs = empty_fs\<lparr>fs_nodes := [([''r''], Dir), ([''r'', ''b''], Dir), ([''r'', ''b'', ''x''], File ''hi''),
     ([''r'', ''b'', ''prefix.conf''], File (''gfx=GL'' @ [NL]))]\<rparr>"



text \<open>After a setting is written, reading that key gives its value (cut to the caller's buffer) and
  reading any other key gives what it gave before, as long as the configuration file fits the
  readers' buffer of 2047 characters before and after.\<close>

theorem prefix_setting_roundtrip:
  assumes "cellar_prefix_set_setting (Some root) (Some name) (Some k) (Some v) f = Ok f'"
    "fs_read f (conf_path (cellar_prefix_path 640 (Some root) (Some name))) = Some text"
    "fs_read f' (conf_path (cellar_prefix_path 640 (Some root) (Some name))) = Some text'"
    "no_nul text" "length text < 2048" "length text' < 2048"
    "key_ok k" "NL \<notin> set v" "no_nul v" "length k + length v + 2 < 520" "key_ok k'" "0 < cap"
  shows "cellar_prefix_get_setting (Some root) (Some name) (Some k') cap f' =
    (if k' = k then Ok (take (cap - 1) v)
     else cellar_prefix_get_setting (Some root) (Some name) (Some k') cap f)"
proof -
  note p = set_setting_parts [OF assms(1,2,4,5,10)]
  note l = replace_setting_lines [OF assms(7,8,9,4)]
  have t: "text' = unlines (replace_setting k v (lines_of text))"
    using fs_read_write_same [OF p(3)] assms(3) by simp
  have new: "cellar_prefix_get_setting (Some root) (Some name) (Some k') cap f' =
      Ok (case List.find (is_setting k') (replace_setting k v (lines_of text)) of None \<Rightarrow> []
        | Some line \<Rightarrow> take (cap - 1) (drop (length k' + 1) line))"
    using get_setting_eq [OF p(1) prefix_info_write [OF p(3,2)] assms(3) _ assms(6,12)] l t by simp
  show ?thesis
  proof (cases "k' = k")
    case True
    then show ?thesis using new find_replace_same by simp
  next
    case False
    then show ?thesis
      using new find_replace_other [OF assms(7,11)] get_setting_eq [OF p(1,2) assms(2,4,5,12)] by simp
  qed
qed

theorem prefix_setting_roundtrip_witness:
  "\<exists>f'. cellar_prefix_set_setting (Some ''/r'') (Some ''b'') (Some ''dpi'') (Some ''96'') bottle_fs = Ok f' \<and>
     cellar_prefix_get_setting (Some ''/r'') (Some ''b'') (Some ''dpi'') 64 f' = Ok ''96''"
proof -
  let ?set = "cellar_prefix_set_setting (Some ''/r'') (Some ''b'') (Some ''dpi'') (Some ''96'') bottle_fs"
  let ?p = "conf_path (cellar_prefix_path 640 (Some ''/r'') (Some ''b''))"
  have r: "fs_read bottle_fs ?p = Some (''gfx=GL'' @ [NL])" by code_simp
  have "(case ?set of Ok f' \<Rightarrow> fs_read f' ?p | _ \<Rightarrow> None) = Some (''gfx=GL'' @ NL # ''dpi=96'' @ [NL])" by code_simp
  then obtain f' where f': "?set = Ok f'" "fs_read f' ?p = Some (''gfx=GL'' @ NL # ''dpi=96'' @ [NL])"
    by (auto split: cres.splits)
  show ?thesis
    using prefix_setting_roundtrip [OF f'(1) r f'(2), of "''dpi''" 64] f'(1)
    by (simp add: no_nul_def NL_def key_ok_def)
qed

end
