(* ===== verification/Installer.thy ===== *)
theory Installer
  imports Desktop Prefix
begin

text \<open>
  The installer journal, \<^verbatim>\<open>src/installer/installer.c\<close>: a package with its list of actions, the
  \<^verbatim>\<open>.inf\<close> file that records it below \<^verbatim>\<open>uninstall/\<close> in the bottle, the files and shortcuts that
  committing creates, and their removal.
\<close>

section \<open>Packages\<close>

datatype install_kind = CELLAR_INST_REGISTRY | CELLAR_INST_SHORTCUT | CELLAR_INST_ENV | CELLAR_INST_FILE

record install_action =
  ia_kind :: install_kind
  ia_key :: string
  ia_value :: string

record package =
  pk_name :: string
  pk_version :: string
  pk_publisher :: string
  pk_actions :: "install_action list"
  pk_installed :: bool

definition cellar_install_begin :: "string option \<Rightarrow> string option \<Rightarrow> string option \<Rightarrow> package cres" where
  "cellar_install_begin name version publisher =
     (case name of
        Some (c # n) \<Rightarrow> Ok \<lparr>pk_name = snprintf_s 128 (c # n), pk_version = snprintf_s 32 (text_or ''1.0'' version),
                          pk_publisher = snprintf_s 64 (text_or [] publisher), pk_actions = [], pk_installed = False\<rparr>
      | _ \<Rightarrow> Err CELLAR_ERR_INVALID_ARGUMENT)"

definition cellar_install_add :: "install_kind \<Rightarrow> string option \<Rightarrow> string option \<Rightarrow> package \<Rightarrow> package \<times> cellar_status" where
  "cellar_install_add kind key val pkg =
     (case key of None \<Rightarrow> (pkg, CELLAR_ERR_INVALID_ARGUMENT)
      | Some k \<Rightarrow>
          if length (pk_actions pkg) \<ge> 64 then (pkg, CELLAR_ERR_OUT_OF_MEMORY)
          else (pkg\<lparr>pk_actions := pk_actions pkg @
                  [\<lparr>ia_kind = kind, ia_key = snprintf_s 128 k, ia_value = snprintf_s 256 (text_or [] val)\<rparr>]\<rparr>, CELLAR_OK))"

definition kind_name :: "install_kind \<Rightarrow> string" where
  "kind_name k =
     (case k of CELLAR_INST_REGISTRY \<Rightarrow> ''registry'' | CELLAR_INST_SHORTCUT \<Rightarrow> ''shortcut''
      | CELLAR_INST_ENV \<Rightarrow> ''env'' | CELLAR_INST_FILE \<Rightarrow> ''file'')"

definition kind_parse :: "string \<Rightarrow> install_kind" where
  "kind_parse s =
     (if s = ''registry'' then CELLAR_INST_REGISTRY else if s = ''shortcut'' then CELLAR_INST_SHORTCUT
      else if s = ''env'' then CELLAR_INST_ENV else CELLAR_INST_FILE)"

section \<open>Committing\<close>

text \<open>The suffix is left out where it would not fit the buffer.\<close>

definition commit_path :: "string \<Rightarrow> string \<Rightarrow> string" where
  "commit_path bottle name =
     (let path = cellar_path_join 800 (Some (snprintf_s 700 (bottle @ ''/uninstall''))) (Some name)
      in if length path + 4 < 800 then path @ ''.inf'' else path)"

definition action_line :: "install_action \<Rightarrow> string" where
  "action_line a = ''action='' @ kind_name (ia_kind a) @ ''|'' @ ia_key a @ ''|'' @ ia_value a"

definition inf_text :: "package \<Rightarrow> string" where
  "inf_text pkg = unlines
     ([''name='' @ pk_name pkg, ''version='' @ pk_version pkg, ''publisher='' @ pk_publisher pkg] @
      map action_line (pk_actions pkg))"

definition file_dest :: "string \<Rightarrow> install_action \<Rightarrow> string" where
  "file_dest bottle a = snprintf_s 1024 (bottle @ ''/'' @ ia_key a)"

definition shortcut_dest :: "string \<Rightarrow> install_action \<Rightarrow> string" where
  "shortcut_dest bottle a = snprintf_s 800 (bottle @ ''/drive_c/users/user/Desktop/'' @ ia_key a @ ''.lnk'')"

text \<open>Opening for writing may fail; the failure is ignored.\<close>

definition try_write :: "string \<Rightarrow> string \<Rightarrow> fs \<Rightarrow> fs" where
  "try_write p c f = (case fs_write f p c of None \<Rightarrow> f | Some f' \<Rightarrow> f')"

definition apply_action :: "string \<Rightarrow> install_action \<Rightarrow> fs \<Rightarrow> fs" where
  "apply_action bottle a f =
     (case ia_kind a of
        CELLAR_INST_FILE \<Rightarrow>
          if has_prefix (ia_key a) ''/'' then f
          else
            let dest = file_dest bottle a;
                f1 = (case rsplit_at CHR ''/'' dest of None \<Rightarrow> f | Some (dir, _) \<Rightarrow> fst (cellar_mkdir_p f (Some dir)))
            in try_write dest (ia_value a) f1
      | CELLAR_INST_SHORTCUT \<Rightarrow> try_write (shortcut_dest bottle a) (''shortcut to '' @ ia_value a @ [NL]) f
      | _ \<Rightarrow> f)"

definition cellar_install_commit :: "string option \<Rightarrow> package \<Rightarrow> fs \<Rightarrow> fs \<times> package \<times> cellar_status" where
  "cellar_install_commit bottle pkg f =
     (case bottle of None \<Rightarrow> (f, pkg, CELLAR_ERR_INVALID_ARGUMENT)
      | Some b \<Rightarrow>
          let f1 = fst (cellar_mkdir_p f (Some (snprintf_s 700 (b @ ''/uninstall''))))
          in (case fs_write f1 (commit_path b (pk_name pkg)) (inf_text pkg) of
                None \<Rightarrow> (f1, pkg, CELLAR_ERR_INVALID_ARGUMENT)
              | Some f2 \<Rightarrow> (fold (apply_action b) (pk_actions pkg) f2, pkg\<lparr>pk_installed := True\<rparr>, CELLAR_OK)))"

section \<open>Loading\<close>

text \<open>\<^verbatim>\<open>%n[^c]\<close> of \<^verbatim>\<open>sscanf\<close>: at least one and at most \<open>n\<close> characters other than \<open>c\<close>.\<close>

definition scan_set :: "nat \<Rightarrow> char \<Rightarrow> string \<Rightarrow> (string \<times> string) option" where
  "scan_set n c s =
     (let w = take n (takeWhile (\<lambda>x. x \<noteq> c) s) in if w = [] then None else Some (w, drop (length w) s))"

definition scan_action :: "string \<Rightarrow> string \<times> string \<times> string" where
  "scan_action s =
     (case scan_set 31 CHR ''|'' s of None \<Rightarrow> ([], [], [])
      | Some (kind, r) \<Rightarrow>
          if \<not> has_prefix r ''|'' then (kind, [], [])
          else (case scan_set 127 CHR ''|'' (tl r) of None \<Rightarrow> (kind, [], [])
                | Some (key, r2) \<Rightarrow>
                    if \<not> has_prefix r2 ''|'' then (kind, key, [])
                    else (case scan_set 255 NL (tl r2) of None \<Rightarrow> (kind, key, []) | Some (val, _) \<Rightarrow> (kind, key, val))))"

definition load_line :: "string \<Rightarrow> package \<Rightarrow> package" where
  "load_line line pkg =
     (case split_at CHR ''='' line of None \<Rightarrow> pkg
      | Some (k, v) \<Rightarrow>
          if k = ''version'' then pkg\<lparr>pk_version := snprintf_s 32 v\<rparr>
          else if k = ''publisher'' then pkg\<lparr>pk_publisher := snprintf_s 64 v\<rparr>
          else if k = ''action'' then
            (case scan_action v of (kind, key, val) \<Rightarrow> fst (cellar_install_add (kind_parse kind) (Some key) (Some val) pkg))
          else pkg)"

definition inf_path :: "string \<Rightarrow> string \<Rightarrow> string" where
  "inf_path bottle name = snprintf_s 800 (bottle @ ''/uninstall/'' @ name @ ''.inf'')"

definition cellar_install_load :: "string option \<Rightarrow> string option \<Rightarrow> fs \<Rightarrow> package cres" where
  "cellar_install_load bottle name f =
     (case (bottle, name) of
        (Some b, Some n) \<Rightarrow>
          (case fs_read f (inf_path b n) of None \<Rightarrow> Err CELLAR_ERR_INVALID_ARGUMENT
           | Some text \<Rightarrow>
               Ok ((fold load_line (fgets_lines 512 text)
                     \<lparr>pk_name = snprintf_s 128 n, pk_version = [], pk_publisher = [], pk_actions = [], pk_installed = False\<rparr>)
                   \<lparr>pk_installed := True\<rparr>))
      | _ \<Rightarrow> Err CELLAR_ERR_INVALID_ARGUMENT)"

section \<open>Uninstalling\<close>

definition undo_action :: "string \<Rightarrow> install_action \<Rightarrow> fs \<Rightarrow> fs" where
  "undo_action bottle a f =
     (case ia_kind a of
        CELLAR_INST_FILE \<Rightarrow> fst (fs_remove f (file_dest bottle a))
      | CELLAR_INST_SHORTCUT \<Rightarrow> fst (fs_remove f (shortcut_dest bottle a))
      | _ \<Rightarrow> f)"

definition cellar_install_uninstall :: "string option \<Rightarrow> string option \<Rightarrow> fs \<Rightarrow> fs \<times> cellar_status" where
  "cellar_install_uninstall bottle name f =
     (case cellar_install_load bottle name f of
        Ok pkg \<Rightarrow>
          (fst (fs_remove (fold (undo_action (the bottle)) (pk_actions pkg) f) (inf_path (the bottle) (the name))), CELLAR_OK)
      | _ \<Rightarrow> (f, CELLAR_ERR_INVALID_ARGUMENT))"

section \<open>Facts: the journal text\<close>

definition action_ok :: "install_action \<Rightarrow> bool" where
  "action_ok a \<longleftrightarrow> ia_key a \<noteq> [] \<and> CHR ''|'' \<notin> set (ia_key a) \<and> NL \<notin> set (ia_key a) \<and> no_nul (ia_key a) \<and>
     length (ia_key a) \<le> 127 \<and> NL \<notin> set (ia_value a) \<and> no_nul (ia_value a) \<and> length (ia_value a) \<le> 255"

definition package_ok :: "package \<Rightarrow> bool" where
  "package_ok p \<longleftrightarrow> field_ok 128 (pk_name p) \<and> field_ok 32 (pk_version p) \<and>
     field_ok 64 (pk_publisher p) \<and> (\<forall>a\<in>set (pk_actions p). action_ok a) \<and> length (pk_actions p) \<le> 64"

lemma scan_set_prefix:
  "w \<noteq> [] \<Longrightarrow> c \<notin> set w \<Longrightarrow> length w \<le> n \<Longrightarrow> r = [] \<or> hd r = c \<Longrightarrow> scan_set n c (w @ r) = Some (w, r)"
proof -
  assume a: "w \<noteq> []" "c \<notin> set w" "length w \<le> n" "r = [] \<or> hd r = c"
  have "takeWhile (\<lambda>x. x \<noteq> c) (w @ r) = w" using a(2,4) by (cases r) (auto simp: takeWhile_append)
  then show ?thesis using a by (simp add: scan_set_def)
qed

lemma kind_name_ok:
  "kind_name k \<noteq> []" "CHR ''|'' \<notin> set (kind_name k)" "length (kind_name k) \<le> 8" "kind_parse (kind_name k) = k"
  "NL \<notin> set (kind_name k)" "no_nul (kind_name k)"
  by (cases k; simp add: kind_name_def kind_parse_def NL_def no_nul_def)+

lemma scan_action_line:
  assumes "action_ok a"
  shows "scan_action (kind_name (ia_kind a) @ ''|'' @ ia_key a @ ''|'' @ ia_value a) = (kind_name (ia_kind a), ia_key a, ia_value a)"
proof -
  have a: "ia_key a \<noteq> []" "CHR ''|'' \<notin> set (ia_key a)" "length (ia_key a) \<le> 127" "NL \<notin> set (ia_value a)" "length (ia_value a) \<le> 255"
    using assms by (simp_all add: action_ok_def)
  have 1: "scan_set 31 CHR ''|'' (kind_name (ia_kind a) @ ''|'' @ ia_key a @ ''|'' @ ia_value a) =
      Some (kind_name (ia_kind a), ''|'' @ ia_key a @ ''|'' @ ia_value a)"
    using kind_name_ok [of "ia_kind a"] by (intro scan_set_prefix) auto
  have 2: "scan_set 127 CHR ''|'' (ia_key a @ ''|'' @ ia_value a) = Some (ia_key a, ''|'' @ ia_value a)"
    using a by (intro scan_set_prefix) auto
  have 3: "ia_value a \<noteq> [] \<Longrightarrow> scan_set 255 NL (ia_value a) = Some (ia_value a, [])"
    using a(4,5) scan_set_prefix [of "ia_value a" NL 255 "[]"] by simp
  have "scan_set 255 NL [] = None" by (simp add: scan_set_def)
  then show ?thesis using 2 3 unfolding scan_action_def 1 by (cases "ia_value a") (simp_all add: has_prefix_def)
qed

lemma load_action_line:
  assumes "action_ok a" "length (pk_actions p) < 64"
  shows "load_line (action_line a) p = p\<lparr>pk_actions := pk_actions p @ [a]\<rparr>"
proof -
  have "split_at CHR ''='' (''action'' @ CHR ''='' # kind_name (ia_kind a) @ ''|'' @ ia_key a @ ''|'' @ ia_value a) =
      Some (''action'', kind_name (ia_kind a) @ ''|'' @ ia_key a @ ''|'' @ ia_value a)"
    by (rule split_at_append) simp
  then show ?thesis using assms kind_name_ok(4) [of "ia_kind a"] scan_action_line [OF assms(1)]
    by (simp add: load_line_def action_line_def cellar_install_add_def text_or_def action_ok_def snprintf_s_id)
qed

lemma load_action_lines:
  "(\<forall>a\<in>set as. action_ok a) \<Longrightarrow> length (pk_actions p) + length as \<le> 64 \<Longrightarrow>
     fold load_line (map action_line as) p = p\<lparr>pk_actions := pk_actions p @ as\<rparr>"
  by (induction as arbitrary: p) (simp_all add: load_action_line)

lemma action_line_fits: "action_ok a \<Longrightarrow> line_fits 512 (action_line a)"
  using kind_name_ok(3,5,6) [of "ia_kind a"]
  by (auto simp: action_ok_def action_line_def line_fits_def no_nul_def NL_def)

lemma load_field_lines:
  "load_line (''name='' @ v) p = p"
  "length v < 32 \<Longrightarrow> load_line (''version='' @ v) p = p\<lparr>pk_version := v\<rparr>"
  "length v < 64 \<Longrightarrow> load_line (''publisher='' @ v) p = p\<lparr>pk_publisher := v\<rparr>"
  by (simp_all add: load_line_def snprintf_s_id)

lemma load_text:
  assumes "package_ok p"
  shows "fold load_line (fgets_lines 512 (inf_text p)) q =
    fold load_line (map action_line (pk_actions p)) (q\<lparr>pk_version := pk_version p, pk_publisher := pk_publisher p\<rparr>)"
proof -
  have l: "length (pk_version p) < 32" "length (pk_publisher p) < 64"
    using assms by (auto simp: package_ok_def field_ok_def)
  have "fgets_lines 512 (inf_text p) = [''name='' @ pk_name p, ''version='' @ pk_version p, ''publisher='' @ pk_publisher p] @
      map action_line (pk_actions p)"
    unfolding inf_text_def using assms action_line_fits
    by (intro fgets_lines_unlines) (auto simp: package_ok_def field_ok_def line_fits_def no_nul_def NL_def list_all_iff)
  then show ?thesis using l by (simp add: load_field_lines [simplified])
qed

section \<open>Facts: files\<close>

definition targets :: "string \<Rightarrow> install_action \<Rightarrow> string list" where
  "targets b a =
     (case ia_kind a of CELLAR_INST_FILE \<Rightarrow> if has_prefix (ia_key a) ''/'' then [] else [file_dest b a]
      | CELLAR_INST_SHORTCUT \<Rightarrow> [shortcut_dest b a] | _ \<Rightarrow> [])"

lemma try_write_frame:
  "fs_cwd (try_write p c f) = fs_cwd f"
  "fs_read f q = Some d \<Longrightarrow> resolve f q \<noteq> resolve f p \<Longrightarrow> fs_read (try_write p c f) q = Some d"
  by (auto simp: try_write_def disk.rd_wr_other dest: fs_write_some(1) split: option.splits)

lemma apply_action_frame:
  "fs_cwd (apply_action b a f) = fs_cwd f \<and>
   (fs_read f q = Some d \<longrightarrow> (\<forall>t\<in>set (targets b a). resolve f q \<noteq> resolve f t) \<longrightarrow> fs_read (apply_action b a f) q = Some d)"
proof (cases "ia_kind a = CELLAR_INST_FILE \<and> \<not> has_prefix (ia_key a) ''/''")
  case True
  define f1 where "f1 = (case rsplit_at CHR ''/'' (file_dest b a) of None \<Rightarrow> f | Some (dir, _) \<Rightarrow> fst (cellar_mkdir_p f (Some dir)))"
  have f1: "fs_cwd f1 = fs_cwd f" "fs_read f q = Some d \<Longrightarrow> fs_read f1 q = Some d"
    unfolding f1_def using mkdir_p_frame(1) mkdir_p_read
    by (auto split: option.splits prod.splits) (metis prod.collapse)+
  have "apply_action b a f = try_write (file_dest b a) (ia_value a) f1"
    using True by (simp add: apply_action_def f1_def Let_def)
  moreover have "resolve f1 x = resolve f x" for x by (rule resolve_cwd) (rule f1(1))
  ultimately show ?thesis using True f1 try_write_frame [where p = "file_dest b a" and c = "ia_value a" and f = f1]
    by (simp add: targets_def)
next
  case False
  then show ?thesis using try_write_frame
    by (cases "ia_kind a") (auto simp: apply_action_def targets_def)
qed

lemma apply_actions_read:
  "fs_read f q = Some d \<Longrightarrow> (\<forall>a\<in>set as. \<forall>t\<in>set (targets b a). resolve f q \<noteq> resolve f t) \<Longrightarrow>
     fs_read (fold (apply_action b) as f) q = Some d"
proof (induction as arbitrary: f)
  case (Cons a as)
  have "resolve (apply_action b a f) x = resolve f x" for x
    by (rule resolve_cwd) (use apply_action_frame in blast)
  then show ?case using Cons.prems Cons.IH [of "apply_action b a f"] apply_action_frame [of b a f q d] by simp
qed simp

lemma commit_inf_path:
  assumes "length b + length n < 780" "length b < 690"
  shows "commit_path b n = inf_path b n"
  using assms by (simp add: commit_path_def inf_path_def cellar_path_join_def snprintf_s_id)

lemma commit_load:
  assumes "package_ok p" "cellar_install_commit (Some b) p f = (f', p', CELLAR_OK)"
    and "length b + length (pk_name p) < 780" "length b < 690"
    and "\<And>a t. a \<in> set (pk_actions p) \<Longrightarrow> t \<in> set (targets b a) \<Longrightarrow> resolve f t \<noteq> resolve f (inf_path b (pk_name p))"
  shows "cellar_install_load (Some b) (Some (pk_name p)) f' = Ok (p\<lparr>pk_installed := True\<rparr>) \<and> p' = p\<lparr>pk_installed := True\<rparr>"
proof -
  define f1 where "f1 = fst (cellar_mkdir_p f (Some (snprintf_s 700 (b @ ''/uninstall''))))"
  obtain f2 where f2: "fs_write f1 (inf_path b (pk_name p)) (inf_text p) = Some f2"
    "f' = fold (apply_action b) (pk_actions p) f2" "p' = p\<lparr>pk_installed := True\<rparr>"
    using assms(2) by (auto simp: cellar_install_commit_def commit_inf_path [OF assms(3,4)] f1_def Let_def split: option.splits)
  have "fs_cwd f1 = fs_cwd f" unfolding f1_def by (metis mkdir_p_frame(1) prod.collapse)
  then have "fs_cwd f2 = fs_cwd f" using fs_write_some(1) [OF f2(1)] by simp
  then have res: "resolve f2 x = resolve f x" for x by (rule resolve_cwd)
  have "fs_read f2 (inf_path b (pk_name p)) = Some (inf_text p)" by (rule disk.rd_wr_same) (rule f2(1))
  then have "fs_read f' (inf_path b (pk_name p)) = Some (inf_text p)"
    unfolding f2(2) using assms(5) by (intro apply_actions_read) (auto simp: res dest: sym)
  moreover have "length (pk_name p) < 128" "\<forall>a\<in>set (pk_actions p). action_ok a" "length (pk_actions p) \<le> 64"
    using assms(1) by (auto simp: package_ok_def field_ok_def)
  ultimately show ?thesis
    using f2(3) by (simp add: cellar_install_load_def load_text [OF assms(1)] load_action_lines snprintf_s_id)
qed

lemma node_at_root: "node_at f [] = Some Dir"
  by (simp add: node_at_def)

lemma fs_remove_frame:
  assumes "fs_remove f p = (f', r)"
  shows "fs_cwd f' = fs_cwd f" "fs_denied f' = fs_denied f" "node_at f' k = Some x \<Longrightarrow> node_at f k = Some x"
    "node_at f (resolve f p) = Some (File c) \<Longrightarrow> p \<noteq> [] \<Longrightarrow> \<not> fs_denied f (resolve f p) \<Longrightarrow> node_at f' (resolve f p) = None"
  using assms node_at_root [of f]
  by (auto simp: fs_remove_def Let_def node_at_delete split: if_splits option.splits node.splits)

definition undo_targets :: "string \<Rightarrow> install_action \<Rightarrow> string list" where
  "undo_targets b a =
     (case ia_kind a of CELLAR_INST_FILE \<Rightarrow> [file_dest b a] | CELLAR_INST_SHORTCUT \<Rightarrow> [shortcut_dest b a] | _ \<Rightarrow> [])"

text \<open>Removing never creates; a file among the removed paths is gone unless its removal is denied.\<close>

definition removed :: "fs \<Rightarrow> string list \<Rightarrow> fs \<Rightarrow> bool" where
  "removed f ps g \<longleftrightarrow> fs_cwd g = fs_cwd f \<and> fs_denied g = fs_denied f \<and>
     (\<forall>k x. node_at g k = Some x \<longrightarrow> node_at f k = Some x) \<and>
     (\<forall>p\<in>set ps. is_file g p \<longrightarrow> fs_denied f (resolve f p))"

lemma is_file_node: "is_file f p \<longleftrightarrow> p \<noteq> [] \<and> (\<exists>c. node_at f (resolve f p) = Some (File c))"
  by (auto simp: is_file_def fs_stat_def split: option.splits node.splits)

lemma removed_refl: "removed f [] f"
  by (simp add: removed_def)

lemma removed_step: "removed f ps g \<Longrightarrow> removed f (ps @ [p]) (fst (fs_remove g p))"
proof -
  assume a: "removed f ps g"
  obtain h r where h: "fs_remove g p = (h, r)" by (cases "fs_remove g p")
  note fr = fs_remove_frame [OF h]
  have eq: "fs_cwd g = fs_cwd f" "fs_denied g = fs_denied f" "fs_cwd h = fs_cwd f" "fs_denied h = fs_denied f"
    using a fr(1,2) by (simp_all add: removed_def)
  have res: "resolve g q = resolve f q" "resolve h q = resolve f q" for q
    by (rule resolve_cwd, rule eq(1)) (rule resolve_cwd, rule eq(3))
  have 1: "node_at h k = Some x \<Longrightarrow> node_at f k = Some x" for k x
    using fr(3) a unfolding removed_def by blast
  have keep: "is_file h q \<Longrightarrow> is_file g q" for q using fr(3) unfolding is_file_node res by blast
  then have 2: "\<forall>q\<in>set ps. is_file h q \<longrightarrow> fs_denied f (resolve f q)" using a unfolding removed_def by blast
  have 3: "fs_denied f (resolve f p)" if i: "is_file h p"
  proof (rule ccontr)
    assume "\<not> fs_denied f (resolve f p)"
    moreover obtain c where "p \<noteq> []" "node_at h (resolve f p) = Some (File c)" using i by (auto simp: is_file_node res)
    ultimately show False using fr(3,4) by (auto simp: res eq)
  qed
  show ?thesis unfolding removed_def using eq 1 2 3 by (simp add: h)
qed

lemma removed_actions:
  "removed f ps g \<Longrightarrow> removed f (ps @ concat (map (undo_targets b) as)) (fold (undo_action b) as g)"
proof (induction as arbitrary: ps g)
  case (Cons a as)
  have "removed f (ps @ undo_targets b a) (undo_action b a g)"
    using Cons.prems removed_step by (cases "ia_kind a") (auto simp: undo_targets_def undo_action_def)
  from Cons.IH [OF this] show ?case by simp
qed simp

lemma targets_undone: "set (targets b a) \<subseteq> set (undo_targets b a)"
  by (cases "ia_kind a") (auto simp: targets_def undo_targets_def)

section \<open>Properties\<close>

text \<open>A package that was committed loads back from its journal with every action, marked as
  installed, provided its texts keep the format's separators out, and none of its own files or
  shortcuts lands on the journal file.\<close>

theorem install_commit_load:
  assumes "package_ok p" "cellar_install_commit (Some b) p f = (f', p', CELLAR_OK)"
    and "length b + length (pk_name p) < 780" "length b < 690"
    and "\<And>a t. a \<in> set (pk_actions p) \<Longrightarrow> t \<in> set (targets b a) \<Longrightarrow> resolve f t \<noteq> resolve f (inf_path b (pk_name p))"
  shows "cellar_install_load (Some b) (Some (pk_name p)) f' = Ok (p\<lparr>pk_installed := True\<rparr>) \<and> p' = p\<lparr>pk_installed := True\<rparr>"
  by (rule commit_load [OF assms(1-4)]) (rule assms(5))

text \<open>C23. Uninstalling undoes a committed package: afterwards none of the files and shortcuts it put into
  the bottle, nor its journal, exists, except where the file system denies the removal, and nothing
  that was not there before has appeared.\<close>

theorem install_uninstall:
  assumes "package_ok p" "cellar_install_commit (Some b) p f = (f', p', CELLAR_OK)"
    and "length b + length (pk_name p) < 780" "length b < 690"
    and "\<And>a t. a \<in> set (pk_actions p) \<Longrightarrow> t \<in> set (targets b a) \<Longrightarrow> resolve f t \<noteq> resolve f (inf_path b (pk_name p))"
    and "cellar_install_uninstall (Some b) (Some (pk_name p)) f' = (f'', st)"
  shows "st = CELLAR_OK \<and> removed f' (inf_path b (pk_name p) # concat (map (targets b) (pk_actions p))) f''"
proof -
  have l: "cellar_install_load (Some b) (Some (pk_name p)) f' = Ok (p\<lparr>pk_installed := True\<rparr>)"
    by (rule commit_load [OF assms(1-4), THEN conjunct1]) (rule assms(5))
  have "removed f' (concat (map (undo_targets b) (pk_actions p)) @ [inf_path b (pk_name p)]) f''" "st = CELLAR_OK"
    using assms(6) removed_step [OF removed_actions [OF removed_refl [of f'], of b "pk_actions p"]]
    by (auto simp: cellar_install_uninstall_def l)
  then show ?thesis using targets_undone by (fastforce simp: removed_def)
qed

definition demo_package :: package where
  "demo_package = \<lparr>pk_name = ''app'', pk_version = ''1.0'', pk_publisher = [], pk_actions =
     [\<lparr>ia_kind = CELLAR_INST_FILE, ia_key = ''bin/a.txt'', ia_value = ''hi''\<rparr>,
      \<lparr>ia_kind = CELLAR_INST_ENV, ia_key = ''PATH'', ia_value = []\<rparr>], pk_installed = False\<rparr>"

lemma demo_package_facts:
  "package_ok demo_package" "snd (snd (cellar_install_commit (Some ''/b'') demo_package empty_fs)) = CELLAR_OK"
  "fst (snd (cellar_install_commit (Some ''/b'') demo_package empty_fs)) = demo_package\<lparr>pk_installed := True\<rparr>"
  "pk_name demo_package = ''app''"
  "a \<in> set (pk_actions demo_package) \<Longrightarrow> t \<in> set (targets ''/b'' a) \<Longrightarrow> resolve empty_fs t \<noteq> resolve empty_fs (inf_path ''/b'' ''app'')"
proof -
  have r: "resolve empty_fs ''/b/bin/a.txt'' \<noteq> resolve empty_fs (inf_path ''/b'' ''app'')"
    "file_dest ''/b'' \<lparr>ia_kind = CELLAR_INST_FILE, ia_key = ''bin/a.txt'', ia_value = ''hi''\<rparr> = ''/b/bin/a.txt''" by code_simp+
  show "a \<in> set (pk_actions demo_package) \<Longrightarrow> t \<in> set (targets ''/b'' a) \<Longrightarrow> resolve empty_fs t \<noteq> resolve empty_fs (inf_path ''/b'' ''app'')"
    using r by (auto simp: demo_package_def targets_def split: if_splits)
  show "snd (snd (cellar_install_commit (Some ''/b'') demo_package empty_fs)) = CELLAR_OK" by code_simp
  show "fst (snd (cellar_install_commit (Some ''/b'') demo_package empty_fs)) = demo_package\<lparr>pk_installed := True\<rparr>" by code_simp
qed (simp_all add: demo_package_def package_ok_def field_ok_def action_ok_def no_nul_def NL_def)

theorem install_commit_load_witness:
  "\<exists>f'. cellar_install_commit (Some ''/b'') demo_package empty_fs = (f', demo_package\<lparr>pk_installed := True\<rparr>, CELLAR_OK) \<and>
     cellar_install_load (Some ''/b'') (Some ''app'') f' = Ok (demo_package\<lparr>pk_installed := True\<rparr>)"
proof -
  let ?f = "fst (cellar_install_commit (Some ''/b'') demo_package empty_fs)"
  have c: "cellar_install_commit (Some ''/b'') demo_package empty_fs = (?f, demo_package\<lparr>pk_installed := True\<rparr>, CELLAR_OK)"
    using demo_package_facts(2,3) by (simp add: prod_eq_iff)
  show ?thesis
    using install_commit_load [OF demo_package_facts(1) c] demo_package_facts(4,5) c by auto
qed

theorem install_uninstall_witness:
  "\<exists>f' f''. cellar_install_commit (Some ''/b'') demo_package empty_fs = (f', demo_package\<lparr>pk_installed := True\<rparr>, CELLAR_OK) \<and>
     cellar_install_uninstall (Some ''/b'') (Some ''app'') f' = (f'', CELLAR_OK) \<and>
     removed f' [''/b/uninstall/app.inf'', ''/b/bin/a.txt''] f''"
proof -
  let ?f = "fst (cellar_install_commit (Some ''/b'') demo_package empty_fs)"
  have c: "cellar_install_commit (Some ''/b'') demo_package empty_fs = (?f, demo_package\<lparr>pk_installed := True\<rparr>, CELLAR_OK)"
    using demo_package_facts(2,3) by (simp add: prod_eq_iff)
  obtain g st where u: "cellar_install_uninstall (Some ''/b'') (Some ''app'') ?f = (g, st)"
    by (cases "cellar_install_uninstall (Some ''/b'') (Some ''app'') ?f")
  have t: "inf_path ''/b'' ''app'' # concat (map (targets ''/b'') (pk_actions demo_package)) =
      [''/b/uninstall/app.inf'', ''/b/bin/a.txt'']" by code_simp
  have "st = CELLAR_OK \<and> removed ?f [''/b/uninstall/app.inf'', ''/b/bin/a.txt''] g"
    using install_uninstall [OF demo_package_facts(1) c, of g st] u demo_package_facts(4,5) t by simp
  then show ?thesis using c u by blast
qed

end
