(* ===== verification/Trace.thy ===== *)
theory Trace
  imports Text
begin

unbundle bit_operations_syntax

text \<open>
  Dynamic tracing, \<^verbatim>\<open>src/trace/trace.c\<close>: the category mask, its operations, and the parser of
  category lists. Emission writes to \<^verbatim>\<open>stderr\<close> and is represented by the text it prints, if any.
\<close>

definition CELLAR_TRACE_ALL :: u64 where "CELLAR_TRACE_ALL = 0xFF"

definition k_names :: "(string \<times> u64) list" where
  "k_names = [(''graphics'', 1), (''filesystem'', 2), (''threading'', 4), (''dll'', 8),
     (''api'', 16), (''audio'', 32), (''timer'', 64), (''compat'', 128), (''all'', CELLAR_TRACE_ALL)]"

definition cellar_trace_enabled :: "u64 \<Rightarrow> u64 \<Rightarrow> bool" where
  "cellar_trace_enabled g_mask cat \<longleftrightarrow> g_mask AND cat \<noteq> 0"

definition cellar_trace_enable :: "u64 \<Rightarrow> u64 \<Rightarrow> u64" where
  "cellar_trace_enable cats g_mask = g_mask OR cats"

definition cellar_trace_disable :: "u64 \<Rightarrow> u64 \<Rightarrow> u64" where
  "cellar_trace_disable cats g_mask = g_mask AND NOT cats"

definition category_name :: "u64 \<Rightarrow> string" where
  "category_name cat = (case List.find (\<lambda>(n, b). b = cat) k_names of Some (n, b) \<Rightarrow> n | None \<Rightarrow> ''?'')"

text \<open>The bits of one token: every table entry whose name it matches, ignoring case.\<close>

definition token_bits :: "string \<Rightarrow> u64" where
  "token_bits p = foldl (\<lambda>m (n, b). if strcasecmp_eq p n then m OR b else m) 0 k_names"

definition cellar_trace_parse :: "string option \<Rightarrow> u64" where
  "cellar_trace_parse names =
     (case names of None \<Rightarrow> 0
      | Some s \<Rightarrow> foldl (\<lambda>m t. m OR token_bits (ltrim t)) 0 (tokens CHR '','' (snprintf_s 512 s)))"

definition cellar_trace_init_from_env :: "string option \<Rightarrow> u64 \<Rightarrow> u64" where
  "cellar_trace_init_from_env env g_mask =
     (case env of None \<Rightarrow> g_mask | Some e \<Rightarrow> if e = [] then g_mask else g_mask OR cellar_trace_parse (Some e))"

text \<open>\<open>msg\<close> is the formatted message.\<close>

definition cellar_trace :: "u64 \<Rightarrow> u64 \<Rightarrow> string \<Rightarrow> string option" where
  "cellar_trace g_mask cat msg =
     (if g_mask AND cat = 0 then None
      else Some (''[trace:'' @ category_name cat @ ''] '' @ snprintf_s 512 msg @ [NL]))"

lemma enable_disable: "cellar_trace_enabled (cellar_trace_disable c (cellar_trace_enable c m)) c = False"
  by (simp add: cellar_trace_enabled_def cellar_trace_disable_def bit_eq_iff bit_simps)

lemma enabled_disable: "cellar_trace_enabled (cellar_trace_disable c m) d \<longleftrightarrow> (m AND d AND NOT c) \<noteq> 0"
  by (simp add: cellar_trace_enabled_def cellar_trace_disable_def ac_simps)

end
