(* ===== verification/Audio.thy ===== *)
theory Audio
  imports FileBytes Perf Trace Profile
begin

text \<open>
  Audio output, \<^verbatim>\<open>src/audio/audio.c\<close>: the dispatch to a backend and the built-in sink that writes
  a WAV file. A stream's bytes are kept
  with the sink; they reach the file when the sink closes it. The directory that holds the file and
  the allocator are the file system state and an argument; the clock of the trace is an argument.
\<close>

section \<open>Backends and devices\<close>

record audio_format =
  af_format_tag :: u16
  af_channels :: u16
  af_sample_rate :: u32
  af_avg_bytes_per_sec :: u32
  af_block_align :: u16
  af_bits_per_sample :: u16

text \<open>The table of functions of a backend; \<open>'i\<close> is its private state, \<open>None\<close> the null pointer.\<close>

record 'i audio_backend =
  ab_name :: string
  ab_open :: "audio_format \<Rightarrow> fs \<Rightarrow> fs \<times> 'i option \<times> cellar_status"
  ab_write :: "'i option \<Rightarrow> string \<Rightarrow> u32 \<Rightarrow> ('i option \<times> cellar_status) cres"
  ab_reset :: "'i option \<Rightarrow> 'i option \<times> cellar_status"
  ab_close :: "'i option \<Rightarrow> fs \<Rightarrow> fs \<times> 'i option \<times> cellar_status"
  ab_position_ms :: "'i option \<Rightarrow> u64"

record 'i audio_device =
  ad_backend :: "'i audio_backend option"
  ad_impl :: "'i option"

section \<open>The WAV sink\<close>

record wav_sink =
  sk_path :: string
  sk_fmt :: audio_format
  sk_data :: string
  sk_total_bytes :: u32

definition wav_output_path :: "environment \<Rightarrow> string" where
  "wav_output_path env = (case env ''CELLAR_WAV_OUT'' of Some (c # p) \<Rightarrow> c # p | _ \<Rightarrow> ''cellar-out.wav'')"

text \<open>The 44 bytes of the header, with the two sizes.\<close>

definition wav_header :: "audio_format \<Rightarrow> u32 \<Rightarrow> u32 \<Rightarrow> string" where
  "wav_header fmt riff_size data_size =
     ''RIFF'' @ wr_u32 riff_size @ ''WAVEfmt '' @ wr_u32 16 @
     wr_u16 (if af_format_tag fmt \<noteq> 0 then af_format_tag fmt else 1) @ wr_u16 (af_channels fmt) @
     wr_u32 (af_sample_rate fmt) @ wr_u32 (af_avg_bytes_per_sec fmt) @ wr_u16 (af_block_align fmt) @
     wr_u16 (af_bits_per_sample fmt) @ ''data'' @ wr_u32 data_size"

definition wav_open :: "environment \<Rightarrow> bool \<Rightarrow> audio_format \<Rightarrow> fs \<Rightarrow> fs \<times> wav_sink option \<times> cellar_status" where
  "wav_open env alloc fmt f =
     (if \<not> alloc then (f, None, CELLAR_ERR_OUT_OF_MEMORY)
      else (case fs_write f (wav_output_path env) [] of
              None \<Rightarrow> (f, None, CELLAR_ERR_INVALID_ARGUMENT)
            | Some f' \<Rightarrow> (f', Some \<lparr>sk_path = wav_output_path env, sk_fmt = fmt, sk_data = wav_header fmt 0 0,
                                  sk_total_bytes = 0\<rparr>, CELLAR_OK)))"

definition wav_write :: "wav_sink option \<Rightarrow> string \<Rightarrow> u32 \<Rightarrow> (wav_sink option \<times> cellar_status) cres" where
  "wav_write i data bytes =
     (case i of None \<Rightarrow> Ok (i, CELLAR_ERR_INVALID_ARGUMENT)
      | Some s \<Rightarrow>
          if bytes = 0 then Ok (i, CELLAR_OK)
          else if length data < unat bytes then Fault
          else Ok (Some (s\<lparr>sk_data := sk_data s @ take (unat bytes) data, sk_total_bytes := sk_total_bytes s + bytes\<rparr>),
                   CELLAR_OK))"

definition wav_reset :: "wav_sink option \<Rightarrow> wav_sink option \<times> cellar_status" where
  "wav_reset i = (i, CELLAR_OK)"

definition wav_position_ms :: "wav_sink option \<Rightarrow> u64" where
  "wav_position_ms i =
     (case i of None \<Rightarrow> 0
      | Some s \<Rightarrow> if af_avg_bytes_per_sec (sk_fmt s) = 0 then 0
                 else ucast (sk_total_bytes s) * 1000 div ucast (af_avg_bytes_per_sec (sk_fmt s)))"

definition patch_at :: "nat \<Rightarrow> string \<Rightarrow> string \<Rightarrow> string" where
  "patch_at n w s = take n s @ w @ drop (n + length w) s"

text \<open>The stream covers the start of the file; a file removed in the meantime is not created again.\<close>

definition flush_stream :: "string \<Rightarrow> string \<Rightarrow> fs \<Rightarrow> fs" where
  "flush_stream path data f =
     (case fs_read f path of None \<Rightarrow> f
      | Some old \<Rightarrow> (case fs_write f path (data @ drop (length data) old) of None \<Rightarrow> f | Some f' \<Rightarrow> f'))"

definition wav_close :: "wav_sink option \<Rightarrow> fs \<Rightarrow> fs \<times> wav_sink option \<times> cellar_status" where
  "wav_close i f =
     (case i of None \<Rightarrow> (f, None, CELLAR_OK)
      | Some s \<Rightarrow>
          let data_size = sk_total_bytes s; file_size = data_size + 44;
              patched = patch_at 40 (wr_u32 data_size) (patch_at 4 (wr_u32 (file_size - 8)) (sk_data s))
          in (flush_stream (sk_path s) patched f, None, CELLAR_OK))"

definition wav_backend :: "environment \<Rightarrow> bool \<Rightarrow> wav_sink audio_backend" where
  "wav_backend env alloc =
     \<lparr>ab_name = ''wav-sink'', ab_open = wav_open env alloc, ab_write = wav_write, ab_reset = wav_reset,
      ab_close = wav_close, ab_position_ms = wav_position_ms\<rparr>"

text \<open>The default backend is a pointer to one of two static tables: \<open>wav_backend\<close>, or the table of the
  ALSA backend (theory \<open>Alsa\<close>) in a build that defines \<^verbatim>\<open>CELLAR_AUDIO_ALSA\<close>. The other theories describe
  the build without it, where the pointer is to the WAV sink.\<close>

datatype backend_ref = WavBackend | AlsaBackend

definition cellar_audio_default_backend :: "bool \<Rightarrow> backend_ref" where
  "cellar_audio_default_backend alsa_defined = (if alsa_defined then AlsaBackend else WavBackend)"

section \<open>Dispatch\<close>

definition cellar_audio_open ::
    "'i audio_backend option \<Rightarrow> audio_format option \<Rightarrow> 'i audio_device \<Rightarrow> fs \<Rightarrow> fs \<times> 'i audio_device \<times> cellar_status" where
  "cellar_audio_open backend fmt dev f =
     (case (backend, fmt) of
        (Some b, Some m) \<Rightarrow>
          (case ab_open b m f of (f', i, st) \<Rightarrow> (f', \<lparr>ad_backend = Some b, ad_impl = i\<rparr>, st))
      | _ \<Rightarrow> (f, dev, CELLAR_ERR_INVALID_ARGUMENT))"

text \<open>A write that succeeds leaves a sample in the trace ring and, if the category is on, a line.\<close>

definition CELLAR_TRACE_AUDIO :: u64 where "CELLAR_TRACE_AUDIO = 32"

definition cellar_audio_write ::
    "u64 \<Rightarrow> u64 \<Rightarrow> string \<Rightarrow> u32 \<Rightarrow> 'i audio_device \<Rightarrow> perf_ring \<Rightarrow>
     ('i audio_device \<times> perf_ring \<times> string option \<times> cellar_status) cres" where
  "cellar_audio_write now g_mask data bytes dev ring =
     (case ad_backend dev of None \<Rightarrow> Ok (dev, ring, None, CELLAR_ERR_INVALID_ARGUMENT)
      | Some b \<Rightarrow> cbind (ab_write b (ad_impl dev) data bytes) (\<lambda>(i, st).
          if st = CELLAR_OK
          then Ok (dev\<lparr>ad_impl := i\<rparr>, cellar_perf_trace now ''audio.write'' (ucast bytes) ring,
                   cellar_trace g_mask CELLAR_TRACE_AUDIO (''write '' @ dec (unat bytes) @ '' bytes -> '' @ ab_name b), st)
          else Ok (dev\<lparr>ad_impl := i\<rparr>, ring, None, st)))"

definition cellar_audio_reset :: "'i audio_device \<Rightarrow> 'i audio_device \<times> cellar_status" where
  "cellar_audio_reset dev =
     (case ad_backend dev of None \<Rightarrow> (dev, CELLAR_ERR_INVALID_ARGUMENT)
      | Some b \<Rightarrow> (case ab_reset b (ad_impl dev) of (i, st) \<Rightarrow> (dev\<lparr>ad_impl := i\<rparr>, st)))"

definition cellar_audio_close :: "'i audio_device \<Rightarrow> fs \<Rightarrow> fs \<times> 'i audio_device \<times> cellar_status" where
  "cellar_audio_close dev f =
     (case ad_backend dev of None \<Rightarrow> (f, dev, CELLAR_ERR_INVALID_ARGUMENT)
      | Some b \<Rightarrow> (case ab_close b (ad_impl dev) f of (f', i, st) \<Rightarrow> (f', dev\<lparr>ad_impl := i\<rparr>, st)))"

definition cellar_audio_position_ms :: "'i audio_device \<Rightarrow> u64" where
  "cellar_audio_position_ms dev = (case ad_backend dev of None \<Rightarrow> 0 | Some b \<Rightarrow> ab_position_ms b (ad_impl dev))"

lemma u32_of_nat: "n < 2 ^ 32 \<Longrightarrow> unat (of_nat n :: u32) = n"
  by (simp add: unsigned_of_nat take_bit_nat_eq_self)

section \<open>What a client relies on\<close>

text \<open>A client writes a sequence of buffers, each with its own length; it stops at the first failure.\<close>

fun write_chunks :: "u64 \<Rightarrow> u64 \<Rightarrow> string list \<Rightarrow> 'i audio_device \<Rightarrow> perf_ring \<Rightarrow> ('i audio_device \<times> perf_ring \<times> cellar_status) cres" where
  "write_chunks now g_mask [] dev ring = Ok (dev, ring, CELLAR_OK)"
| "write_chunks now g_mask (d # ds) dev ring =
     cbind (cellar_audio_write now g_mask d (of_nat (length d)) dev ring) (\<lambda>(dev', ring', _, st).
       if st = CELLAR_OK then write_chunks now g_mask ds dev' ring' else Ok (dev', ring', st))"

text \<open>The contract of a backend for one format: opening starts an empty stream, and a buffer of whole
  units of which all bytes are there is appended. \<open>payload\<close> is what was written so far, \<open>inv\<close> the
  invariant of the backend's state, \<open>unit\<close> the bytes that the backend does not split.\<close>

locale audio_sink =
  fixes b :: "'i audio_backend" and fmt :: audio_format and payload :: "'i \<Rightarrow> string" and inv :: "'i \<Rightarrow> bool"
    and unit :: nat
  assumes open_payload: "ab_open b fmt f = (f', i, CELLAR_OK) \<Longrightarrow> \<exists>s. i = Some s \<and> inv s \<and> payload s = []"
    and write_payload: "inv s \<Longrightarrow> unat n \<le> length data \<Longrightarrow> unit dvd unat n \<Longrightarrow>
      \<exists>s'. ab_write b (Some s) data n = Ok (Some s', CELLAR_OK) \<and> inv s' \<and> payload s' = payload s @ take (unat n) data"
begin

lemma write_chunks_payload:
  assumes "\<forall>d\<in>set ds. length d < 2 ^ 32 \<and> unit dvd length d" "ad_backend dev = Some b" "ad_impl dev = Some s" "inv s"
  shows "\<exists>s' ring'. write_chunks now g_mask ds dev ring = Ok (dev\<lparr>ad_impl := Some s'\<rparr>, ring', CELLAR_OK) \<and>
    inv s' \<and> payload s' = payload s @ concat ds"
  using assms
proof (induction ds arbitrary: dev s ring)
  case (Cons d ds)
  have n: "unat (of_nat (length d) :: u32) = length d" "unit dvd length d" using Cons.prems(1) by (simp_all add: u32_of_nat)
  then obtain s1 where s1: "ab_write b (Some s) d (of_nat (length d)) = Ok (Some s1, CELLAR_OK)" "inv s1" "payload s1 = payload s @ d"
    using write_payload [of s "of_nat (length d)" d] Cons.prems(4) by auto
  have "\<exists>ring1 t. cellar_audio_write now g_mask d (of_nat (length d)) dev ring = Ok (dev\<lparr>ad_impl := Some s1\<rparr>, ring1, t, CELLAR_OK)"
    using Cons.prems(2,3) s1(1) by (simp add: cellar_audio_write_def)
  then obtain ring1 t where w: "cellar_audio_write now g_mask d (of_nat (length d)) dev ring = Ok (dev\<lparr>ad_impl := Some s1\<rparr>, ring1, t, CELLAR_OK)"
    by blast
  then show ?case
    using Cons.prems Cons.IH [of "dev\<lparr>ad_impl := Some s1\<rparr>" s1 ring1] s1(2,3) by simp
qed (auto intro!: exI)

lemma open_write:
  assumes "cellar_audio_open (Some b) (Some fmt) dev0 f = (f1, dev, CELLAR_OK)" "\<forall>d\<in>set ds. length d < 2 ^ 32 \<and> unit dvd length d"
  shows "\<exists>s ring'. write_chunks now g_mask ds dev ring = Ok (\<lparr>ad_backend = Some b, ad_impl = Some s\<rparr>, ring', CELLAR_OK) \<and>
    inv s \<and> payload s = concat ds"
proof -
  obtain i where i: "ab_open b fmt f = (f1, i, CELLAR_OK)" "dev = \<lparr>ad_backend = Some b, ad_impl = i\<rparr>"
    using assms(1) by (auto simp: cellar_audio_open_def split: prod.splits)
  obtain s where "i = Some s" "inv s" "payload s = []" using open_payload [OF i(1)] by blast
  then show ?thesis using write_chunks_payload [OF assms(2), of dev s now g_mask ring] i(2) by auto
qed

end

section \<open>Facts: the WAV file\<close>

lemma length_wav_header: "length (wav_header fmt x y) = 44"
  by (simp add: wav_header_def)

definition wav_payload :: "wav_sink \<Rightarrow> string" where
  "wav_payload s = drop 44 (sk_data s)"

definition wav_inv :: "environment \<Rightarrow> audio_format \<Rightarrow> wav_sink \<Rightarrow> bool" where
  "wav_inv env fmt s \<longleftrightarrow> sk_path s = wav_output_path env \<and> sk_fmt s = fmt \<and>
     sk_data s = wav_header fmt 0 0 @ wav_payload s \<and> sk_total_bytes s = of_nat (length (wav_payload s))"

lemma wav_write_payload:
  assumes "wav_inv env fmt s" "unat n \<le> length data"
  shows "\<exists>s'. wav_write (Some s) data n = Ok (Some s', CELLAR_OK) \<and> wav_inv env fmt s' \<and>
    wav_payload s' = wav_payload s @ take (unat n) data"
proof (cases "n = 0")
  case True
  then show ?thesis using assms by (simp add: wav_write_def)
next
  case False
  define s' where "s' = s\<lparr>sk_data := sk_data s @ take (unat n) data, sk_total_bytes := sk_total_bytes s + n\<rparr>"
  have d: "sk_data s = wav_header fmt 0 0 @ wav_payload s" using assms(1) by (simp add: wav_inv_def)
  have p: "wav_payload s' = wav_payload s @ take (unat n) data"
    unfolding wav_payload_def [of s'] by (simp add: s'_def d length_wav_header)
  moreover have "of_nat (length (take (unat n) data)) = n" using assms(2) by simp
  ultimately have "wav_inv env fmt s'"
    using assms(1) d unfolding wav_inv_def by (simp add: s'_def)
  then show ?thesis using p False assms(2) by (simp add: wav_write_def s'_def)
qed

lemma wav_open_payload:
  "wav_open env alloc fmt f = (f', i, CELLAR_OK) \<Longrightarrow>
     \<exists>s. i = Some s \<and> wav_inv env fmt s \<and> wav_payload s = [] \<and> fs_write f (wav_output_path env) [] = Some f'"
  by (auto simp: wav_open_def wav_inv_def wav_payload_def length_wav_header split: if_splits option.splits)

interpretation wav: audio_sink "wav_backend env alloc" fmt wav_payload "wav_inv env fmt" 1 for env alloc fmt
  by unfold_locales (auto simp: wav_backend_def wav_write_payload dest: wav_open_payload)

lemma patch_at_append: "length a = n \<Longrightarrow> length w = length old \<Longrightarrow> patch_at n w (a @ old @ r) = a @ w @ r"
  by (simp add: patch_at_def)

lemma patch_header:
  "patch_at 40 (wr_u32 w) (patch_at 4 (wr_u32 v) (wav_header fmt 0 0 @ d)) = wav_header fmt v w @ d"
proof -
  define m where "m = ''WAVEfmt '' @ wr_u32 16 @
     wr_u16 (if af_format_tag fmt \<noteq> 0 then af_format_tag fmt else 1) @ wr_u16 (af_channels fmt) @
     wr_u32 (af_sample_rate fmt) @ wr_u32 (af_avg_bytes_per_sec fmt) @ wr_u16 (af_block_align fmt) @
     wr_u16 (af_bits_per_sample fmt) @ ''data''"
  have h: "wav_header fmt x y = ''RIFF'' @ wr_u32 x @ m @ wr_u32 y" for x y
    by (simp add: wav_header_def m_def)
  have l: "length m = 32" by (simp add: m_def)
  have "patch_at 4 (wr_u32 v) (''RIFF'' @ wr_u32 0 @ (m @ wr_u32 0 @ d)) = ''RIFF'' @ wr_u32 v @ (m @ wr_u32 0 @ d)"
    by (rule patch_at_append) simp_all
  moreover have "patch_at 40 (wr_u32 w) ((''RIFF'' @ wr_u32 v @ m) @ wr_u32 0 @ d) = (''RIFF'' @ wr_u32 v @ m) @ wr_u32 w @ d"
    by (rule patch_at_append) (simp_all add: l)
  ultimately show ?thesis by (simp add: h)
qed

text \<open>The file that closing leaves: both sizes are computed in 32 bits.\<close>

definition wav_image :: "audio_format \<Rightarrow> string \<Rightarrow> string" where
  "wav_image fmt d = wav_header fmt (36 + of_nat (length d)) (of_nat (length d)) @ d"

text \<open>What a WAV file of the data should be: its header names the size of the data and the size of the
  rest of the file, as numbers.\<close>

definition wav_well_formed :: "audio_format \<Rightarrow> string \<Rightarrow> string \<Rightarrow> bool" where
  "wav_well_formed fmt d file \<longleftrightarrow>
     (\<exists>riff dat. file = wav_header fmt riff dat @ d \<and> unat riff + 8 = length file \<and> unat dat = length d)"

lemma wav_image_well_formed_iff: "wav_well_formed fmt d (wav_image fmt d) \<longleftrightarrow> length d + 36 < 2 ^ 32"
proof
  assume "wav_well_formed fmt d (wav_image fmt d)"
  then obtain riff :: u32 where "unat riff + 8 = length (wav_image fmt d)" by (auto simp: wav_well_formed_def)
  then have "unat riff = length d + 36" by (simp add: wav_image_def length_wav_header)
  then show "length d + 36 < 2 ^ 32" using unsigned_less [of riff, where ?'a = nat] by simp
next
  assume "length d + 36 < 2 ^ 32"
  then have "unat (of_nat (length d + 36) :: u32) = length d + 36" "unat (of_nat (length d) :: u32) = length d"
    by (intro u32_of_nat; simp)+
  then show "wav_well_formed fmt d (wav_image fmt d)"
    by (intro exI conjI wav_well_formed_def [THEN iffD2])
      (simp_all add: wav_image_def length_wav_header add.commute)
qed

lemma wav_file_image:
  assumes "cellar_audio_open (Some (wav_backend env alloc)) (Some fmt) dev0 f = (f1, dev, CELLAR_OK)"
    and "\<forall>d\<in>set ds. length d < 2 ^ 32"
  shows "\<exists>dev1 ring' f2 dev2. write_chunks now g_mask ds dev ring = Ok (dev1, ring', CELLAR_OK) \<and>
    cellar_audio_close dev1 f1 = (f2, dev2, CELLAR_OK) \<and> ad_impl dev2 = None \<and>
    fs_read f2 (wav_output_path env) = Some (wav_image fmt (concat ds)) \<and>
    (\<forall>k. k \<noteq> resolve f (wav_output_path env) \<longrightarrow> node_at f2 k = node_at f k)"
proof -
  note a = assms(1)
  have u: "\<forall>d\<in>set ds. length d < 2 ^ 32 \<and> 1 dvd length d" using assms(2) by simp
  obtain s ring' where w: "write_chunks now g_mask ds dev ring =
      Ok (\<lparr>ad_backend = Some (wav_backend env alloc), ad_impl = Some s\<rparr>, ring', CELLAR_OK)"
    and s: "wav_inv env fmt s" "wav_payload s = concat ds"
    using wav.open_write [OF a u] by blast
  have "\<exists>i. wav_open env alloc fmt f = (f1, i, CELLAR_OK)"
    using a by (auto simp: cellar_audio_open_def wav_backend_def split: prod.splits)
  then have o1: "fs_write f (wav_output_path env) [] = Some f1" using wav_open_payload by blast
  then have r: "fs_read f1 (wav_output_path env) = Some []" by (rule disk.rd_wr_same)
  obtain f2 where f2: "fs_write f1 (wav_output_path env) (wav_image fmt (concat ds)) = Some f2"
    using fs_write_again [OF o1] by blast
  have frame: "node_at f2 k = node_at f k" if "k \<noteq> resolve f (wav_output_path env)" for k
    using that fs_write_some(5) [OF o1, of k] fs_write_some(5) [OF f2, of k]
      resolve_cwd [OF fs_write_some(1) [OF o1]] by simp
  have "wav_close (Some s) f1 = (flush_stream (wav_output_path env) (wav_image fmt (concat ds)) f1, None, CELLAR_OK)"
    using s by (simp add: wav_close_def wav_inv_def patch_header wav_image_def Let_def algebra_simps)
  then have "wav_close (Some s) f1 = (f2, None, CELLAR_OK)" using r f2 by (simp add: flush_stream_def)
  then have "cellar_audio_close \<lparr>ad_backend = Some (wav_backend env alloc), ad_impl = Some s\<rparr> f1 =
      (f2, \<lparr>ad_backend = Some (wav_backend env alloc), ad_impl = None\<rparr>, CELLAR_OK)"
    by (simp add: cellar_audio_close_def wav_backend_def)
  then show ?thesis using w disk.rd_wr_same [OF f2] frame by auto
qed

section \<open>Properties\<close>

text \<open>C31. Opening the WAV sink, the default backend of a build without ALSA, writing any buffers of less than
  4 GiB in total (with the rest of the file) and closing leaves one well-formed WAV file at the output
  path, the header of the format with both sizes as they are, followed by the buffers in order, and no
  other change to the file system; the device is released. From 4 GiB on the 32-bit sizes wrap and
  the file is malformed, \<open>wav_image_well_formed_iff\<close>.\<close>

theorem wav_file_correct:
  assumes "cellar_audio_open (Some (wav_backend env alloc)) (Some fmt) dev0 f = (f1, dev, CELLAR_OK)"
    and "length (concat ds) + 36 < 2 ^ 32"
  shows "\<exists>dev1 ring' f2 dev2 file. write_chunks now g_mask ds dev ring = Ok (dev1, ring', CELLAR_OK) \<and>
    cellar_audio_close dev1 f1 = (f2, dev2, CELLAR_OK) \<and> ad_impl dev2 = None \<and>
    fs_read f2 (wav_output_path env) = Some file \<and> wav_well_formed fmt (concat ds) file \<and>
    (\<forall>k. k \<noteq> resolve f (wav_output_path env) \<longrightarrow> node_at f2 k = node_at f k)"
proof -
  have "length d \<le> length (concat ds)" if "d \<in> set ds" for d
    using that by (induction ds) auto
  then have "\<forall>d\<in>set ds. length d < 2 ^ 32" using assms(2) by fastforce
  from wav_file_image [OF assms(1) this, of now g_mask ring] show ?thesis
    using wav_image_well_formed_iff [of fmt "concat ds"] assms(2) by blast
qed

definition demo_format :: audio_format where
  "demo_format = \<lparr>af_format_tag = 1, af_channels = 2, af_sample_rate = 44100, af_avg_bytes_per_sec = 176400,
     af_block_align = 4, af_bits_per_sample = 16\<rparr>"

theorem wav_file_correct_witness:
  "\<exists>f1 dev dev1 ring' f2 dev2 file.
     cellar_audio_open (Some (wav_backend (\<lambda>_. Some ''/o.wav'') True)) (Some demo_format)
       \<lparr>ad_backend = None, ad_impl = None\<rparr> empty_fs = (f1, dev, CELLAR_OK) \<and>
     write_chunks 0 0 [''ab'', ''c''] dev perf_ring_init = Ok (dev1, ring', CELLAR_OK) \<and>
     cellar_audio_close dev1 f1 = (f2, dev2, CELLAR_OK) \<and> fs_read f2 ''/o.wav'' = Some file \<and>
     wav_well_formed demo_format ''abc'' file"
proof -
  let ?d0 = "\<lparr>ad_backend = None, ad_impl = None\<rparr> :: wav_sink audio_device"
  have p: "wav_output_path (\<lambda>_. Some ''/o.wav'') = ''/o.wav''" by (simp add: wav_output_path_def)
  have "\<not> Option.is_none (fs_write empty_fs ''/o.wav'' [])" by code_simp
  then obtain f1 where "fs_write empty_fs ''/o.wav'' [] = Some f1" by (auto simp: Option.is_none_def)
  then have "\<exists>f1 dev. cellar_audio_open (Some (wav_backend (\<lambda>_. Some ''/o.wav'') True)) (Some demo_format)
      ?d0 empty_fs = (f1, dev, CELLAR_OK)"
    by (simp add: cellar_audio_open_def wav_backend_def wav_open_def p)
  then obtain f1 dev where o1: "cellar_audio_open (Some (wav_backend (\<lambda>_. Some ''/o.wav'') True)) (Some demo_format)
      ?d0 empty_fs = (f1, dev, CELLAR_OK)" by blast
  have c: "concat [''ab'', ''c''] = ''abc''" "length (concat [''ab'', ''c'']) + 36 < 2 ^ 32" by simp_all
  show ?thesis
    using wav_file_correct [OF o1 c(2), of 0 0 perf_ring_init] o1 unfolding c(1) p by blast
qed

end
