(* ===== verification/Diag.thy ===== *)
theory Diag
  imports Registry Text
begin

text \<open>
  Crash diagnostics and the debugger snapshot, \<^verbatim>\<open>src/crash/crash.c\<close> and
  \<^verbatim>\<open>src/debug/debug.c\<close>: the per-thread record of the Windows API call in flight, the report that a
  fatal signal fills in, and the counters that the debugger collects. The thread and process numbers
  are arguments; raising the signal again and installing the handler are system calls.
\<close>

section \<open>The call in flight\<close>

record api_context =
  t_subsystem :: string
  t_api :: string

definition cellar_crash_set_current_api :: "string option \<Rightarrow> string option \<Rightarrow> api_context \<Rightarrow> api_context" where
  "cellar_crash_set_current_api subsystem api c =
     (let c1 = (case subsystem of None \<Rightarrow> c | Some s \<Rightarrow> c\<lparr>t_subsystem := snprintf_s 64 s\<rparr>)
      in case api of None \<Rightarrow> c1 | Some a \<Rightarrow> c1\<lparr>t_api := snprintf_s 256 a\<rparr>)"

section \<open>Crash reports\<close>

record crash_info =
  ci_signal :: u32
  ci_fault_addr :: u64
  ci_thread_id :: u64
  ci_module :: string
  ci_api_call :: string
  ci_linux_syscall :: string
  ci_loaded_dlls :: string
  ci_subsystem :: string

text \<open>\<^verbatim>\<open>snprintf\<close> returns the length before truncation, so \<open>pos\<close> counts what would have been
  written; the loop stops once that reaches the buffer.\<close>

fun list_dlls :: "nat \<Rightarrow> nat \<Rightarrow> string \<Rightarrow> string list \<Rightarrow> string" where
  "list_dlls cap pos out [] = out"
| "list_dlls cap pos out (m # ms) =
     (let s = (if pos \<noteq> 0 then '','' else []) @ m;
          out' = take pos out @ snprintf_s (cap - pos) s; pos' = pos + length s
      in if pos' \<ge> cap then out' else list_dlls cap pos' out' ms)"

definition cellar_crash_fill :: "registry \<Rightarrow> u64 \<Rightarrow> api_context \<Rightarrow> u32 \<Rightarrow> u64 \<Rightarrow> crash_info" where
  "cellar_crash_fill reg tid c signal fault_addr =
     \<lparr>ci_signal = signal, ci_fault_addr = fault_addr, ci_thread_id = tid,
      ci_module = snprintf_s 128 (if t_api c \<noteq> [] then ''(see API call)'' else ''(unknown)''),
      ci_api_call = snprintf_s 256 (t_api c), ci_linux_syscall = snprintf_s 64 ''(not captured)'',
      ci_loaded_dlls = list_dlls 1024 0 [] (map mod_name (g_modules reg)),
      ci_subsystem = snprintf_s 64 (t_subsystem c)\<rparr>"

text \<open>The signal numbers of Linux.\<close>

definition signal_name :: "u32 \<Rightarrow> string" where
  "signal_name s =
     (if s = 11 then ''SIGSEGV (invalid memory access)'' else if s = 6 then ''SIGABRT (abort)''
      else if s = 7 then ''SIGBUS (bus error)'' else if s = 8 then ''SIGFPE (arithmetic error)'' else ''unknown'')"

definition tee :: string where
  "tee = [CHR 0xE2, CHR 0x94, CHR 0x9C, CHR 0xE2, CHR 0x94, CHR 0x80, CHR 0xE2, CHR 0x94, CHR 0x80] @ '' ''"

definition corner :: string where
  "corner = [CHR 0xE2, CHR 0x94, CHR 0x94, CHR 0xE2, CHR 0x94, CHR 0x80, CHR 0xE2, CHR 0x94, CHR 0x80] @ '' ''"

definition or_text :: "string \<Rightarrow> string \<Rightarrow> string" where
  "or_text s d = (if s \<noteq> [] then s else d)"

definition cellar_crash_format :: "crash_info \<Rightarrow> nat \<Rightarrow> string" where
  "cellar_crash_format ci cap = snprintf_s cap (unlines
     [''EXCEPTION'', tee @ ''signal:    '' @ signal_name (ci_signal ci),
      tee @ ''module:    '' @ or_text (ci_module ci) ''(unknown)'',
      tee @ ''thread:    '' @ dec (unat (ci_thread_id ci)),
      tee @ ''Windows API call: '' @ or_text (ci_api_call ci) ''(none)'',
      tee @ ''Linux syscall:    '' @ ci_linux_syscall ci,
      tee @ ''subsystem: '' @ or_text (ci_subsystem ci) ''(none)'',
      corner @ ''loaded DLLs: '' @ or_text (ci_loaded_dlls ci) ''(none)''])"

text \<open>The handler: the last report and the text on the error stream, before the signal is raised again.\<close>

definition on_fatal_signal :: "registry \<Rightarrow> u64 \<Rightarrow> api_context \<Rightarrow> u32 \<Rightarrow> u64 \<Rightarrow> crash_info \<times> string" where
  "on_fatal_signal reg tid c sig addr =
     (let ci = cellar_crash_fill reg tid c sig addr in (ci, cellar_crash_format ci 2048))"

definition handled_signals :: "u32 list" where
  "handled_signals = [11, 6, 7, 8]"

text \<open>\<open>sigaction\<close> says which installations succeed; the first failure ends the registration.\<close>

fun install_handlers :: "(u32 \<Rightarrow> bool) \<Rightarrow> u32 list \<Rightarrow> u32 list \<times> cellar_status" where
  "install_handlers sigaction [] = ([], CELLAR_OK)"
| "install_handlers sigaction (s # ss) =
     (if sigaction s then (case install_handlers sigaction ss of (r, st) \<Rightarrow> (s # r, st))
      else ([], CELLAR_ERR_NOT_IMPLEMENTED))"

definition cellar_crash_register_handler :: "(u32 \<Rightarrow> bool) \<Rightarrow> u32 list \<times> cellar_status" where
  "cellar_crash_register_handler sigaction = install_handlers sigaction handled_signals"

section \<open>The debugger snapshot\<close>

record debug_thread =
  dt_tid :: u32
  dt_state :: string

record debug_snapshot =
  ds_process :: string
  ds_pid :: u32
  ds_module_count :: u32
  ds_handle_count :: u32
  ds_exception :: string
  ds_module_at :: string
  ds_offset :: u32
  ds_last_api :: string
  ds_subsystem :: string
  ds_threads :: "debug_thread list"

definition opt_text :: "string \<Rightarrow> string option \<Rightarrow> string" where
  "opt_text d s = (case s of None \<Rightarrow> d | Some t \<Rightarrow> t)"

text \<open>The thread list holds the first \<^verbatim>\<open>thread_count\<close> slots of the array.\<close>

definition cellar_debug_note_thread :: "u32 \<Rightarrow> string option \<Rightarrow> debug_snapshot \<Rightarrow> debug_snapshot" where
  "cellar_debug_note_thread tid state s =
     (if length (ds_threads s) \<ge> 32 then s
      else s\<lparr>ds_threads := ds_threads s @ [\<lparr>dt_tid = tid, dt_state = snprintf_s 16 (opt_text ''running'' state)\<rparr>]\<rparr>)"

definition cellar_debug_begin :: "u32 \<Rightarrow> u32 \<Rightarrow> string option \<Rightarrow> debug_snapshot" where
  "cellar_debug_begin pid tid process =
     cellar_debug_note_thread tid (Some ''running'')
       \<lparr>ds_process = snprintf_s 128 (opt_text ''unknown.exe'' process), ds_pid = pid, ds_module_count = 0,
        ds_handle_count = 0, ds_exception = [], ds_module_at = [], ds_offset = 0, ds_last_api = [],
        ds_subsystem = [], ds_threads = []\<rparr>"

definition cellar_debug_note_module :: "debug_snapshot \<Rightarrow> debug_snapshot" where
  "cellar_debug_note_module s = s\<lparr>ds_module_count := ds_module_count s + 1\<rparr>"

definition cellar_debug_note_handle :: "debug_snapshot \<Rightarrow> debug_snapshot" where
  "cellar_debug_note_handle s = s\<lparr>ds_handle_count := ds_handle_count s + 1\<rparr>"

definition cellar_debug_note_api :: "string option \<Rightarrow> string option \<Rightarrow> debug_snapshot \<Rightarrow> debug_snapshot" where
  "cellar_debug_note_api api subsystem s =
     s\<lparr>ds_last_api := snprintf_s 128 (opt_text [] api), ds_subsystem := snprintf_s 64 (opt_text [] subsystem)\<rparr>"

definition cellar_debug_exception :: "string option \<Rightarrow> string option \<Rightarrow> u32 \<Rightarrow> debug_snapshot \<Rightarrow> debug_snapshot" where
  "cellar_debug_exception status module_name off s =
     s\<lparr>ds_exception := snprintf_s 64 (opt_text ''STATUS_ACCESS_VIOLATION'' status),
       ds_module_at := snprintf_s 128 (opt_text [] module_name), ds_offset := off\<rparr>"

definition cellar_debug_report :: "debug_snapshot \<Rightarrow> string" where
  "cellar_debug_report s = unlines (
     [''CELLAR DEBUGGER'', [], ''Process: '' @ ds_process s, ''PID: '' @ dec (unat (ds_pid s)), [],
      ''Threads: '' @ dec (length (ds_threads s)), ''Modules: '' @ dec (unat (ds_module_count s)),
      ''Handles: '' @ dec (unat (ds_handle_count s)), []] @
     (if ds_exception s \<noteq> []
      then [''Exception:'', ds_exception s, [], ''Module:'',
            ds_module_at s @ '' + 0x'' @ hex_pad_upper 1 (unat (ds_offset s)), []]
      else []) @
     [''Last Windows API:'', or_text (ds_last_api s) ''(none)'', [], ''Likely subsystem:'',
      or_text (ds_subsystem s) ''(unknown)''])"

section \<open>Facts\<close>

text \<open>The list of modules is the comma-separated list of names, cut at the buffer.\<close>

fun comma_list :: "string list \<Rightarrow> string" where
  "comma_list [] = []"
| "comma_list [m] = m"
| "comma_list (m # ms) = m @ '','' @ comma_list ms"

lemma list_dlls_rest:
  "length out = pos \<Longrightarrow> 0 < pos \<Longrightarrow> pos < cap \<Longrightarrow>
     list_dlls cap pos out ms = take (cap - 1) (out @ concat (map (\<lambda>m. '','' @ m) ms))"
proof (induction ms arbitrary: pos out)
  case (Cons m ms)
  show ?case
  proof (cases "pos + length m + 1 \<ge> cap")
    case True
    then show ?thesis using Cons.prems by (simp add: snprintf_s_def take_Cons')
  next
    case False
    then have "snprintf_s (cap - pos) ('','' @ m) = '','' @ m" by (intro snprintf_s_id) simp
    then show ?thesis using Cons.prems Cons.IH [of "out @ '','' @ m" "pos + length m + 1"] False by simp
  qed
qed simp

lemma comma_list_concat: "comma_list (m # ms) = m @ concat (map (\<lambda>m. '','' @ m) ms)"
  by (induction ms arbitrary: m) auto

theorem list_dlls_correct:
  assumes "[] \<notin> set ms" "0 < cap"
  shows "list_dlls cap 0 [] ms = take (cap - 1) (comma_list ms)"
proof (cases ms)
  case (Cons m ms')
  then have m: "m \<noteq> []" using assms(1) by auto
  show ?thesis
  proof (cases "length m \<ge> cap")
    case True
    then show ?thesis using Cons assms(2) by (simp add: snprintf_s_def comma_list_concat)
  next
    case False
    then have "snprintf_s cap m = m" by (intro snprintf_s_id) simp
    then show ?thesis using False m Cons by (simp add: list_dlls_rest comma_list_concat)
  qed
qed simp

end
