(* ===== verification/Winmm.thy ===== *)
theory Winmm
  imports Audio Diag
begin

text \<open>
  The audio functions of WINMM.dll, \<^verbatim>\<open>src/win32/mod_winmm.c\<close>: eight device slots, handles that are
  slot numbers from 1, and the calls on them. \<^verbatim>\<open>UINT\<close> is an unsigned short there and
  \<^verbatim>\<open>DWORD\<close> an unsigned long, 64 bits wide on the host. The build is the one without ALSA, whose default
  backend is the WAV sink. The clock and the allocator are arguments; log lines are not modelled.
\<close>

section \<open>Types\<close>

type_synonym dword = u64

definition MMSYSERR_NOERROR :: u16 where "MMSYSERR_NOERROR = 0"
definition MMSYSERR_ERROR :: u16 where "MMSYSERR_ERROR = 1"
definition MMSYSERR_BADDEVICEID :: u16 where "MMSYSERR_BADDEVICEID = 2"
definition MMSYSERR_ALLOCATED :: u16 where "MMSYSERR_ALLOCATED = 4"
definition MMSYSERR_INVALHANDLE :: u16 where "MMSYSERR_INVALHANDLE = 5"
definition MMSYSERR_NODRIVER :: u16 where "MMSYSERR_NODRIVER = 6"
definition MMSYSERR_NOTSUPPORTED :: u16 where "MMSYSERR_NOTSUPPORTED = 8"

definition WAVE_FORMAT_PCM :: u16 where "WAVE_FORMAT_PCM = 1"
definition WAVE_OPEN_QUERY :: dword where "WAVE_OPEN_QUERY = 1"
definition WHDR_DONE :: dword where "WHDR_DONE = 1"
definition WHDR_PREPARED :: u32 where "WHDR_PREPARED = 2"

record waveformatex =
  wFormatTag :: u16
  nChannels :: u16
  nSamplesPerSec :: dword
  nAvgBytesPerSec :: dword
  nBlockAlign :: u16
  wBitsPerSample :: u16
  cbSize :: u16

text \<open>The buffer descriptor; \<open>lpData\<close> is the memory the pointer leads to. The link to the next
  descriptor and the reserved word are not used.\<close>

record wavehdr =
  lpData :: "string option"
  dwBufferLength :: dword
  dwBytesRecorded :: dword
  dwUser :: dword
  dwFlags :: dword
  dwLoops :: dword

record waveoutcaps =
  wMid :: u16
  wPid :: u16
  vDriverVersion :: u32
  szPname :: string
  dwFormats :: dword
  wChannels :: u16
  wReserved1 :: u16
  dwSupport :: dword

section \<open>The device table\<close>

definition CELLAR_MAX_AUDIO_DEVICES :: nat where "CELLAR_MAX_AUDIO_DEVICES = 8"

record mm_device =
  md_audio :: "wav_sink audio_device"
  md_fmt :: audio_format
  md_open :: bool

record mm_state =
  g_devices :: "mm_device list"
  mm_fs :: fs
  mm_ring :: perf_ring
  mm_counters :: perf_counters
  mm_api :: api_context

text \<open>What the calls read from outside: the environment, whether the allocator grants a sink, the
  clock in milliseconds and the trace mask.\<close>

record mm_env =
  me_env :: environment
  me_alloc :: bool
  me_now :: u64
  me_mask :: u64

definition no_device :: "wav_sink audio_device" where
  "no_device = \<lparr>ad_backend = None, ad_impl = None\<rparr>"

definition no_format :: audio_format where
  "no_format = \<lparr>af_format_tag = 0, af_channels = 0, af_sample_rate = 0, af_avg_bytes_per_sec = 0, af_block_align = 0,
     af_bits_per_sample = 0\<rparr>"

definition mm_start :: "fs \<Rightarrow> mm_state" where
  "mm_start f = \<lparr>g_devices = replicate CELLAR_MAX_AUDIO_DEVICES \<lparr>md_audio = no_device, md_fmt = no_format, md_open = False\<rparr>,
     mm_fs = f, mm_ring = perf_ring_init, mm_counters = perf_counters_zero, mm_api = \<lparr>t_subsystem = [], t_api = []\<rparr>\<rparr>"

text \<open>The slot a handle leads to.\<close>

definition dev_from_handle :: "u64 \<Rightarrow> nat option" where
  "dev_from_handle h =
     (if unat h = 0 \<or> unat h > CELLAR_MAX_AUDIO_DEVICES then None else Some (unat h - 1))"

definition dev_to_handle :: "nat \<Rightarrow> u64" where
  "dev_to_handle i = of_nat (i + 1)"

definition open_slot :: "u64 \<Rightarrow> mm_state \<Rightarrow> (nat \<times> mm_device) option" where
  "open_slot h s =
     (case dev_from_handle h of None \<Rightarrow> None
      | Some i \<Rightarrow> if md_open (g_devices s ! i) then Some (i, g_devices s ! i) else None)"

section \<open>The calls\<close>

definition cellar_waveOutGetNumDevs :: u16 where
  "cellar_waveOutGetNumDevs = 1"

text \<open>The structure takes 64 bytes on the host.\<close>

definition cellar_waveOutGetDevCaps :: "u16 \<Rightarrow> bool \<Rightarrow> u16 \<Rightarrow> u16 \<times> waveoutcaps option" where
  "cellar_waveOutGetDevCaps uDeviceID caps cbCaps =
     (if uDeviceID \<noteq> 0 \<or> \<not> caps \<or> cbCaps < 64 then (MMSYSERR_BADDEVICEID, None)
      else (MMSYSERR_NOERROR, Some \<lparr>wMid = 0xFFFE, wPid = 0, vDriverVersion = 0, szPname = snprintf_s 32 ''Cellar Audio (default)'',
              dwFormats = 0, wChannels = 2, wReserved1 = 0, dwSupport = 0\<rparr>))"

fun free_slot :: "nat \<Rightarrow> mm_device list \<Rightarrow> nat option" where
  "free_slot i [] = None"
| "free_slot i (d # ds) = (if \<not> md_open d then Some i else free_slot (i + 1) ds)"

definition format_of :: "waveformatex \<Rightarrow> audio_format" where
  "format_of w = \<lparr>af_format_tag = wFormatTag w, af_channels = nChannels w, af_sample_rate = ucast (nSamplesPerSec w),
     af_avg_bytes_per_sec = ucast (nAvgBytesPerSec w), af_block_align = nBlockAlign w, af_bits_per_sample = wBitsPerSample w\<rparr>"

text \<open>The format is stored, and the device touched, also where the backend refuses.\<close>

definition cellar_waveOutOpen ::
    "mm_env \<Rightarrow> bool \<Rightarrow> u16 \<Rightarrow> waveformatex option \<Rightarrow> dword \<Rightarrow> mm_state \<Rightarrow> mm_state \<times> u64 option \<times> u16" where
  "cellar_waveOutOpen e phwo uDeviceID pwfx fdwOpen s =
     (if \<not> phwo then (s, None, MMSYSERR_INVALHANDLE)
      else if uDeviceID \<noteq> 0 then (s, None, MMSYSERR_BADDEVICEID)
      else (case pwfx of None \<Rightarrow> (s, None, MMSYSERR_NOTSUPPORTED)
        | Some w \<Rightarrow>
            if wFormatTag w \<noteq> WAVE_FORMAT_PCM then (s, None, MMSYSERR_NOTSUPPORTED)
            else if fdwOpen AND WAVE_OPEN_QUERY \<noteq> 0 then (s, None, MMSYSERR_NOERROR)
            else (case free_slot 0 (g_devices s) of None \<Rightarrow> (s, None, MMSYSERR_ALLOCATED)
              | Some i \<Rightarrow>
                  let d = (g_devices s ! i)\<lparr>md_fmt := format_of w\<rparr>;
                      b = wav_backend (me_env e) (me_alloc e)
                  in (case cellar_audio_open (Some b) (Some (md_fmt d)) (md_audio d) (mm_fs s) of (f', a, st) \<Rightarrow>
                        if st \<noteq> CELLAR_OK
                        then (s\<lparr>g_devices := (g_devices s)[i := d\<lparr>md_audio := a\<rparr>], mm_fs := f'\<rparr>, None, MMSYSERR_NODRIVER)
                        else (s\<lparr>g_devices := (g_devices s)[i := d\<lparr>md_audio := a, md_open := True\<rparr>], mm_fs := f'\<rparr>,
                              Some (dev_to_handle i), MMSYSERR_NOERROR)))))"

definition cellar_waveOutClose :: "u64 \<Rightarrow> mm_state \<Rightarrow> mm_state \<times> u16" where
  "cellar_waveOutClose hwo s =
     (case open_slot hwo s of None \<Rightarrow> (s, MMSYSERR_INVALHANDLE)
      | Some (i, d) \<Rightarrow>
          (s\<lparr>g_devices := (g_devices s)[i := d\<lparr>md_audio := no_device, md_open := False\<rparr>],
             mm_fs := fst (cellar_audio_close (md_audio d) (mm_fs s))\<rparr>, MMSYSERR_NOERROR))"

definition cellar_waveOutPrepareHeader :: "u64 \<Rightarrow> wavehdr option \<Rightarrow> mm_state \<Rightarrow> wavehdr option \<times> u16" where
  "cellar_waveOutPrepareHeader hwo pwh s =
     (if open_slot hwo s = None then (pwh, MMSYSERR_INVALHANDLE)
      else (case pwh of None \<Rightarrow> (None, MMSYSERR_ERROR)
            | Some h \<Rightarrow> (Some (h\<lparr>dwFlags := dwFlags h OR ucast WHDR_PREPARED\<rparr>), MMSYSERR_NOERROR)))"

text \<open>The mask is complemented at 32 bits and widened, so the upper half of the flags is cleared.\<close>

definition cellar_waveOutUnprepareHeader :: "u64 \<Rightarrow> wavehdr option \<Rightarrow> mm_state \<Rightarrow> wavehdr option \<times> u16" where
  "cellar_waveOutUnprepareHeader hwo pwh s =
     (if open_slot hwo s = None then (pwh, MMSYSERR_INVALHANDLE)
      else (map_option (\<lambda>h. h\<lparr>dwFlags := dwFlags h AND ucast (NOT WHDR_PREPARED)\<rparr>) pwh, MMSYSERR_NOERROR))"

text \<open>The length is cut to 32 bits for the backend, but counted whole.\<close>

definition cellar_waveOutWrite ::
    "mm_env \<Rightarrow> u64 \<Rightarrow> wavehdr option \<Rightarrow> mm_state \<Rightarrow> (mm_state \<times> wavehdr option \<times> u16) cres" where
  "cellar_waveOutWrite e hwo pwh s =
     (let s1 = s\<lparr>mm_api := cellar_crash_set_current_api (Some ''audio'') (Some ''winmm!waveOutWrite'') (mm_api s)\<rparr> in
      case open_slot hwo s1 of None \<Rightarrow> Ok (s1, pwh, MMSYSERR_INVALHANDLE)
      | Some (i, d) \<Rightarrow>
          (case pwh of None \<Rightarrow> Ok (s1, pwh, MMSYSERR_ERROR)
           | Some h \<Rightarrow>
               (case lpData h of None \<Rightarrow> Ok (s1, pwh, MMSYSERR_ERROR)
                | Some data \<Rightarrow>
                    if dwBufferLength h = 0 then Ok (s1, pwh, MMSYSERR_ERROR)
                    else cbind (cellar_audio_write (me_now e) (me_mask e) data (ucast (dwBufferLength h)) (md_audio d) (mm_ring s1))
                      (\<lambda>(a, ring, _, st).
                        let s2 = s1\<lparr>g_devices := (g_devices s1)[i := d\<lparr>md_audio := a\<rparr>], mm_ring := ring\<rparr>
                        in if st \<noteq> CELLAR_OK then Ok (s2, pwh, MMSYSERR_ERROR)
                           else Ok (s2\<lparr>mm_counters := cellar_perf_count_audio (dwBufferLength h) (mm_counters s2)\<rparr>,
                                    Some (h\<lparr>dwFlags := dwFlags h OR WHDR_DONE\<rparr>), MMSYSERR_NOERROR)))))"

definition cellar_waveOutReset :: "u64 \<Rightarrow> mm_state \<Rightarrow> mm_state \<times> u16" where
  "cellar_waveOutReset hwo s =
     (case open_slot hwo s of None \<Rightarrow> (s, MMSYSERR_INVALHANDLE)
      | Some (i, d) \<Rightarrow>
          (s\<lparr>g_devices := (g_devices s)[i := d\<lparr>md_audio := fst (cellar_audio_reset (md_audio d))\<rparr>]\<rparr>, MMSYSERR_NOERROR))"

text \<open>The result is the two words stored through the pointer; a null pointer with a large size is a fault.\<close>

definition cellar_waveOutGetPosition :: "u64 \<Rightarrow> bool \<Rightarrow> u16 \<Rightarrow> mm_state \<Rightarrow> ((u32 \<times> u32) option \<times> u16) cres" where
  "cellar_waveOutGetPosition hwo lpmmt cbmmt s =
     (case open_slot hwo s of None \<Rightarrow> Ok (None, MMSYSERR_INVALHANDLE)
      | Some (i, d) \<Rightarrow>
          if cbmmt < 8 then Ok (None, MMSYSERR_NOERROR)
          else if \<not> lpmmt then Fault
          else Ok (Some (0, ucast (cellar_audio_position_ms (md_audio d))), MMSYSERR_NOERROR))"

definition cellar_PlaySoundA :: "string option \<Rightarrow> int" where
  "cellar_PlaySoundA pszSound = 1"

definition cellar_timeGetTime :: "u64 \<Rightarrow> dword" where
  "cellar_timeGetTime monotonic_ms = monotonic_ms"

section \<open>Facts\<close>

text \<open>An open slot has a sink behind it; a closed one may keep the null device of a failed open.\<close>

definition mm_inv :: "mm_state \<Rightarrow> bool" where
  "mm_inv s \<longleftrightarrow> length (g_devices s) = CELLAR_MAX_AUDIO_DEVICES \<and>
     (\<forall>d\<in>set (g_devices s). md_open d \<longrightarrow> ad_backend (md_audio d) \<noteq> None \<and> ad_impl (md_audio d) \<noteq> None)"

lemma free_slot_Some:
  "free_slot n ds = Some i \<Longrightarrow> n \<le> i \<and> i - n < length ds \<and> \<not> md_open (ds ! (i - n))"
proof (induction ds arbitrary: n)
  case (Cons d ds)
  show ?case
  proof (cases "md_open d")
    case True
    then have "Suc n \<le> i \<and> i - Suc n < length ds \<and> \<not> md_open (ds ! (i - Suc n))"
      using Cons.prems Cons.IH [of "Suc n"] by simp
    moreover have "i - n = Suc (i - Suc n)" if "Suc n \<le> i" using that by linarith
    ultimately show ?thesis by simp
  next
    case False
    then show ?thesis using Cons.prems by simp
  qed
qed simp

lemma handle_slot: "i < 8 \<Longrightarrow> dev_from_handle (dev_to_handle i) = Some i"
proof -
  assume "i < 8"
  then have "unat (of_nat (i + 1) :: u64) = i + 1" by (simp add: unsigned_of_nat take_bit_nat_eq_self del: of_nat_add of_nat_Suc)
  then show ?thesis using \<open>i < 8\<close> by (simp add: dev_from_handle_def dev_to_handle_def CELLAR_MAX_AUDIO_DEVICES_def)
qed

lemma open_slot_iff:
  "mm_inv s \<Longrightarrow> open_slot h s = Some (i, d) \<longleftrightarrow>
     dev_from_handle h = Some i \<and> d = g_devices s ! i \<and> md_open d \<and> i < length (g_devices s)"
  by (auto simp: open_slot_def dev_from_handle_def mm_inv_def split: option.splits if_splits)

lemma mm_inv_update:
  assumes "mm_inv s" "md_open d \<longrightarrow> ad_backend (md_audio d) \<noteq> None \<and> ad_impl (md_audio d) \<noteq> None"
    "g_devices s' = (g_devices s)[i := d]"
  shows "mm_inv s'"
  using assms set_update_subset_insert [of "g_devices s" i d] by (auto simp: mm_inv_def)

text \<open>Opening gives a handle to a slot that was closed, and leaves the others alone.\<close>

lemma waveOutOpen_handle:
  assumes "mm_inv s" "cellar_waveOutOpen e phwo dev pwfx fl s = (s', Some h, st)"
  shows "\<exists>i d. st = MMSYSERR_NOERROR \<and> dev_from_handle h = Some i \<and> i < 8 \<and> \<not> md_open (g_devices s ! i) \<and>
    open_slot h s' = Some (i, d) \<and> (\<forall>j. j \<noteq> i \<longrightarrow> g_devices s' ! j = g_devices s ! j) \<and> mm_inv s'"
proof -
  from assms(2) obtain w i f' a where o: "pwfx = Some w" "free_slot 0 (g_devices s) = Some i"
    "cellar_audio_open (Some (wav_backend (me_env e) (me_alloc e))) (Some (format_of w))
       (md_audio (g_devices s ! i)) (mm_fs s) = (f', a, CELLAR_OK)"
    "s' = s\<lparr>g_devices := (g_devices s)[i := (g_devices s ! i)\<lparr>md_fmt := format_of w, md_audio := a, md_open := True\<rparr>], mm_fs := f'\<rparr>"
    "h = dev_to_handle i" "st = MMSYSERR_NOERROR"
    unfolding cellar_waveOutOpen_def Let_def by (auto split: if_splits option.splits prod.splits)
  have i: "i < 8" "i < length (g_devices s)" "\<not> md_open (g_devices s ! i)"
    using free_slot_Some [OF o(2)] assms(1) by (simp_all add: mm_inv_def CELLAR_MAX_AUDIO_DEVICES_def)
  have "ad_backend a \<noteq> None \<and> ad_impl a \<noteq> None"
    using o(3) wav_open_payload
    by (fastforce simp: cellar_audio_open_def wav_backend_def split: prod.splits)
  then have inv: "mm_inv s'" using assms(1) by (rule_tac mm_inv_update [where i = i]) (auto simp: o(4))
  have "open_slot h s' = Some (i, g_devices s' ! i)"
    unfolding open_slot_iff [OF inv] using handle_slot [OF i(1)] i by (simp add: o(4,5))
  then show ?thesis using inv o(4-6) i handle_slot [OF i(1)] by (intro exI [of _ i] exI [of _ "g_devices s' ! i"]) simp
qed

text \<open>A closed handle is refused by every call, and the other handles keep their state.\<close>

lemma waveOutClose_handle:
  assumes "mm_inv s" "open_slot h s = Some (i, d)" "cellar_waveOutClose h s = (s', st)"
  shows "st = MMSYSERR_NOERROR \<and> open_slot h s' = None \<and> (\<forall>j. j \<noteq> i \<longrightarrow> g_devices s' ! j = g_devices s ! j) \<and> mm_inv s'"
proof -
  note o = assms(2) [unfolded open_slot_iff [OF assms(1)]]
  have s': "s' = s\<lparr>g_devices := (g_devices s)[i := d\<lparr>md_audio := no_device, md_open := False\<rparr>],
      mm_fs := fst (cellar_audio_close (md_audio d) (mm_fs s))\<rparr>" "st = MMSYSERR_NOERROR"
    using assms(2,3) by (simp_all add: cellar_waveOutClose_def)
  have "mm_inv s'" using assms(1) by (rule mm_inv_update [where i = i]) (simp_all add: s')
  then show ?thesis using o by (simp add: s' open_slot_def)
qed

text \<open>A buffer whose bytes are there is accepted by every open handle: no fault, no error.\<close>

lemma wave_write_ok:
  assumes "ad_backend a = Some (wav_backend env alloc)" "ad_impl a \<noteq> None" "unat n \<le> length data"
  shows "\<exists>a' r t. cellar_audio_write now m data n a ring = Ok (a', r, t, CELLAR_OK) \<and>
    ad_backend a' = ad_backend a \<and> ad_impl a' \<noteq> None"
  using assms by (auto simp: cellar_audio_write_def wav_backend_def wav_write_def)

definition wav_devices :: "mm_state \<Rightarrow> bool" where
  "wav_devices s \<longleftrightarrow> (\<forall>d\<in>set (g_devices s). md_open d \<longrightarrow> (\<exists>env alloc. ad_backend (md_audio d) = Some (wav_backend env alloc)))"

theorem waveOutWrite_accepts:
  assumes "mm_inv s" "wav_devices s" "open_slot h s = Some (i, d)" "lpData hdr = Some data"
    "dwBufferLength hdr \<noteq> 0" "unat (ucast (dwBufferLength hdr) :: u32) \<le> length data"
  shows "\<exists>s'. cellar_waveOutWrite e h (Some hdr) s = Ok (s', Some (hdr\<lparr>dwFlags := dwFlags hdr OR WHDR_DONE\<rparr>), MMSYSERR_NOERROR) \<and>
    mm_inv s' \<and> pc_audio_bytes (mm_counters s') = pc_audio_bytes (mm_counters s) + dwBufferLength hdr"
proof -
  note o = assms(3) [unfolded open_slot_iff [OF assms(1)]]
  define s1 where "s1 = s\<lparr>mm_api := cellar_crash_set_current_api (Some ''audio'') (Some ''winmm!waveOutWrite'') (mm_api s)\<rparr>"
  have d: "d \<in> set (g_devices s)" using o by auto
  then obtain env alloc where b: "ad_backend (md_audio d) = Some (wav_backend env alloc)" "ad_impl (md_audio d) \<noteq> None"
    using assms(1,2) o unfolding mm_inv_def wav_devices_def by blast
  obtain a r t where w: "cellar_audio_write (me_now e) (me_mask e) data (ucast (dwBufferLength hdr)) (md_audio d) (mm_ring s) =
      Ok (a, r, t, CELLAR_OK)" "ad_backend a = ad_backend (md_audio d)" "ad_impl a \<noteq> None"
    using wave_write_ok [OF b assms(6)] by blast
  have g: "g_devices s1 = g_devices s" by (simp add: s1_def)
  have "open_slot h s1 = Some (i, d)" using assms(3) unfolding open_slot_def g .
  then have r: "cellar_waveOutWrite e h (Some hdr) s = Ok (s1\<lparr>g_devices := (g_devices s)[i := d\<lparr>md_audio := a\<rparr>], mm_ring := r,
      mm_counters := cellar_perf_count_audio (dwBufferLength hdr) (mm_counters s)\<rparr>,
      Some (hdr\<lparr>dwFlags := dwFlags hdr OR WHDR_DONE\<rparr>), MMSYSERR_NOERROR)"
    using assms(4,5) w(1) by (simp add: cellar_waveOutWrite_def s1_def [symmetric] Let_def) (simp add: s1_def)
  have "mm_inv (s1\<lparr>g_devices := (g_devices s)[i := d\<lparr>md_audio := a\<rparr>], mm_ring := r,
      mm_counters := cellar_perf_count_audio (dwBufferLength hdr) (mm_counters s)\<rparr>)"
    using assms(1) by (rule mm_inv_update [where i = i]) (use w(2,3) b in simp_all)
  then show ?thesis using r by (simp add: cellar_perf_count_audio_def)
qed

text \<open>A length that is a multiple of 2 to the 32 is taken as nothing to write, but counted and
  reported as done.\<close>

theorem waveOutWrite_drops_multiples:
  assumes "mm_inv s" "wav_devices s" "open_slot h s = Some (i, d)" "lpData hdr = Some []" "dwBufferLength hdr = 2 ^ 32"
  shows "\<exists>s'. cellar_waveOutWrite e h (Some hdr) s = Ok (s', Some (hdr\<lparr>dwFlags := dwFlags hdr OR WHDR_DONE\<rparr>), MMSYSERR_NOERROR)"
  using waveOutWrite_accepts [OF assms(1-4), of e] assms(5) by fastforce

end
