(* ===== verification/Alsa.thy ===== *)
theory Alsa
  imports Audio
begin

text \<open>
  The optional ALSA backend, \<^verbatim>\<open>src/audio/alsa.c\<close>. The sound library is an argument: a record of
  the calls the source makes, each with the state of the sound device before and after and the error
  code it returns. A write reads whole frames of the format that was negotiated.
\<close>

section \<open>The library\<close>

datatype sample_format = SND_PCM_FORMAT_S16_LE | SND_PCM_FORMAT_U8

text \<open>\<open>'p\<close> is a PCM handle with everything the library keeps for it. The interleaved access mode is
  the only one the source asks for.\<close>

record 'p alsa_lib =
  snd_pcm_open :: "'p + int"
  snd_hw_params_any :: "'p \<Rightarrow> 'p \<times> int"
  snd_set_access :: "'p \<Rightarrow> 'p \<times> int"
  snd_set_format :: "sample_format \<Rightarrow> 'p \<Rightarrow> 'p \<times> int"
  snd_set_channels :: "u32 \<Rightarrow> 'p \<Rightarrow> 'p \<times> int"
  snd_set_rate_near :: "u32 \<Rightarrow> 'p \<Rightarrow> 'p \<times> int"
  snd_set_periods_near :: "u32 \<Rightarrow> 'p \<Rightarrow> 'p \<times> int"
  snd_hw_params :: "'p \<Rightarrow> 'p \<times> int"
  snd_writei :: "string \<Rightarrow> u32 \<Rightarrow> 'p \<Rightarrow> 'p \<times> int"
  snd_recover :: "int \<Rightarrow> 'p \<Rightarrow> 'p"
  snd_drop :: "'p \<Rightarrow> 'p"
  snd_drain :: "'p \<Rightarrow> 'p"
  snd_close :: "'p \<Rightarrow> 'p"

section \<open>The backend\<close>

record 'p alsa_impl =
  ai_pcm :: 'p
  ai_fmt :: audio_format
  ai_bytes_written :: u64

definition format_of :: "audio_format \<Rightarrow> sample_format" where
  "format_of fmt = (if af_bits_per_sample fmt = 16 then SND_PCM_FORMAT_S16_LE else SND_PCM_FORMAT_U8)"

text \<open>The chain of configuration calls stops at the first that fails.\<close>

fun configure :: "('p \<Rightarrow> 'p \<times> int) list \<Rightarrow> 'p \<Rightarrow> 'p \<times> bool" where
  "configure [] p = (p, True)"
| "configure (f # fs) p = (case f p of (p', err) \<Rightarrow> if err < 0 then (p', False) else configure fs p')"

definition hw_params :: "'p alsa_lib \<Rightarrow> audio_format \<Rightarrow> ('p \<Rightarrow> 'p \<times> int) list" where
  "hw_params lib fmt =
     [snd_hw_params_any lib, snd_set_access lib, snd_set_format lib (format_of fmt),
      snd_set_channels lib (ucast (af_channels fmt)), snd_set_rate_near lib (af_sample_rate fmt),
      snd_set_periods_near lib 4, snd_hw_params lib]"

text \<open>The new private state, and the handle that a refused configuration closes.\<close>

definition alsa_open ::
    "'p alsa_lib \<Rightarrow> bool \<Rightarrow> audio_format \<Rightarrow> 'p option \<times> 'p alsa_impl option \<times> cellar_status" where
  "alsa_open lib alloc fmt =
     (if \<not> alloc then (None, None, CELLAR_ERR_OUT_OF_MEMORY)
      else (case snd_pcm_open lib of
              Inr err \<Rightarrow> (None, None, CELLAR_ERR_INVALID_ARGUMENT)
            | Inl p \<Rightarrow> (case configure (hw_params lib fmt) p of
                (p', False) \<Rightarrow> (Some (snd_close lib p'), None, CELLAR_ERR_INVALID_ARGUMENT)
              | (p', True) \<Rightarrow>
                  (None, Some \<lparr>ai_pcm = p', ai_fmt = fmt, ai_bytes_written = 0\<rparr>, CELLAR_OK))))"

text \<open>The bytes of a frame that the library reads: a sample of the negotiated width per channel.\<close>

definition frame_bytes :: "audio_format \<Rightarrow> nat" where
  "frame_bytes fmt =
     unat (af_channels fmt) * (case format_of fmt of SND_PCM_FORMAT_S16_LE \<Rightarrow> 2 | SND_PCM_FORMAT_U8 \<Rightarrow> 1)"

text \<open>A division by a zero block size, or a read past the buffer, is a fault.\<close>

definition alsa_write ::
    "'p alsa_lib \<Rightarrow> 'p alsa_impl option \<Rightarrow> string \<Rightarrow> u32 \<Rightarrow> ('p alsa_impl option \<times> cellar_status) cres" where
  "alsa_write lib i data bytes =
     (case i of None \<Rightarrow> Ok (i, CELLAR_ERR_INVALID_ARGUMENT)
      | Some s \<Rightarrow>
          if af_block_align (ai_fmt s) = 0 then Fault
          else
            let frames = bytes div ucast (af_block_align (ai_fmt s));
                n = unat frames * frame_bytes (ai_fmt s)
            in if length data < n then Fault
               else (case snd_writei lib (take n data) frames (ai_pcm s) of
                  (p, err) \<Rightarrow>
                    let p' = (if err < 0 then snd_recover lib err p else p)
                    in Ok (Some (s\<lparr>ai_pcm := p', ai_bytes_written := ai_bytes_written s + ucast bytes\<rparr>), CELLAR_OK)))"

definition alsa_reset :: "'p alsa_lib \<Rightarrow> 'p alsa_impl option \<Rightarrow> 'p alsa_impl option \<times> cellar_status" where
  "alsa_reset lib i = (map_option (\<lambda>s. s\<lparr>ai_pcm := snd_drop lib (ai_pcm s)\<rparr>) i, CELLAR_OK)"

definition alsa_position_ms :: "'p alsa_impl option \<Rightarrow> u64" where
  "alsa_position_ms i =
     (case i of None \<Rightarrow> 0
      | Some s \<Rightarrow> if af_avg_bytes_per_sec (ai_fmt s) = 0 then 0
                 else ai_bytes_written s * 1000 div ucast (af_avg_bytes_per_sec (ai_fmt s)))"

text \<open>The handle as it is left, the cleared private state and the status.\<close>

definition alsa_close ::
    "'p alsa_lib \<Rightarrow> 'p alsa_impl option \<Rightarrow> 'p option \<times> 'p alsa_impl option \<times> cellar_status" where
  "alsa_close lib i = (map_option (\<lambda>s. snd_close lib (snd_drain lib (ai_pcm s))) i, None, CELLAR_OK)"

text \<open>The sink touches no file.\<close>

definition cellar_alsa_backend :: "'p alsa_lib \<Rightarrow> bool \<Rightarrow> 'p alsa_impl audio_backend" where
  "cellar_alsa_backend lib alloc =
     \<lparr>ab_name = ''alsa'', ab_open = (\<lambda>fmt f. (f, snd (alsa_open lib alloc fmt))),
      ab_write = alsa_write lib, ab_reset = alsa_reset lib,
      ab_close = (\<lambda>i f. (f, snd (alsa_close lib i))), ab_position_ms = alsa_position_ms\<rparr>"

section \<open>Facts\<close>

text \<open>A format is consistent when its block size is the size of a frame, as
  \<^verbatim>\<open>WAVEFORMATEX\<close> demands of PCM.\<close>

definition format_consistent :: "audio_format \<Rightarrow> bool" where
  "format_consistent fmt \<longleftrightarrow> unat (af_block_align fmt) = frame_bytes fmt \<and> af_channels fmt \<noteq> 0"

lemma consistent_align: "format_consistent fmt \<Longrightarrow> af_block_align fmt \<noteq> 0"
  by (auto simp: format_consistent_def frame_bytes_def unat_eq_0 split: sample_format.splits)

lemma unat_block_align: "unat (ucast (af_block_align fmt) :: u32) = unat (af_block_align fmt)"
proof -
  have "unat (af_block_align fmt) < 2 ^ LENGTH(16)" by (rule unsigned_less)
  then have "unat (af_block_align fmt) < 2 ^ 32" by simp
  then show ?thesis by (simp add: unsigned_ucast_eq take_bit_nat_eq_self)
qed

lemma frames_consistent:
  assumes "format_consistent fmt"
  shows "unat (bytes div ucast (af_block_align fmt) :: u32) * frame_bytes fmt =
    unat bytes - unat bytes mod frame_bytes fmt"
  using assms unat_block_align [of fmt]
  by (simp add: format_consistent_def unat_div minus_mod_eq_div_mult)

text \<open>With a consistent format, a write of a buffer that is all there never faults, whatever the
  library answers.\<close>

lemma alsa_write_no_fault:
  assumes "format_consistent (ai_fmt s)" "unat bytes \<le> length data"
  shows "alsa_write lib (Some s) data bytes \<noteq> Fault"
proof -
  have "unat (bytes div ucast (af_block_align (ai_fmt s)) :: u32) * frame_bytes (ai_fmt s) \<le> length data"
    using assms by (simp add: frames_consistent)
  then show ?thesis
    using consistent_align [OF assms(1)] by (simp add: alsa_write_def Let_def split: prod.splits)
qed

text \<open>What the documentation of the library promises of a device without underruns: a blocking
  write plays all the frames it is given. \<open>played\<close> is what was played so far.\<close>

definition plays_all :: "'p alsa_lib \<Rightarrow> ('p \<Rightarrow> string) \<Rightarrow> bool" where
  "plays_all lib played \<longleftrightarrow>
     (\<forall>d n p. played (fst (snd_writei lib d n p)) = played p @ d \<and> 0 \<le> snd (snd_writei lib d n p))"

definition opens_silent :: "'p alsa_lib \<Rightarrow> ('p \<Rightarrow> string) \<Rightarrow> bool \<Rightarrow> audio_format \<Rightarrow> bool" where
  "opens_silent lib played alloc fmt \<longleftrightarrow>
     (\<forall>i. alsa_open lib alloc fmt = (None, Some i, CELLAR_OK) \<longrightarrow> played (ai_pcm i) = [])"

definition alsa_inv :: "('p \<Rightarrow> string) \<Rightarrow> audio_format \<Rightarrow> 'p alsa_impl \<Rightarrow> bool" where
  "alsa_inv played fmt s \<longleftrightarrow> ai_fmt s = fmt \<and> ai_bytes_written s = of_nat (length (played (ai_pcm s)))"

lemma alsa_open_Ok:
  "alsa_open lib alloc fmt = (r, i, CELLAR_OK) \<Longrightarrow>
     \<exists>s. r = None \<and> i = Some s \<and> ai_fmt s = fmt \<and> ai_bytes_written s = 0"
  by (auto simp: alsa_open_def split: if_splits sum.splits prod.splits bool.splits)

lemma alsa_sink:
  assumes "plays_all lib played" "opens_silent lib played alloc fmt" "format_consistent fmt"
  shows "audio_sink (cellar_alsa_backend lib alloc) fmt (\<lambda>s. played (ai_pcm s)) (alsa_inv played fmt) (frame_bytes fmt)"
proof
  fix f f' i assume "ab_open (cellar_alsa_backend lib alloc) fmt f = (f', i, CELLAR_OK)"
  then obtain r where "alsa_open lib alloc fmt = (r, i, CELLAR_OK)"
    by (cases "alsa_open lib alloc fmt") (auto simp: cellar_alsa_backend_def)
  moreover from alsa_open_Ok [OF this] obtain s where
    "r = None" "i = Some s" "ai_fmt s = fmt" "ai_bytes_written s = 0" by blast
  ultimately show "\<exists>s. i = Some s \<and> alsa_inv played fmt s \<and> played (ai_pcm s) = []"
    using assms(2) by (auto simp: opens_silent_def alsa_inv_def)
next
  fix s :: "'a alsa_impl" and n :: u32 and data :: string
  assume s: "alsa_inv played fmt s" "unat n \<le> length data" "frame_bytes fmt dvd unat n"
  have f: "ai_fmt s = fmt" using s(1) by (simp add: alsa_inv_def)
  have k: "unat (n div ucast (af_block_align fmt) :: u32) * frame_bytes fmt = unat n"
    using s(3) by (simp add: frames_consistent [OF assms(3)])
  obtain p e where w: "snd_writei lib (take (unat n) data) (n div ucast (af_block_align fmt)) (ai_pcm s) = (p, e)"
    by fastforce
  then have p: "played p = played (ai_pcm s) @ take (unat n) data" "0 \<le> e"
    using assms(1) unfolding plays_all_def by (metis fst_conv, metis snd_conv)
  let ?s' = "s\<lparr>ai_pcm := p, ai_bytes_written := ai_bytes_written s + ucast n\<rparr>"
  have "alsa_write lib (Some s) data n = Ok (Some ?s', CELLAR_OK)"
    using consistent_align [OF assms(3)] s(2) p(2) by (simp add: alsa_write_def f k w Let_def)
  moreover have "alsa_inv played fmt ?s'"
    using s p by (simp add: alsa_inv_def of_nat_unat)
  ultimately show "\<exists>s'. ab_write (cellar_alsa_backend lib alloc) (Some s) data n = Ok (Some s', CELLAR_OK) \<and>
      alsa_inv played fmt s' \<and> played (ai_pcm s') = played (ai_pcm s) @ take (unat n) data"
    using p(1) by (intro exI [of _ ?s']) (simp add: cellar_alsa_backend_def)
qed

text \<open>On a device without underruns, opening with a consistent format and writing buffers of whole
  frames plays exactly those buffers, in order, and the position is that of the bytes written.\<close>

theorem alsa_stream:
  assumes "plays_all lib played" "opens_silent lib played alloc fmt" "format_consistent fmt"
    and "cellar_audio_open (Some (cellar_alsa_backend lib alloc)) (Some fmt) dev0 f = (f1, dev, CELLAR_OK)"
    and "\<forall>d\<in>set ds. length d < 2 ^ 32 \<and> frame_bytes fmt dvd length d" "af_avg_bytes_per_sec fmt \<noteq> 0"
  shows "\<exists>s ring'. write_chunks now g_mask ds dev ring =
      Ok (\<lparr>ad_backend = Some (cellar_alsa_backend lib alloc), ad_impl = Some s\<rparr>, ring', CELLAR_OK) \<and>
    played (ai_pcm s) = concat ds \<and>
    alsa_position_ms (Some s) = of_nat (length (concat ds)) * 1000 div ucast (af_avg_bytes_per_sec fmt)"
proof -
  from audio_sink.open_write [OF alsa_sink [OF assms(1-3)] assms(4,5)]
  obtain s ring' where w: "write_chunks now g_mask ds dev ring =
      Ok (\<lparr>ad_backend = Some (cellar_alsa_backend lib alloc), ad_impl = Some s\<rparr>, ring', CELLAR_OK)"
    and s: "alsa_inv played fmt s" "played (ai_pcm s) = concat ds" by blast
  have "alsa_position_ms (Some s) = of_nat (length (concat ds)) * 1000 div ucast (af_avg_bytes_per_sec fmt)"
    using s assms(6) by (simp add: alsa_position_ms_def alsa_inv_def)
  then show ?thesis using w s(2) by blast
qed

text \<open>A library that keeps what it is given.\<close>

definition recorder :: "string alsa_lib" where
  "recorder = \<lparr>snd_pcm_open = Inl [], snd_hw_params_any = (\<lambda>p. (p, 0)), snd_set_access = (\<lambda>p. (p, 0)),
     snd_set_format = (\<lambda>_ p. (p, 0)), snd_set_channels = (\<lambda>_ p. (p, 0)), snd_set_rate_near = (\<lambda>_ p. (p, 0)),
     snd_set_periods_near = (\<lambda>_ p. (p, 0)), snd_hw_params = (\<lambda>p. (p, 0)),
     snd_writei = (\<lambda>d n p. (p @ d, uint n)), snd_recover = (\<lambda>_ p. p), snd_drop = (\<lambda>p. p),
     snd_drain = (\<lambda>p. p), snd_close = (\<lambda>p. p)\<rparr>"

theorem alsa_stream_witness:
  "\<exists>f1 dev s ring'.
     cellar_audio_open (Some (cellar_alsa_backend recorder True)) (Some demo_format)
       \<lparr>ad_backend = None, ad_impl = None\<rparr> empty_fs = (f1, dev, CELLAR_OK) \<and>
     write_chunks 0 0 [''abcd'', ''efghijkl''] dev perf_ring_init =
       Ok (\<lparr>ad_backend = Some (cellar_alsa_backend recorder True), ad_impl = Some s\<rparr>, ring', CELLAR_OK) \<and>
     ai_pcm s = ''abcdefghijkl''"
proof -
  let ?b = "cellar_alsa_backend recorder True" and ?d0 = "\<lparr>ad_backend = None, ad_impl = None\<rparr> :: string alsa_impl audio_device"
  have o1: "alsa_open recorder True demo_format =
      (None, Some \<lparr>ai_pcm = [], ai_fmt = demo_format, ai_bytes_written = 0\<rparr>, CELLAR_OK)"
    by (simp add: alsa_open_def recorder_def hw_params_def)
  have "plays_all recorder (\<lambda>p. p)" by (simp add: plays_all_def recorder_def)
  moreover have "opens_silent recorder (\<lambda>p. p) True demo_format" by (auto simp: opens_silent_def o1)
  moreover have "format_consistent demo_format"
    by (simp add: format_consistent_def frame_bytes_def format_of_def demo_format_def)
  ultimately have h: "plays_all recorder (\<lambda>p. p)" "opens_silent recorder (\<lambda>p. p) True demo_format"
    "format_consistent demo_format" by simp_all
  have "\<exists>dev. cellar_audio_open (Some ?b) (Some demo_format) ?d0 empty_fs = (empty_fs, dev, CELLAR_OK)"
    by (simp add: cellar_audio_open_def cellar_alsa_backend_def o1)
  then obtain dev where d: "cellar_audio_open (Some ?b) (Some demo_format) ?d0 empty_fs = (empty_fs, dev, CELLAR_OK)"
    by blast
  have f: "frame_bytes demo_format = 4" by (simp add: frame_bytes_def format_of_def demo_format_def)
  have "\<forall>d\<in>set [''abcd'', ''efghijkl'']. length d mod 4 = 0 \<and> length d < 2 ^ 32" by simp
  then have "\<forall>d\<in>set [''abcd'', ''efghijkl'']. length d < 2 ^ 32 \<and> frame_bytes demo_format dvd length d"
    unfolding f dvd_eq_mod_eq_0 by blast
  from alsa_stream [OF h d this, of 0 0 perf_ring_init] show ?thesis
    using d by (auto simp: demo_format_def)
qed

text \<open>The block size of an application reaches the backend unchecked: zero divides by zero.\<close>

theorem alsa_zero_align_faults: "af_block_align (ai_fmt s) = 0 \<Longrightarrow> alsa_write lib (Some s) data bytes = Fault"
  by (simp add: alsa_write_def)

text \<open>A refused write is reported as done and advances the position.\<close>

theorem alsa_lost_write:
  assumes "snd_writei lib (take (unat (bytes div ucast (af_block_align (ai_fmt s)) :: u32) * frame_bytes (ai_fmt s)) data)
      (bytes div ucast (af_block_align (ai_fmt s))) (ai_pcm s) = (p, err)"
    and "err < 0" "format_consistent (ai_fmt s)" "unat bytes \<le> length data"
  shows "alsa_write lib (Some s) data bytes =
    Ok (Some (s\<lparr>ai_pcm := snd_recover lib err p, ai_bytes_written := ai_bytes_written s + ucast bytes\<rparr>), CELLAR_OK)"
  using alsa_write_no_fault [OF assms(3,4), of lib] assms(1,2) consistent_align [OF assms(3)]
  by (auto simp: alsa_write_def Let_def split: if_splits)

end
