(* ===== verification/Device.thy ===== *)
theory Device
  imports Fs Text
begin

text \<open>
  The registries of host facilities: devices (\<^verbatim>\<open>src/device/device.c\<close>), monitors
  (\<^verbatim>\<open>src/display/display.c\<close>), the accessibility tree (\<^verbatim>\<open>src/a11y/a11y.c\<close>) and
  printers with their jobs (\<^verbatim>\<open>src/print/print.c\<close>). The floating-point scale factor of a
  monitor is not modelled.
\<close>

section \<open>Devices\<close>

datatype dev_kind = CELLAR_DEV_WEBCAM | CELLAR_DEV_MIC | CELLAR_DEV_USB | CELLAR_DEV_BLUETOOTH
  | CELLAR_DEV_CONTROLLER | CELLAR_DEV_PRINTER

record cellar_device =
  dv_id :: u32
  dv_kind :: dev_kind
  dv_name :: string
  dv_backend :: string
  dv_attached :: bool

definition CELLAR_MAX_DEV :: nat where "CELLAR_MAX_DEV = 32"

definition device_zero :: cellar_device where
  "device_zero = \<lparr>dv_id = 0, dv_kind = CELLAR_DEV_WEBCAM, dv_name = [], dv_backend = [], dv_attached = False\<rparr>"

record device_state =
  g_dev :: "cellar_device list"
  g_next_dev :: u32

definition cellar_device_reset :: device_state where
  "cellar_device_reset = \<lparr>g_dev = replicate CELLAR_MAX_DEV device_zero, g_next_dev = 1\<rparr>"

fun first_index :: "('a \<Rightarrow> bool) \<Rightarrow> 'a list \<Rightarrow> nat option" where
  "first_index P [] = None"
| "first_index P (x # xs) = (if P x then Some 0 else map_option Suc (first_index P xs))"

definition cellar_device_attach ::
    "dev_kind \<Rightarrow> string option \<Rightarrow> string option \<Rightarrow> device_state \<Rightarrow> (u32 \<times> device_state) cres" where
  "cellar_device_attach kind name backend s =
     (case first_index (\<lambda>d. \<not> dv_attached d \<and> dv_id d = 0) (g_dev s) of
        None \<Rightarrow> Err CELLAR_ERR_OUT_OF_MEMORY
      | Some i \<Rightarrow>
          let d = \<lparr>dv_id = g_next_dev s, dv_kind = kind,
                   dv_name = snprintf_s 64 (case name of None \<Rightarrow> ''device'' | Some n \<Rightarrow> n),
                   dv_backend = snprintf_s 32 (case backend of None \<Rightarrow> ''Stub'' | Some b \<Rightarrow> b),
                   dv_attached = True\<rparr>
          in Ok (g_next_dev s, s\<lparr>g_dev := (g_dev s)[i := d], g_next_dev := g_next_dev s + 1\<rparr>))"

definition cellar_device_detach :: "u32 \<Rightarrow> device_state \<Rightarrow> device_state cres" where
  "cellar_device_detach ident s =
     (case first_index (\<lambda>d. dv_id d = ident) (g_dev s) of
        None \<Rightarrow> Err CELLAR_ERR_INVALID_ARGUMENT
      | Some i \<Rightarrow> Ok (s\<lparr>g_dev := (g_dev s)[i := device_zero]\<rparr>))"

definition cellar_device_get :: "u32 \<Rightarrow> device_state \<Rightarrow> cellar_device option" where
  "cellar_device_get ident s = List.find (\<lambda>d. dv_id d = ident \<and> dv_attached d) (g_dev s)"

definition cellar_device_list :: "bool \<Rightarrow> nat \<Rightarrow> device_state \<Rightarrow> cellar_device list" where
  "cellar_device_list out cap s = (if \<not> out then [] else take cap (filter dv_attached (g_dev s)))"

section \<open>Monitors\<close>

datatype orientation = CELLAR_ORIENT_LANDSCAPE | CELLAR_ORIENT_PORTRAIT
  | CELLAR_ORIENT_LANDSCAPE_FLIPPED | CELLAR_ORIENT_PORTRAIT_FLIPPED

datatype window_mode = CELLAR_WINDOW_WINDOWED | CELLAR_WINDOW_FULLSCREEN | CELLAR_WINDOW_BORDERLESS

record cellar_monitor =
  mo_name :: string
  mo_width :: u32
  mo_height :: u32
  mo_dpi :: u32
  mo_refresh_hz :: u32
  mo_hdr :: bool
  mo_orientation :: orientation
  mo_primary :: bool

record cellar_display =
  di_monitors :: "cellar_monitor list"  \<comment> \<open>the first \<^verbatim>\<open>count\<close> of 8\<close>
  di_mode :: window_mode

definition cellar_display_init_default :: cellar_display where
  "cellar_display_init_default = \<lparr>di_monitors =
     [\<lparr>mo_name = ''DISPLAY1'', mo_width = 1920, mo_height = 1080, mo_dpi = 96, mo_refresh_hz = 60, mo_hdr = False,
       mo_orientation = CELLAR_ORIENT_LANDSCAPE, mo_primary = True\<rparr>], di_mode = CELLAR_WINDOW_WINDOWED\<rparr>"

definition cellar_display_add_monitor :: "cellar_monitor option \<Rightarrow> cellar_display \<Rightarrow> cellar_display cres" where
  "cellar_display_add_monitor m d =
     (case m of None \<Rightarrow> Err CELLAR_ERR_INVALID_ARGUMENT
      | Some m \<Rightarrow> if length (di_monitors d) \<ge> 8 then Err CELLAR_ERR_OUT_OF_MEMORY
                 else Ok (d\<lparr>di_monitors := di_monitors d @ [m]\<rparr>))"

definition cellar_display_set_mode :: "window_mode \<Rightarrow> cellar_display \<Rightarrow> cellar_display" where
  "cellar_display_set_mode m d = d\<lparr>di_mode := m\<rparr>"

definition cellar_display_primary :: "cellar_display \<Rightarrow> cellar_monitor option" where
  "cellar_display_primary d =
     (case di_monitors d of [] \<Rightarrow> None
      | m # _ \<Rightarrow> (case List.find mo_primary (di_monitors d) of Some p \<Rightarrow> Some p | None \<Rightarrow> Some m))"

text \<open>The process-wide display, made on first use.\<close>

definition cellar_display_current :: "cellar_display option \<Rightarrow> cellar_display" where
  "cellar_display_current g = (case g of None \<Rightarrow> cellar_display_init_default | Some d \<Rightarrow> d)"

section \<open>Accessibility tree\<close>

datatype a11y_role = CELLAR_A11Y_WINDOW | CELLAR_A11Y_BUTTON | CELLAR_A11Y_TEXT | CELLAR_A11Y_MENU
  | CELLAR_A11Y_CHECKBOX | CELLAR_A11Y_LIST

record a11y_node =
  an_id :: u32
  an_role :: a11y_role
  an_name :: string
  an_value :: string
  an_parent :: u32
  an_child_count :: u32

definition CELLAR_A11Y_MAX :: nat where "CELLAR_A11Y_MAX = 64"

definition a11y_zero :: a11y_node where
  "a11y_zero = \<lparr>an_id = 0, an_role = CELLAR_A11Y_WINDOW, an_name = [], an_value = [], an_parent = 0, an_child_count = 0\<rparr>"

record a11y_state =
  g_nodes :: "a11y_node list"
  g_next_node :: u32

definition cellar_a11y_reset :: a11y_state where
  "cellar_a11y_reset = \<lparr>g_nodes = replicate CELLAR_A11Y_MAX a11y_zero, g_next_node = 1\<rparr>"

definition ensure_root :: "a11y_state \<Rightarrow> a11y_state" where
  "ensure_root s =
     (if an_id (g_nodes s ! 1) \<noteq> 0 then s
      else s\<lparr>g_nodes := (g_nodes s)[1 := (g_nodes s ! 1)\<lparr>an_id := 1, an_role := CELLAR_A11Y_WINDOW,
                an_name := ''Desktop'', an_parent := 0\<rparr>], g_next_node := 2\<rparr>)"

definition cellar_a11y_create :: "u32 \<Rightarrow> a11y_role \<Rightarrow> string option \<Rightarrow> a11y_state \<Rightarrow> u32 \<times> a11y_state" where
  "cellar_a11y_create parent role name s =
     (let s1 = ensure_root s;
          par = (if parent = 0 then 1 else parent)
      in if unat (g_next_node s1) \<ge> CELLAR_A11Y_MAX then (0, s1)
         else if unat par \<ge> CELLAR_A11Y_MAX \<or> an_id (g_nodes s1 ! unat par) = 0 then (0, s1)
         else
           let ident = g_next_node s1;
               nodes = (g_nodes s1)[unat ident := a11y_zero\<lparr>an_id := ident, an_role := role, an_parent := par,
                         an_name := snprintf_s 64 (case name of None \<Rightarrow> [] | Some n \<Rightarrow> n)\<rparr>];
               p = nodes ! unat par
           in (ident, s1\<lparr>g_nodes := nodes[unat par := p\<lparr>an_child_count := an_child_count p + 1\<rparr>],
                         g_next_node := ident + 1\<rparr>))"

definition cellar_a11y_set_value :: "u32 \<Rightarrow> string option \<Rightarrow> a11y_state \<Rightarrow> a11y_state cres" where
  "cellar_a11y_set_value ident val s =
     (if ident = 0 \<or> unat ident \<ge> CELLAR_A11Y_MAX \<or> an_id (g_nodes s ! unat ident) = 0
      then Err CELLAR_ERR_INVALID_ARGUMENT
      else Ok (s\<lparr>g_nodes := (g_nodes s)[unat ident := (g_nodes s ! unat ident)\<lparr>an_value :=
                  snprintf_s 128 (case val of None \<Rightarrow> [] | Some v \<Rightarrow> v)\<rparr>]\<rparr>))"

definition cellar_a11y_get :: "u32 \<Rightarrow> a11y_state \<Rightarrow> a11y_node option" where
  "cellar_a11y_get ident s =
     (if ident = 0 \<or> unat ident \<ge> CELLAR_A11Y_MAX \<or> an_id (g_nodes s ! unat ident) = 0 then None
      else Some (g_nodes s ! unat ident))"

definition cellar_a11y_children :: "u32 \<Rightarrow> nat \<Rightarrow> a11y_state \<Rightarrow> nat list \<times> a11y_state" where
  "cellar_a11y_children ident cap s =
     (if unat ident \<ge> CELLAR_A11Y_MAX then ([], s)
      else let s1 = ensure_root s in
        (take cap (filter (\<lambda>i. an_id (g_nodes s1 ! i) \<noteq> 0 \<and> an_parent (g_nodes s1 ! i) = ident)
                     [1..<unat (g_next_node s1)]), s1))"

section \<open>Printing\<close>

record cellar_printer =
  pn_name :: string
  pn_driver :: string
  pn_default :: bool

record print_job =
  pj_id :: u32
  pj_printer :: string
  pj_document :: string
  pj_output_path :: string
  pj_bytes :: nat
  pj_completed :: bool

definition CELLAR_MAX_PRINTERS :: nat where "CELLAR_MAX_PRINTERS = 8"

record prn_state =
  g_prn :: "cellar_printer list"  \<comment> \<open>the first \<^verbatim>\<open>g_n\<close> entries\<close>
  g_job :: u32
  g_print_inited :: bool

definition print_start :: prn_state where
  "print_start = \<lparr>g_prn = [], g_job = 1, g_print_inited = False\<rparr>"

definition cellar_print_init :: "prn_state \<Rightarrow> prn_state" where
  "cellar_print_init s =
     (if g_print_inited s then s
      else s\<lparr>g_print_inited := True,
             g_prn := [\<lparr>pn_name = ''Cellar PDF'', pn_driver = ''pdf'', pn_default = True\<rparr>]\<rparr>)"

definition cellar_print_add_printer :: "cellar_printer option \<Rightarrow> prn_state \<Rightarrow> prn_state \<times> cellar_status" where
  "cellar_print_add_printer p s =
     (let s1 = cellar_print_init s in
      case p of None \<Rightarrow> (s1, CELLAR_ERR_INVALID_ARGUMENT)
      | Some q \<Rightarrow>
          if pn_name q = [] then (s1, CELLAR_ERR_INVALID_ARGUMENT)
          else if length (g_prn s1) \<ge> CELLAR_MAX_PRINTERS then (s1, CELLAR_ERR_OUT_OF_MEMORY)
          else (s1\<lparr>g_prn := g_prn s1 @ [q]\<rparr>, CELLAR_OK))"

definition cellar_print_default :: "prn_state \<Rightarrow> cellar_printer option \<times> prn_state" where
  "cellar_print_default s =
     (let s1 = cellar_print_init s in
      (case List.find pn_default (g_prn s1) of Some p \<Rightarrow> Some p
       | None \<Rightarrow> (case g_prn s1 of [] \<Rightarrow> None | p # _ \<Rightarrow> Some p), s1))"

definition cellar_print_list :: "bool \<Rightarrow> nat \<Rightarrow> prn_state \<Rightarrow> cellar_printer list \<times> prn_state" where
  "cellar_print_list out cap s =
     (let s1 = cellar_print_init s in (if \<not> out then [] else take cap (g_prn s1), s1))"

definition job_path :: "string option \<Rightarrow> u32 \<Rightarrow> string" where
  "job_path out_dir i =
     snprintf_s 512 ((case out_dir of Some (c # d) \<Rightarrow> c # d | _ \<Rightarrow> ''/tmp'') @ ''/cellar-print-'' @ dec (unat i) @ ''.ps'')"

definition job_text :: "print_job \<Rightarrow> string option \<Rightarrow> string" where
  "job_text j data =
     unlines [''%!PS-Adobe-3.0'', ''% Cellar print job '' @ dec (unat (pj_id j)) @ '' ('' @ pj_document j @ '')''] @
     (case data of None \<Rightarrow> [] | Some d \<Rightarrow> d)"

text \<open>\<open>data\<close> is a block of bytes; \<^verbatim>\<open>n\<close> is its length (0 with a null block). The output
  structure is written also where the call fails; a failed open has used up the job number.\<close>

definition cellar_print_job ::
    "string option \<Rightarrow> string option \<Rightarrow> string option \<Rightarrow> string option \<Rightarrow> prn_state \<Rightarrow> fs \<Rightarrow>
       fs \<times> prn_state \<times> print_job option \<times> cellar_status" where
  "cellar_print_job printer doc data out_dir s f =
     (let s1 = cellar_print_init s;
          p = (case printer of
                 Some (c # r) \<Rightarrow> List.find (\<lambda>q. strcasecmp_eq (pn_name q) (c # r)) (g_prn s1)
               | _ \<Rightarrow> fst (cellar_print_default s1))
      in case p of None \<Rightarrow> (f, s1, None, CELLAR_ERR_INVALID_ARGUMENT)
         | Some q \<Rightarrow>
             let s2 = s1\<lparr>g_job := g_job s1 + 1\<rparr>;
                 path = job_path out_dir (g_job s1);
                 j = \<lparr>pj_id = g_job s1, pj_printer = snprintf_s 64 (pn_name q),
                      pj_document = snprintf_s 128 (case doc of None \<Rightarrow> ''untitled'' | Some d \<Rightarrow> d),
                      pj_output_path = snprintf_s 256 path, pj_bytes = 0, pj_completed = False\<rparr>
             in case fs_write f path (job_text j data) of
                  None \<Rightarrow> (f, s2, Some j, CELLAR_ERR_INVALID_ARGUMENT)
                | Some f' \<Rightarrow> (f', s2, Some (j\<lparr>pj_bytes := (case data of None \<Rightarrow> 0 | Some d \<Rightarrow> length d),
                                            pj_completed := True\<rparr>), CELLAR_OK))"

section \<open>Facts: devices\<close>

lemma first_index_Some:
  "first_index P xs = Some i \<Longrightarrow> i < length xs \<and> P (xs ! i) \<and> (\<forall>j<i. \<not> P (xs ! j))"
  by (induction xs arbitrary: i) (auto split: if_splits simp: less_Suc_eq_0_disj)

lemma first_index_None: "first_index P xs = None \<longleftrightarrow> list_all (\<lambda>x. \<not> P x) xs"
  by (induction xs) auto

text \<open>Every slot is free or holds an attached device; attached identifiers are distinct, nonzero and
  below the counter (until the counter wraps).\<close>

definition slot_ok :: "u32 \<Rightarrow> cellar_device \<Rightarrow> bool" where
  "slot_ok n d \<longleftrightarrow> (if dv_attached d then 0 < dv_id d \<and> dv_id d < n else dv_id d = 0)"

definition ids_unique :: "cellar_device list \<Rightarrow> bool" where
  "ids_unique ds \<longleftrightarrow> (\<forall>i<length ds. \<forall>j<length ds. i \<noteq> j \<longrightarrow> dv_attached (ds ! i) \<longrightarrow> dv_id (ds ! i) \<noteq> dv_id (ds ! j))"

definition device_inv :: "device_state \<Rightarrow> bool" where
  "device_inv s \<longleftrightarrow> length (g_dev s) = CELLAR_MAX_DEV \<and> 0 < g_next_dev s \<and>
     list_all (slot_ok (g_next_dev s)) (g_dev s) \<and> ids_unique (g_dev s)"

lemma ids_unique_update:
  assumes "ids_unique ds" "\<And>j. j < length ds \<Longrightarrow> j \<noteq> i \<Longrightarrow> dv_attached (ds ! j) \<or> dv_attached d \<Longrightarrow> dv_id (ds ! j) \<noteq> dv_id d"
  shows "ids_unique (ds[i := d])"
  unfolding ids_unique_def
proof (intro allI impI)
  fix a b assume h: "a < length (ds[i := d])" "b < length (ds[i := d])" "a \<noteq> b" "dv_attached (ds[i := d] ! a)"
  consider "a = i" "b \<noteq> i" | "a \<noteq> i" "b = i" | "a \<noteq> i" "b \<noteq> i" using h(3) by blast
  then show "dv_id (ds[i := d] ! a) \<noteq> dv_id (ds[i := d] ! b)"
  proof cases
    case 1
    then have "dv_attached d" using h by simp
    then show ?thesis using 1 h assms(2) [of b] by simp
  next
    case 2
    then have "dv_attached (ds ! a)" using h by simp
    then show ?thesis using 2 h assms(2) [of a] by simp
  next
    case 3
    then show ?thesis using h assms(1) unfolding ids_unique_def by simp
  qed
qed

lemma device_inv_reset: "device_inv cellar_device_reset"
  by (simp add: device_inv_def cellar_device_reset_def device_zero_def CELLAR_MAX_DEV_def ids_unique_def
      slot_ok_def list_all_iff)

lemma u32_less_inc: "(x :: u32) \<noteq> -1 \<Longrightarrow> x < x + 1"
proof -
  assume "x \<noteq> -1"
  then have "1 + x \<noteq> 0" by (metis add.commute add_eq_0_iff2)
  then show ?thesis using unatSuc [of x] by (simp add: word_less_nat_alt add.commute)
qed

lemma device_inv_attach [cinv]:
  assumes "device_inv s" "g_next_dev s \<noteq> -1" "cellar_device_attach k n b s = Ok (ident, s')"
  shows "device_inv s'" "cellar_device_get ident s' \<noteq> None"
proof -
  obtain i where i: "first_index (\<lambda>d. \<not> dv_attached d \<and> dv_id d = 0) (g_dev s) = Some i"
    using assms(3) by (auto simp: cellar_device_attach_def split: option.splits)
  note fi = first_index_Some [OF i]
  define d where "d = \<lparr>dv_id = g_next_dev s, dv_kind = k,
    dv_name = snprintf_s 64 (case n of None \<Rightarrow> ''device'' | Some n \<Rightarrow> n),
    dv_backend = snprintf_s 32 (case b of None \<Rightarrow> ''Stub'' | Some b \<Rightarrow> b), dv_attached = True\<rparr>"
  have d: "dv_id d = g_next_dev s" "dv_attached d" "ident = g_next_dev s"
    "s' = s\<lparr>g_dev := (g_dev s)[i := d], g_next_dev := g_next_dev s + 1\<rparr>"
    using assms(3) i by (auto simp: d_def cellar_device_attach_def Let_def)
  have lt: "g_next_dev s < g_next_dev s + 1" by (rule u32_less_inc) (rule assms(2))
  have pos: "0 < g_next_dev s" and all: "list_all (slot_ok (g_next_dev s)) (g_dev s)" and u: "ids_unique (g_dev s)"
    using assms(1) by (simp_all add: device_inv_def)
  have new: "dv_id x \<noteq> g_next_dev s" if "x \<in> set (g_dev s)" for x
  proof -
    have "slot_ok (g_next_dev s) x" using all that by (simp add: list_all_iff)
    then show ?thesis using pos by (cases "dv_attached x") (auto simp: slot_ok_def)
  qed
  have mono: "slot_ok (g_next_dev s + 1) x" if "slot_ok (g_next_dev s) x" for x
    using that less_trans [OF _ lt] by (simp add: slot_ok_def split: if_splits)
  have dok: "slot_ok (g_next_dev s + 1) d" using d pos lt by (simp add: slot_ok_def)
  have "list_all (slot_ok (g_next_dev s + 1)) ((g_dev s)[i := d])"
    using all mono dok set_update_subset_insert [of "g_dev s" i d] unfolding list_all_iff by blast
  moreover have "ids_unique ((g_dev s)[i := d])"
    by (rule ids_unique_update [OF u]) (use new d(1) in auto)
  moreover have "0 < g_next_dev s + 1" using pos lt by (rule less_trans)
  moreover have "length (g_dev s) = CELLAR_MAX_DEV" using assms(1) by (simp add: device_inv_def)
  ultimately show "device_inv s'" by (simp add: device_inv_def d(4))
  have "d \<in> set (g_dev s')" using fi by (simp add: d(4) set_update_memI)
  then show "cellar_device_get ident s' \<noteq> None"
    using d(1-3) unfolding cellar_device_get_def find_None_iff by blast
qed

lemma device_inv_detach [cinv]:
  assumes "device_inv s" "cellar_device_detach ident s = Ok s'"
  shows "device_inv s'" "cellar_device_get ident s' = None"
proof -
  obtain i where i: "first_index (\<lambda>d. dv_id d = ident) (g_dev s) = Some i"
    and s': "s' = s\<lparr>g_dev := (g_dev s)[i := device_zero]\<rparr>"
    using assms(2) by (auto simp: cellar_device_detach_def split: option.splits)
  note fi = first_index_Some [OF i]
  have all: "list_all (slot_ok (g_next_dev s)) (g_dev s)" and u: "ids_unique (g_dev s)"
    using assms(1) by (simp_all add: device_inv_def)
  have att: "dv_id x \<noteq> 0" if "x \<in> set (g_dev s)" "dv_attached x" for x
    using all that by (auto simp: list_all_iff slot_ok_def)
  have zero: "slot_ok n device_zero" "\<not> dv_attached device_zero" "dv_id device_zero = 0" for n
    by (simp_all add: slot_ok_def device_zero_def)
  have "list_all (slot_ok (g_next_dev s)) ((g_dev s)[i := device_zero])"
    using all zero(1) set_update_subset_insert [of "g_dev s" i device_zero] unfolding list_all_iff by blast
  moreover have "ids_unique ((g_dev s)[i := device_zero])"
    by (rule ids_unique_update [OF u]) (use att zero in auto)
  ultimately show "device_inv s'" using assms(1) by (simp add: device_inv_def s')
  have "\<not> (dv_id x = ident \<and> dv_attached x)" if x: "x \<in> set (g_dev s')" for x
  proof
    assume h: "dv_id x = ident \<and> dv_attached x"
    from x obtain j where j: "j < length (g_dev s)" "(g_dev s)[i := device_zero] ! j = x"
      by (auto simp: s' in_set_conv_nth)
    then have ne: "j \<noteq> i" using h zero(2) fi by auto
    then have "g_dev s ! j = x" using j by simp
    then have "dv_id (g_dev s ! j) \<noteq> dv_id (g_dev s ! i)"
      using u j(1) fi ne h unfolding ids_unique_def by blast
    then show False using h fi \<open>g_dev s ! j = x\<close> by simp
  qed
  then show "cellar_device_get ident s' = None" by (auto simp: cellar_device_get_def find_None_iff)
qed

end
