(* ===== verification/Advapi.thy ===== *)
theory Advapi
  imports Device Desktop
begin

text \<open>
  The registry functions of ADVAPI32.dll, \<^verbatim>\<open>src/win32/mod_advapi32.c\<close>: a table of 128 keys, each
  with its full path and one value. A handle is an index from 1, or one of the four predefined roots.
  \<^verbatim>\<open>LONG\<close> and \<^verbatim>\<open>DWORD\<close> are unsigned long there.
\<close>

section \<open>State\<close>

definition ERROR_SUCCESS :: u64 where "ERROR_SUCCESS = 0"
definition ERROR_FILE_NOT_FOUND :: u64 where "ERROR_FILE_NOT_FOUND = 2"
definition ERROR_INVALID_HANDLE :: u64 where "ERROR_INVALID_HANDLE = 6"
definition ERROR_MORE_DATA :: u64 where "ERROR_MORE_DATA = 234"

definition MAX_REG :: nat where "MAX_REG = 128"

record reg_ent =
  re_used :: bool
  re_path :: string
  re_value :: string

type_synonym reg_table = "reg_ent list"

definition reg_start :: reg_table where
  "reg_start = replicate MAX_REG \<lparr>re_used = False, re_path = [], re_value = []\<rparr>"

definition root_name :: "u64 \<Rightarrow> string option" where
  "root_name k =
     (if k = 0x80000000 then Some ''HKCR'' else if k = 0x80000001 then Some ''HKCU''
      else if k = 0x80000002 then Some ''HKLM'' else if k = 0x80000003 then Some ''HKU'' else None)"

text \<open>The slot of a handle inside the table, used or not.\<close>

definition handle_index :: "u64 \<Rightarrow> nat option" where
  "handle_index h = (if 0 < unat h \<and> unat h \<le> MAX_REG then Some (unat h - 1) else None)"

definition backslash :: string where "backslash = [CHR 0x5C]"

definition make_path :: "nat \<Rightarrow> u64 \<Rightarrow> string option \<Rightarrow> reg_table \<Rightarrow> string" where
  "make_path n root sub s =
     (case root_name root of
        Some r \<Rightarrow> snprintf_s n (r @ backslash @ text_or [] sub)
      | None \<Rightarrow>
          (case handle_index root of
             Some i \<Rightarrow> if text_or [] sub \<noteq> [] then snprintf_s n (re_path (s ! i) @ backslash @ text_or [] sub)
                       else snprintf_s n (re_path (s ! i))
           | None \<Rightarrow> snprintf_s n (text_or [] sub)))"

section \<open>The calls\<close>

definition find_key :: "string \<Rightarrow> reg_table \<Rightarrow> nat option" where
  "find_key p s = first_index (\<lambda>e. re_used e \<and> strcasecmp_eq (re_path e) p) s"

definition cellar_RegOpenKeyExA :: "u64 \<Rightarrow> string option \<Rightarrow> bool \<Rightarrow> reg_table \<Rightarrow> reg_table \<times> u64 option \<times> u64" where
  "cellar_RegOpenKeyExA hKey sub out s =
     (if \<not> out then (s, None, ERROR_INVALID_HANDLE)
      else
        let path = make_path 256 hKey sub s in
        (case find_key path s of
           Some i \<Rightarrow> (s, Some (of_nat (i + 1)), ERROR_SUCCESS)
         | None \<Rightarrow>
             (case first_index (\<lambda>e. \<not> re_used e) s of
                Some i \<Rightarrow> (s[i := \<lparr>re_used = True, re_path = snprintf_s 256 path, re_value = []\<rparr>], Some (of_nat (i + 1)), ERROR_SUCCESS)
              | None \<Rightarrow> (s, None, ERROR_FILE_NOT_FOUND))))"

text \<open>The slot of a handle to a key in use.\<close>

definition used_index :: "u64 \<Rightarrow> reg_table \<Rightarrow> nat option" where
  "used_index h s = (case handle_index h of Some i \<Rightarrow> if re_used (s ! i) then Some i else None | None \<Rightarrow> None)"

text \<open>The data is read as a string up to its terminator; the name of the value, its type and the byte
  count are ignored.\<close>

definition cellar_RegSetValueExA :: "u64 \<Rightarrow> string option \<Rightarrow> string option \<Rightarrow> reg_table \<Rightarrow> reg_table \<times> u64" where
  "cellar_RegSetValueExA hKey name data s =
     (case used_index hKey s of None \<Rightarrow> (s, ERROR_INVALID_HANDLE)
      | Some i \<Rightarrow> (s[i := (s ! i)\<lparr>re_value := snprintf_s 256 (text_or [] data)\<rparr>], ERROR_SUCCESS))"

text \<open>\<open>data\<close> says whether there is a buffer and \<open>cb\<close> what the size pointer leads to. The result is the
  bytes stored, the size stored, whether the type is reported, and the status.\<close>

definition cellar_RegQueryValueExA ::
    "u64 \<Rightarrow> string option \<Rightarrow> bool \<Rightarrow> u64 option \<Rightarrow> reg_table \<Rightarrow> string option \<times> u64 option \<times> u64" where
  "cellar_RegQueryValueExA hKey name data cb s =
     (case used_index hKey s of None \<Rightarrow> (None, cb, ERROR_INVALID_HANDLE)
      | Some i \<Rightarrow>
          let n = length (re_value (s ! i)) + 1 in
          (case cb of None \<Rightarrow> (None, cb, ERROR_SUCCESS)
           | Some c \<Rightarrow>
               if \<not> data then (None, cb, ERROR_SUCCESS)
               else if unat c < n then (None, Some (of_nat n), ERROR_MORE_DATA)
               else (Some (re_value (s ! i) @ [CHR 0x00]), Some (of_nat n), ERROR_SUCCESS)))"

definition cellar_RegCloseKey :: "u64 \<Rightarrow> u64" where
  "cellar_RegCloseKey hKey = ERROR_SUCCESS"

section \<open>The table as a map\<close>

text \<open>What the table promises: a map from paths, without regard to case, to values.\<close>

definition reg_lookup :: "reg_table \<Rightarrow> string \<Rightarrow> string option" where
  "reg_lookup s p = map_option (\<lambda>i. re_value (s ! i)) (find_key p s)"

definition reg_inv :: "reg_table \<Rightarrow> bool" where
  "reg_inv s \<longleftrightarrow> length s = MAX_REG \<and> (\<forall>e\<in>set s. length (re_path e) < 256 \<and> length (re_value e) < 256) \<and>
     (\<forall>i<length s. \<forall>j<length s. re_used (s ! i) \<and> re_used (s ! j) \<and> strcasecmp_eq (re_path (s ! i)) (re_path (s ! j)) \<longrightarrow> i = j)"

lemma find_key_iff:
  assumes "reg_inv s"
  shows "find_key p s = Some i \<longleftrightarrow> i < length s \<and> re_used (s ! i) \<and> strcasecmp_eq (re_path (s ! i)) p"
proof
  assume "find_key p s = Some i"
  then show "i < length s \<and> re_used (s ! i) \<and> strcasecmp_eq (re_path (s ! i)) p"
    using first_index_Some unfolding find_key_def by fastforce
next
  assume a: "i < length s \<and> re_used (s ! i) \<and> strcasecmp_eq (re_path (s ! i)) p"
  then have "find_key p s \<noteq> None" unfolding find_key_def first_index_None by (auto simp: list_all_length)
  then obtain j where j: "find_key p s = Some j" by blast
  then have "j < length s \<and> re_used (s ! j) \<and> strcasecmp_eq (re_path (s ! j)) p"
    using first_index_Some unfolding find_key_def by fastforce
  then have "i = j" using a assms unfolding reg_inv_def by (metis strcasecmp_eq_sym strcasecmp_eq_trans)
  then show "find_key p s = Some i" using j by simp
qed

lemma find_key_None:
  "find_key p s = None \<longleftrightarrow> (\<forall>i<length s. re_used (s ! i) \<longrightarrow> \<not> strcasecmp_eq (re_path (s ! i)) p)"
  by (auto simp: find_key_def first_index_None list_all_length)

lemma reg_lookup_iff:
  "reg_inv s \<Longrightarrow> reg_lookup s p = Some v \<longleftrightarrow>
     (\<exists>i<length s. re_used (s ! i) \<and> strcasecmp_eq (re_path (s ! i)) p \<and> re_value (s ! i) = v)"
  by (auto simp: reg_lookup_def find_key_iff)

lemma reg_inv_start: "reg_inv reg_start"
  by (simp add: reg_inv_def reg_start_def MAX_REG_def)

lemma handle_of_index: "i < 128 \<Longrightarrow> handle_index (of_nat (i + 1)) = Some i"
proof -
  assume "i < 128"
  then have "unat (of_nat (i + 1) :: u64) = i + 1"
    by (simp add: unsigned_of_nat take_bit_nat_eq_self del: of_nat_add of_nat_Suc)
  then show ?thesis using \<open>i < 128\<close> by (simp add: handle_index_def MAX_REG_def)
qed

text \<open>Replacing an entry of a used slot, or filling a free one with a path that is not there.\<close>

lemma reg_update:
  assumes "reg_inv s" "i < length s" "re_used e" "length (re_path e) < 256" "length (re_value e) < 256"
    and "\<And>j. j < length s \<Longrightarrow> j \<noteq> i \<Longrightarrow> re_used (s ! j) \<Longrightarrow> \<not> strcasecmp_eq (re_path (s ! j)) (re_path e)"
    and "re_used (s ! i) \<Longrightarrow> re_path (s ! i) = re_path e"
  shows "reg_inv (s[i := e])" "reg_lookup (s[i := e]) q = (if strcasecmp_eq (re_path e) q then Some (re_value e) else reg_lookup s q)"
proof -
  show inv: "reg_inv (s[i := e])"
    unfolding reg_inv_def
  proof (intro conjI allI impI ballI)
    show "length (s[i := e]) = MAX_REG" using assms(1) by (simp add: reg_inv_def)
    fix x assume "x \<in> set (s[i := e])"
    then have "x \<in> set s \<or> x = e" using set_update_subset_insert [of s i e] by auto
    then show "length (re_path x) < 256" "length (re_value x) < 256"
      using assms(1,4,5) by (auto simp: reg_inv_def)
  next
    fix j k assume jk: "j < length (s[i := e])" "k < length (s[i := e])"
      "re_used (s[i := e] ! j) \<and> re_used (s[i := e] ! k) \<and> strcasecmp_eq (re_path (s[i := e] ! j)) (re_path (s[i := e] ! k))"
    show "j = k"
    proof (cases "j = i \<or> k = i")
      case True
      then show ?thesis using jk assms(2,6) by (metis length_list_update nth_list_update_eq nth_list_update_neq strcasecmp_eq_sym)
    next
      case False
      then show ?thesis using jk assms(1) by (simp add: reg_inv_def)
    qed
  qed
  have "reg_lookup (s[i := e]) q = Some v \<longleftrightarrow> (if strcasecmp_eq (re_path e) q then Some (re_value e) else reg_lookup s q) = Some v" for v
  proof (cases "strcasecmp_eq (re_path e) q")
    case True
    have "j = i" if "j < length s" "j \<noteq> i \<longrightarrow> re_used (s ! j) \<and> strcasecmp_eq (re_path (s ! j)) q" for j
      using that assms(6) [OF that(1)] True by (metis strcasecmp_eq_sym strcasecmp_eq_trans)
    then show ?thesis unfolding reg_lookup_iff [OF inv] using True assms(2,3) by (auto simp: nth_list_update)
  next
    case False
    have "\<not> (re_used (s ! i) \<and> strcasecmp_eq (re_path (s ! i)) q)" using assms(7) False by auto
    then show ?thesis unfolding reg_lookup_iff [OF inv] using False reg_lookup_iff [OF assms(1), of q v] assms(2)
      by (auto simp: nth_list_update)
  qed
  then show "reg_lookup (s[i := e]) q = (if strcasecmp_eq (re_path e) q then Some (re_value e) else reg_lookup s q)"
    by (metis option.exhaust)
qed

definition key_path :: "reg_table \<Rightarrow> u64 \<Rightarrow> string option" where
  "key_path s h = map_option (\<lambda>i. re_path (s ! i)) (used_index h s)"

lemma open_spec:
  assumes "reg_inv s" "cellar_RegOpenKeyExA root sub out s = (s', Some h, st)"
  shows "st = ERROR_SUCCESS \<and> reg_inv s' \<and> (\<exists>p. key_path s' h = Some p \<and> strcasecmp_eq p (make_path 256 root sub s)) \<and>
    reg_lookup s' q = (if strcasecmp_eq (make_path 256 root sub s) q
      then Some (text_or [] (reg_lookup s (make_path 256 root sub s))) else reg_lookup s q)"
proof -
  define p where "p = make_path 256 root sub s"
  have lp: "length p < 256" unfolding p_def make_path_def by (auto simp: length_snprintf_s split: option.splits)
  have len: "length s = 128" using assms(1) by (simp add: reg_inv_def MAX_REG_def)
  show ?thesis
  proof (cases "find_key p s")
    case (Some i)
    note fk = Some [unfolded find_key_iff [OF assms(1)]]
    have r: "s' = s" "h = of_nat (i + 1)" "st = ERROR_SUCCESS"
      using assms(2) Some by (auto simp: cellar_RegOpenKeyExA_def p_def [symmetric] split: if_splits)
    have "handle_index h = Some i" unfolding r(2) using fk len by (intro handle_of_index) simp
    moreover have "reg_lookup s q = Some (text_or [] (reg_lookup s p))" if "strcasecmp_eq p q"
    proof -
      have "find_key q s = Some i" unfolding find_key_iff [OF assms(1)] using fk that strcasecmp_eq_trans by blast
      then show ?thesis using Some by (simp add: reg_lookup_def text_or_def)
    qed
    ultimately show ?thesis using r fk assms(1)
      by (auto simp: p_def [symmetric] key_path_def used_index_def)
  next
    case None
    then obtain i where i: "first_index (\<lambda>e. \<not> re_used e) s = Some i"
      "s' = s[i := \<lparr>re_used = True, re_path = snprintf_s 256 p, re_value = []\<rparr>]" "h = of_nat (i + 1)" "st = ERROR_SUCCESS"
      using assms(2) by (auto simp: cellar_RegOpenKeyExA_def p_def [symmetric] split: if_splits option.splits)
    note fi = first_index_Some [OF i(1)]
    let ?e = "\<lparr>re_used = True, re_path = p, re_value = []\<rparr>"
    have s': "s' = s[i := ?e]" using i(2) lp by (simp add: snprintf_s_id)
    have u: "reg_inv s'" "reg_lookup s' q = (if strcasecmp_eq (re_path ?e) q then Some (re_value ?e) else reg_lookup s q)" for q
      unfolding s' using fi None [unfolded find_key_None] lp by (intro reg_update [OF assms(1)]; simp)+
    have "handle_index h = Some i" unfolding i(3) using fi len by (intro handle_of_index) simp
    then have "key_path s' h = Some p" using fi by (simp add: key_path_def used_index_def s')
    then show ?thesis using u i(4) None by (simp add: p_def [symmetric] reg_lookup_def text_or_def)
  qed
qed

lemma set_spec:
  assumes "reg_inv s" "key_path s h = Some p" "cellar_RegSetValueExA h name data s = (s', st)"
  shows "st = ERROR_SUCCESS \<and> reg_inv s' \<and> key_path s' h = Some p \<and>
    reg_lookup s' q = (if strcasecmp_eq p q then Some (snprintf_s 256 (text_or [] data)) else reg_lookup s q)"
proof -
  obtain i where i: "used_index h s = Some i" "p = re_path (s ! i)" using assms(2) by (auto simp: key_path_def)
  have ui: "handle_index h = Some i" "re_used (s ! i)" "i < length s"
    using i(1) assms(1) by (auto simp: used_index_def handle_index_def reg_inv_def split: option.splits if_splits)
  let ?e = "(s ! i)\<lparr>re_value := snprintf_s 256 (text_or [] data)\<rparr>"
  have s': "s' = s[i := ?e]" "st = ERROR_SUCCESS" using assms(3) i(1) by (simp_all add: cellar_RegSetValueExA_def)
  have "length (re_path (s ! i)) < 256" using assms(1) ui(3) by (simp add: reg_inv_def)
  moreover have "\<not> strcasecmp_eq (re_path (s ! j)) (re_path (s ! i))" if "j < length s" "j \<noteq> i" "re_used (s ! j)" for j
    using assms(1) that ui by (auto simp: reg_inv_def)
  ultimately have u: "reg_inv s'" "reg_lookup s' q = (if strcasecmp_eq (re_path ?e) q then Some (re_value ?e) else reg_lookup s q)" for q
    unfolding s' using ui length_snprintf_s [of 256] by (intro reg_update [OF assms(1)]; simp)+
  then show ?thesis using s'(2) i(2) ui by (simp add: key_path_def used_index_def s'(1))
qed

lemma query_spec:
  assumes "reg_inv s" "key_path s h = Some p" "length (text_or [] (reg_lookup s p)) < unat c"
  shows "cellar_RegQueryValueExA h name True (Some c) s =
    (Some (the (reg_lookup s p) @ [CHR 0x00]), Some (of_nat (length (the (reg_lookup s p)) + 1)), ERROR_SUCCESS)"
proof -
  obtain i where i: "used_index h s = Some i" "p = re_path (s ! i)" using assms(2) by (auto simp: key_path_def)
  then have "find_key p s = Some i" unfolding find_key_iff [OF assms(1)]
    using assms(1) by (auto simp: used_index_def handle_index_def reg_inv_def split: option.splits if_splits)
  then have "reg_lookup s p = Some (re_value (s ! i))" by (simp add: reg_lookup_def)
  then show ?thesis using assms(3) i(1) by (simp add: cellar_RegQueryValueExA_def text_or_def Let_def)
qed

text \<open>The name of a value plays no part: the last value set under a key is the value of every name.\<close>

lemma value_name_ignored:
  "cellar_RegSetValueExA h a v s = cellar_RegSetValueExA h b v s"
  "cellar_RegQueryValueExA h a d c s = cellar_RegQueryValueExA h b d c s"
  by (simp_all add: cellar_RegSetValueExA_def cellar_RegQueryValueExA_def)

section \<open>Properties\<close>

text \<open>C22. The registry is a case-insensitive map from key paths to values: a value that is set through a
  handle is what a query returns through any later handle to the same path in any spelling, up to
  255 characters, and no other key changes.\<close>

theorem registry_set_query:
  assumes inv: "reg_inv s"
    and o1: "cellar_RegOpenKeyExA root sub True s = (s1, Some h, st1)"
    and set: "cellar_RegSetValueExA h name (Some v) s1 = (s2, st2)"
    and o2: "cellar_RegOpenKeyExA root2 sub2 True s2 = (s3, Some k, st3)"
    and same: "strcasecmp_eq (make_path 256 root sub s) (make_path 256 root2 sub2 s2)"
    and room: "256 \<le> unat c"
  shows "cellar_RegQueryValueExA k name2 True (Some c) s3 =
      (Some (snprintf_s 256 v @ [CHR 0x00]), Some (of_nat (length (snprintf_s 256 v) + 1)), ERROR_SUCCESS) \<and>
    (\<forall>q. \<not> strcasecmp_eq (make_path 256 root sub s) q \<longrightarrow> reg_lookup s3 q = reg_lookup s q)"
proof -
  note a = open_spec [OF inv o1]
  obtain p where p: "key_path s1 h = Some p" "strcasecmp_eq p (make_path 256 root sub s)" using a by blast
  note b = set_spec [OF a [THEN conjunct2, THEN conjunct1] p(1) set]
  note d = open_spec [OF b [THEN conjunct2, THEN conjunct1] o2]
  obtain p2 where p2: "key_path s3 k = Some p2" "strcasecmp_eq p2 (make_path 256 root2 sub2 s2)" using d by blast
  have eq: "strcasecmp_eq p q = strcasecmp_eq (make_path 256 root sub s) q"
    "strcasecmp_eq (make_path 256 root2 sub2 s2) q = strcasecmp_eq (make_path 256 root sub s) q" for q
    using p(2) same by (auto simp: strcasecmp_eq_def)
  have l2: "reg_lookup s2 q = (if strcasecmp_eq (make_path 256 root sub s) q then Some (snprintf_s 256 v) else reg_lookup s q)" for q
    using a b by (auto simp: eq text_or_def)
  have l3: "reg_lookup s3 q = (if strcasecmp_eq (make_path 256 root sub s) q then Some (snprintf_s 256 v) else reg_lookup s q)" for q
    using d l2 same by (auto simp: eq text_or_def)
  have v: "reg_lookup s3 p2 = Some (snprintf_s 256 v)" using l3 p2(2) same by (auto simp: strcasecmp_eq_def)
  have "length (snprintf_s 256 v) < unat c" using length_snprintf_s [of 256 v] room by simp
  then have "cellar_RegQueryValueExA k name2 True (Some c) s3 =
      (Some (snprintf_s 256 v @ [CHR 0x00]), Some (of_nat (length (snprintf_s 256 v) + 1)), ERROR_SUCCESS)"
    using query_spec [OF _ p2(1), of c name2] d v by (simp add: text_or_def)
  then show ?thesis using l3 by simp
qed

theorem registry_set_query_witness:
  "\<exists>s1 s2 s3. cellar_RegOpenKeyExA 0x80000001 (Some ''Soft'') True reg_start = (s1, Some 1, ERROR_SUCCESS) \<and>
     cellar_RegSetValueExA 1 (Some ''v'') (Some ''42'') s1 = (s2, ERROR_SUCCESS) \<and>
     cellar_RegOpenKeyExA 0x80000001 (Some ''SOFT'') True s2 = (s3, Some 1, ERROR_SUCCESS) \<and>
     cellar_RegQueryValueExA 1 None True (Some 300) s3 = (Some (''42'' @ [CHR 0x00]), Some 3, ERROR_SUCCESS)"
proof -
  define s1 where "s1 = fst (cellar_RegOpenKeyExA 0x80000001 (Some ''Soft'') True reg_start)"
  define s2 where "s2 = fst (cellar_RegSetValueExA 1 (Some ''v'') (Some ''42'') s1)"
  define s3 where "s3 = fst (cellar_RegOpenKeyExA 0x80000001 (Some ''SOFT'') True s2)"
  have "snd (cellar_RegOpenKeyExA 0x80000001 (Some ''Soft'') True reg_start) = (Some 1, ERROR_SUCCESS)" by code_simp
  then have 1: "cellar_RegOpenKeyExA 0x80000001 (Some ''Soft'') True reg_start = (s1, Some 1, ERROR_SUCCESS)"
    by (simp add: s1_def prod_eq_iff)
  have "snd (cellar_RegSetValueExA 1 (Some ''v'') (Some ''42'') s1) = ERROR_SUCCESS" unfolding s1_def by code_simp
  then have 2: "cellar_RegSetValueExA 1 (Some ''v'') (Some ''42'') s1 = (s2, ERROR_SUCCESS)" by (simp add: s2_def prod_eq_iff)
  have "snd (cellar_RegOpenKeyExA 0x80000001 (Some ''SOFT'') True s2) = (Some 1, ERROR_SUCCESS)"
    unfolding s2_def s1_def by code_simp
  then have 3: "cellar_RegOpenKeyExA 0x80000001 (Some ''SOFT'') True s2 = (s3, Some 1, ERROR_SUCCESS)"
    by (simp add: s3_def prod_eq_iff)
  have same: "strcasecmp_eq (make_path 256 0x80000001 (Some ''Soft'') reg_start) (make_path 256 0x80000001 (Some ''SOFT'') s2)"
    by (simp add: make_path_def root_name_def text_or_def snprintf_s_def backslash_def) code_simp
  have "unat (300 :: u64) = 300" by simp
  then show ?thesis
    using registry_set_query [OF reg_inv_start 1 2 3 same, of 300 None] 1 2 3 by (simp add: snprintf_s_id)
qed

end
