(* ===== verification/Win32Api.thy ===== *)
theory Win32Api
  imports Device Desktop Shell Com Profile
begin

text \<open>
  The functions of the smaller Windows libraries, \<^verbatim>\<open>src/win32/mod_*.c\<close>, as the programs see them:
  what each returns and what it stores through its pointers, on top of the display, notification,
  desktop, shell, COM and version components. Functions whose body only logs and returns a constant
  are that constant. Log lines are not modelled.
\<close>

type_synonym hresult = u32

definition S_OK :: hresult where "S_OK = 0"
definition E_FAIL :: hresult where "E_FAIL = 0x80004005"

section \<open>KERNEL32\<close>

text \<open>The status the process ends with.\<close>

definition cellar_ExitProcess :: "u32 \<Rightarrow> int" where
  "cellar_ExitProcess code = sint code"

definition INVALID_HANDLE_VALUE :: u64 where "INVALID_HANDLE_VALUE = -1"

definition cellar_GetStdHandle :: "u64 \<Rightarrow> u64" where
  "cellar_GetStdHandle nStdHandle = INVALID_HANDLE_VALUE"

text \<open>Nothing is written: the count stored is 0 and the call reports failure.\<close>

definition cellar_WriteFile :: "u64 \<Rightarrow> string \<Rightarrow> u64 \<Rightarrow> u64 option \<Rightarrow> u64 option \<times> bool" where
  "cellar_WriteFile hFile buf n written = (map_option (\<lambda>_. 0) written, False)"

definition cellar_GetModuleHandleA :: "string option \<Rightarrow> u64" where "cellar_GetModuleHandleA name = 0"
definition cellar_LoadLibraryA :: "string option \<Rightarrow> u64" where "cellar_LoadLibraryA name = 0"
definition cellar_FreeLibrary :: "u64 \<Rightarrow> bool" where "cellar_FreeLibrary h = True"
definition cellar_GetProcAddress :: "u64 \<Rightarrow> string option \<Rightarrow> u64" where "cellar_GetProcAddress h name = 0"
definition cellar_GetLastError :: u64 where "cellar_GetLastError = 0"

section \<open>USER32\<close>

definition IDOK :: int where "IDOK = 1"

text \<open>A message box becomes a notification and is answered at once.\<close>

definition cellar_MessageBoxA :: "string option \<Rightarrow> string option \<Rightarrow> notify_state \<Rightarrow> notify_state \<times> int" where
  "cellar_MessageBoxA text caption s =
     (snd (cellar_notify_show (Some \<lparr>nt_app = snprintf_s 64 ''user32'', nt_summary = snprintf_s 128 (text_or ''Message'' caption),
        nt_body = snprintf_s 256 (text_or [] text), nt_urgency = 0, nt_id = 0\<rparr>) s), IDOK)"

definition cellar_GetDesktopWindow :: u64 where "cellar_GetDesktopWindow = 1"
definition cellar_GetForegroundWindow :: u64 where "cellar_GetForegroundWindow = 1"

definition cellar_GetSystemMetrics :: "cellar_display option \<Rightarrow> int \<Rightarrow> int" where
  "cellar_GetSystemMetrics g nIndex =
     (let d = cellar_display_current g; m = cellar_display_primary d;
          w = (case m of None \<Rightarrow> 1920 | Some x \<Rightarrow> mo_width x); h = (case m of None \<Rightarrow> 1080 | Some x \<Rightarrow> mo_height x)
      in if nIndex = 0 \<or> nIndex = 16 then sint w
         else if nIndex = 1 \<or> nIndex = 17 then sint h
         else if nIndex = 80 then int (length (di_monitors d))
         else 0)"

section \<open>GDI32\<close>

definition cellar_CreateCompatibleDC :: "u64 \<Rightarrow> u64" where "cellar_CreateCompatibleDC hdc = 0xD00"
definition cellar_DeleteDC :: "u64 \<Rightarrow> bool" where "cellar_DeleteDC hdc = True"

definition cellar_GetDeviceCaps :: "cellar_display option \<Rightarrow> int \<Rightarrow> int" where
  "cellar_GetDeviceCaps g index =
     (case cellar_display_primary (cellar_display_current g) of None \<Rightarrow> 0
      | Some m \<Rightarrow>
          if index = 8 then sint (mo_width m) else if index = 10 then sint (mo_height m)
          else if index = 88 \<or> index = 90 then sint (mo_dpi m)
          else if index = 12 then (if mo_hdr m then 30 else 24)
          else if index = 24 then - 1
          else if index = 116 then sint (mo_refresh_hz m)
          else 0)"

section \<open>SHELL32\<close>

text \<open>The path stored, if there is room for one, and the result.\<close>

definition cellar_SHGetFolderPathA :: "shell_state \<Rightarrow> u32 \<Rightarrow> bool \<Rightarrow> string option \<times> hresult" where
  "cellar_SHGetFolderPathA s csidl path =
     (if \<not> path then (None, E_FAIL)
      else
        let k = csidl AND 0xFF; get = cellar_shell_get s;
            dir = (\<lambda>v. if get v = [] then (Some [], E_FAIL) else (Some (snprintf_s 260 (get v)), S_OK))
        in if k = 0x1A then dir CELLAR_ENV_APPDATA
           else if k = 0x1C then dir CELLAR_ENV_LOCALAPPDATA
           else if k = 0x23 then dir CELLAR_ENV_PROGRAMDATA
           else if k = 0x24 then dir CELLAR_ENV_WINDIR
           else if k = 0x25 then (Some (snprintf_s 260 (get CELLAR_ENV_WINDIR @ ''/system32'')), S_OK)
           else if k = 0x26 then dir CELLAR_ENV_PROGRAMFILES
           else if k = 0x28 then dir CELLAR_ENV_USERPROFILE
           else (Some [], E_FAIL))"

definition cellar_ShellExecuteA :: "string option \<Rightarrow> desktop_state \<Rightarrow> desktop_state \<times> u64" where
  "cellar_ShellExecuteA file s =
     (case file of
        Some u \<Rightarrow>
          if has_prefix u ''http://'' \<or> has_prefix u ''https://''
          then (case cellar_desktop_open_url (Some u) s of Ok s' \<Rightarrow> (s', 42) | _ \<Rightarrow> (s, 42))
          else (s, 42)
      | None \<Rightarrow> (s, 42))"

section \<open>Version queries\<close>

record osversioninfo =
  dwOSVersionInfoSize :: u64
  dwMajorVersion :: u64
  dwMinorVersion :: u64
  dwBuildNumber :: u64
  dwPlatformId :: u64
  szCSDVersion :: string

definition fill_version :: "osversioninfo \<Rightarrow> osversioninfo" where
  "fill_version vi =
     (let p = cellar_version_profile 2
      in vi\<lparr>dwMajorVersion := ucast (vp_major p), dwMinorVersion := ucast (vp_minor p), dwBuildNumber := ucast (vp_build p),
            dwPlatformId := 2, szCSDVersion := []\<rparr>)"

definition cellar_GetVersionExA :: "osversioninfo option \<Rightarrow> osversioninfo option \<times> bool" where
  "cellar_GetVersionExA vi =
     (case vi of None \<Rightarrow> (None, False)
      | Some v \<Rightarrow> if dwOSVersionInfoSize v < 20 then (vi, False) else (Some (fill_version v), True))"

definition cellar_RtlGetVersion :: "osversioninfo option \<Rightarrow> osversioninfo option \<times> u64" where
  "cellar_RtlGetVersion vi =
     (case vi of None \<Rightarrow> (None, 0xC0000001) | Some v \<Rightarrow> (Some (fill_version v), 0))"

definition cellar_NtQueryInformationProcess :: "u64 option \<Rightarrow> u64 option \<times> u64" where
  "cellar_NtQueryInformationProcess retlen = (map_option (\<lambda>_. 0) retlen, 0xC0000002)"

definition cellar_GetFileVersionInfoSizeA :: "u64 option \<Rightarrow> u64 option \<times> u64" where
  "cellar_GetFileVersionInfoSizeA handle = (map_option (\<lambda>_. 0) handle, 0)"

definition cellar_GetFileVersionInfoA :: bool where "cellar_GetFileVersionInfoA = False"

section \<open>OLE32\<close>

definition cellar_CoInitializeEx :: "u64 \<Rightarrow> com_state \<Rightarrow> com_state \<times> hresult" where
  "cellar_CoInitializeEx coinit s =
     (let s1 = (case cellar_com_register_builtins s of Ok t \<Rightarrow> t | _ \<Rightarrow> s)
      in (case cellar_com_init (if coinit AND 2 \<noteq> 0 then CELLAR_APT_STA else CELLAR_APT_MTA) s1 of (st, s2) \<Rightarrow>
            (s2, if st = CELLAR_OK then S_OK else E_FAIL)))"

definition cellar_CoUninitialize :: "com_state \<Rightarrow> com_state" where
  "cellar_CoUninitialize s = cellar_com_uninit s"

text \<open>COM is initialised on the first use; the factory's effect is an argument, as in theory Com.\<close>

definition cellar_CoCreateInstance ::
    "factory_sem \<Rightarrow> cellar_guid option \<Rightarrow> cellar_guid option \<Rightarrow> bool \<Rightarrow> com_state \<Rightarrow> com_heap \<Rightarrow>
     (com_state \<times> com_heap \<times> nat option \<times> hresult) cres" where
  "cellar_CoCreateInstance call clsid iid out s h =
     (let s1 = (if g_inited s then s else fst (cellar_CoInitializeEx 0 s))
      in cbind (cellar_com_create call clsid iid out s1 h) (\<lambda>(h', st, obj).
           Ok (s1, h', obj, if st = CELLAR_OK then S_OK else E_FAIL)))"

section \<open>WS2\_32 and COMDLG32\<close>

record wsadata =
  wd_version :: u16
  wd_high_version :: u16
  wd_description :: string
  wd_system_status :: string
  wd_max_sockets :: u16
  wd_max_udp :: u16

text \<open>The counter is an \<^verbatim>\<open>int\<close>; incrementing its largest value is undefined.\<close>

definition cellar_WSAStartup :: "u16 \<Rightarrow> bool \<Rightarrow> int \<Rightarrow> (int \<times> wsadata option) cres" where
  "cellar_WSAStartup ver data g_wsa =
     (if g_wsa \<ge> 2 ^ 31 - 1 then Fault
      else Ok (g_wsa + 1, if data then Some \<lparr>wd_version = (if ver \<noteq> 0 then ver else 0x0202), wd_high_version = 0x0202,
             wd_description = ''Cellar Winsock 2.2'', wd_system_status = ''Running'', wd_max_sockets = 0xFFFF, wd_max_udp = 0\<rparr> else None))"

definition cellar_WSACleanup :: "int \<Rightarrow> int" where
  "cellar_WSACleanup g_wsa = (if g_wsa > 0 then g_wsa - 1 else g_wsa)"

definition cellar_socket :: int where "cellar_socket = 1"
definition cellar_closesocket :: "int \<Rightarrow> int" where "cellar_closesocket s = 0"

text \<open>The shifts are done on \<^verbatim>\<open>int\<close> and the result is cut to 16 bits.\<close>

definition cellar_htons_w :: "u16 \<Rightarrow> u16" where
  "cellar_htons_w x = ucast ((push_bit 8 (ucast x :: u32)) OR drop_bit 8 (ucast x :: u32))"

definition cellar_GetOpenFileNameA :: bool where "cellar_GetOpenFileNameA = False"
definition cellar_GetSaveFileNameA :: bool where "cellar_GetSaveFileNameA = False"

section \<open>Facts\<close>

lemma htons_involution: "cellar_htons_w (cellar_htons_w x) = x"
  by (rule bit_word_eqI) (auto simp: cellar_htons_w_def bit_simps dest: bit_imp_le_length)

lemma htons_bytes: "cellar_htons_w (push_bit 8 (ucast (h :: u8)) OR ucast (l :: u8)) = push_bit 8 (ucast l) OR ucast h"
  by (rule bit_word_eqI) (auto simp: cellar_htons_w_def bit_simps dest: bit_imp_le_length)

text \<open>Every start can be undone by one cleanup.\<close>

lemma wsa_balance: "cellar_WSAStartup v d n = Ok (n', w) \<Longrightarrow> 0 \<le> n \<Longrightarrow> cellar_WSACleanup n' = n"
  by (auto simp: cellar_WSAStartup_def cellar_WSACleanup_def split: if_splits)

text \<open>All version queries agree, and name Windows 10.\<close>

lemma version_queries_agree:
  "cellar_GetVersionExA (Some v) = (Some w, True) \<Longrightarrow> cellar_RtlGetVersion (Some v) = (Some w, 0) \<and>
     dwMajorVersion w = 10 \<and> dwMinorVersion w = 0 \<and> dwBuildNumber w = 19045"
  by (auto simp: cellar_GetVersionExA_def cellar_RtlGetVersion_def fill_version_def cellar_version_profile_def k_win10_def
      split: if_splits)

text \<open>The metrics of USER32 and the capabilities of GDI32 describe the same monitor.\<close>

lemma metrics_caps_agree:
  "di_monitors (cellar_display_current g) \<noteq> [] \<Longrightarrow>
     cellar_GetSystemMetrics g 0 = cellar_GetDeviceCaps g 8 \<and> cellar_GetSystemMetrics g 1 = cellar_GetDeviceCaps g 10"
  by (auto simp: cellar_GetSystemMetrics_def cellar_GetDeviceCaps_def cellar_display_primary_def Let_def
      split: list.splits option.splits)

text \<open>The system folder is reported even before the shell folders are set up.\<close>

lemma system_folder_always:
  "\<not> sh_inited s \<Longrightarrow> cellar_SHGetFolderPathA s 0x25 True = (Some ''/system32'', S_OK)"
  by (simp add: cellar_SHGetFolderPathA_def cellar_shell_get_def snprintf_s_def)

end
