(* ===== verification/Ownership.thy ===== *)
theory Ownership
  imports Loader
begin

unbundle bit_operations_syntax

text \<open>
  The heap blocks of an image, \<^verbatim>\<open>src/loader/loader.c\<close>: which block each stage of a load allocates,
  resizes and frees, on every branch, and the release of an image. The values that the stages
  compute are those of \<^verbatim>\<open>Loader\<close>; here only the pointers move. A heap is the set of the live
  blocks; freeing anything else is \<open>Fault\<close>.
\<close>

section \<open>The heap\<close>

record heap =
  hp_live :: "nat set"
  hp_next :: nat

definition heap_wf :: "heap \<Rightarrow> bool" where
  "heap_wf h \<longleftrightarrow> (\<forall>a\<in>hp_live h. a < hp_next h)"

text \<open>A granted \<^verbatim>\<open>malloc\<close> or \<^verbatim>\<open>calloc\<close>: a block that is not in use.\<close>

definition h_new :: "heap \<Rightarrow> nat \<times> heap" where
  "h_new h = (hp_next h, h\<lparr>hp_live := insert (hp_next h) (hp_live h), hp_next := hp_next h + 1\<rparr>)"

definition h_free :: "nat option \<Rightarrow> heap \<Rightarrow> heap cres" where
  "h_free p h =
     (case p of None \<Rightarrow> Ok h
      | Some a \<Rightarrow> if a \<in> hp_live h then Ok (h\<lparr>hp_live := hp_live h - {a}\<rparr>) else Fault)"

fun h_free_all :: "nat option list \<Rightarrow> heap \<Rightarrow> heap cres" where
  "h_free_all [] h = Ok h"
| "h_free_all (p # ps) h = cbind (h_free p h) (h_free_all ps)"

text \<open>A granted \<^verbatim>\<open>realloc\<close>: a new block in the place of the old one.\<close>

definition h_realloc :: "nat option \<Rightarrow> heap \<Rightarrow> (nat \<times> heap) cres" where
  "h_realloc p h = cbind (h_free p h) (\<lambda>h'. Ok (h_new h'))"

section \<open>The pointers of an image\<close>

text \<open>The owned pointers of \<^verbatim>\<open>cellar_image_t\<close>; \<open>None\<close> is NULL. The entries of the name array
  are owned as well.\<close>

record owned =
  ow_sections :: "nat option"
  ow_raw :: "nat option"
  ow_mapped :: "nat option"
  ow_imports :: "nat option"
  ow_export_names :: "nat option"
  ow_export_entries :: "nat option list"

definition owned_none :: owned where
  "owned_none = \<lparr>ow_sections = None, ow_raw = None, ow_mapped = None, ow_imports = None,
     ow_export_names = None, ow_export_entries = []\<rparr>"

text \<open>The order of the calls of \<^verbatim>\<open>free\<close>; the entries are visited only when the array is there.\<close>

definition release_order :: "owned \<Rightarrow> nat option list" where
  "release_order o1 =
     [ow_sections o1] @
     (case ow_export_names o1 of None \<Rightarrow> [] | Some a \<Rightarrow> ow_export_entries o1 @ [Some a]) @
     [ow_imports o1, ow_mapped o1, ow_raw o1]"

definition cellar_image_unload :: "owned \<Rightarrow> heap \<Rightarrow> (owned \<times> heap) cres" where
  "cellar_image_unload o1 h = cbind (h_free_all (release_order o1) h) (\<lambda>h'. Ok (owned_none, h'))"

section \<open>What the stages allocate\<close>

text \<open>The pointers and the heap.\<close>

type_synonym mem = "owned \<times> heap"

definition parse_headers_mem :: "(nat \<Rightarrow> bool) \<Rightarrow> bytes \<Rightarrow> heap \<Rightarrow> mem" where
  "parse_headers_mem alloc d h =
     (case cellar_parse_headers alloc (Some d) of
        Ok img \<Rightarrow>
          if img_sections img = [] then (owned_none, h)
          else (case h_new h of (a, h') \<Rightarrow> (owned_none\<lparr>ow_sections := Some a\<rparr>, h'))
      | _ \<Rightarrow> (owned_none, h))"

definition map_sections_mem :: "load_env \<Rightarrow> cellar_image \<Rightarrow> mem \<Rightarrow> mem" where
  "map_sections_mem env img m =
     (let size = unat (opt_size_of_image (img_opt img)) in
      if size = 0 \<or> \<not> le_alloc env size then m
      else (case (m, h_new (snd m)) of ((o1, _), (a, h')) \<Rightarrow> (o1\<lparr>ow_mapped := Some a\<rparr>, h')))"

text \<open>The import array grows when it is full.\<close>

definition grow_mem :: "nat \<Rightarrow> nat \<Rightarrow> mem \<Rightarrow> mem cres" where
  "grow_mem cap cap' m =
     (if cap' = cap then Ok m
      else cbind (h_realloc (ow_imports (fst m)) (snd m)) (\<lambda>(a, h').
             Ok ((fst m)\<lparr>ow_imports := Some a\<rparr>, h')))"

text \<open>The loops over thunks and descriptors, with the memory they leave behind; a refused
  \<^verbatim>\<open>realloc\<close> leaves the old array in place.\<close>

partial_function (option) thunk_loop_mem ::
    "load_env \<Rightarrow> cellar_image \<Rightarrow> nat \<Rightarrow> u32 \<Rightarrow> u32 \<Rightarrow> cellar_import list \<times> nat \<Rightarrow> mem \<Rightarrow> mem cres option" where
  "thunk_loop_mem env img module iat_rva idx st m =
     (case thunk_body env img module (iat_rva + idx * thunk_size img) st of
        Ok (Some st') \<Rightarrow>
          (case grow_mem (snd st) (snd st') m of
             Ok m' \<Rightarrow> thunk_loop_mem env img module iat_rva (idx + 1) st' m'
           | _ \<Rightarrow> Some Fault)
      | _ \<Rightarrow> Some (Ok m))"

partial_function (option) import_loop_mem ::
    "load_env \<Rightarrow> cellar_image \<Rightarrow> u32 \<Rightarrow> cellar_import list \<times> nat \<Rightarrow> mem \<Rightarrow> mem cres option" where
  "import_loop_mem env img rva st m =
     (case desc_step img rva of
        Ok DescSkip \<Rightarrow> import_loop_mem env img (rva + of_nat sizeof_descriptor) st m
      | Ok (DescBind p iat) \<Rightarrow>
          Option.bind (thunk_loop_mem env img p iat 0 st m) (\<lambda>r. case r of
            Ok m' \<Rightarrow> Option.bind (thunk_loop env img p iat 0 st) (\<lambda>q. case q of
              Ok st' \<Rightarrow> import_loop_mem env img (rva + of_nat sizeof_descriptor) st' m'
            | _ \<Rightarrow> Some (Ok m'))
          | _ \<Rightarrow> Some Fault)
      | _ \<Rightarrow> Some (Ok m))"

definition parse_imports_mem :: "load_env \<Rightarrow> cellar_image \<Rightarrow> mem \<Rightarrow> mem cres option" where
  "parse_imports_mem env img m =
     (let dir = data_dir img CELLAR_PE_DIR_IMPORT in
      if dd_virtual_address dir = 0 \<or> dd_size dir = 0 then Some (Ok m)
      else import_loop_mem env img (dd_virtual_address dir) ([], 0) m)"

text \<open>One block for every name that is kept.\<close>

fun entries_mem :: "string option list \<Rightarrow> heap \<Rightarrow> nat option list \<times> heap" where
  "entries_mem [] h = ([], h)"
| "entries_mem (n # ns) h =
     (case n of
        None \<Rightarrow> (case entries_mem ns h of (es, h') \<Rightarrow> (None # es, h'))
      | Some _ \<Rightarrow> (case h_new h of (a, h1) \<Rightarrow> (case entries_mem ns h1 of (es, h') \<Rightarrow> (Some a # es, h'))))"

text \<open>The number of names of the directory, when the code gets to allocate the arrays, with the
  addresses of the names.\<close>

definition export_table :: "cellar_image \<Rightarrow> (nat \<times> u32) option" where
  "export_table img =
     (let dir = data_dir img CELLAR_PE_DIR_EXPORT in
      if dd_virtual_address dir = 0 \<or> dd_size dir = 0 then None
      else (case cellar_image_read img (dd_virtual_address dir) (of_nat sizeof_export_directory) of
              Ok (Some b) \<Rightarrow> (case export_directory_of b of None \<Rightarrow> None
                | Some ed \<Rightarrow>
                    let n = unat (ed_number_of_names ed) in
                    if n = 0 \<or> 0x100000 < n then None else Some (n, ed_address_of_names ed))
            | _ \<Rightarrow> None))"

definition parse_exports_mem :: "load_env \<Rightarrow> cellar_image \<Rightarrow> mem \<Rightarrow> mem cres" where
  "parse_exports_mem env img m =
     (case export_table img of None \<Rightarrow> Ok m
      | Some (n, addr) \<Rightarrow>
          if \<not> le_alloc env (n * 8) then Ok m
          else
            (case h_new (snd m) of (names, h1) \<Rightarrow>
              if \<not> le_alloc env (n * 4)
              then cbind (h_free (Some names) h1) (\<lambda>h2. Ok ((fst m)\<lparr>ow_export_names := None\<rparr>, h2))
              else
                (case h_new h1 of (tmp, h2) \<Rightarrow>
                  let o1 = (fst m)\<lparr>ow_export_names := Some names, ow_export_entries := replicate n None\<rparr> in
                  case parse_exports env img of
                    Ok img' \<Rightarrow>
                      (case entries_mem (the (img_export_names img')) h2 of (es, h3) \<Rightarrow>
                        cbind (h_free (Some tmp) h3) (\<lambda>h4. Ok (o1\<lparr>ow_export_entries := es\<rparr>, h4)))
                  | _ \<Rightarrow> cbind (h_free (Some tmp) h2) (\<lambda>h3. Ok (o1, h3)))))"

section \<open>The load\<close>

text \<open>A stage gives its result and the memory; a failed stage is followed by the release of
  everything.\<close>

type_synonym 'a run = "('a cres \<times> mem) option"

definition mem_bind :: "'a run \<Rightarrow> ('a \<Rightarrow> mem \<Rightarrow> 'b run) \<Rightarrow> 'b run" where
  "mem_bind r f = Option.bind r (\<lambda>(v, m). case v of
     Ok x \<Rightarrow> f x m
   | Err e \<Rightarrow> (case cellar_image_unload (fst m) (snd m) of Ok m' \<Rightarrow> Some (Err e, m') | _ \<Rightarrow> Some (Fault, m))
   | Fault \<Rightarrow> Some (Fault, m))"

text \<open>The result of a stage beside its memory; a fault of the memory is a fault of the stage.\<close>

definition with_mem :: "'a cres option \<Rightarrow> mem cres option \<Rightarrow> mem \<Rightarrow> 'a run" where
  "with_mem r mm m0 = Option.bind r (\<lambda>v. Option.bind mm (\<lambda>q. case q of
     Ok m \<Rightarrow> Some (v, m) | _ \<Rightarrow> Some (Fault, m0)))"

definition load_buffer_mem ::
    "load_env \<Rightarrow> bytes option \<Rightarrow> u32 \<Rightarrow> perf_counters \<Rightarrow> heap \<Rightarrow> (cellar_image \<times> perf_counters) run" where
  "load_buffer_mem env data flags c h =
     (case data of None \<Rightarrow> Some (Err CELLAR_ERR_INVALID_ARGUMENT, (owned_none, h))
      | Some d \<Rightarrow>
        (case (cellar_parse_headers (le_alloc env) (Some d), parse_headers_mem (le_alloc env) d h) of
           (Fault, m) \<Rightarrow> Some (Fault, m)
         | (Err e, m) \<Rightarrow> Some (Err e, m)
         | (Ok img, (o0, h0)) \<Rightarrow>
        mem_bind
          (if \<not> le_alloc env (if length d \<noteq> 0 then length d else 1)
           then Some (Err CELLAR_ERR_OUT_OF_MEMORY, (o0, h0))
           else (case h_new h0 of (a, h1) \<Rightarrow>
             Some (Ok (img\<lparr>img_raw := Some d, img_raw_size := length d\<rparr>, c), (o0\<lparr>ow_raw := Some a\<rparr>, h1))))
          (\<lambda>(i, k) m.
        mem_bind
          (if flags AND CELLAR_LOAD_MAP_SECTIONS \<noteq> 0
           then with_mem (Some (map_sections env i k)) (Some (Ok (map_sections_mem env i m))) m
           else Some (Ok (i, k), m))
          (\<lambda>(i, k) m.
        mem_bind
          (if flags AND CELLAR_LOAD_PARSE_IMPORTS \<noteq> 0
           then with_mem (parse_imports env i k) (parse_imports_mem env i m) m
           else Some (Ok (i, k), m))
          (\<lambda>(i, k) m.
        mem_bind
          (if flags AND CELLAR_LOAD_PARSE_EXPORTS \<noteq> 0
           then with_mem (Some (cbind (parse_exports env i) (\<lambda>i'. Ok (i', k)))) (Some (parse_exports_mem env i m)) m
           else Some (Ok (i, k), m))
          (\<lambda>(i, k) m.
        mem_bind
          (if flags AND CELLAR_LOAD_PARSE_RELOCS \<noteq> 0
           then with_mem (obind (parse_relocs i) (\<lambda>i'. Some (Ok (i', k)))) (Some (Ok m)) m
           else Some (Ok (i, k), m))
          (\<lambda>(i, k) m.
            let c1 = cellar_perf_count_images k;
                c2 = (if img_sections_mapped i
                      then cellar_perf_count_map (of_nat (img_mapped_size i)) c1 else c1)
            in Some (Ok (i, c2), m))))))))"

text \<open>A file's bytes are in a buffer of their own, which is freed whatever the load said.\<close>

definition load_file_mem ::
    "load_env \<Rightarrow> fs \<Rightarrow> string \<Rightarrow> u32 \<Rightarrow> perf_counters \<Rightarrow> heap \<Rightarrow> (cellar_image \<times> perf_counters) run" where
  "load_file_mem env f path flags c h =
     (case read_file_perf env f path c of
        (Err e, c') \<Rightarrow> Some (Err e, (owned_none, h))
      | (Fault, c') \<Rightarrow> Some (Fault, (owned_none, h))
      | (Ok b, c') \<Rightarrow>
          (case h_new h of (buf, h1) \<Rightarrow>
            Option.bind (load_buffer_mem env (Some b) flags c' h1) (\<lambda>(r, (o1, h2)).
              case h_free (Some buf) h2 of
                Ok h3 \<Rightarrow> Some (r, (o1, h3)) | _ \<Rightarrow> Some (Fault, (o1, h2)))))"

section \<open>Facts on the heap\<close>

fun opt_list :: "'a option \<Rightarrow> 'a list" where
  "opt_list None = []"
| "opt_list (Some a) = [a]"

fun somes :: "'a option list \<Rightarrow> 'a list" where
  "somes [] = []"
| "somes (p # ps) = opt_list p @ somes ps"

lemma somes_append [simp]: "somes (ps @ qs) = somes ps @ somes qs"
  by (induction ps) auto

lemma somes_replicate [simp]: "somes (replicate n None) = []"
  by (induction n) auto

text \<open>The blocks an image owns.\<close>

definition blocks :: "owned \<Rightarrow> nat list" where
  "blocks o1 = somes (release_order o1)"

text \<open>The live blocks are those of the rest of the program, \<open>L\<close>, and those of the image, each
  owned once.\<close>

definition mem_inv :: "nat set \<Rightarrow> mem \<Rightarrow> bool" where
  "mem_inv L m \<longleftrightarrow> heap_wf (snd m) \<and> hp_live (snd m) = L \<union> set (blocks (fst m)) \<and>
     L \<inter> set (blocks (fst m)) = {} \<and> distinct (blocks (fst m))"

lemma h_new_fresh: "heap_wf h \<Longrightarrow> hp_next h \<notin> hp_live h"
  by (auto simp: heap_wf_def)

lemma h_new_wf: "heap_wf h \<Longrightarrow> heap_wf (snd (h_new h))"
  by (auto simp: heap_wf_def h_new_def)

lemma h_free_wf: "heap_wf h \<Longrightarrow> heap_wf (h\<lparr>hp_live := hp_live h - A\<rparr>)"
  by (auto simp: heap_wf_def)

lemma h_free_all_ok:
  "distinct (somes ps) \<Longrightarrow> set (somes ps) \<subseteq> hp_live h \<Longrightarrow>
     h_free_all ps h = Ok (h\<lparr>hp_live := hp_live h - set (somes ps)\<rparr>)"
proof (induction ps arbitrary: h)
  case (Cons p ps)
  show ?case
  proof (cases p)
    case (Some a)
    have "h_free_all ps (h\<lparr>hp_live := hp_live h - {a}\<rparr>) =
        Ok (h\<lparr>hp_live := hp_live h - {a}\<rparr>\<lparr>hp_live := hp_live (h\<lparr>hp_live := hp_live h - {a}\<rparr>) - set (somes ps)\<rparr>)"
      using Cons.prems Some by (intro Cons.IH) auto
    moreover have "hp_live h - {a} - set (somes ps) = hp_live h - set (somes (p # ps))" using Some by auto
    moreover have "a \<in> hp_live h" using Cons.prems(2) Some by simp
    ultimately show ?thesis using Some by (simp add: h_free_def)
  qed (use Cons in \<open>simp add: h_free_def\<close>)
qed simp

lemma unload_ok:
  assumes "mem_inv L m"
  shows "\<exists>h'. cellar_image_unload (fst m) (snd m) = Ok (owned_none, h') \<and> hp_live h' = L \<and> heap_wf h'"
proof -
  have "h_free_all (release_order (fst m)) (snd m) =
      Ok (snd m\<lparr>hp_live := hp_live (snd m) - set (somes (release_order (fst m)))\<rparr>)"
    using assms by (intro h_free_all_ok) (auto simp: mem_inv_def blocks_def)
  then show ?thesis
    using assms h_free_wf [of "snd m"]
    by (auto simp: cellar_image_unload_def mem_inv_def blocks_def)
qed

lemma unload_none: "cellar_image_unload owned_none h = Ok (owned_none, h)"
  by (simp add: cellar_image_unload_def release_order_def owned_none_def h_free_def)

section \<open>The stages keep the books\<close>

lemma mem_inv_none: "heap_wf h \<Longrightarrow> mem_inv (hp_live h) (owned_none, h)"
  by (simp add: mem_inv_def blocks_def release_order_def owned_none_def)

text \<open>The blocks of the name array with its entries.\<close>

definition name_blocks :: "owned \<Rightarrow> nat list" where
  "name_blocks o1 = (case ow_export_names o1 of None \<Rightarrow> [] | Some a \<Rightarrow> somes (ow_export_entries o1) @ [a])"

lemma blocks_eq:
  "blocks o1 = opt_list (ow_sections o1) @ name_blocks o1 @ opt_list (ow_imports o1) @ opt_list (ow_mapped o1) @
     opt_list (ow_raw o1)"
  by (simp add: blocks_def release_order_def name_blocks_def split: option.split)

lemma name_blocks_update [simp]:
  "name_blocks (o1\<lparr>ow_sections := p\<rparr>) = name_blocks o1" "name_blocks (o1\<lparr>ow_raw := p\<rparr>) = name_blocks o1"
  "name_blocks (o1\<lparr>ow_mapped := p\<rparr>) = name_blocks o1" "name_blocks (o1\<lparr>ow_imports := p\<rparr>) = name_blocks o1"
  "name_blocks (o1\<lparr>ow_export_names := Some a, ow_export_entries := es\<rparr>) = somes es @ [a]"
  "name_blocks (o1\<lparr>ow_export_names := Some a\<rparr>) = somes (ow_export_entries o1) @ [a]"
  by (simp_all add: name_blocks_def split: option.split)

text \<open>The image gets blocks that were not in use.\<close>

lemma gain_blocks:
  assumes "mem_inv L (o1, h)" "heap_wf h'" "hp_live h' = hp_live h \<union> A" "hp_live h \<inter> A = {}"
    "set (blocks o2) = set (blocks o1) \<union> A" "distinct (blocks o2)"
  shows "mem_inv L (o2, h')"
  using assms by (auto simp: mem_inv_def)

text \<open>A new block goes to a field that was NULL.\<close>

lemma new_block:
  assumes "mem_inv L (o1, h)" "h_new h = (a, h')"
  shows "ow_sections o1 = None \<Longrightarrow> mem_inv L (o1\<lparr>ow_sections := Some a\<rparr>, h')"
    "ow_raw o1 = None \<Longrightarrow> mem_inv L (o1\<lparr>ow_raw := Some a\<rparr>, h')"
    "ow_mapped o1 = None \<Longrightarrow> mem_inv L (o1\<lparr>ow_mapped := Some a\<rparr>, h')"
    "ow_imports o1 = None \<Longrightarrow> mem_inv L (o1\<lparr>ow_imports := Some a\<rparr>, h')"
    "ow_export_names o1 = None \<Longrightarrow>
       mem_inv L (o1\<lparr>ow_export_names := Some a, ow_export_entries := replicate n None\<rparr>, h')"
proof -
  have w: "heap_wf h" and d: "distinct (blocks o1)" and f: "a \<notin> set (blocks o1)"
    and n: "hp_live h' = hp_live h \<union> {a}" "hp_live h \<inter> {a} = {}" "heap_wf h'"
    using assms h_new_fresh [of h] h_new_wf [of h] by (auto simp: mem_inv_def h_new_def)
  note gain = gain_blocks [OF assms(1) n(3) n(1,2)]
  show "ow_sections o1 = None \<Longrightarrow> mem_inv L (o1\<lparr>ow_sections := Some a\<rparr>, h')"
    using d f by (intro gain) (auto simp: blocks_eq)
  show "ow_raw o1 = None \<Longrightarrow> mem_inv L (o1\<lparr>ow_raw := Some a\<rparr>, h')"
    using d f by (intro gain) (auto simp: blocks_eq)
  show "ow_mapped o1 = None \<Longrightarrow> mem_inv L (o1\<lparr>ow_mapped := Some a\<rparr>, h')"
    using d f by (intro gain) (auto simp: blocks_eq)
  show "ow_imports o1 = None \<Longrightarrow> mem_inv L (o1\<lparr>ow_imports := Some a\<rparr>, h')"
    using d f by (intro gain) (auto simp: blocks_eq)
  assume e: "ow_export_names o1 = None"
  then have "name_blocks o1 = []" by (simp add: name_blocks_def)
  then show "mem_inv L (o1\<lparr>ow_export_names := Some a, ow_export_entries := replicate n None\<rparr>, h')"
    using d f by (intro gain) (auto simp: blocks_eq)
qed

lemma headers_inv:
  assumes "heap_wf h"
  shows "mem_inv (hp_live h) (parse_headers_mem alloc d h)"
    "\<exists>s. fst (parse_headers_mem alloc d h) = owned_none\<lparr>ow_sections := s\<rparr>"
    "cellar_parse_headers alloc (Some d) = Err e \<Longrightarrow> parse_headers_mem alloc d h = (owned_none, h)"
proof -
  obtain a h' where n: "h_new h = (a, h')" by (cases "h_new h")
  have "mem_inv (hp_live h) (owned_none\<lparr>ow_sections := Some a\<rparr>, h')"
    using new_block(1) [OF mem_inv_none [OF assms] n] by (simp add: owned_none_def)
  then show "mem_inv (hp_live h) (parse_headers_mem alloc d h)"
    using mem_inv_none [OF assms] n
    by (auto simp: parse_headers_mem_def split: cres.splits)
  show "\<exists>s. fst (parse_headers_mem alloc d h) = owned_none\<lparr>ow_sections := s\<rparr>"
    using n by (auto simp: parse_headers_mem_def owned_none_def split: cres.splits)
qed (simp add: parse_headers_mem_def)

lemma map_sections_inv:
  assumes "mem_inv L m" "ow_mapped (fst m) = None"
  shows "mem_inv L (map_sections_mem env img m)"
    "ow_export_names (fst (map_sections_mem env img m)) = ow_export_names (fst m)"
  using assms new_block(3) [of L "fst m" "snd m"]
  by (cases m; cases "h_new (snd m)"; auto simp: map_sections_mem_def Let_def)+

lemma imports_owned: "ow_imports o1 = Some a \<Longrightarrow> a \<in> set (blocks o1)"
  by (simp add: blocks_eq)

lemma grow_inv:
  assumes "mem_inv L m"
  shows "\<exists>m'. grow_mem cap cap' m = Ok m' \<and> mem_inv L m' \<and> ow_export_names (fst m') = ow_export_names (fst m)"
proof (cases "cap' = cap")
  case False
  obtain o1 h where m: "m = (o1, h)" by (cases m)
  let ?h = "h\<lparr>hp_live := hp_live h - set (somes [ow_imports o1])\<rparr>"
  have f: "h_free (ow_imports o1) h = Ok ?h"
    using assms imports_owned [of o1]
    by (cases "ow_imports o1") (auto simp: m mem_inv_def h_free_def)
  have i: "mem_inv L (o1\<lparr>ow_imports := None\<rparr>, ?h)"
  proof (cases "ow_imports o1")
    case None
    then have "?h = h" "o1\<lparr>ow_imports := None\<rparr> = o1" by simp_all
    then show ?thesis using assms unfolding m by (simp only:)
  next
    case (Some b)
    have "set (blocks (o1\<lparr>ow_imports := None\<rparr>)) = set (blocks o1) - {b}" "distinct (blocks (o1\<lparr>ow_imports := None\<rparr>))"
      using assms Some by (auto simp: m mem_inv_def blocks_eq)
    then show ?thesis using assms h_free_wf [of h] imports_owned [OF Some] Some by (auto simp: m mem_inv_def)
  qed
  obtain a h' where n: "h_new ?h = (a, h')" by (cases "h_new ?h")
  have "mem_inv L (o1\<lparr>ow_imports := Some a\<rparr>, h')" using new_block(4) [OF i n] by simp
  then show ?thesis using False f n by (simp add: grow_mem_def h_realloc_def m)
qed (use assms in \<open>simp add: grow_mem_def\<close>)

text \<open>The value of a stage and its memory.\<close>

lemma thunk_mem_returns:
  assumes "thunk_loop env img p iat idx st = Some r"
  shows "mem_inv L m \<Longrightarrow> \<exists>m'. thunk_loop_mem env img p iat idx st m = Some (Ok m') \<and> mem_inv L m' \<and>
    ow_export_names (fst m') = ow_export_names (fst m)"
  using assms
proof (induction arbitrary: m rule: thunk_loop_induct)
  case (step tl env img p iat idx st r)
  show ?case
  proof (cases "thunk_body env img p (iat + idx * thunk_size img) st")
    case (Ok o1)
    show ?thesis
    proof (cases o1)
      case None
      then show ?thesis using Ok step.prems by (subst thunk_loop_mem.simps) simp
    next
      case (Some st')
      obtain m1 where m1: "grow_mem (snd st) (snd st') m = Ok m1" "mem_inv L m1"
        "ow_export_names (fst m1) = ow_export_names (fst m)"
        using grow_inv [OF step.prems(1)] by blast
      have "tl env img p iat (idx + 1) st' = Some r" using step.hyps Ok Some by simp
      from step.IH [OF this m1(2)] show ?thesis
        using Ok Some m1 by (subst thunk_loop_mem.simps) simp
    qed
  qed (use step.prems in \<open>subst thunk_loop_mem.simps, simp\<close>)+
qed

lemma import_mem_returns:
  assumes "import_loop env img rva st = Some r"
  shows "mem_inv L m \<Longrightarrow> \<exists>m'. import_loop_mem env img rva st m = Some (Ok m') \<and> mem_inv L m' \<and>
    ow_export_names (fst m') = ow_export_names (fst m)"
  using assms
proof (induction arbitrary: m rule: import_loop_induct)
  case (step il env img rva st r)
  note unf = import_loop_mem.simps [of env img rva st m]
  show ?case
  proof (cases "desc_step img rva")
    case (Ok d)
    show ?thesis
    proof (cases d)
      case DescSkip
      then have "il env img (rva + of_nat sizeof_descriptor) st = Some r" using step.hyps Ok by simp
      from step.IH [OF this step.prems(1)] show ?thesis unfolding unf using Ok DescSkip by simp
    next
      case (DescBind p iat)
      then obtain q where q: "thunk_loop env img p iat 0 st = Some q" "(case q of Fault \<Rightarrow> Some Fault | Err e \<Rightarrow> Some (Err e)
          | Ok st' \<Rightarrow> il env img (rva + of_nat sizeof_descriptor) st') = Some r"
        using step.hyps Ok by (auto simp: bind_eq_Some_conv)
      obtain m1 where m1: "thunk_loop_mem env img p iat 0 st m = Some (Ok m1)" "mem_inv L m1"
        "ow_export_names (fst m1) = ow_export_names (fst m)"
        using thunk_mem_returns [OF q(1) step.prems(1)] by blast
      show ?thesis
      proof (cases q)
        case (Ok st')
        then have "il env img (rva + of_nat sizeof_descriptor) st' = Some r" using q(2) by simp
        from step.IH [OF this m1(2)] show ?thesis
          unfolding unf using \<open>desc_step img rva = Ok d\<close> DescBind m1 q(1) Ok by simp
      qed (unfold unf, use \<open>desc_step img rva = Ok d\<close> DescBind m1 q(1) in simp_all)
    qed (unfold unf, use Ok step.prems in simp)
  qed (unfold unf, use step.prems in simp_all)
qed

lemma imports_inv:
  assumes "parse_imports env img c = Some r" "mem_inv L m"
  shows "\<exists>m'. parse_imports_mem env img m = Some (Ok m') \<and> mem_inv L m' \<and>
    ow_export_names (fst m') = ow_export_names (fst m)"
proof (cases "dd_virtual_address (data_dir img CELLAR_PE_DIR_IMPORT) = 0 \<or> dd_size (data_dir img CELLAR_PE_DIR_IMPORT) = 0")
  case False
  then obtain q where "import_loop env img (dd_virtual_address (data_dir img CELLAR_PE_DIR_IMPORT)) ([], 0) = Some q"
    using assms(1) by (auto simp: parse_imports_def Let_def bind_eq_Some_conv)
  from import_mem_returns [OF this assms(2)] show ?thesis using False by (simp add: parse_imports_mem_def Let_def)
qed (use assms in \<open>simp add: parse_imports_mem_def Let_def\<close>)

lemma entries_inv:
  "heap_wf h \<Longrightarrow> entries_mem ns h = (es, h') \<Longrightarrow>
     heap_wf h' \<and> hp_live h' = hp_live h \<union> set (somes es) \<and> hp_live h \<inter> set (somes es) = {} \<and> distinct (somes es)"
proof (induction ns arbitrary: h es)
  case (Cons n ns)
  show ?case
  proof (cases n)
    case None
    then show ?thesis using Cons.prems Cons.IH [OF Cons.prems(1)] by (auto split: prod.splits)
  next
    case (Some s)
    obtain a h1 where a: "h_new h = (a, h1)" by (cases "h_new h")
    obtain es1 where es: "entries_mem ns h1 = (es1, h')" "es = Some a # es1"
      using Cons.prems(2) Some a by (auto split: prod.splits)
    have "heap_wf h1" using h_new_wf [OF Cons.prems(1)] a by simp
    from Cons.IH [OF this es(1)] show ?thesis
      using es(2) a h_new_fresh [OF Cons.prems(1)] by (auto simp: h_new_def)
  qed
qed simp

lemma free_temp:
  assumes "mem_inv L (o1, h)" "h_new h = (t, h1)"
  shows "\<exists>h2. h_free (Some t) h1 = Ok h2 \<and> mem_inv L (o1, h2)"
  using assms h_new_fresh [of h] h_free_wf [OF h_new_wf, of h "{t}"]
  by (auto simp: mem_inv_def h_new_def h_free_def)

lemma exports_inv:
  assumes "mem_inv L m" "ow_export_names (fst m) = None"
  shows "\<exists>m'. parse_exports_mem env img m = Ok m' \<and> mem_inv L m'"
proof (cases "export_table img")
  case (Some na)
  obtain n addr where na: "na = (n, addr)" by (cases na)
  obtain o1 h where m: "m = (o1, h)" by (cases m)
  obtain a h1 where a: "h_new h = (a, h1)" by (cases "h_new h")
  obtain t h2 where t: "h_new h1 = (t, h2)" by (cases "h_new h1")
  let ?o = "o1\<lparr>ow_export_names := Some a, ow_export_entries := replicate n None\<rparr>"
  have i: "mem_inv L (?o, h1)" using new_block(5) [OF assms(1) [unfolded m] a] assms(2) by (simp add: m)
  obtain h3 where h3: "h_free (Some t) h2 = Ok h3" "mem_inv L (?o, h3)"
    using free_temp [OF i t] by blast
  obtain h0 where h0: "h_free (Some a) h1 = Ok h0" "mem_inv L (o1, h0)"
    using free_temp [OF assms(1) [unfolded m] a] by blast
  have o1: "o1\<lparr>ow_export_names := None\<rparr> = o1" using assms(2) by (simp add: m)
  show ?thesis
  proof (cases "parse_exports env img")
    case (Ok img')
    obtain es h4 where es: "entries_mem (the (img_export_names img')) h2 = (es, h4)" by fastforce
    have w: "heap_wf h2" using h_new_wf [of h1] t i by (simp add: mem_inv_def)
    have t1: "t \<notin> hp_live h1" "hp_live h2 = insert t (hp_live h1)"
      using t h_new_fresh [of h1] i by (auto simp: h_new_def mem_inv_def)
    note e = entries_inv [OF w es]
    have "h_free (Some t) h4 = Ok (h4\<lparr>hp_live := hp_live h4 - {t}\<rparr>)" using e t1 by (simp add: h_free_def)
    moreover have "mem_inv L (?o\<lparr>ow_export_entries := es\<rparr>, h4\<lparr>hp_live := hp_live h4 - {t}\<rparr>)"
    proof (rule gain_blocks [OF i])
      show "heap_wf (h4\<lparr>hp_live := hp_live h4 - {t}\<rparr>)" using e by (blast intro: h_free_wf)
      show "distinct (blocks (?o\<lparr>ow_export_entries := es\<rparr>))"
        using e t1 i by (auto simp: blocks_eq mem_inv_def)
    qed (use e t1 in \<open>auto simp: blocks_eq\<close>)
    ultimately show ?thesis
      using Some na m a t Ok es h0 assms(1) o1 by (simp add: parse_exports_mem_def)
  qed (use Some na m a t h3 h0 assms(1) o1 in \<open>simp_all add: parse_exports_mem_def\<close>)
qed (use assms in \<open>simp add: parse_exports_mem_def\<close>)

section \<open>The whole load\<close>

text \<open>A stage refines its value: the same result, and the books are kept unless it faults.\<close>

definition refines :: "nat set \<Rightarrow> 'a cres option \<Rightarrow> 'a run \<Rightarrow> (mem \<Rightarrow> bool) \<Rightarrow> bool" where
  "refines L v r Q \<longleftrightarrow> map_option fst r = v \<and>
     (\<forall>q m. r = Some (q, m) \<longrightarrow> q \<noteq> Fault \<longrightarrow> mem_inv L m \<and> (\<forall>x. q = Ok x \<longrightarrow> Q m))"

text \<open>A finished load: a failure has released everything.\<close>

definition settled :: "nat set \<Rightarrow> 'a cres option \<Rightarrow> 'a run \<Rightarrow> bool" where
  "settled L v r \<longleftrightarrow> map_option fst r = v \<and>
     (\<forall>x m. r = Some (Ok x, m) \<longrightarrow> mem_inv L m) \<and>
     (\<forall>e m. r = Some (Err e, m) \<longrightarrow> fst m = owned_none \<and> hp_live (snd m) = L)"

lemma settledD:
  assumes "settled L v r"
  shows "map_option fst r = v" "r = Some (Ok x, m) \<Longrightarrow> mem_inv L m"
    "r = Some (Err e, m) \<Longrightarrow> fst m = owned_none \<and> hp_live (snd m) = L"
  using assms by (cases m; auto simp: settled_def)+

lemma mem_bind_settled:
  assumes "refines L v r Q" "\<And>x m. mem_inv L m \<Longrightarrow> Q m \<Longrightarrow> settled L (g x) (f x m)"
  shows "settled L (obind v g) (mem_bind r f)"
proof (cases r)
  case None
  then show ?thesis using assms(1) by (simp add: refines_def settled_def obind_def mem_bind_def)
next
  case (Some vm)
  obtain q m where vm: "vm = (q, m)" by (cases vm)
  have v: "v = Some q" using assms(1) Some vm by (simp add: refines_def)
  show ?thesis
  proof (cases q)
    case (Ok x)
    then have "mem_inv L m" "Q m" using assms(1) Some vm by (cases m, simp add: refines_def)+
    then show ?thesis using assms(2) [of m x] Some vm v Ok by (simp add: obind_def mem_bind_def)
  next
    case (Err e)
    then have "mem_inv L m" using assms(1) Some vm by (cases m) (simp add: refines_def)
    then show ?thesis using unload_ok [of L m] Some vm v Err by (auto simp: obind_def mem_bind_def settled_def)
  qed (use Some vm v in \<open>simp add: obind_def mem_bind_def settled_def\<close>)
qed

lemma with_mem_refines:
  assumes "\<And>q. v = Some q \<Longrightarrow> \<exists>m'. mm = Some (Ok m') \<and> mem_inv L m' \<and> Q m'"
  shows "refines L v (with_mem v mm m) Q"
proof (cases v)
  case (Some q)
  then obtain m' where "mm = Some (Ok m')" "mem_inv L m'" "Q m'" using assms by blast
  then show ?thesis using Some by (cases m') (simp add: refines_def with_mem_def)
qed (simp add: refines_def with_mem_def)

lemma keep_refines: "mem_inv L m \<Longrightarrow> Q m \<Longrightarrow> refines L (Some (Ok x)) (Some (Ok x, m)) Q"
  by (cases m) (simp add: refines_def)

lemma obind_Ok: "obind (Some (Ok x)) f = f x"
  by (simp add: obind_def)

lemma mem_bind_Ok: "mem_bind (Some (Ok x, m)) f = f x m"
  by (cases m) (simp add: mem_bind_def)

lemma mem_bind_settled_pair:
  assumes "refines L v r Q" "\<And>i k m. mem_inv L m \<Longrightarrow> Q m \<Longrightarrow> settled L (g (i, k)) (f (i, k) m)"
  shows "settled L (obind v g) (mem_bind r f)"
proof (rule mem_bind_settled [OF assms(1)])
  fix x :: "'a \<times> 'b" and m assume "mem_inv L m" "Q m"
  then show "settled L (g x) (f x m)" using assms(2) by (cases x) simp
qed

lemma map_mem_stage:
  assumes "mem_inv L m" "ow_mapped (fst m) = None \<and> ow_export_names (fst m) = None"
  shows "refines L (if b then Some (map_sections env i k) else Some (Ok (i, k)))
    (if b then with_mem (Some (map_sections env i k)) (Some (Ok (map_sections_mem env i m))) m
     else Some (Ok (i, k), m)) (\<lambda>m. ow_export_names (fst m) = None)"
proof (cases b)
  case True
  have "refines L (Some (map_sections env i k))
      (with_mem (Some (map_sections env i k)) (Some (Ok (map_sections_mem env i m))) m)
      (\<lambda>m. ow_export_names (fst m) = None)"
    using map_sections_inv [of L m env i] assms by (intro with_mem_refines) simp
  then show ?thesis using True by simp
qed (use assms in \<open>simp add: keep_refines\<close>)

lemma imports_mem_stage:
  assumes "mem_inv L m" "ow_export_names (fst m) = None"
  shows "refines L (if b then parse_imports env i k else Some (Ok (i, k)))
    (if b then with_mem (parse_imports env i k) (parse_imports_mem env i m) m else Some (Ok (i, k), m))
    (\<lambda>m. ow_export_names (fst m) = None)"
proof (cases b)
  case True
  have "refines L (parse_imports env i k) (with_mem (parse_imports env i k) (parse_imports_mem env i m) m)
      (\<lambda>m. ow_export_names (fst m) = None)"
    using imports_inv [of env i k _ L m] assms by (intro with_mem_refines) force
  then show ?thesis using True by simp
qed (use assms in \<open>simp add: keep_refines\<close>)

lemma exports_mem_stage:
  assumes "mem_inv L m" "ow_export_names (fst m) = None"
  shows "refines L (if b then Some (cbind (parse_exports env i) (\<lambda>i'. Ok (i', k))) else Some (Ok (i, k)))
    (if b then with_mem (Some (cbind (parse_exports env i) (\<lambda>i'. Ok (i', k)))) (Some (parse_exports_mem env i m)) m
     else Some (Ok (i, k), m)) (\<lambda>_. True)"
proof (cases b)
  case True
  have "refines L (Some (cbind (parse_exports env i) (\<lambda>i'. Ok (i', k))))
      (with_mem (Some (cbind (parse_exports env i) (\<lambda>i'. Ok (i', k)))) (Some (parse_exports_mem env i m)) m) (\<lambda>_. True)"
    using exports_inv [OF assms, of env i] by (intro with_mem_refines) force
  then show ?thesis using True by simp
qed (use assms in \<open>simp add: keep_refines\<close>)

lemma relocs_mem_stage:
  assumes "mem_inv L m"
  shows "refines L (if b then obind (parse_relocs i) (\<lambda>i'. Some (Ok (i', k))) else Some (Ok (i, k)))
    (if b then with_mem (obind (parse_relocs i) (\<lambda>i'. Some (Ok (i', k)))) (Some (Ok m)) m
     else Some (Ok (i, k), m)) (\<lambda>_. True)"
proof (cases b)
  case True
  have "refines L (obind (parse_relocs i) (\<lambda>i'. Some (Ok (i', k))))
      (with_mem (obind (parse_relocs i) (\<lambda>i'. Some (Ok (i', k)))) (Some (Ok m)) m) (\<lambda>_. True)"
    using assms by (intro with_mem_refines) simp
  then show ?thesis using True by simp
qed (use assms in \<open>simp add: keep_refines\<close>)

lemma done_settled: "mem_inv L m \<Longrightarrow> settled L (Some (Ok x)) (Some (Ok x, m))"
  by (cases m) (simp add: settled_def)

lemma load_buffer_settled:
  assumes "heap_wf h"
  shows "settled (hp_live h) (cellar_image_load_buffer env data flags c) (load_buffer_mem env data flags c h)"
proof (cases data)
  case None
  then show ?thesis by (simp add: settled_def cellar_image_load_buffer_def load_buffer_mem_def)
next
  case (Some d)
  note hd = headers_inv [OF assms, of "le_alloc env" d]
  obtain o0 h0 where m0: "parse_headers_mem (le_alloc env) d h = (o0, h0)" by fastforce
  have i0: "mem_inv (hp_live h) (o0, h0)" and n0: "ow_raw o0 = None" "ow_mapped o0 = None" "ow_export_names o0 = None"
    using hd(1,2) m0 by (auto simp: owned_none_def)
  obtain a h1 where a: "h_new h0 = (a, h1)" by fastforce
  have i1: "mem_inv (hp_live h) (o0\<lparr>ow_raw := Some a\<rparr>, h1)" using new_block(2) [OF i0 a n0(1)] .
  show ?thesis
  proof (cases "cellar_parse_headers (le_alloc env) (Some d)")
    case (Ok img)
    show ?thesis
    proof (cases "le_alloc env (if length d \<noteq> 0 then length d else 1)")
      case True
      show ?thesis
        unfolding cellar_image_load_buffer_def load_buffer_mem_def Some option.case Ok m0 cres.case prod.case
          obind_Ok when_flag_def
        apply (simp only: True a if_True if_False not_True_eq_False prod.case mem_bind_Ok)
        apply (rule mem_bind_settled_pair [OF map_mem_stage])
          apply (use i1 n0 in simp_all) [2]
        apply (simp only: prod.case)
        apply (rule mem_bind_settled_pair [OF imports_mem_stage])
          apply assumption+
        apply (simp only: prod.case)
        apply (rule mem_bind_settled_pair [OF exports_mem_stage])
          apply assumption+
        apply (simp only: prod.case)
        apply (rule mem_bind_settled_pair [OF relocs_mem_stage])
         apply assumption
        apply (simp only: prod.case Let_def)
        apply (rule done_settled)
        apply assumption
        done
    next
      case False
      obtain h2 where "cellar_image_unload o0 h0 = Ok (owned_none, h2)" "hp_live h2 = hp_live h"
        using unload_ok [OF i0] by auto
      then show ?thesis using False Some Ok m0
        by (simp add: cellar_image_load_buffer_def load_buffer_mem_def obind_Ok mem_bind_def settled_def)
    qed
  qed (use hd(3) m0 Some in \<open>auto simp: settled_def cellar_image_load_buffer_def load_buffer_mem_def obind_def\<close>)
qed

lemma free_buffer:
  assumes "hp_live h = insert b L" "b \<notin> L"
  shows "\<exists>h'. h_free (Some b) h = Ok h' \<and> hp_live h' = L"
  using assms by (simp add: h_free_def)

lemma free_buffer_inv:
  assumes "mem_inv (insert b L) (o1, h)" "b \<notin> L"
  shows "\<exists>h'. h_free (Some b) h = Ok h' \<and> mem_inv L (o1, h')"
proof -
  have "h_free (Some b) h = Ok (h\<lparr>hp_live := hp_live h - {b}\<rparr>)" using assms by (simp add: mem_inv_def h_free_def)
  moreover have "mem_inv L (o1, h\<lparr>hp_live := hp_live h - {b}\<rparr>)"
    using assms by (auto simp: mem_inv_def heap_wf_def)
  ultimately show ?thesis by blast
qed

text \<open>Freeing the file buffer settles the load of a file.\<close>

lemma free_settled:
  assumes "settled (insert b L) v r" "b \<notin> L" "\<And>m. r \<noteq> Some (Fault, m)"
  shows "settled L v (Option.bind r (\<lambda>(r, (o1, h2)). case h_free (Some b) h2 of
    Ok h3 \<Rightarrow> Some (r, (o1, h3)) | _ \<Rightarrow> Some (Fault, (o1, h2))))"
proof (cases r)
  case (Some q)
  obtain x o1 h2 where q: "q = (x, o1, h2)" by (cases q)
  show ?thesis
  proof (cases x)
    case (Ok y)
    then have "mem_inv (insert b L) (o1, h2)" using assms(1) Some q by (simp add: settled_def)
    from free_buffer_inv [OF this assms(2)] show ?thesis using assms(1) Some q Ok by (auto simp: settled_def)
  next
    case (Err e)
    then have "o1 = owned_none" "hp_live h2 = insert b L" using assms(1) Some q by (auto simp: settled_def)
    with free_buffer [OF this(2) assms(2)] show ?thesis using assms(1) Some q Err by (auto simp: settled_def)
  qed (use assms(3) Some q in auto)
qed (use assms(1) in \<open>simp add: settled_def\<close>)

lemma load_file_settled:
  assumes "heap_wf h" "cellar_image_load_file env f path flags c \<noteq> Some Fault"
  shows "settled (hp_live h) (cellar_image_load_file env f path flags c) (load_file_mem env f path flags c h)"
proof -
  obtain r c' where r: "read_file_perf env f path c = (r, c')" by fastforce
  show ?thesis
  proof (cases r)
    case (Ok b)
    obtain buf h1 where n: "h_new h = (buf, h1)" by fastforce
    have h1: "heap_wf h1" "hp_live h1 = insert buf (hp_live h)" "buf \<notin> hp_live h"
      using n h_new_wf [OF assms(1)] h_new_fresh [OF assms(1)] by (auto simp: h_new_def)
    have s: "settled (insert buf (hp_live h)) (cellar_image_load_buffer env (Some b) flags c')
        (load_buffer_mem env (Some b) flags c' h1)"
      using load_buffer_settled [OF h1(1)] h1(2) by metis
    have e: "cellar_image_load_file env f path flags c = cellar_image_load_buffer env (Some b) flags c'"
      by (simp add: cellar_image_load_file_def r Ok)
    have "load_buffer_mem env (Some b) flags c' h1 \<noteq> Some (Fault, m)" for m
      using settledD(1) [OF s] assms(2) unfolding e by (cases "load_buffer_mem env (Some b) flags c' h1") auto
    from free_settled [OF s h1(3) this] show ?thesis
      unfolding e load_file_mem_def r prod.case Ok cres.case n .
  qed (simp_all add: r cellar_image_load_file_def load_file_mem_def settled_def)
qed

section \<open>Properties\<close>

text \<open>C3. A load neither leaks nor frees twice, on any input, with any flags and any answers of the
  allocator: following the pointers changes no result of the load; a load that fails leaves the
  heap with the blocks it had; the image of a load that succeeds can be released, which gives back
  exactly its blocks and leaves every other block alone, and releasing the cleared image again is
  harmless.\<close>

theorem load_owns_its_memory:
  assumes "heap_wf h"
  shows "map_option fst (load_buffer_mem env data flags c h) = cellar_image_load_buffer env data flags c \<and>
    (\<forall>e o1 h'. load_buffer_mem env data flags c h = Some (Err e, (o1, h')) \<longrightarrow>
      o1 = owned_none \<and> hp_live h' = hp_live h) \<and>
    (\<forall>x o1 h'. load_buffer_mem env data flags c h = Some (Ok x, (o1, h')) \<longrightarrow>
      (\<exists>h''. cellar_image_unload o1 h' = Ok (owned_none, h'') \<and> hp_live h'' = hp_live h \<and>
         cellar_image_unload owned_none h'' = Ok (owned_none, h'')))"
proof (intro conjI allI impI)
  note s = load_buffer_settled [OF assms, of env data flags c]
  show "map_option fst (load_buffer_mem env data flags c h) = cellar_image_load_buffer env data flags c"
    by (rule settledD(1) [OF s])
  fix e o1 h' assume "load_buffer_mem env data flags c h = Some (Err e, (o1, h'))"
  from settledD(3) [OF s this] show "o1 = owned_none" "hp_live h' = hp_live h" by simp_all
next
  fix x o1 h' assume "load_buffer_mem env data flags c h = Some (Ok x, (o1, h'))"
  from unload_ok [OF settledD(2) [OF load_buffer_settled [OF assms] this]]
  show "\<exists>h''. cellar_image_unload o1 h' = Ok (owned_none, h'') \<and> hp_live h'' = hp_live h \<and>
      cellar_image_unload owned_none h'' = Ok (owned_none, h'')"
    by (auto simp: unload_none)
qed

theorem load_owns_its_memory_witness:
  "\<exists>x o1 h' h''.
     load_buffer_mem free_env (Some small_pe) CELLAR_LOAD_MAP_SECTIONS perf_counters_zero
       \<lparr>hp_live = {5}, hp_next = 6\<rparr> = Some (Ok x, (o1, h')) \<and>
     cellar_image_unload o1 h' = Ok (owned_none, h'') \<and> hp_live h'' = {5}"
proof -
  let ?h = "\<lparr>hp_live = {5}, hp_next = 6\<rparr>"
  let ?r = "load_buffer_mem free_env (Some small_pe) CELLAR_LOAD_MAP_SECTIONS perf_counters_zero ?h"
  obtain img c' where l:
    "cellar_image_load_buffer free_env (Some small_pe) CELLAR_LOAD_MAP_SECTIONS perf_counters_zero = Some (Ok (img, c'))"
    using small_pe_loads by (rule load_okE)
  have w: "heap_wf ?h" by (simp add: heap_wf_def)
  note p = load_owns_its_memory [OF w, of free_env "Some small_pe" CELLAR_LOAD_MAP_SECTIONS perf_counters_zero]
  have "map_option fst ?r = Some (Ok (img, c'))" using p l by simp
  then obtain o1 h' where r: "?r = Some (Ok (img, c'), (o1, h'))" by (cases ?r) auto
  then obtain h'' where "cellar_image_unload o1 h' = Ok (owned_none, h'')" "hp_live h'' = {5}"
    using p by fastforce
  then show ?thesis using r by blast
qed

end
