(* ===== verification/LoadSafety.thy ===== *)
theory LoadSafety
  imports Loader
begin

unbundle bit_operations_syntax

text \<open>
  Memory safety of a whole load, \<^verbatim>\<open>src/loader/loader.c\<close> and \<^verbatim>\<open>src/loader/pe.c\<close>: which
  headers let the translation of addresses leave the mapped image, and that every stage stays inside
  the image when the header region and the sections end eight bytes before it does.
\<close>

section \<open>Where addresses are translated to\<close>

text \<open>The end of the addresses of a section, as \<^verbatim>\<open>section_for_rva\<close> takes it.\<close>

definition section_end :: "section_view \<Rightarrow> nat" where
  "section_end s = unat (sv_virtual_address s) + max (unat (sv_virtual_size s)) (unat (sv_raw_size s))"

definition section_empty :: "section_view \<Rightarrow> bool" where
  "section_empty s \<longleftrightarrow> sv_virtual_size s = 0 \<and> sv_raw_size s = 0"

lemma in_section_end: "in_section rva s \<longleftrightarrow> unat (sv_virtual_address s) \<le> unat rva \<and> unat rva < section_end s"
  by (simp add: in_section_def section_end_def)

lemma rva_cases:
  "cellar_image_rva img rva = Some p \<longleftrightarrow> p = unat rva \<and> img_mapped img \<noteq> None \<and>
     (unat rva < unat (opt_size_of_headers (img_opt img)) \<or> (\<exists>s\<in>set (img_sections img). in_section rva s))"
proof -
  have "section_for_rva img rva \<noteq> None \<longleftrightarrow> (\<exists>s\<in>set (img_sections img). in_section rva s)"
    by (auto simp: section_for_rva_def find_None_iff)
  then show ?thesis
    by (auto simp: cellar_image_rva_def word_less_nat_alt split: option.split)
qed

text \<open>An address below a bound that fits 32 bits is an address.\<close>

lemma rva_of_nat: "n < 2 ^ 32 \<Longrightarrow> \<exists>rva :: u32. unat rva = n"
  by (rule exI [of _ "of_nat n"]) (simp add: unsigned_of_nat take_bit_nat_eq_self)

section \<open>Images with room\<close>

text \<open>Eight bytes follow every translated address, and the last byte of the image is zero, so that
  every string of the image ends in it.\<close>

definition image_roomy :: "cellar_image \<Rightarrow> bool" where
  "image_roomy img \<longleftrightarrow> image_wf img \<and>
     (\<forall>m. img_mapped img = Some m \<longrightarrow> (m \<noteq> [] \<longrightarrow> last m = 0) \<and>
        (\<forall>rva p. cellar_image_rva img rva = Some p \<longrightarrow> p + 8 \<le> length m))"

lemma roomy_cong:
  assumes "image_roomy img" "img_mapped img' = img_mapped img" "img_mapped_size img' = img_mapped_size img"
    "img_opt img' = img_opt img" "img_sections img' = img_sections img"
  shows "image_roomy img'"
  using assms by (cases "img_mapped img") (auto simp: image_roomy_def image_wf_def rva_cases)

lemma roomy_rva:
  assumes "image_roomy img" "cellar_image_rva img rva = Some p"
  obtains m where "img_mapped img = Some m" "p + 8 \<le> length m"
  using assms image_rva_mapped [OF assms(2)] by (auto simp: image_roomy_def)

lemma roomy_string:
  assumes "image_roomy img" "img_mapped img = Some m" "p < length m"
  shows "0 \<in> set (drop p m)"
proof -
  have "last (drop p m) = last m" "drop p m \<noteq> []" using assms(3) by simp_all
  moreover have "last m = 0" using assms by (auto simp: image_roomy_def)
  ultimately show ?thesis by (metis last_in_set)
qed

section \<open>Imports stay inside\<close>

lemma read_thunk_no_fault:
  assumes "image_roomy img"
  shows "read_thunk img rva \<noteq> Fault"
proof (cases "cellar_image_rva img rva")
  case (Some p)
  with assms obtain m where m: "img_mapped img = Some m" "p + 8 \<le> length m" by (rule roomy_rva)
  then obtain v w where "u32_at m p = Some v" "u64_at m p = Some w"
    using u32_at_ex [of p m] u64_at_ex [of p m] by auto
  then show ?thesis using Some m by (simp add: read_thunk_def or_fault_def)
qed (simp add: read_thunk_def)

lemma export_scan_no_fault:
  "0 \<in> set s \<Longrightarrow> \<forall>e\<in>set es. no_nul (ex_name e) \<Longrightarrow> export_scan es s \<noteq> Fault"
  by (induction es) (simp_all add: mem_streq_cstr or_fault_def)

lemma resolve_mem_no_fault:
  assumes "image_roomy img" "img_mapped img = Some m" "registry_names_ok reg" "module < length m"
    and "\<And>f. fn = Some f \<Longrightarrow> f < length m"
  shows "resolve_mem reg m module fn \<noteq> Fault"
proof (cases fn)
  case (Some f)
  have c: "cstr_at m module \<noteq> None" using roomy_string [OF assms(1,2,4)] by (simp add: cstr_at_def)
  have s: "0 \<in> set (drop f m)" using roomy_string [OF assms(1,2)] assms(5) Some by simp
  have "export_scan (mod_exports md) (drop f m) \<noteq> Fault" if "cellar_win32_find_module reg (Some name) = Some md" for name md
  proof -
    have "md \<in> set (g_modules reg)" using that by (auto simp: cellar_win32_find_module_def dest: lookup_by_Some)
    then have "\<forall>e\<in>set (mod_exports md). no_nul (ex_name e)" using assms(3) by (simp add: registry_names_ok_def)
    with s show ?thesis by (rule export_scan_no_fault)
  qed
  then show ?thesis using Some c by (auto simp: resolve_mem_def or_fault_def split: option.split)
qed (simp add: resolve_mem_def)

lemma thunk_body_no_fault:
  assumes "image_roomy img" "img_mapped img = Some m" "registry_names_ok (le_registry env)" "module < length m"
  shows "thunk_body env img module iat st \<noteq> Fault"
proof -
  have name: "fn < length m" if t: "thunk_name img val b = Ok (Some fn, ord)" for val b fn ord
  proof -
    obtain fni where "cellar_image_rva img (ucast val) = Some fni" "fn = fni + 2"
      using t by (auto simp: thunk_name_def split: if_splits option.splits)
    then show ?thesis using roomy_rva [OF assms(1)] assms(2) by fastforce
  qed
  have res: "resolve_mem (le_registry env) m module fn \<noteq> Fault" if "thunk_name img val b = Ok (fn, ord)" for val b fn ord
  proof (rule resolve_mem_no_fault [OF assms])
    fix f assume "fn = Some f"
    then show "f < length m" using name [of val b f ord] that by simp
  qed
  have tn: "thunk_name img val b \<noteq> Fault" for val b
    by (simp add: thunk_name_def split: option.split)
  have gr: "grow_imports alloc n cap \<noteq> Fault" for alloc n cap
    by (simp add: grow_imports_def Let_def)
  show ?thesis
    unfolding thunk_body_def
  proof (rule cbind_not_Fault, goal_cases)
    case 1
    show ?case using assms(1) by (rule read_thunk_no_fault)
  next
    case (2 t)
    show ?case
    proof (cases t)
      case (Some vo)
      obtain val b where vo: "vo = (val, b)" by (cases vo)
      show ?thesis
        by (simp add: Some vo cbind_Fault_iff tn gr assms(2)) (use res in blast)
    qed simp
  qed
qed

lemma thunk_loop_no_fault:
  assumes "thunk_loop env img module iat idx st = Some r"
  shows "image_roomy img \<Longrightarrow> img_mapped img = Some m \<Longrightarrow> registry_names_ok (le_registry env) \<Longrightarrow>
    module < length m \<Longrightarrow> r \<noteq> Fault"
  using assms
proof (induction rule: thunk_loop_induct)
  case (step tl env img module iat idx st r)
  then show ?case
    using thunk_body_no_fault [OF step.prems, of "iat + idx * thunk_size img" st]
    by (cases "thunk_body env img module (iat + idx * thunk_size img) st") (auto split: option.splits)
qed

lemma descriptor_of_ex: "length b = 20 \<Longrightarrow> \<exists>d. descriptor_of b = Some d"
  using u32_at_ex [of 0 b] u32_at_ex [of 4 b] u32_at_ex [of 8 b] u32_at_ex [of 12 b] u32_at_ex [of 16 b]
  by (auto simp: descriptor_of_def)

lemma desc_step_no_fault:
  assumes "image_roomy img"
  shows "desc_step img rva \<noteq> Fault"
proof -
  have w: "image_wf img" using assms by (simp add: image_roomy_def)
  have "or_fault (descriptor_of b) \<noteq> Fault" if "cellar_image_read img rva 20 = Ok (Some b)" for b
    using image_read_copied [OF that] descriptor_of_ex [of b] by (auto simp: or_fault_Fault_iff)
  then show ?thesis using image_read_no_fault [OF w, of 20 rva]
    by (auto simp: desc_step_def cbind_Fault_iff sizeof_descriptor_def Let_def split: option.splits if_splits)
qed

lemma desc_step_Bind:
  "desc_step img rva = Ok (DescBind p iat) \<Longrightarrow> \<exists>a. cellar_image_rva img a = Some p"
  by (auto simp: desc_step_def cbind_Ok_iff Let_def split: option.splits if_splits)

lemma import_loop_no_fault:
  assumes "import_loop env img rva st = Some r"
  shows "image_roomy img \<Longrightarrow> registry_names_ok (le_registry env) \<Longrightarrow> r \<noteq> Fault"
  using assms
proof (induction rule: import_loop_induct)
  case (step il env img rva st r)
  have nf: "desc_step img rva \<noteq> Fault" using step.prems(1) by (rule desc_step_no_fault)
  show ?case
  proof (cases "\<exists>p iat. desc_step img rva = Ok (DescBind p iat)")
    case True
    then obtain p iat where d: "desc_step img rva = Ok (DescBind p iat)" by blast
    obtain a m where m: "cellar_image_rva img a = Some p" "img_mapped img = Some m" "p + 8 \<le> length m"
      using desc_step_Bind [OF d] roomy_rva [OF step.prems(1)] by metis
    obtain q where q: "thunk_loop env img p iat 0 st = Some q" "(case q of Fault \<Rightarrow> Some Fault | Err e \<Rightarrow> Some (Err e)
          | Ok st' \<Rightarrow> il env img (rva + of_nat sizeof_descriptor) st') = Some r"
      using step.hyps d by (auto simp: bind_eq_Some_conv)
    have "q \<noteq> Fault" using thunk_loop_no_fault [OF q(1) step.prems(1) m(2) step.prems(2)] m(3) by simp
    then show ?thesis using q(2) step.IH step.prems by (cases q) auto
  next
    case False
    then show ?thesis using nf step.hyps step.IH step.prems
      by (cases "desc_step img rva") (auto split: desc_step.splits)
  qed
qed

lemma parse_imports_no_fault:
  assumes "image_roomy img" "registry_names_ok (le_registry env)"
  shows "parse_imports env img c \<noteq> Some Fault"
proof
  let ?dir = "data_dir img CELLAR_PE_DIR_IMPORT"
  assume f: "parse_imports env img c = Some Fault"
  then obtain q where q: "import_loop env img (dd_virtual_address ?dir) ([], 0) = Some q"
    by (auto simp: parse_imports_def Let_def bind_eq_Some_conv split: if_splits)
  then have "q \<noteq> Fault" using import_loop_no_fault assms by blast
  then show False using f q by (cases q) (auto simp: parse_imports_def Let_def split: if_splits prod.splits)
qed

section \<open>Exports and relocations stay inside\<close>

lemma u64_of_nat: "n < 2 ^ 64 \<Longrightarrow> unat (of_nat n :: u64) = n"
  by (simp add: unsigned_of_nat take_bit_nat_eq_self)

lemma export_directory_of_ex: "length b = 40 \<Longrightarrow> \<exists>d. export_directory_of b = Some d"
  using u32_at_ex [of 12 b] u32_at_ex [of 16 b] u32_at_ex [of 20 b] u32_at_ex [of 24 b] u32_at_ex [of 28 b]
    u32_at_ex [of 32 b] u32_at_ex [of 36 b]
  by (auto simp: export_directory_of_def)

lemma export_name_no_fault: "0 \<in> set (drop p m) \<Longrightarrow> export_name_at m p \<noteq> Fault"
proof -
  assume z: "0 \<in> set (drop p m)"
  have "0 \<in> set (take 4096 (drop p m)) \<or> length (take 4096 (drop p m)) = 4096"
    using z by (cases "length (drop p m) \<le> 4096") auto
  then show ?thesis by (auto simp: export_name_at_def Let_def)
qed

lemma export_names_no_fault:
  assumes "image_roomy img"
  shows "export_names_loop env img rvas \<noteq> Fault"
proof (induction rvas)
  case (Cons rva rvas)
  have "export_name_at m p \<noteq> Fault" if p: "cellar_image_rva img rva = Some p" "img_mapped img = Some m" for p m
  proof -
    have "p + 8 \<le> length m" using assms p by (auto simp: image_roomy_def)
    then have "0 \<in> set (drop p m)" using assms p(2) by (intro roomy_string) simp_all
    then show ?thesis by (rule export_name_no_fault)
  qed
  then show ?case using Cons by (auto simp: cbind_Fault_iff split: option.splits)
qed simp

lemma parse_exports_no_fault:
  assumes "image_roomy img"
  shows "parse_exports env img \<noteq> Fault"
proof -
  have w: "image_wf img" using assms by (simp add: image_roomy_def)
  have ed: "or_fault (export_directory_of b) \<noteq> Fault" if "cellar_image_read img rva 40 = Ok (Some b)" for b rva
    using image_read_copied [OF that] export_directory_of_ex [of b] by (auto simp: or_fault_Fault_iff)
  have sz: "unat (of_nat (n * 4) :: u64) = n * 4" if "n \<le> 0x100000" for n
    using that by (intro u64_of_nat) simp
  have nf: "cellar_image_read img rva (of_nat (n * 4)) \<noteq> Fault" if "n \<le> 0x100000" for n rva
    using that by (intro image_read_no_fault [OF w]) (simp only: sz, simp)
  have nb: "or_fault (collect (\<lambda>i. u32_at b (4 * i)) [0..<n]) \<noteq> Fault"
    if "cellar_image_read img rva (of_nat (n * 4)) = Ok (Some b)" "n \<le> 0x100000" for b rva n
  proof -
    have "length b = n * 4" using image_read_copied [OF that(1)] sz [OF that(2)] by (simp only:)
    then have "\<exists>v. u32_at b (4 * i) = Some v" if "i < n" for i using that by (intro u32_at_ex) simp
    then show ?thesis using collect_ex [of "[0..<n]" "\<lambda>i. u32_at b (4 * i)"] by (auto simp: or_fault_Fault_iff)
  qed
  show ?thesis
    using image_read_no_fault [OF w, of 40] ed nb nf export_names_no_fault [OF assms]
    by (auto simp: parse_exports_def Let_def cbind_Fault_iff sizeof_export_directory_def
        simp del: of_nat_mult split: option.splits if_splits)
qed

lemma reloc_loop_no_fault:
  assumes "reloc_loop img end rva = Some r"
  shows "image_wf img \<Longrightarrow> r \<noteq> Fault"
  using assms
proof (induction rule: reloc_loop_induct)
  case (step lp img e rva r)
  have "base_reloc_of b \<noteq> None" if "cellar_image_read img rva 8 = Ok (Some b)" for b
  proof -
    have "length b = 8" using image_read_copied [OF that] by simp
    then show ?thesis using u32_at_ex [of 0 b] u32_at_ex [of 4 b] by (auto simp: base_reloc_of_def)
  qed
  then have "reloc_step img e rva \<noteq> Fault" using image_read_no_fault [OF step.prems, of 8 rva]
    by (auto simp: reloc_step_def cbind_Fault_iff sizeof_base_reloc_def or_fault_Fault_iff split: option.splits if_splits)
  then show ?case using step by (cases "reloc_step img e rva") (auto split: option.splits)
qed

lemma parse_relocs_no_fault:
  assumes "image_wf img"
  shows "parse_relocs img \<noteq> Some Fault"
  using reloc_loop_no_fault [OF _ assms]
  by (auto simp: parse_relocs_def Let_def bind_eq_Some_conv cbind_Fault_iff split: if_splits)

section \<open>From the headers to room\<close>

text \<open>The header region and every section end eight bytes before the image does, and no section
  copies from behind the end of the file.\<close>

definition headers_fit :: "nat \<Rightarrow> cellar_image \<Rightarrow> bool" where
  "headers_fit len img \<longleftrightarrow>
     (let n = unat (opt_size_of_image (img_opt img)) in
      unat (opt_size_of_headers (img_opt img)) + 8 \<le> n \<and>
      (\<forall>s\<in>set (img_sections img). section_end s + 8 \<le> n \<and> \<not> overread len n s))"

lemma in_section_view: "in_section rva (s\<lparr>sv_mapped := x\<rparr>) = in_section rva s"
  by (simp add: in_section_def)

lemma map_loop_views:
  "map_loop raw m ss = Ok (m', ss') \<Longrightarrow>
     (\<exists>s\<in>set ss'. in_section rva s) \<longleftrightarrow> (\<exists>s\<in>set ss. in_section rva s)"
proof (induction ss arbitrary: m ss')
  case (Cons s ss)
  then obtain m1 s1 ss1 where
    st: "map_section raw m s = Ok (m1, s1)" "map_loop raw m1 ss = Ok (m', ss1)" "ss' = s1 # ss1"
    by (auto simp: cbind_Ok_iff)
  have "in_section rva s1 = in_section rva s"
    using st(1) by (auto simp: map_section_eq in_section_view split: if_splits)
  then show ?case using Cons.IH [OF st(2)] st(3) by simp
qed simp

lemma map_sections_loop:
  assumes "map_sections env img c = Ok (i, k)" "img_raw img = Some raw"
  obtains m ss where
    "map_loop raw (mem_write 0 (take (min (min (unat (opt_size_of_headers (img_opt img)))
        (unat (opt_size_of_image (img_opt img)))) (length raw)) raw)
      (replicate (unat (opt_size_of_image (img_opt img))) 0)) (img_sections img) = Ok (m, ss)"
    "img_mapped i = Some m" "img_sections i = ss" "img_opt i = img_opt img"
  using assms by (auto simp: map_sections_def Let_def cbind_Ok_iff split: if_splits)

lemma map_sections_no_fault:
  assumes "img_raw img = Some raw" "headers_fit (length raw) img"
  shows "map_sections env img c \<noteq> Fault"
proof -
  let ?n = "unat (opt_size_of_image (img_opt img))"
  let ?m = "mem_write 0 (take (min (min (unat (opt_size_of_headers (img_opt img))) ?n) (length raw)) raw) (replicate ?n 0)"
  have l: "length ?m = ?n" by (simp add: length_mem_write)
  have "map_loop raw ?m (img_sections img) \<noteq> Fault"
    using assms(2) unfolding map_loop_Fault_iff l by (auto simp: headers_fit_def Let_def)
  moreover have "cellar_prefault ps m ?n c \<noteq> Fault" if "map_loop raw ?m (img_sections img) = Ok (m, ss)" for m ss ps
    using map_loop_length [OF that] l prefault_ok by simp
  ultimately show ?thesis
    using assms(1) by (auto simp: map_sections_def Let_def cbind_Fault_iff split: if_splits)
qed

lemma map_sections_roomy:
  assumes "map_sections env img c = Ok (i, k)" "img_raw img = Some raw" "headers_fit (length raw) img"
  shows "image_roomy i"
proof -
  let ?n = "unat (opt_size_of_image (img_opt img))" and ?h = "unat (opt_size_of_headers (img_opt img))"
  let ?m = "mem_write 0 (take (min (min ?h ?n) (length raw)) raw) (replicate ?n 0)"
  obtain m ss where m: "map_loop raw ?m (img_sections img) = Ok (m, ss)" "img_mapped i = Some m"
    "img_sections i = ss" "img_opt i = img_opt img"
    using map_sections_loop [OF assms(1,2)] by blast
  have fit: "?h + 8 \<le> ?n" "\<forall>s\<in>set (img_sections img). section_end s + 8 \<le> ?n"
    using assms(3) by (auto simp: headers_fit_def Let_def)
  have l0: "length ?m = ?n" by (simp add: length_mem_write)
  then have l: "length m = ?n" using map_loop_length [OF m(1)] by simp
  have "?m ! (?n - 1) = 0" using fit(1) by (subst nth_mem_write) auto
  moreover have "\<forall>s\<in>set (img_sections img). copied (length raw) (length ?m) s \<longrightarrow> ?n - 1 \<notin> vrange s"
    using fit(2) by (fastforce simp: vrange_def section_end_def)
  ultimately have "m ! (?n - 1) = 0" using map_loop_other [OF m(1), of "?n - 1"] fit(1) l0 by simp
  then have "m \<noteq> [] \<longrightarrow> last m = 0" using l by (simp add: last_conv_nth)
  moreover have "p + 8 \<le> length m" if "cellar_image_rva i rva = Some p" for rva p
  proof -
    have "p = unat rva" and c: "unat rva < ?h \<or> (\<exists>s\<in>set (img_sections img). in_section rva s)"
      using that map_loop_views [OF m(1), of rva] by (auto simp: rva_cases m)
    then show ?thesis using fit l by (fastforce simp: in_section_end)
  qed
  ultimately show ?thesis using map_sections_Ok [OF assms(1)] m(2) by (simp add: image_roomy_def)
qed

section \<open>The stages of a load\<close>

lemma obind_no_fault:
  "m \<noteq> Some Fault \<Longrightarrow> (\<And>x. m = Some (Ok x) \<Longrightarrow> f x \<noteq> Some Fault) \<Longrightarrow> obind m f \<noteq> Some Fault"
  by (cases m) (auto simp: obind_def split: cres.splits)

lemma imports_roomy: "parse_imports env i k = Some (Ok (i', k')) \<Longrightarrow> image_roomy i \<Longrightarrow> image_roomy i'"
  by (auto simp: parse_imports_def Let_def bind_res_Ok_iff split: if_splits elim: roomy_cong)

lemma exports_roomy: "parse_exports env i = Ok i' \<Longrightarrow> image_roomy i \<Longrightarrow> image_roomy i'"
  using parse_exports_frame [of env i i'] by (auto elim: roomy_cong)

lemma unmapped_roomy: "img_mapped img = None \<Longrightarrow> img_mapped_size img = 0 \<Longrightarrow> image_roomy img"
  by (simp add: image_roomy_def image_wf_def)

text \<open>One stage after the other: a stage does not fault on a roomy image and leaves it roomy, so the
  rest of the load may rely on that.\<close>

type_synonym load_rest = "cellar_image \<times> perf_counters \<Rightarrow> (cellar_image \<times> perf_counters) cres option"

lemma if_not: "(b \<Longrightarrow> x \<noteq> z) \<Longrightarrow> (\<not> b \<Longrightarrow> y \<noteq> z) \<Longrightarrow> (if b then x else y) \<noteq> z"
  by simp

lemma map_stage_no_fault:
  assumes "img_raw img = Some raw" "flags AND CELLAR_LOAD_MAP_SECTIONS \<noteq> 0 \<Longrightarrow> headers_fit (length raw) img"
    "img_mapped img = None" "img_mapped_size img = 0"
    and F: "\<And>i k. image_roomy i \<Longrightarrow> (F :: load_rest) (i, k) \<noteq> Some Fault"
  shows "obind (when_flag flags CELLAR_LOAD_MAP_SECTIONS (\<lambda>(i, k). Some (map_sections env i k)) (img, c)) F \<noteq> Some Fault"
proof (rule obind_no_fault)
  let ?m = "when_flag flags CELLAR_LOAD_MAP_SECTIONS (\<lambda>(i, k). Some (map_sections env i k)) (img, c)"
  show "?m \<noteq> Some Fault" using map_sections_no_fault [OF assms(1)] assms(2) by (simp add: when_flag_def)
  fix s assume s: "?m = Some (Ok s)"
  obtain i k where ik: "s = (i, k)" by (cases s)
  have "image_roomy i"
    using when_flag_cases [OF s] map_sections_roomy [of env img c i k raw] assms(1-4)
    by (auto simp: ik intro: unmapped_roomy)
  then show "F s \<noteq> Some Fault" using F ik by simp
qed

lemma imports_stage_no_fault:
  assumes "image_roomy i" "registry_names_ok (le_registry env)"
    and F: "\<And>i k. image_roomy i \<Longrightarrow> (F :: load_rest) (i, k) \<noteq> Some Fault"
  shows "obind (when_flag flags CELLAR_LOAD_PARSE_IMPORTS (\<lambda>(i, k). parse_imports env i k) (i, k)) F \<noteq> Some Fault"
proof (rule obind_no_fault)
  let ?m = "when_flag flags CELLAR_LOAD_PARSE_IMPORTS (\<lambda>(i, k). parse_imports env i k) (i, k)"
  show "?m \<noteq> Some Fault" using parse_imports_no_fault [OF assms(1,2)] by (simp add: when_flag_def)
  fix s assume "?m = Some (Ok s)"
  from when_flag_cases [OF this] show "F s \<noteq> Some Fault" using assms(1) imports_roomy F by (cases s) auto
qed

lemma exports_stage_no_fault:
  assumes "image_roomy i" and F: "\<And>i k. image_roomy i \<Longrightarrow> (F :: load_rest) (i, k) \<noteq> Some Fault"
  shows "obind (when_flag flags CELLAR_LOAD_PARSE_EXPORTS
    (\<lambda>(i, k). Some (cbind (parse_exports env i) (\<lambda>i'. Ok (i', k)))) (i, k)) F \<noteq> Some Fault"
proof (rule obind_no_fault)
  let ?m = "when_flag flags CELLAR_LOAD_PARSE_EXPORTS
    (\<lambda>(i, k). Some (cbind (parse_exports env i) (\<lambda>i'. Ok (i', k)))) (i, k)"
  show "?m \<noteq> Some Fault"
    using parse_exports_no_fault [OF assms(1)] by (simp add: when_flag_def cbind_Fault_iff)
  fix s assume "?m = Some (Ok s)"
  from when_flag_cases [OF this] show "F s \<noteq> Some Fault"
    using assms(1) exports_roomy F by (cases s) (auto simp: cbind_Ok_iff)
qed

lemma relocs_stage_no_fault:
  fixes G :: "cellar_image \<Rightarrow> perf_counters \<Rightarrow> cellar_image \<times> perf_counters"
  assumes "image_roomy i"
  shows "obind (when_flag flags CELLAR_LOAD_PARSE_RELOCS
    (\<lambda>(i, k). obind (parse_relocs i) (\<lambda>i'. Some (Ok (i', k)))) (i, k)) (\<lambda>(i, k). Some (Ok (G i k))) \<noteq> Some Fault"
proof (rule obind_no_fault)
  have "parse_relocs i \<noteq> Some Fault" using assms by (intro parse_relocs_no_fault) (simp add: image_roomy_def)
  then have "obind (parse_relocs i) (\<lambda>i'. Some (Ok (i', k))) \<noteq> Some Fault" by (rule obind_no_fault) simp
  then show "when_flag flags CELLAR_LOAD_PARSE_RELOCS
      (\<lambda>(i, k). obind (parse_relocs i) (\<lambda>i'. Some (Ok (i', k)))) (i, k) \<noteq> Some Fault"
    by (simp add: when_flag_def)
qed (simp split: prod.split)

lemma load_stages_no_fault:
  assumes "registry_names_ok (le_registry env)"
    and "\<And>img0. cellar_parse_headers (le_alloc env) (Some d) = Ok img0 \<Longrightarrow>
      flags AND CELLAR_LOAD_MAP_SECTIONS \<noteq> 0 \<Longrightarrow> headers_fit (length d) img0"
  shows "cellar_image_load_buffer env (Some d) flags c \<noteq> Some Fault"
  unfolding cellar_image_load_buffer_def option.case
proof (rule obind_no_fault, goal_cases)
  case 1
  show ?case using parse_headers_no_fault by simp
next
  case (2 img0)
  let ?i = "img0\<lparr>img_raw := Some d, img_raw_size := length d\<rparr>"
  have h: "cellar_parse_headers (le_alloc env) (Some d) = Ok img0" using 2 by simp
  have "headers_fit (length d) ?i" if "flags AND CELLAR_LOAD_MAP_SECTIONS \<noteq> 0"
    using assms(2) [OF h that] by (simp add: headers_fit_def)
  then show ?case
    using headers_unmapped [OF h] assms(1) unfolding Let_def
    by (intro if_not map_stage_no_fault imports_stage_no_fault exports_stage_no_fault relocs_stage_no_fault) simp_all
qed

section \<open>Properties\<close>

lemma rva_bound_iff:
  assumes "img_mapped img = Some m"
  shows "(\<forall>rva p. cellar_image_rva img rva = Some p \<longrightarrow> p < n) \<longleftrightarrow>
    (\<forall>rva :: u32. unat rva < unat (opt_size_of_headers (img_opt img)) \<longrightarrow> unat rva < n) \<and>
    (\<forall>s\<in>set (img_sections img). \<forall>rva. in_section rva s \<longrightarrow> unat rva < n)"
  using assms by (auto simp: rva_cases)

lemma header_bound:
  fixes h :: u32
  assumes "n < 2 ^ 32"
  shows "(\<forall>rva :: u32. unat rva < unat h \<longrightarrow> unat rva < n) \<longleftrightarrow> unat h \<le> n"
  using rva_of_nat [OF assms] by (metis less_le_trans not_le_imp_less less_irrefl)

lemma section_bound:
  assumes "n < 2 ^ 32"
  shows "(\<forall>rva. in_section rva s \<longrightarrow> unat rva < n) \<longleftrightarrow> section_empty s \<or> section_end s \<le> n"
proof
  assume all: "\<forall>rva. in_section rva s \<longrightarrow> unat rva < n"
  show "section_empty s \<or> section_end s \<le> n"
  proof (rule ccontr)
    assume "\<not> ?thesis"
    then have e: "\<not> section_empty s" "n < section_end s" by simp_all
    obtain rva :: u32 where r: "unat rva = max (unat (sv_virtual_address s)) n"
      using rva_of_nat [of "max (unat (sv_virtual_address s)) n"] assms unsigned_less [of "sv_virtual_address s"]
      by auto
    have "unat (sv_virtual_address s) < section_end s"
      using e(1) by (simp add: section_empty_def section_end_def less_max_iff_disj unat_gt_0)
    then have "in_section rva s" using r e(2) by (simp add: in_section_end)
    then show False using all r by fastforce
  qed
next
  assume "section_empty s \<or> section_end s \<le> n"
  then show "\<forall>rva. in_section rva s \<longrightarrow> unat rva < n"
    by (auto simp: in_section_end section_empty_def section_end_def)
qed

text \<open>C10. Address translation stays inside the mapped image for every address exactly when the header
  region and every non-empty section end inside it: \<^verbatim>\<open>cellar_image_rva\<close> compares with the declared
  sizes only, never with the size of the mapping.\<close>

theorem image_rva_in_bounds_iff:
  assumes "image_wf img" "img_mapped img = Some m" "img_mapped_size img < 2 ^ 32"
  shows "(\<forall>rva p. cellar_image_rva img rva = Some p \<longrightarrow> p < length m) \<longleftrightarrow>
    unat (opt_size_of_headers (img_opt img)) \<le> length m \<and>
    (\<forall>s\<in>set (img_sections img). section_empty s \<or> section_end s \<le> length m)"
proof -
  have "length m < 2 ^ 32" using assms by (simp add: image_wf_def)
  then show ?thesis unfolding rva_bound_iff [OF assms(2)] by (simp only: header_bound section_bound)
qed

text \<open>A section of four bytes at address 4, of which the mapping of six bytes holds two.\<close>

definition tail_image :: cellar_image where
  "tail_image = demo_image\<lparr>img_mapped := Some (replicate 6 0), img_mapped_size := 6,
     img_opt := (img_opt demo_image)\<lparr>opt_size_of_headers := 4\<rparr>, img_sections := [text_section 4]\<rparr>"

theorem image_rva_in_bounds_iff_witness:
  "\<exists>rva p. cellar_image_rva tail_image rva = Some p \<and> 6 \<le> p"
proof -
  have w: "image_wf tail_image" "img_mapped tail_image = Some (replicate 6 0)"
    "img_mapped_size tail_image < 2 ^ 32"
    by (simp_all add: tail_image_def image_wf_def)
  have "\<not> (section_empty (text_section 4) \<or> section_end (text_section 4) \<le> 6)" by code_simp
  then show ?thesis using image_rva_in_bounds_iff [OF w] by (auto simp: tail_image_def not_less)
qed

text \<open>C4. A load touches no memory outside the file and the mapped image, with any flags and any
  answers of the allocator, when the header region and the sections that the file declares end eight
  bytes before the image does and no section copies from behind the end of the file, and the names of the
  functions that the registered modules export are C strings (they hold no NUL).\<close>

theorem load_memory_safe:
  assumes "registry_names_ok (le_registry env)"
    and "\<And>img0. cellar_parse_headers (le_alloc env) (Some d) = Ok img0 \<Longrightarrow>
      flags AND CELLAR_LOAD_MAP_SECTIONS \<noteq> 0 \<Longrightarrow> headers_fit (length d) img0"
  shows "cellar_image_load_buffer env (Some d) flags c \<noteq> Some Fault"
  using assms by (rule load_stages_no_fault)

text \<open>A PE of 156 bytes, with an image of 16 bytes after a header region of 8.\<close>

definition roomy_pe :: bytes where
  "roomy_pe = pe_front [] 68 @ wput16 0x10b @ replicate 58 0 @ wput32 16 @ wput32 8"

definition roomy_verdict :: "cellar_image cres \<Rightarrow> bool" where
  "roomy_verdict r = (case r of Ok i \<Rightarrow> headers_fit 156 i | _ \<Rightarrow> False)"

lemma roomy_pe_fits: "roomy_verdict (cellar_parse_headers (\<lambda>_. True) (Some roomy_pe))"
  by code_simp

theorem load_memory_safe_witness:
  "cellar_image_load_buffer kernel_env (Some roomy_pe) CELLAR_LOAD_DEFAULT perf_counters_zero \<noteq> Some Fault"
proof (rule load_memory_safe)
  show "registry_names_ok (le_registry kernel_env)" by code_simp
next
  fix img0
  assume "cellar_parse_headers (le_alloc kernel_env) (Some roomy_pe) = Ok img0"
  moreover have "le_alloc kernel_env = (\<lambda>_. True)" by (simp add: kernel_env_def free_env_def)
  moreover have "length roomy_pe = 156" by code_simp
  ultimately show "headers_fit (length roomy_pe) img0" using roomy_pe_fits by (simp add: roomy_verdict_def)
qed

text \<open>C2. A load with the default stages ends, for every file, all answers of the allocator and every registry
  whose exported names are C strings (they hold no NUL): with an image, with a status, or, only for a file
  whose headers the parser accepts although they do not fit (\<open>headers_fit\<close>, see above), with an access
  outside the file or the mapped image. No file makes it run forever.\<close>

theorem load_default_returns:
  assumes "registry_names_ok (le_registry env)"
  shows "(\<exists>img c'. cellar_image_load_buffer env (Some d) CELLAR_LOAD_DEFAULT c = Some (Ok (img, c'))) \<or>
    (\<exists>e. cellar_image_load_buffer env (Some d) CELLAR_LOAD_DEFAULT c = Some (Err e)) \<or>
    (cellar_image_load_buffer env (Some d) CELLAR_LOAD_DEFAULT c = Some Fault \<and>
     (\<exists>img0. cellar_parse_headers (le_alloc env) (Some d) = Ok img0 \<and> \<not> headers_fit (length d) img0))"
proof -
  obtain r where r: "cellar_image_load_buffer env (Some d) CELLAR_LOAD_DEFAULT c = Some r"
    using load_default_terminates by blast
  show ?thesis
  proof (cases r)
    case Fault
    then show ?thesis using r load_stages_no_fault [OF assms, of d CELLAR_LOAD_DEFAULT c] by blast
  qed (use r in auto)
qed

theorem load_default_returns_witness:
  "\<exists>r. cellar_image_load_buffer kernel_env (Some roomy_pe) CELLAR_LOAD_DEFAULT perf_counters_zero = Some r \<and>
     r \<noteq> Fault"
proof -
  have "registry_names_ok (le_registry kernel_env)" by code_simp
  moreover have "le_alloc kernel_env = (\<lambda>_. True)" by (simp add: kernel_env_def free_env_def)
  moreover have "length roomy_pe = 156" by code_simp
  moreover have "headers_fit (length roomy_pe) i" if "cellar_parse_headers (\<lambda>_. True) (Some roomy_pe) = Ok i" for i
    using roomy_pe_fits that calculation by (simp add: roomy_verdict_def)
  ultimately show ?thesis
    using load_default_returns [of kernel_env roomy_pe perf_counters_zero] by fastforce
qed

end
