(* ===== verification/Workspace.thy ===== *)
theory Workspace
  imports Prefix Desktop Db
begin

text \<open>
  Workspaces, the per-application metadata of \<^verbatim>\<open>src/workspace/workspace.c\<close>: the record kept in
  \<^verbatim>\<open>app.conf\<close>, loading and saving it, the library operations (list, find, remove, set) and
  the guided setup with its inspection of the installer.
\<close>

section \<open>Numbers in configuration text\<close>

text \<open>\<^verbatim>\<open>strtol\<close> and \<^verbatim>\<open>strtoull\<close> with base 0: white space, a sign, and a number in
  hexadecimal after \<^verbatim>\<open>0x\<close>, in octal after \<^verbatim>\<open>0\<close>, in decimal otherwise. The result is the
  sign and the magnitude.\<close>

definition digit_in :: "nat \<Rightarrow> char \<Rightarrow> bool" where
  "digit_in b c = (case digit_val c of None \<Rightarrow> False | Some d \<Rightarrow> d < b)"

definition scan_digits :: "nat \<Rightarrow> string \<Rightarrow> nat" where
  "scan_digits b s = undigits b (map (\<lambda>c. the (digit_val c)) (takeWhile (digit_in b) s))"

definition scan_base0 :: "string \<Rightarrow> nat" where
  "scan_base0 s =
     (if has_prefix_ci s ''0x'' \<and> (case drop 2 s of [] \<Rightarrow> False | c # _ \<Rightarrow> digit_in 16 c)
      then scan_digits 16 (drop 2 s)
      else if has_prefix s ''0'' then scan_digits 8 s else scan_digits 10 s)"

definition strto0 :: "string \<Rightarrow> bool \<times> nat" where
  "strto0 s =
     (case dropWhile is_space s of
        [] \<Rightarrow> (False, 0)
      | c # r \<Rightarrow>
          if c = CHR ''-'' then (True, scan_base0 r)
          else if c = CHR ''+'' then (False, scan_base0 r) else (False, scan_base0 (c # r)))"

text \<open>\<^verbatim>\<open>(int)strtol(...)\<close> on a 64-bit host: saturation at 64 bits, then truncation to 32.\<close>

definition clamp64 :: "int \<Rightarrow> int" where
  "clamp64 i = max (- (2 ^ 63)) (min (2 ^ 63 - 1) i)"

definition to_int32 :: "int \<Rightarrow> int" where
  "to_int32 i = (let m = i mod 2 ^ 32 in if m < 2 ^ 31 then m else m - 2 ^ 32)"

definition strtol_int :: "string \<Rightarrow> int" where
  "strtol_int s = (case strto0 s of (neg, m) \<Rightarrow> to_int32 (clamp64 (if neg then - int m else int m)))"

definition strtoull0 :: "string \<Rightarrow> u64" where
  "strtoull0 s =
     (case strto0 s of (neg, m) \<Rightarrow>
        if m \<ge> 2 ^ 64 then - 1 else if neg then - of_nat m else of_nat m)"

definition ws_field_int :: "string \<Rightarrow> string \<Rightarrow> int \<Rightarrow> int" where
  "ws_field_int conf key d = (case find_field conf key 64 of None \<Rightarrow> d | Some b \<Rightarrow> strtol_int b)"

definition field_u64 :: "string \<Rightarrow> string \<Rightarrow> u64 \<Rightarrow> u64" where
  "field_u64 conf key d = (case find_field conf key 64 of None \<Rightarrow> d | Some b \<Rightarrow> strtoull0 b)"

section \<open>Helpers\<close>

definition ws_dir :: "nat \<Rightarrow> string option \<Rightarrow> string option \<Rightarrow> string" where
  "ws_dir n root name =
     cellar_path_join n (Some (case root of None \<Rightarrow> ''.'' | Some r \<Rightarrow> r))
       (Some (case name of None \<Rightarrow> [] | Some m \<Rightarrow> m))"

definition read_text :: "string \<Rightarrow> nat \<Rightarrow> fs \<Rightarrow> string option" where
  "read_text path cap f =
     (if cap = 0 then None else map_option (\<lambda>t. cstr (take (cap - 1) t)) (fs_read f path))"

definition write_text :: "string \<Rightarrow> string \<Rightarrow> fs \<Rightarrow> fs option" where
  "write_text path text f = fs_write f path text"

definition set_field :: "nat \<Rightarrow> string option \<Rightarrow> string" where
  "set_field cap val = the (cellar_strlcpy cap (Some (text_or [] val)))"

text \<open>FNV-1a over the bytes of a file.\<close>

definition fnv1a :: "string \<Rightarrow> u64" where
  "fnv1a s = foldl (\<lambda>h c. (h XOR ucast (char_byte c)) * 1099511628211) 1469598103934665603 s"

definition file_hash :: "string option \<Rightarrow> fs \<Rightarrow> u64" where
  "file_hash path f =
     (case path of None \<Rightarrow> 0
      | Some p \<Rightarrow> (case fs_read f p of None \<Rightarrow> 0 | Some s \<Rightarrow> fnv1a s))"

definition hash_hex :: "nat \<Rightarrow> u64 \<Rightarrow> string" where
  "hash_hex cap h = snprintf_s cap (hex_pad 16 (unat h))"

text \<open>\<^verbatim>\<open>dir_size_rec\<close>: the paths still to look at; a directory adds its entries, a regular file
  its size. The sum is a 64-bit number. A walk that does not end is \<open>None\<close>.\<close>

partial_function (option) size_loop :: "fs \<Rightarrow> string list \<Rightarrow> u64 \<Rightarrow> u64 option" where
  "size_loop f ps acc =
     (case ps of [] \<Rightarrow> Some acc
      | p # r \<Rightarrow>
          (case fs_stat f p of
             None \<Rightarrow> size_loop f r acc
           | Some n \<Rightarrow> (case n of
               File c \<Rightarrow> size_loop f r (acc + of_nat (length c))
             | Dir \<Rightarrow> size_loop f (map (\<lambda>m. snprintf_s 1024 (p @ ''/'' @ m)) (children f (resolve f p)) @ r) acc)))"

declare size_loop.simps [code]

definition dir_size_rec :: "string \<Rightarrow> fs \<Rightarrow> u64 option" where
  "dir_size_rec path f =
     (case list_dir f path of None \<Rightarrow> Some 0
      | Some ns \<Rightarrow> size_loop f (map (\<lambda>m. snprintf_s 1024 (path @ ''/'' @ m)) ns) 0)"

text \<open>\<^verbatim>\<open>fopen(dst, "wb")\<close> empties the destination before the source is read.\<close>

definition copy_file :: "string \<Rightarrow> string \<Rightarrow> fs \<Rightarrow> fs \<times> bool" where
  "copy_file src dst f =
     (case (case rsplit_at CHR ''/'' (snprintf_s 1024 dst) of
              None \<Rightarrow> (f, 0) | Some (dir, _) \<Rightarrow> cellar_mkdir_p f (Some dir)) of
        (f1, r) \<Rightarrow>
          if r \<noteq> 0 then (f1, False)
          else (case fs_read f1 src of None \<Rightarrow> (f1, False)
             | Some _ \<Rightarrow>
                 (case fs_write f1 dst [] of None \<Rightarrow> (f1, False)
                  | Some f2 \<Rightarrow>
                      (case fs_read f2 src of None \<Rightarrow> (f2, True)
                       | Some c \<Rightarrow> (case fs_write f2 dst c of None \<Rightarrow> (f2, True) | Some f3 \<Rightarrow> (f3, True))))))"

definition win_mode_from_name :: "string option \<Rightarrow> int" where
  "win_mode_from_name s =
     (case s of None \<Rightarrow> 2
      | Some n \<Rightarrow>
          if n = [] then 2
          else if strcasecmp_eq n ''win7'' \<or> strcasecmp_eq n ''windows 7'' then 0
          else if strcasecmp_eq n ''win81'' \<or> strcasecmp_eq n ''windows 8.1'' then 1
          else if strcasecmp_eq n ''win11'' \<or> strcasecmp_eq n ''windows 11'' then 3 else 2)"

definition win_mode_name :: "int \<Rightarrow> string" where
  "win_mode_name m = (if m = 0 then ''win7'' else if m = 1 then ''win81'' else if m = 3 then ''win11'' else ''win10'')"

definition arch_from_machine :: "u16 \<Rightarrow> string" where
  "arch_from_machine m =
     (if m = 0x014c then ''x86'' else if m = 0x8664 then ''x86-64'' else if m = 0x01c0 then ''arm''
      else if m = 0xaa64 then ''arm64'' else ''unknown'')"

section \<open>Names of the enumerations\<close>

definition cellar_setup_kind_name :: "int \<Rightarrow> string" where
  "cellar_setup_kind_name k =
     (if k = 1 then ''msi'' else if k = 2 then ''import'' else if k = 3 then ''portable'' else ''exe'')"

definition cellar_perf_mode_name :: "int \<Rightarrow> string" where
  "cellar_perf_mode_name m =
     (if m = 1 then ''battery-saver'' else if m = 2 then ''performance'' else if m = 3 then ''custom'' else ''balanced'')"

definition cellar_control_kind_name :: "int \<Rightarrow> string" where
  "cellar_control_kind_name k =
     (if k = 1 then ''gamepad'' else if k = 2 then ''touch'' else if k = 3 then ''gamepad+touch'' else ''none'')"

definition cellar_profile_trust_name :: "int \<Rightarrow> string" where
  "cellar_profile_trust_name t =
     (if t = 1 then ''official'' else if t = 2 then ''community'' else if t = 3 then ''experimental'' else ''local'')"

definition cellar_workspace_root :: "environment \<Rightarrow> string" where
  "cellar_workspace_root env =
     (case env ''WINALTOR_ROOT'' of Some (c # r) \<Rightarrow> snprintf_s 1024 (c # r) | _ \<Rightarrow> cellar_prefix_dir env)"

section \<open>The record\<close>

text \<open>The enumerations are stored as the \<^verbatim>\<open>int\<close> that \<^verbatim>\<open>app.conf\<close> holds.\<close>

record workspace =
  ws_name :: string
  ws_path :: string
  ws_id :: string
  ws_setup :: int
  ws_setup_label :: string
  ws_source :: string
  ws_executable :: string
  ws_architecture :: string
  ws_runner :: string
  ws_windows_version :: int
  ws_gfx_backend :: string
  ws_audio_backend :: string
  ws_dll_overrides :: string
  ws_dependencies :: string
  ws_tags :: string
  ws_installed_at :: string
  ws_last_launch :: string
  ws_exe_hash :: string
  ws_compat_rating :: string
  ws_favorite :: int
  ws_has_shortcut :: int
  ws_install_size :: u64
  ws_perf_mode :: int
  ws_resolution_width :: u32
  ws_resolution_height :: u32
  ws_dpi :: u32
  ws_virtual_desktop :: int
  ws_permissions :: u32
  ws_controls :: string
  ws_sandbox_enabled :: int

definition CELLAR_SETUP_COUNT :: nat where "CELLAR_SETUP_COUNT = 4"
definition CELLAR_SETUP_PORTABLE :: nat where "CELLAR_SETUP_PORTABLE = 3"
definition CELLAR_PERF_MODE_COUNT :: nat where "CELLAR_PERF_MODE_COUNT = 4"

definition CELLAR_PERM_NETWORK :: u32 where "CELLAR_PERM_NETWORK = 1"
definition CELLAR_PERM_SHARED_FILES :: u32 where "CELLAR_PERM_SHARED_FILES = 2"
definition CELLAR_PERM_CAMERA :: u32 where "CELLAR_PERM_CAMERA = 4"
definition CELLAR_PERM_MIC :: u32 where "CELLAR_PERM_MIC = 8"
definition CELLAR_PERM_EXTERNAL_STORAGE :: u32 where "CELLAR_PERM_EXTERNAL_STORAGE = 16"

section \<open>Loading and saving\<close>

definition ws_conf_path :: "string \<Rightarrow> string" where
  "ws_conf_path ws = cellar_path_join 720 (Some ws) (Some ''app.conf'')"

definition workspace_of_text :: "string \<Rightarrow> string \<Rightarrow> string \<Rightarrow> workspace" where
  "workspace_of_text name ws buf =
     (let str = (\<lambda>key n. case find_field buf key n of None \<Rightarrow> [] | Some v \<Rightarrow> v) in
      \<lparr>ws_name = set_field 64 (Some name), ws_path = set_field 640 (Some ws), ws_id = str ''id'' 32,
       ws_setup = ws_field_int buf ''setup'' 0, ws_setup_label = str ''setup_label'' 24,
       ws_source = str ''source'' 512, ws_executable = str ''executable'' 512,
       ws_architecture = str ''architecture'' 16, ws_runner = str ''runner'' 64,
       ws_windows_version = ws_field_int buf ''windows_version'' 2,
       ws_gfx_backend = str ''gfx_backend'' 32, ws_audio_backend = str ''audio_backend'' 32,
       ws_dll_overrides = str ''dll_overrides'' 512, ws_dependencies = str ''dependencies'' 256,
       ws_tags = str ''tags'' 256, ws_installed_at = str ''installed_at'' 40,
       ws_last_launch = str ''last_launch'' 40, ws_exe_hash = str ''exe_hash'' 40,
       ws_compat_rating = str ''compat_rating'' 16,
       ws_favorite = ws_field_int buf ''favorite'' 0, ws_has_shortcut = ws_field_int buf ''has_shortcut'' 0,
       ws_install_size = field_u64 buf ''install_size'' 0,
       ws_perf_mode = ws_field_int buf ''perf_mode'' 0,
       ws_resolution_width = of_int (ws_field_int buf ''resolution_width'' 1280),
       ws_resolution_height = of_int (ws_field_int buf ''resolution_height'' 720),
       ws_dpi = of_int (ws_field_int buf ''dpi'' 96),
       ws_virtual_desktop = ws_field_int buf ''virtual_desktop'' 0,
       ws_permissions = ucast (field_u64 buf ''permissions'' 0),
       ws_controls = str ''controls'' 128,
       ws_sandbox_enabled = ws_field_int buf ''sandbox_enabled'' 1\<rparr>)"

definition cellar_workspace_load :: "string option \<Rightarrow> string option \<Rightarrow> fs \<Rightarrow> workspace cres" where
  "cellar_workspace_load root name f =
     (if root = None \<or> \<not> valid_name name then Err CELLAR_ERR_INVALID_ARGUMENT
      else
        let ws = ws_dir 640 root name
        in (case read_text (ws_conf_path ws) 16384 f of
              None \<Rightarrow> Err CELLAR_ERR_INVALID_ARGUMENT
            | Some buf \<Rightarrow> Ok (workspace_of_text (the name) ws buf)))"

definition workspace_fields :: "workspace \<Rightarrow> (string \<times> string) list" where
  "workspace_fields w =
     [(''name'', ws_name w), (''path'', ws_path w), (''id'', ws_id w), (''setup'', show_int (ws_setup w)),
      (''setup_label'', if ws_setup_label w \<noteq> [] then ws_setup_label w else cellar_setup_kind_name (ws_setup w)),
      (''source'', ws_source w), (''executable'', ws_executable w), (''architecture'', ws_architecture w),
      (''runner'', ws_runner w), (''windows_version'', show_int (ws_windows_version w)),
      (''gfx_backend'', ws_gfx_backend w), (''audio_backend'', ws_audio_backend w),
      (''dll_overrides'', ws_dll_overrides w), (''dependencies'', ws_dependencies w), (''tags'', ws_tags w),
      (''installed_at'', ws_installed_at w), (''last_launch'', ws_last_launch w),
      (''exe_hash'', ws_exe_hash w), (''compat_rating'', ws_compat_rating w),
      (''favorite'', show_int (ws_favorite w)), (''has_shortcut'', show_int (ws_has_shortcut w)),
      (''install_size'', dec (unat (ws_install_size w))), (''perf_mode'', show_int (ws_perf_mode w)),
      (''resolution_width'', dec (unat (ws_resolution_width w))),
      (''resolution_height'', dec (unat (ws_resolution_height w))), (''dpi'', dec (unat (ws_dpi w))),
      (''virtual_desktop'', show_int (ws_virtual_desktop w)), (''permissions'', dec (unat (ws_permissions w))),
      (''controls'', ws_controls w), (''sandbox_enabled'', show_int (ws_sandbox_enabled w))]"

definition kv_line :: "string \<times> string \<Rightarrow> string" where
  "kv_line kv = fst kv @ ''='' @ snd kv"

definition workspace_text :: "workspace \<Rightarrow> string" where
  "workspace_text w = unlines ((''# winaltor workspace '' @ ws_name w) # map kv_line (workspace_fields w))"

text \<open>The record is returned because an empty path is filled in.\<close>

definition cellar_workspace_save :: "environment \<Rightarrow> workspace \<Rightarrow> fs \<Rightarrow> fs \<times> workspace \<times> cellar_status" where
  "cellar_workspace_save env w f =
     (if ws_name w = [] then (f, w, CELLAR_ERR_INVALID_ARGUMENT)
      else
        let w1 = (if ws_path w \<noteq> [] then w
                  else w\<lparr>ws_path := ws_dir 640 (Some (snprintf_s 1024 (cellar_workspace_root env))) (Some (ws_name w))\<rparr>);
            f1 = fst (cellar_mkdir_p f (Some (ws_path w1)))
        in (case fs_write f1 (ws_conf_path (ws_path w1)) (workspace_text w1) of
              None \<Rightarrow> (f1, w1, CELLAR_ERR_INVALID_ARGUMENT)
            | Some f2 \<Rightarrow> (f2, w1, CELLAR_OK)))"

section \<open>Facts: numbers\<close>

lemma digit_in_10: "digit_in 10 = is_digit"
proof (rule ext)
  fix c show "digit_in 10 c = is_digit c"
    by (cases "(of_char c :: nat) \<le> 57") (auto simp: digit_in_def digit_val_def is_digit_def Let_def)
qed

lemma scan_digits_10: "scan_digits 10 s = fst (scan_nat s)"
  by (simp add: scan_digits_def scan_nat_def digit_in_10)

lemma digits_head: "0 < n \<Longrightarrow> 2 \<le> b \<Longrightarrow> hd (digits b n) \<noteq> 0"
proof (induction b n rule: digits.induct)
  case (1 b n)
  show ?case
  proof (cases "n < b")
    case True
    then show ?thesis using 1(2) by (subst digits.simps) simp
  next
    case False
    then have "0 < n div b" using 1(3) by (simp add: div_greater_zero_iff)
    then show ?thesis using 1 False digits_nonempty [of b "n div b"] by (subst digits.simps) simp
  qed
qed

lemma dec_head: "0 < n \<Longrightarrow> \<exists>c r. dec n = c # r \<and> c \<noteq> CHR ''0'' \<and> is_digit c"
proof -
  assume n: "0 < n"
  obtain d ds where d: "digits 10 n = d # ds" using digits_nonempty [of 10 n] by (cases "digits 10 n") auto
  have "d \<noteq> 0" "d < 10" using digits_head [OF n, of 10] digits_less [of 10 d n] d by auto
  moreover have "digit_val CHR ''0'' = Some 0" by (simp add: digit_val_def)
  ultimately have "digit_char d \<noteq> CHR ''0''" using digit_val_char [of d] by auto
  then show ?thesis using d \<open>d < 10\<close> is_digit_char [of d] by (simp add: dec_def)
qed

lemma scan_base0_dec: "scan_base0 (dec n) = n"
proof (cases "n = 0")
  case True
  have "dec 0 = ''0''" "scan_base0 ''0'' = 0" by code_simp+
  then show ?thesis using True by simp
next
  case False
  then obtain c r where c: "dec n = c # r" "c \<noteq> CHR ''0''" "is_digit c" using dec_head by blast
  have "tolower_c c \<noteq> CHR ''0''" using c(2,3) by (auto simp: tolower_c_def is_digit_def Let_def)
  then have "\<not> has_prefix_ci (dec n) ''0x''" "\<not> has_prefix (dec n) ''0''"
    using c by (auto simp: has_prefix_ci_def has_prefix_def tolower_c_def)
  then show ?thesis using scan_nat_dec [of "[]" n] by (simp add: scan_base0_def scan_digits_10)
qed

lemma strto0_show_int: "strto0 (show_int i) = (i < 0, nat \<bar>i\<bar>)"
proof -
  obtain c r where c: "dec (nat i) = c # r" "is_digit c"
    using dec_nonempty [of "nat i"] dec_digits [of _ "nat i"] by (cases "dec (nat i)") auto
  have "c \<noteq> CHR ''-''" "c \<noteq> CHR ''+''" "\<not> is_space c" using c(2) digit_not_space by (auto simp: is_digit_def)
  then show ?thesis
    using c scan_base0_dec [of "nat i"] scan_base0_dec [of "nat (- i)"]
    by (simp add: strto0_def show_int_def is_space_def)
qed

lemma show_int_nat: "show_int (int n) = dec n"
  by (simp add: show_int_def)

lemma strto0_dec: "strto0 (dec n) = (False, n)"
  using strto0_show_int [of "int n"] unfolding show_int_nat by simp

lemma to_int32_id: "int32 i \<Longrightarrow> to_int32 i = i"
proof -
  assume i: "int32 i"
  have "i mod 2 ^ 32 = (if 0 \<le> i then i else i + 2 ^ 32)"
    using i mod_pos_pos_trivial [of i "2 ^ 32"] mod_pos_pos_trivial [of "i + 2 ^ 32" "2 ^ 32"]
    by (simp add: int32_def)
  then show ?thesis using i by (simp add: to_int32_def int32_def Let_def)
qed

lemma strtol_int_show: "int32 i \<Longrightarrow> strtol_int (show_int i) = i"
proof -
  assume i: "int32 i"
  then have "clamp64 i = i" by (simp add: clamp64_def int32_def)
  then show ?thesis using i by (simp add: strtol_int_def strto0_show_int to_int32_id)
qed

lemma of_int_to_int32: "(of_int (to_int32 i) :: u32) = of_int i"
proof -
  have "(of_int (i mod 2 ^ 32) :: u32) = of_int i" by transfer (simp add: take_bit_eq_mod)
  moreover have "(2 ^ 32 :: u32) = 0" by simp
  ultimately show ?thesis unfolding to_int32_def Let_def by simp
qed

lemma strtol_int_dec: "of_int (strtol_int (dec (unat (w :: u32)))) = w"
proof -
  have "uint w < 2 ^ LENGTH(32)" by (rule unsigned_less)
  moreover have "clamp64 i = i" if "0 \<le> i" "i < 2 ^ 32" for i using that by (simp add: clamp64_def)
  ultimately have "clamp64 (int (unat w)) = int (unat w)" by simp
  then show ?thesis by (simp add: strtol_int_def strto0_dec of_int_to_int32)
qed

lemma strtoull0_dec: "strtoull0 (dec (unat (w :: u64))) = w"
proof -
  have "unat w < 2 ^ LENGTH(64)" by (rule unsigned_less)
  then show ?thesis by (simp add: strtoull0_def strto0_dec)
qed

lemma strtoull0_dec32: "ucast (strtoull0 (dec (unat (w :: u32)))) = w"
proof -
  have "unat w < 2 ^ LENGTH(32)" by (rule unsigned_less)
  then have "strtoull0 (dec (unat w)) = ucast w" by (simp add: strtoull0_def strto0_dec)
  then show ?thesis by (auto intro: bit_word_eqI simp: bit_ucast_iff)
qed

section \<open>Facts: key-value text\<close>

definition kv_ok :: "string \<times> string \<Rightarrow> bool" where
  "kv_ok kv \<longleftrightarrow> CHR ''='' \<notin> set (fst kv) \<and> NL \<notin> set (fst kv) \<and> NL \<notin> set (snd kv)"

lemma other_kv_line:
  assumes "CHR ''='' \<notin> set key" "NL \<notin> set key" "kv_ok (k, v)" "k \<noteq> key"
  shows "other_line key (kv_line (k, v))"
proof -
  have "\<not> has_prefix (kv_line (k, v)) (key @ ''='')"
  proof
    assume "has_prefix (kv_line (k, v)) (key @ ''='')"
    then have "\<exists>t. kv_line (k, v) = key @ CHR ''='' # t"
      unfolding has_prefix_def by (metis append.assoc append_Cons append_Nil append_take_drop_id)
    then obtain t where t: "k @ CHR ''='' # v = key @ CHR ''='' # t" by (auto simp: kv_line_def)
    have "split_at CHR ''='' (k @ CHR ''='' # v) = Some (k, v)"
      using assms(3) by (simp add: split_at_append kv_ok_def)
    moreover have "split_at CHR ''='' (key @ CHR ''='' # t) = Some (key, t)"
      using assms(1) by (simp add: split_at_append)
    ultimately show False using assms(4) t by simp
  qed
  then show ?thesis using assms(2,3) by (auto simp: other_line_def kv_line_def kv_ok_def NL_def)
qed

lemma find_field_kv:
  assumes "list_all kv_ok kvs" "CHR ''='' \<notin> set key" "NL \<notin> set key"
  shows "find_field (unlines (map kv_line kvs)) key n = map_option (take (n - 1)) (map_of kvs key)"
  using assms(1)
proof (induction kvs)
  case Nil
  show ?case by (subst find_field.simps) (simp add: unlines_def)
next
  case (Cons kv kvs)
  obtain k v where kv: "kv = (k, v)" by (cases kv)
  show ?case
  proof (cases "k = key")
    case True
    then show ?thesis using Cons.prems find_field_unlines_hit [of v key "map kv_line kvs" n]
      by (simp add: kv kv_ok_def kv_line_def [of "(key, v)"])
  next
    case False
    then show ?thesis using Cons other_kv_line [OF assms(2,3)] by (simp add: kv find_field_unlines_skip)
  qed
qed

section \<open>Facts: the round trip of \<^verbatim>\<open>app.conf\<close>\<close>

definition workspace_ok :: "workspace \<Rightarrow> bool" where
  "workspace_ok w \<longleftrightarrow> valid_name (Some (ws_name w)) \<and> ws_path w \<noteq> [] \<and> ws_setup_label w \<noteq> [] \<and>
     field_ok 64 (ws_name w) \<and> field_ok 640 (ws_path w) \<and> field_ok 32 (ws_id w) \<and> field_ok 24 (ws_setup_label w) \<and>
     field_ok 512 (ws_source w) \<and> field_ok 512 (ws_executable w) \<and> field_ok 16 (ws_architecture w) \<and>
     field_ok 64 (ws_runner w) \<and> field_ok 32 (ws_gfx_backend w) \<and> field_ok 32 (ws_audio_backend w) \<and>
     field_ok 512 (ws_dll_overrides w) \<and> field_ok 256 (ws_dependencies w) \<and> field_ok 256 (ws_tags w) \<and>
     field_ok 40 (ws_installed_at w) \<and> field_ok 40 (ws_last_launch w) \<and> field_ok 40 (ws_exe_hash w) \<and>
     field_ok 16 (ws_compat_rating w) \<and> field_ok 128 (ws_controls w) \<and>
     int32 (ws_setup w) \<and> int32 (ws_windows_version w) \<and> int32 (ws_favorite w) \<and> int32 (ws_has_shortcut w) \<and>
     int32 (ws_perf_mode w) \<and> int32 (ws_virtual_desktop w) \<and> int32 (ws_sandbox_enabled w)"

lemma NL_dec [simp]: "NL \<notin> set (dec n)" "CHR 0x0A \<notin> set (dec n)" "CHR 0x00 \<notin> set (dec n)"
  using dec_chars [of _ n] by (auto simp: NL_def)

lemma length_dec: "0 < w \<Longrightarrow> n < 10 ^ w \<Longrightarrow> length (dec n) \<le> w"
  by (simp add: dec_def length_digits)

lemma length_dec_u32 [clen]: "length (dec (unat (w :: u32))) \<le> 10"
proof -
  have "unat w < 2 ^ LENGTH(32)" by (rule unsigned_less)
  then show ?thesis by (intro length_dec) auto
qed

lemma length_dec_u64 [clen]: "length (dec (unat (w :: u64))) \<le> 20"
proof -
  have "unat w < 2 ^ LENGTH(64)" by (rule unsigned_less)
  then show ?thesis by (intro length_dec) auto
qed

lemma set_field_eq: "0 < n \<Longrightarrow> set_field n (Some s) = snprintf_s n s"
  by (simp add: set_field_def text_or_def strlcpy_snprintf)

lemma workspace_fields_ok: "workspace_ok w \<Longrightarrow> list_all kv_ok (workspace_fields w)"
  by (simp add: workspace_fields_def workspace_ok_def field_ok_def kv_ok_def NL_def cellar_setup_kind_name_def)

lemma workspace_text_field:
  assumes "workspace_ok w" "CHR ''='' \<notin> set key" "NL \<notin> set key" "key \<noteq> []" "hd key \<noteq> CHR ''#''"
  shows "find_field (workspace_text w) key n = map_option (take (n - 1)) (map_of (workspace_fields w) key)"
proof -
  have nl: "NL \<notin> set (''# winaltor workspace '' @ ws_name w)"
    using assms(1) by (simp add: workspace_ok_def field_ok_def NL_def)
  have "\<not> has_prefix (''# winaltor workspace '' @ ws_name w) (key @ ''='')"
    using assms(4,5) by (cases key) (auto simp: has_prefix_def)
  then have "other_line key (''# winaltor workspace '' @ ws_name w)"
    using nl assms(3) by (simp only: other_line_def simp_thms)
  then show ?thesis
    unfolding workspace_text_def
    by (simp only: find_field_unlines_skip find_field_kv [OF workspace_fields_ok [OF assms(1)] assms(2,3)])
qed

lemma workspace_text_whole:
  assumes "workspace_ok w"
  shows "cstr (take 16383 (workspace_text w)) = workspace_text w"
proof -
  have i: "length (show_int (ws_setup w)) \<le> 11" "length (show_int (ws_windows_version w)) \<le> 11"
    "length (show_int (ws_favorite w)) \<le> 11" "length (show_int (ws_has_shortcut w)) \<le> 11"
    "length (show_int (ws_perf_mode w)) \<le> 11" "length (show_int (ws_virtual_desktop w)) \<le> 11"
    "length (show_int (ws_sandbox_enabled w)) \<le> 11"
    using assms by (simp_all add: workspace_ok_def length_show_int)
  note d = length_dec_u32 [of "ws_resolution_width w"] length_dec_u32 [of "ws_resolution_height w"]
    length_dec_u32 [of "ws_dpi w"] length_dec_u32 [of "ws_permissions w"] length_dec_u64 [of "ws_install_size w"]
  have f: "length (ws_name w) < 64" "length (ws_path w) < 640" "length (ws_id w) < 32"
    "length (ws_setup_label w) < 24" "length (ws_source w) < 512" "length (ws_executable w) < 512"
    "length (ws_architecture w) < 16" "length (ws_runner w) < 64" "length (ws_gfx_backend w) < 32"
    "length (ws_audio_backend w) < 32" "length (ws_dll_overrides w) < 512" "length (ws_dependencies w) < 256"
    "length (ws_tags w) < 256" "length (ws_installed_at w) < 40" "length (ws_last_launch w) < 40"
    "length (ws_exe_hash w) < 40" "length (ws_compat_rating w) < 16" "length (ws_controls w) < 128"
    using assms by (simp_all add: workspace_ok_def field_ok_def)
  have l: "ws_setup_label w \<noteq> []" using assms by (simp add: workspace_ok_def)
  have "length (workspace_text w) \<le> 16383"
    using i d f l by (simp add: workspace_text_def workspace_fields_def length_unlines kv_line_def)
  moreover have "no_nul (workspace_text w)"
    unfolding workspace_text_def
    by (rule no_nul_unlines)
      (use assms in \<open>simp add: workspace_fields_def kv_line_def workspace_ok_def field_ok_def no_nul_def\<close>)
  ultimately show ?thesis by (simp add: cstr_id)
qed

definition plain_key :: "string \<Rightarrow> bool" where
  "plain_key key \<longleftrightarrow> CHR ''='' \<notin> set key \<and> NL \<notin> set key \<and> key \<noteq> [] \<and> hd key \<noteq> CHR ''#''"

lemma workspace_text_typed:
  assumes "workspace_ok w" "plain_key key"
  shows "map_of (workspace_fields w) key = Some v \<Longrightarrow> find_field (workspace_text w) key n = Some (take (n - 1) v)"
    "map_of (workspace_fields w) key = Some (show_int i) \<Longrightarrow> int32 i \<Longrightarrow> ws_field_int (workspace_text w) key d = i"
    "map_of (workspace_fields w) key = Some (dec (unat (u :: u32))) \<Longrightarrow> of_int (ws_field_int (workspace_text w) key d) = u"
    "map_of (workspace_fields w) key = Some (dec (unat (u :: u32))) \<Longrightarrow> ucast (field_u64 (workspace_text w) key x) = u"
    "map_of (workspace_fields w) key = Some (dec (unat (y :: u64))) \<Longrightarrow> field_u64 (workspace_text w) key x = y"
proof -
  show ff: "find_field (workspace_text w) key n = Some (take (n - 1) v)" if "map_of (workspace_fields w) key = Some v" for n v
    using workspace_text_field [OF assms(1)] assms(2) that by (simp add: plain_key_def)
  show "map_of (workspace_fields w) key = Some (show_int i) \<Longrightarrow> int32 i \<Longrightarrow> ws_field_int (workspace_text w) key d = i"
    using ff [of "show_int i" 64] length_show_int [of i] by (simp add: ws_field_int_def strtol_int_show)
  show "map_of (workspace_fields w) key = Some (dec (unat u)) \<Longrightarrow> of_int (ws_field_int (workspace_text w) key d) = u"
    using ff [of "dec (unat u)" 64] length_dec_u32 [of u] by (simp add: ws_field_int_def strtol_int_dec)
  show "map_of (workspace_fields w) key = Some (dec (unat u)) \<Longrightarrow> ucast (field_u64 (workspace_text w) key x) = u"
    using ff [of "dec (unat u)" 64] length_dec_u32 [of u] by (simp add: field_u64_def strtoull0_dec32)
  show "map_of (workspace_fields w) key = Some (dec (unat y)) \<Longrightarrow> field_u64 (workspace_text w) key x = y"
    using ff [of "dec (unat y)" 64] length_dec_u64 [of y] by (simp add: field_u64_def strtoull0_dec)
qed

lemma workspace_fields_at:
  assumes "workspace_ok w"
  shows "map_of (workspace_fields w) ''id'' = Some (ws_id w)"
    "map_of (workspace_fields w) ''setup'' = Some (show_int (ws_setup w))"
    "map_of (workspace_fields w) ''setup_label'' = Some (ws_setup_label w)"
    "map_of (workspace_fields w) ''source'' = Some (ws_source w)"
    "map_of (workspace_fields w) ''executable'' = Some (ws_executable w)"
    "map_of (workspace_fields w) ''architecture'' = Some (ws_architecture w)"
    "map_of (workspace_fields w) ''runner'' = Some (ws_runner w)"
    "map_of (workspace_fields w) ''windows_version'' = Some (show_int (ws_windows_version w))"
    "map_of (workspace_fields w) ''gfx_backend'' = Some (ws_gfx_backend w)"
    "map_of (workspace_fields w) ''audio_backend'' = Some (ws_audio_backend w)"
    "map_of (workspace_fields w) ''dll_overrides'' = Some (ws_dll_overrides w)"
    "map_of (workspace_fields w) ''dependencies'' = Some (ws_dependencies w)"
    "map_of (workspace_fields w) ''tags'' = Some (ws_tags w)"
    "map_of (workspace_fields w) ''installed_at'' = Some (ws_installed_at w)"
    "map_of (workspace_fields w) ''last_launch'' = Some (ws_last_launch w)"
    "map_of (workspace_fields w) ''exe_hash'' = Some (ws_exe_hash w)"
    "map_of (workspace_fields w) ''compat_rating'' = Some (ws_compat_rating w)"
    "map_of (workspace_fields w) ''favorite'' = Some (show_int (ws_favorite w))"
    "map_of (workspace_fields w) ''has_shortcut'' = Some (show_int (ws_has_shortcut w))"
    "map_of (workspace_fields w) ''install_size'' = Some (dec (unat (ws_install_size w)))"
    "map_of (workspace_fields w) ''perf_mode'' = Some (show_int (ws_perf_mode w))"
    "map_of (workspace_fields w) ''resolution_width'' = Some (dec (unat (ws_resolution_width w)))"
    "map_of (workspace_fields w) ''resolution_height'' = Some (dec (unat (ws_resolution_height w)))"
    "map_of (workspace_fields w) ''dpi'' = Some (dec (unat (ws_dpi w)))"
    "map_of (workspace_fields w) ''virtual_desktop'' = Some (show_int (ws_virtual_desktop w))"
    "map_of (workspace_fields w) ''permissions'' = Some (dec (unat (ws_permissions w)))"
    "map_of (workspace_fields w) ''controls'' = Some (ws_controls w)"
    "map_of (workspace_fields w) ''sandbox_enabled'' = Some (show_int (ws_sandbox_enabled w))"
    using assms by (simp_all add: workspace_fields_def workspace_ok_def)

lemma workspace_of_text_saved:
  assumes "workspace_ok w"
  shows "workspace_of_text (ws_name w) (ws_path w) (workspace_text w) = w"
proof -
  note at = workspace_fields_at [OF assms]
  note typed = workspace_text_typed [OF assms]
  have k: "plain_key ''id''" "plain_key ''setup''" "plain_key ''setup_label''" "plain_key ''source''"
    "plain_key ''executable''" "plain_key ''architecture''" "plain_key ''runner''" "plain_key ''windows_version''"
    "plain_key ''gfx_backend''" "plain_key ''audio_backend''" "plain_key ''dll_overrides''" "plain_key ''dependencies''"
    "plain_key ''tags''" "plain_key ''installed_at''" "plain_key ''last_launch''" "plain_key ''exe_hash''"
    "plain_key ''compat_rating''" "plain_key ''favorite''" "plain_key ''has_shortcut''" "plain_key ''install_size''"
    "plain_key ''perf_mode''" "plain_key ''resolution_width''" "plain_key ''resolution_height''" "plain_key ''dpi''"
    "plain_key ''virtual_desktop''" "plain_key ''permissions''" "plain_key ''controls''" "plain_key ''sandbox_enabled''"
    by (simp_all add: plain_key_def NL_def)
  have s: "set_field 64 (Some (ws_name w)) = ws_name w" "set_field 640 (Some (ws_path w)) = ws_path w"
    using assms by (simp_all add: set_field_eq snprintf_s_id workspace_ok_def field_ok_def)
  note str = typed(1) [OF k(1) at(1)] typed(1) [OF k(3) at(3)] typed(1) [OF k(4) at(4)] typed(1) [OF k(5) at(5)]
    typed(1) [OF k(6) at(6)] typed(1) [OF k(7) at(7)] typed(1) [OF k(9) at(9)] typed(1) [OF k(10) at(10)]
    typed(1) [OF k(11) at(11)] typed(1) [OF k(12) at(12)] typed(1) [OF k(13) at(13)] typed(1) [OF k(14) at(14)]
    typed(1) [OF k(15) at(15)] typed(1) [OF k(16) at(16)] typed(1) [OF k(17) at(17)] typed(1) [OF k(27) at(27)]
  note int = typed(2) [OF k(2) at(2)] typed(2) [OF k(8) at(8)] typed(2) [OF k(18) at(18)] typed(2) [OF k(19) at(19)]
    typed(2) [OF k(21) at(21)] typed(2) [OF k(25) at(25)] typed(2) [OF k(28) at(28)]
  note wrd = typed(3) [OF k(22) at(22)] typed(3) [OF k(23) at(23)] typed(3) [OF k(24) at(24)]
    typed(4) [OF k(26) at(26)] typed(5) [OF k(20) at(20)]
  show ?thesis
    by (rule workspace.equality; use assms in
      \<open>simp add: workspace_of_text_def Let_def s str int wrd workspace_ok_def field_ok_def\<close>)
qed

section \<open>The application library\<close>

definition loaded :: "workspace cres \<Rightarrow> workspace option" where
  "loaded r = (case r of Ok w \<Rightarrow> Some w | _ \<Rightarrow> None)"

definition list_entry :: "string \<Rightarrow> fs \<Rightarrow> string \<Rightarrow> workspace option" where
  "list_entry root f n =
     (let child = snprintf_s 720 (root @ ''/'' @ n) in
      if has_prefix n ''.'' \<or> \<not> is_dir f child \<or>
         \<not> is_file f (cellar_path_join 784 (Some child) (Some ''app.conf'')) then None
      else loaded (cellar_workspace_load (Some root) (Some n) f))"

definition cellar_workspace_list :: "string option \<Rightarrow> nat \<Rightarrow> fs \<Rightarrow> workspace list" where
  "cellar_workspace_list root cap f =
     (case root of None \<Rightarrow> []
      | Some r \<Rightarrow> (case list_dir f r of None \<Rightarrow> []
                  | Some ns \<Rightarrow> take cap (List.map_filter (list_entry r f) ns)))"

definition cellar_workspace_find :: "string option \<Rightarrow> string option \<Rightarrow> fs \<Rightarrow> workspace option" where
  "cellar_workspace_find root name f = loaded (cellar_workspace_load root name f)"

definition cellar_workspace_remove :: "string option \<Rightarrow> string option \<Rightarrow> fs \<Rightarrow> fs cres option" where
  "cellar_workspace_remove root name f =
     (if root = None \<or> \<not> valid_name name then Some (Err CELLAR_ERR_INVALID_ARGUMENT)
      else if \<not> is_ok (cellar_workspace_load root name f) then Some (Err CELLAR_ERR_INVALID_ARGUMENT)
      else cellar_prefix_delete root name f)"

definition flag_of :: "string option \<Rightarrow> int" where
  "flag_of v = (case v of None \<Rightarrow> 0 | Some s \<Rightarrow> if scan_int s \<noteq> 0 then 1 else 0)"

text \<open>The update that a key names; \<open>None\<close> for an unknown key.\<close>

definition set_key :: "string \<Rightarrow> string option \<Rightarrow> workspace \<Rightarrow> workspace option" where
  "set_key key v w =
     (if key = ''name'' then Some (w\<lparr>ws_name := set_field 64 v\<rparr>)
      else if key = ''tags'' then Some (w\<lparr>ws_tags := set_field 256 v\<rparr>)
      else if key = ''runner'' then Some (w\<lparr>ws_runner := set_field 64 v\<rparr>)
      else if key = ''gfx'' \<or> key = ''gfx_backend'' then Some (w\<lparr>ws_gfx_backend := set_field 32 v\<rparr>)
      else if key = ''audio'' \<or> key = ''audio_backend'' then Some (w\<lparr>ws_audio_backend := set_field 32 v\<rparr>)
      else if key = ''dll_overrides'' then Some (w\<lparr>ws_dll_overrides := set_field 512 v\<rparr>)
      else if key = ''dependencies'' then Some (w\<lparr>ws_dependencies := set_field 256 v\<rparr>)
      else if key = ''executable'' \<or> key = ''launch'' then Some (w\<lparr>ws_executable := set_field 512 v\<rparr>)
      else if key = ''source'' then Some (w\<lparr>ws_source := set_field 512 v\<rparr>)
      else if key = ''architecture'' then Some (w\<lparr>ws_architecture := set_field 16 v\<rparr>)
      else if key = ''windows_version'' then Some (w\<lparr>ws_windows_version := win_mode_from_name v\<rparr>)
      else if key = ''favorite'' then Some (w\<lparr>ws_favorite := flag_of v\<rparr>)
      else if key = ''sandbox'' then Some (w\<lparr>ws_sandbox_enabled := flag_of v\<rparr>)
      else if key = ''shortcut'' then Some (w\<lparr>ws_has_shortcut := flag_of v\<rparr>)
      else None)"

text \<open>The shape all the setters share: load, change, save.\<close>

definition load_save ::
    "environment \<Rightarrow> string option \<Rightarrow> string option \<Rightarrow> (workspace \<Rightarrow> workspace option) \<Rightarrow> fs \<Rightarrow> fs \<times> cellar_status" where
  "load_save env root name upd f =
     (case cellar_workspace_load root name f of
        Ok w \<Rightarrow> (case upd w of None \<Rightarrow> (f, CELLAR_ERR_INVALID_ARGUMENT)
                | Some w' \<Rightarrow> (case cellar_workspace_save env w' f of (f', _, st) \<Rightarrow> (f', st)))
      | _ \<Rightarrow> (f, CELLAR_ERR_INVALID_ARGUMENT))"

definition cellar_workspace_set ::
    "environment \<Rightarrow> string option \<Rightarrow> string option \<Rightarrow> string option \<Rightarrow> string option \<Rightarrow> fs \<Rightarrow> fs \<times> cellar_status" where
  "cellar_workspace_set env root name key v f =
     (case key of Some (c # k) \<Rightarrow> load_save env root name (set_key (c # k) v) f
      | _ \<Rightarrow> (f, CELLAR_ERR_INVALID_ARGUMENT))"

definition cellar_workspace_set_permissions ::
    "environment \<Rightarrow> string option \<Rightarrow> string option \<Rightarrow> u32 \<Rightarrow> fs \<Rightarrow> fs \<times> cellar_status" where
  "cellar_workspace_set_permissions env root name p f =
     load_save env root name (\<lambda>w. Some (w\<lparr>ws_permissions := p\<rparr>)) f"

definition cellar_workspace_set_perf_mode ::
    "environment \<Rightarrow> string option \<Rightarrow> string option \<Rightarrow> nat \<Rightarrow> fs \<Rightarrow> fs \<times> cellar_status" where
  "cellar_workspace_set_perf_mode env root name mode f =
     (if mode \<ge> CELLAR_PERF_MODE_COUNT then (f, CELLAR_ERR_INVALID_ARGUMENT)
      else load_save env root name (\<lambda>w. Some (w\<lparr>ws_perf_mode := int mode\<rparr>)) f)"

definition cellar_workspace_set_controls ::
    "environment \<Rightarrow> string option \<Rightarrow> string option \<Rightarrow> string option \<Rightarrow> fs \<Rightarrow> fs \<times> cellar_status" where
  "cellar_workspace_set_controls env root name controls f =
     (case controls of None \<Rightarrow> (f, CELLAR_ERR_INVALID_ARGUMENT)
      | Some c \<Rightarrow> load_save env root name (\<lambda>w. Some (w\<lparr>ws_controls := set_field 128 (Some c)\<rparr>)) f)"

definition cellar_workspace_set_resolution ::
    "environment \<Rightarrow> string option \<Rightarrow> string option \<Rightarrow> u32 \<Rightarrow> u32 \<Rightarrow> u32 \<Rightarrow> int \<Rightarrow> fs \<Rightarrow> fs \<times> cellar_status" where
  "cellar_workspace_set_resolution env root name width height dpi vd f =
     (if width = 0 \<or> height = 0 \<or> dpi = 0 then (f, CELLAR_ERR_INVALID_ARGUMENT)
      else load_save env root name (\<lambda>w. Some (w\<lparr>ws_resolution_width := width, ws_resolution_height := height,
             ws_dpi := dpi, ws_virtual_desktop := (if vd \<noteq> 0 then 1 else 0)\<rparr>)) f)"

definition cellar_workspace_size :: "string option \<Rightarrow> string option \<Rightarrow> fs \<Rightarrow> u64 option" where
  "cellar_workspace_size root name f =
     (if root = None \<or> \<not> valid_name name then Some 0 else dir_size_rec (ws_dir 640 root name) f)"

section \<open>Guided setup\<close>

text \<open>The broken-down time of \<^verbatim>\<open>gmtime\<close>; \<open>None\<close> where it fails.\<close>

record tm =
  tm_year :: int
  tm_mon :: int
  tm_mday :: int
  tm_hour :: int
  tm_min :: int
  tm_sec :: int

definition time_stamp :: "tm option \<Rightarrow> string" where
  "time_stamp t =
     (case t of None \<Rightarrow> ''now''
      | Some t \<Rightarrow> snprintf_s 40 (show_int_pad 4 (tm_year t + 1900) @ ''-'' @ show_int_pad 2 (tm_mon t + 1) @ ''-'' @
          show_int_pad 2 (tm_mday t) @ ''T'' @ show_int_pad 2 (tm_hour t) @ '':'' @ show_int_pad 2 (tm_min t) @ '':'' @
          show_int_pad 2 (tm_sec t) @ ''Z''))"

definition ws_defaults :: "tm option \<Rightarrow> string option \<Rightarrow> string \<Rightarrow> nat \<Rightarrow> workspace" where
  "ws_defaults t root name setup =
     \<lparr>ws_name = set_field 64 (Some name), ws_path = ws_dir 640 root (Some name),
      ws_id = snprintf_s 32 (hex_pad 8 (unat (cellar_hash_str name))), ws_setup = int setup,
      ws_setup_label = set_field 24 (Some (cellar_setup_kind_name (int setup))), ws_source = [], ws_executable = [],
      ws_architecture = ''x86'', ws_runner = ''winaltor-wine-10.x'', ws_windows_version = 2,
      ws_gfx_backend = ''Vulkan'', ws_audio_backend = ''ALSA'', ws_dll_overrides = [], ws_dependencies = [],
      ws_tags = [], ws_installed_at = time_stamp t, ws_last_launch = [], ws_exe_hash = [],
      ws_compat_rating = ''UNKNOWN'', ws_favorite = 0, ws_has_shortcut = 0, ws_install_size = 0, ws_perf_mode = 0,
      ws_resolution_width = 1280, ws_resolution_height = 720, ws_dpi = 96, ws_virtual_desktop = 0,
      ws_permissions = CELLAR_PERM_NETWORK, ws_controls = ''default'', ws_sandbox_enabled = 1\<rparr>"

definition add_dependency :: "string \<Rightarrow> workspace \<Rightarrow> workspace" where
  "add_dependency d w =
     w\<lparr>ws_dependencies := (if ws_dependencies w \<noteq> [] then cellar_strlcat 256 (ws_dependencies w) (Some ('','' @ d))
                           else set_field 256 (Some d))\<rparr>"

definition with_inspection :: "cellar_inspect \<Rightarrow> workspace \<Rightarrow> workspace" where
  "with_inspection i w =
     (let w1 = w\<lparr>ws_architecture := set_field 16 (Some (arch_from_machine (ins_machine i)))\<rparr>;
          w2 = (if ins_graphics i \<noteq> [] then w1\<lparr>ws_gfx_backend := set_field 32 (Some (ins_graphics i))\<rparr> else w1)
      in if ins_audio i \<noteq> [] then w2\<lparr>ws_audio_backend := set_field 32 (Some (ins_audio i))\<rparr> else w2)"

definition with_rating :: "int \<Rightarrow> workspace \<Rightarrow> workspace" where
  "with_rating pct w = w\<lparr>ws_compat_rating := set_field 16
     (Some (if pct \<ge> 90 then ''HIGH'' else if pct \<ge> 60 then ''MEDIUM'' else ''LOW''))\<rparr>"

definition with_dependencies :: "cellar_inspect \<Rightarrow> workspace \<Rightarrow> workspace" where
  "with_dependencies i w =
     (let w1 = (if ins_needs_vcruntime i then add_dependency ''vcruntime'' w else w)
      in if ins_needs_dotnet i then add_dependency ''dotnet'' w1 else w1)"

text \<open>The performance counters that the loader also updates are not part of the workspace.\<close>

definition detect_source :: "load_env \<Rightarrow> string \<Rightarrow> fs \<Rightarrow> workspace \<Rightarrow> workspace cres option" where
  "detect_source le path f w =
     (case fs_stat f path of None \<Rightarrow> Some (Ok w)
      | Some n \<Rightarrow>
          let w1 = (case n of Dir \<Rightarrow> w
                    | File c \<Rightarrow> w\<lparr>ws_install_size := ws_install_size w + of_nat (length c),
                                 ws_exe_hash := hash_hex 40 (file_hash (Some path) f)\<rparr>)
          in (case cellar_image_load_file le f path CELLAR_LOAD_DEFAULT perf_counters_zero of
                None \<Rightarrow> None
              | Some r \<Rightarrow> Some (case r of Fault \<Rightarrow> Fault | Err _ \<Rightarrow> Ok w1
                  | Ok (img, _) \<Rightarrow>
                      (case cellar_inspect_image (Some img) (Some path) of Fault \<Rightarrow> Fault | Err _ \<Rightarrow> Ok w1
                       | Ok i \<Rightarrow>
                          let w2 = with_inspection i w1 in
                          (case cellar_compat_analyze (le_registry le) (Some img) (Some (ins_basename i)) of
                             Fault \<Rightarrow> Fault
                           | Err _ \<Rightarrow> Ok (with_dependencies i w2)
                           | Ok a \<Rightarrow> Ok (with_dependencies i (with_rating (an_overall a) w2)))))))"

definition base_name :: "string \<Rightarrow> string" where
  "base_name p = (case rsplit_at CHR ''/'' p of None \<Rightarrow> p | Some (_, b) \<Rightarrow> b)"

text \<open>A portable application is copied into the workspace.\<close>

definition copy_portable :: "string \<Rightarrow> workspace \<Rightarrow> fs \<Rightarrow> fs \<times> workspace" where
  "copy_portable source w f =
     (case cellar_mkdir_p f (Some (cellar_path_join 720 (Some (ws_path w)) (Some ''drive_c/Games''))) of (f1, r) \<Rightarrow>
        if r \<noteq> 0 then (f1, w)
        else
          let dest = snprintf_s 720 (ws_path w @ ''/drive_c/Games/'' @ base_name source)
          in (case copy_file source dest f1 of (f2, ok) \<Rightarrow>
                (f2, if ok then w\<lparr>ws_executable := set_field 512 (Some dest)\<rparr> else w)))"

definition app_entry :: "string \<Rightarrow> desktop_entry" where
  "app_entry name = \<lparr>de_name = snprintf_s 128 name, de_exec = snprintf_s 512 (snprintf_s 1024 (''cellar app run '' @ name)),
     de_icon = [], de_mime = [], de_categories = ''Game;''\<rparr>"

definition add_shortcut :: "environment \<Rightarrow> string \<Rightarrow> string \<Rightarrow> workspace \<Rightarrow> fs \<Rightarrow> fs \<times> workspace" where
  "add_shortcut env sdir name w f =
     (case cellar_desktop_write_shortcut (Some sdir) (Some (app_entry name)) f of (f1, st) \<Rightarrow>
        if st \<noteq> CELLAR_OK then (f1, w)
        else (case cellar_workspace_save env (w\<lparr>ws_has_shortcut := 1\<rparr>) f1 of (f2, w2, _) \<Rightarrow> (f2, w2)))"

text \<open>The end of the setup: the size if it is not known yet, the configuration file, the shortcut.\<close>

definition finish_install ::
    "environment \<Rightarrow> string option \<Rightarrow> string \<Rightarrow> workspace \<Rightarrow> fs \<Rightarrow> (fs \<times> workspace option \<times> cellar_status) option" where
  "finish_install env root name w f =
     map_option (\<lambda>size.
         let w1 = w\<lparr>ws_install_size := size\<rparr> in
         case cellar_workspace_save env w1 f of (f1, w2, st) \<Rightarrow>
           if st \<noteq> CELLAR_OK then (f1, None, CELLAR_ERR_INVALID_ARGUMENT)
           else (case add_shortcut env (cellar_path_join 720 (Some (ws_path w2)) (Some ''shortcuts'')) name w2 f1 of
                   (f2, w3) \<Rightarrow> (f2, Some w3, CELLAR_OK)))
       (if ws_install_size w \<noteq> 0 then Some (ws_install_size w) else cellar_workspace_size root (Some name) f)"

definition cellar_workspace_install ::
    "environment \<Rightarrow> load_env \<Rightarrow> tm option \<Rightarrow> string option \<Rightarrow> string option \<Rightarrow> nat \<Rightarrow> string option \<Rightarrow> string option \<Rightarrow>
       shell_state \<Rightarrow> fs \<Rightarrow> (fs \<times> shell_state \<times> workspace option \<times> cellar_status) cres option" where
  "cellar_workspace_install env le t root name setup source executable sh f =
     (if root = None \<or> \<not> valid_name name \<or> setup \<ge> CELLAR_SETUP_COUNT \<or> is_ok (cellar_workspace_load root name f)
      then Some (Ok (f, sh, None, CELLAR_ERR_INVALID_ARGUMENT))
      else (case cellar_prefix_create root name sh f of (f1, sh1, st) \<Rightarrow>
        if st \<noteq> CELLAR_OK then Some (Ok (f1, sh1, None, CELLAR_ERR_INVALID_ARGUMENT))
        else
          let w = (ws_defaults t root (the name) setup)\<lparr>ws_source := set_field 512 source,
                    ws_executable := set_field 512 executable\<rparr> in
          obind (case source of None \<Rightarrow> Some (Ok (f1, w))
                 | Some p \<Rightarrow>
                     obind (detect_source le p f1 w) (\<lambda>w1.
                       Some (Ok (if setup = CELLAR_SETUP_PORTABLE \<and> is_file f1 p then copy_portable p w1 f1 else (f1, w1)))))
            (\<lambda>(f2, w2). map_option (\<lambda>(f3, r, st). Ok (f3, sh1, r, st)) (finish_install env root (the name) w2 f2))))"

section \<open>Facts: what is saved is loaded\<close>

lemma save_parts:
  assumes "cellar_workspace_save env w f = (f', w', CELLAR_OK)" "ws_path w \<noteq> []"
  obtains f1 r where "w' = w" "cellar_mkdir_p f (Some (ws_path w)) = (f1, r)"
    "fs_write f1 (ws_conf_path (ws_path w)) (workspace_text w) = Some f'"
proof -
  obtain f1 r where m: "cellar_mkdir_p f (Some (ws_path w)) = (f1, r)" by (cases "cellar_mkdir_p f (Some (ws_path w))")
  show thesis
  proof (rule that [OF _ m])
    show "w' = w" "fs_write f1 (ws_conf_path (ws_path w)) (workspace_text w) = Some f'"
      using assms m by (auto simp: cellar_workspace_save_def Let_def split: if_splits option.splits)
  qed
qed

lemma load_Ok_iff:
  "cellar_workspace_load root name f = Ok w \<longleftrightarrow> root \<noteq> None \<and> valid_name name \<and>
     (\<exists>t. fs_read f (ws_conf_path (ws_dir 640 root name)) = Some t \<and>
        w = workspace_of_text (the name) (ws_dir 640 root name) (cstr (take 16383 t)))"
  by (cases "fs_read f (ws_conf_path (ws_dir 640 root name))")
    (auto simp: cellar_workspace_load_def read_text_def)

lemma workspace_of_text_place:
  "ws_name (workspace_of_text a p t) = set_field 64 (Some a)" "ws_path (workspace_of_text a p t) = set_field 640 (Some p)"
  by (simp_all add: workspace_of_text_def Let_def)

lemma workspace_of_text_name:
  "set_field 64 (Some a) = set_field 64 (Some b) \<Longrightarrow> workspace_of_text a p t = workspace_of_text b p t"
  by (simp only: workspace_of_text_def)

lemma load_saved:
  assumes "workspace_ok w" "ws_path w = ws_dir 640 (Some root) (Some name)" "ws_name w = snprintf_s 64 name"
    "valid_name (Some name)" "cellar_workspace_save env w f = (f', w', CELLAR_OK)"
  shows "cellar_workspace_load (Some root) (Some name) f' = Ok w"
proof -
  have "ws_path w \<noteq> []" using assms(1) by (simp add: workspace_ok_def)
  from save_parts [OF assms(5) this] obtain f1
    where "fs_write f1 (ws_conf_path (ws_path w)) (workspace_text w) = Some f'" by metis
  then have "fs_read f' (ws_conf_path (ws_path w)) = Some (workspace_text w)" by (rule disk.rd_wr_same)
  then have "cellar_workspace_load (Some root) (Some name) f' = Ok (workspace_of_text name (ws_path w) (workspace_text w))"
    unfolding load_Ok_iff assms(2) [symmetric] using assms(4) workspace_text_whole [OF assms(1)] by simp
  moreover have "set_field 64 (Some name) = set_field 64 (Some (ws_name w))"
    unfolding assms(3) by (simp add: set_field_eq snprintf_s_def)
  ultimately show ?thesis using workspace_of_text_saved [OF assms(1)] workspace_of_text_name by metis
qed

lemma load_other:
  assumes "cellar_workspace_save env w f = (f', w', CELLAR_OK)" "ws_path w \<noteq> []"
    "cellar_workspace_load root2 name2 f = Ok v"
    "resolve f (ws_conf_path (ws_dir 640 root2 name2)) \<noteq> resolve f (ws_conf_path (ws_path w))"
  shows "cellar_workspace_load root2 name2 f' = Ok v"
proof -
  let ?p = "ws_conf_path (ws_dir 640 root2 name2)"
  from save_parts [OF assms(1,2)] obtain f1 r where p: "cellar_mkdir_p f (Some (ws_path w)) = (f1, r)"
    "fs_write f1 (ws_conf_path (ws_path w)) (workspace_text w) = Some f'" by metis
  obtain t where t: "fs_read f ?p = Some t" and v: "root2 \<noteq> None" "valid_name name2"
    "v = workspace_of_text (the name2) (ws_dir 640 root2 name2) (cstr (take 16383 t))"
    using load_Ok_iff [THEN iffD1, OF assms(3)] by metis
  have res: "resolve f1 q = resolve f q" for q by (rule resolve_cwd) (rule mkdir_p_frame(1) [OF p(1)])
  have "fs_read f1 ?p = Some t" using mkdir_p_read [OF p(1) t] .
  moreover have "resolve f1 ?p \<noteq> resolve f1 (ws_conf_path (ws_path w))" unfolding res by (rule assms(4))
  ultimately have t': "fs_read f' ?p = Some t" using disk.rd_wr_other [OF p(2)] by metis
  show ?thesis by (rule load_Ok_iff [THEN iffD2]) (use v t' in blast)
qed

lemma loaded_place:
  "cellar_workspace_load (Some root) (Some name) f = Ok w \<Longrightarrow>
     valid_name (Some name) \<and> ws_name w = snprintf_s 64 name \<and> ws_path w = ws_dir 640 (Some root) (Some name)"
proof -
  assume l: "cellar_workspace_load (Some root) (Some name) f = Ok w"
  from load_Ok_iff [THEN iffD1, OF l] obtain t where w: "valid_name (Some name)"
    "w = workspace_of_text name (ws_dir 640 (Some root) (Some name)) (cstr (take 16383 t))" by auto
  have "length (ws_dir 640 (Some root) (Some name)) < 640" unfolding ws_dir_def by (rule length_path_join) simp
  then show ?thesis using w by (simp add: workspace_of_text_place set_field_eq snprintf_s_id)
qed

text \<open>The setters keep the place of the workspace and persist their update.\<close>

lemma load_save_persists:
  assumes "cellar_workspace_load (Some root) (Some name) f = Ok w" "upd w = Some w'"
    "ws_name w' = ws_name w" "ws_path w' = ws_path w" "workspace_ok w'"
    "load_save env (Some root) (Some name) upd f = (f', CELLAR_OK)"
  shows "cellar_workspace_load (Some root) (Some name) f' = Ok w'"
proof -
  obtain w2 where "cellar_workspace_save env w' f = (f', w2, CELLAR_OK)"
    using assms(1,2,6) by (auto simp: load_save_def split: prod.splits)
  then show ?thesis using load_saved [of w' root name] loaded_place [OF assms(1)] assms(3-5) by simp
qed

lemma set_key_place: "set_key key v w = Some w' \<Longrightarrow> key \<noteq> ''name'' \<Longrightarrow> ws_name w' = ws_name w \<and> ws_path w' = ws_path w"
proof -
  have "pred_option (\<lambda>u. ws_path u = ws_path w \<and> (key \<noteq> ''name'' \<longrightarrow> ws_name u = ws_name w)) (set_key key v w)"
    by (simp add: set_key_def)
  then show "set_key key v w = Some w' \<Longrightarrow> key \<noteq> ''name'' \<Longrightarrow> ws_name w' = ws_name w \<and> ws_path w' = ws_path w"
    by simp
qed

lemma workspace_set_persists:
  assumes "cellar_workspace_load (Some root) (Some name) f = Ok w" "set_key key v w = Some w'" "key \<noteq> ''name''"
    "workspace_ok w'" "cellar_workspace_set env (Some root) (Some name) (Some key) v f = (f', CELLAR_OK)"
  shows "cellar_workspace_load (Some root) (Some name) f' = Ok w'"
proof -
  have "load_save env (Some root) (Some name) (set_key key v) f = (f', CELLAR_OK)"
    using assms(5) by (auto simp: cellar_workspace_set_def split: list.splits)
  with set_key_place [OF assms(2,3)] show ?thesis
    by (intro load_save_persists [where upd = "set_key key v", OF assms(1,2)] assms(4)) simp_all
qed

section \<open>Properties\<close>

text \<open>C19. Saving a workspace record and loading it by name gives back every field, and every other
  workspace that loaded before still loads with the record it had. The record must fit its fixed-size fields and
  hold no line break, the only data that the line-based \<^verbatim>\<open>app.conf\<close> cannot carry.\<close>

theorem workspace_save_load:
  assumes "workspace_ok w" "ws_path w = ws_dir 640 (Some root) (Some (ws_name w))"
    "cellar_workspace_save env w f = (f', w', CELLAR_OK)"
  shows "w' = w \<and> cellar_workspace_load (Some root) (Some (ws_name w)) f' = Ok w \<and>
    (\<forall>root2 name2 v. cellar_workspace_load root2 name2 f = Ok v \<longrightarrow>
       resolve f (ws_conf_path (ws_dir 640 root2 name2)) \<noteq> resolve f (ws_conf_path (ws_path w)) \<longrightarrow>
       cellar_workspace_load root2 name2 f' = Ok v)"
proof -
  have ok: "ws_path w \<noteq> []" "valid_name (Some (ws_name w))" "length (ws_name w) < 64"
    using assms(1) by (simp_all add: workspace_ok_def field_ok_def)
  note ne = ok(1,2) snprintf_s_id [OF ok(3), symmetric]
  show ?thesis
  proof (intro conjI allI impI)
    show "w' = w" by (rule save_parts [OF assms(3) ne(1)])
    show "cellar_workspace_load (Some root) (Some (ws_name w)) f' = Ok w"
      by (rule load_saved [OF assms(1,2) ne(3,2) assms(3)])
  next
    fix root2 name2 v
    assume "cellar_workspace_load root2 name2 f = Ok v"
      "resolve f (ws_conf_path (ws_dir 640 root2 name2)) \<noteq> resolve f (ws_conf_path (ws_path w))"
    then show "cellar_workspace_load root2 name2 f' = Ok v" by (rule load_other [OF assms(3) ne(1)])
  qed
qed

definition demo_workspace :: workspace where
  "demo_workspace = (ws_defaults None (Some ''/r'') ''g'' 0)\<lparr>ws_path := ''/r/g'', ws_id := ''1f'', ws_source := ''a=b'',
     ws_setup_label := ''exe'', ws_installed_at := ''now'', ws_permissions := 5, ws_favorite := - 1\<rparr>"

theorem workspace_save_load_witness:
  "\<exists>f'. cellar_workspace_save (\<lambda>_. None) demo_workspace empty_fs = (f', demo_workspace, CELLAR_OK) \<and>
     cellar_workspace_load (Some ''/r'') (Some ''g'') f' = Ok demo_workspace"
proof -
  have v: "ws_name demo_workspace = ''g''" "ws_path demo_workspace = ''/r/g''"
    by (simp_all add: demo_workspace_def ws_defaults_def set_field_eq snprintf_s_def)
  have ok: "workspace_ok demo_workspace"
    by (simp add: workspace_ok_def demo_workspace_def ws_defaults_def set_field_eq snprintf_s_def field_ok_def
        no_nul_def NL_def valid_name_def int32_def)
  have p: "ws_path demo_workspace = ws_dir 640 (Some ''/r'') (Some (ws_name demo_workspace))"
    by (simp add: v ws_dir_def cellar_path_join_def snprintf_s_def)
  let ?f1 = "fst (cellar_mkdir_p empty_fs (Some ''/r/g''))" and ?c = "ws_conf_path ''/r/g''"
  have "?c \<noteq> []" "can_create ?f1 (resolve ?f1 ?c)" "node_at ?f1 (resolve ?f1 ?c) \<noteq> Some Dir" by code_simp+
  then have "fs_write ?f1 ?c t \<noteq> None" for t by (simp add: fs_write_def Let_def)
  then obtain f' where "fs_write ?f1 ?c (workspace_text demo_workspace) = Some f'" by blast
  then have s: "cellar_workspace_save (\<lambda>_. None) demo_workspace empty_fs = (f', demo_workspace, CELLAR_OK)"
    by (simp add: cellar_workspace_save_def v)
  show ?thesis using workspace_save_load [OF ok p s] s by (simp add: v)
qed

text \<open>Renaming through \<^verbatim>\<open>cellar_workspace_set\<close> has no effect that a later load can see: the
  name is taken from the directory.\<close>

lemma workspace_rename_invisible:
  assumes "cellar_workspace_load (Some root) (Some name) f' = Ok w"
  shows "ws_name w = snprintf_s 64 name"
  using loaded_place [OF assms] by simp

end
