(* ===== verification/WsProfile.thy ===== *)
theory WsProfile
  imports Workspace
begin

text \<open>
  The versioned compatibility profiles of a workspace, \<^verbatim>\<open>src/workspace/workspace.c\<close>: the
  \<^verbatim>\<open>key: value\<close> text format and its parser, saving and loading by label, applying a profile,
  listing, comparing, exporting and importing.
\<close>

section \<open>The profile point and its text\<close>

record profile_point =
  pp_label :: string
  pp_app_name :: string
  pp_runner :: string
  pp_architecture :: string
  pp_windows_version :: int
  pp_gfx_backend :: string
  pp_audio_backend :: string
  pp_runtime :: string
  pp_dependencies :: string
  pp_dll_overrides :: string
  pp_resolution :: string
  pp_virtual_desktop :: int
  pp_launch_executable :: string
  pp_launch_args :: string
  pp_trust :: int
  pp_source :: string
  pp_exe_hash :: string
  pp_version :: u32

definition point_zero :: profile_point where
  "point_zero = \<lparr>pp_label = [], pp_app_name = [], pp_runner = [], pp_architecture = [], pp_windows_version = 0,
     pp_gfx_backend = [], pp_audio_backend = [], pp_runtime = [], pp_dependencies = [], pp_dll_overrides = [],
     pp_resolution = [], pp_virtual_desktop = 0, pp_launch_executable = [], pp_launch_args = [], pp_trust = 0,
     pp_source = [], pp_exe_hash = [], pp_version = 0\<rparr>"

definition yaml_fields :: "profile_point \<Rightarrow> (string \<times> string) list" where
  "yaml_fields p =
     [(''name'', if pp_app_name p \<noteq> [] then pp_app_name p else pp_label p), (''label'', pp_label p),
      (''runner'', pp_runner p), (''architecture'', pp_architecture p),
      (''windows_version'', win_mode_name (pp_windows_version p)), (''graphics.backend'', pp_gfx_backend p),
      (''audio.backend'', pp_audio_backend p), (''runtime'', pp_runtime p), (''dependencies'', pp_dependencies p),
      (''dll_overrides'', pp_dll_overrides p), (''windows.resolution'', pp_resolution p),
      (''windows.virtual_desktop'', show_int (pp_virtual_desktop p)), (''launch.executable'', pp_launch_executable p),
      (''launch.arguments'', pp_launch_args p), (''trust'', cellar_profile_trust_name (pp_trust p)),
      (''source'', pp_source p), (''exe_hash'', pp_exe_hash p), (''version'', dec (unat (pp_version p)))]"

definition yaml_line :: "string \<times> string \<Rightarrow> string" where
  "yaml_line kv = fst kv @ '': '' @ snd kv"

definition profile_yaml_write :: "profile_point \<Rightarrow> string" where
  "profile_yaml_write p = unlines (''# Winaltor compatibility profile'' # map yaml_line (yaml_fields p))"

definition trust_of_text :: "string \<Rightarrow> int" where
  "trust_of_text v =
     (if strcasecmp_eq v ''official'' then 1 else if strcasecmp_eq v ''community'' then 2
      else if strcasecmp_eq v ''experimental'' then 3 else 0)"

definition set_point :: "string \<Rightarrow> string \<Rightarrow> profile_point \<Rightarrow> profile_point" where
  "set_point key v p =
     (if key = ''name'' then p\<lparr>pp_app_name := set_field 64 (Some v)\<rparr>
      else if key = ''label'' then p\<lparr>pp_label := set_field 64 (Some v)\<rparr>
      else if key = ''runner'' then p\<lparr>pp_runner := set_field 64 (Some v)\<rparr>
      else if key = ''architecture'' then p\<lparr>pp_architecture := set_field 16 (Some v)\<rparr>
      else if key = ''windows_version'' then p\<lparr>pp_windows_version := win_mode_from_name (Some v)\<rparr>
      else if key = ''graphics.backend'' then p\<lparr>pp_gfx_backend := set_field 32 (Some v)\<rparr>
      else if key = ''audio.backend'' then p\<lparr>pp_audio_backend := set_field 32 (Some v)\<rparr>
      else if key = ''runtime'' then p\<lparr>pp_runtime := set_field 128 (Some v)\<rparr>
      else if key = ''dependencies'' then p\<lparr>pp_dependencies := set_field 256 (Some v)\<rparr>
      else if key = ''dll_overrides'' then p\<lparr>pp_dll_overrides := set_field 512 (Some v)\<rparr>
      else if key = ''windows.resolution'' then p\<lparr>pp_resolution := set_field 32 (Some v)\<rparr>
      else if key = ''windows.virtual_desktop'' then p\<lparr>pp_virtual_desktop := scan_int v\<rparr>
      else if key = ''launch.executable'' then p\<lparr>pp_launch_executable := set_field 512 (Some v)\<rparr>
      else if key = ''launch.arguments'' then p\<lparr>pp_launch_args := set_field 256 (Some v)\<rparr>
      else if key = ''trust'' then p\<lparr>pp_trust := trust_of_text v\<rparr>
      else if key = ''source'' then p\<lparr>pp_source := set_field 192 (Some v)\<rparr>
      else if key = ''exe_hash'' then p\<lparr>pp_exe_hash := set_field 40 (Some v)\<rparr>
      else if key = ''version'' then p\<lparr>pp_version := ucast (strtoull0 v)\<rparr>
      else p)"

text \<open>A line is cut to the buffer of 768 bytes before it is looked at.\<close>

definition parse_line :: "string \<Rightarrow> profile_point \<Rightarrow> profile_point" where
  "parse_line l p =
     (let line = take 767 l in
      if line = [] \<or> hd line = CHR ''#'' then p
      else (case split_at CHR '':'' line of None \<Rightarrow> p | Some (key, r) \<Rightarrow> set_point key (ltrim r) p))"

definition profile_parse :: "string \<Rightarrow> profile_point" where
  "profile_parse text = fold parse_line (lines_of text) point_zero"

section \<open>Files\<close>

definition profile_path :: "nat \<Rightarrow> string option \<Rightarrow> string option \<Rightarrow> string option \<Rightarrow> string" where
  "profile_path n root name label =
     (let ws = ws_dir 640 root name in
      case label of
        Some (c # l) \<Rightarrow>
          if CHR ''/'' \<in> set (c # l) then the (cellar_strlcpy n (Some (c # l)))
          else cellar_strlcat n (cellar_strlcat n (cellar_strlcat n
                 (the (cellar_strlcpy n (Some (snprintf_s 720 (ws @ ''/profiles''))))) (Some ''/''))
                 (Some (c # l))) (Some ''.profile'')
      | _ \<Rightarrow> cellar_path_join n (Some ws) (Some ''profiles/current.profile''))"

definition cellar_workspace_profile_save ::
    "string option \<Rightarrow> string option \<Rightarrow> profile_point option \<Rightarrow> fs \<Rightarrow> fs \<times> string option \<times> cellar_status" where
  "cellar_workspace_profile_save root name p f =
     (case p of None \<Rightarrow> (f, None, CELLAR_ERR_INVALID_ARGUMENT)
      | Some p \<Rightarrow>
          if root = None \<or> \<not> valid_name name \<or> pp_label p = [] then (f, None, CELLAR_ERR_INVALID_ARGUMENT)
          else (case cellar_mkdir_p f (Some (snprintf_s 720 (ws_dir 640 root name @ ''/profiles''))) of (f1, r1) \<Rightarrow>
            if r1 \<noteq> 0 then (f1, None, CELLAR_ERR_INVALID_ARGUMENT)
            else
              let path = profile_path 720 root name (Some (pp_label p)) in
              (case (case rsplit_at CHR ''/'' path of None \<Rightarrow> (f1, 0) | Some (dir, _) \<Rightarrow> cellar_mkdir_p f1 (Some dir)) of
                 (f2, r2) \<Rightarrow>
                   if r2 \<noteq> 0 then (f2, None, CELLAR_ERR_INVALID_ARGUMENT)
                   else (case fs_write f2 path (profile_yaml_write p) of
                           None \<Rightarrow> (f2, None, CELLAR_ERR_INVALID_ARGUMENT)
                         | Some f3 \<Rightarrow> (f3, Some path, CELLAR_OK)))))"

definition cellar_workspace_profile_load ::
    "string option \<Rightarrow> string option \<Rightarrow> string option \<Rightarrow> fs \<Rightarrow> profile_point cres" where
  "cellar_workspace_profile_load root name label f =
     (if root = None \<or> \<not> valid_name name then Err CELLAR_ERR_INVALID_ARGUMENT
      else (case read_text (profile_path 720 root name label) 8192 f of
              None \<Rightarrow> Err CELLAR_ERR_INVALID_ARGUMENT
            | Some buf \<Rightarrow> Ok (profile_parse buf)))"

text \<open>With an output structure \<^verbatim>\<open>profile_current\<close> loads; without one it asks whether the file is there.\<close>

definition cellar_workspace_profile_current :: "string option \<Rightarrow> string option \<Rightarrow> fs \<Rightarrow> profile_point cres" where
  "cellar_workspace_profile_current root name f = cellar_workspace_profile_load root name None f"

definition has_current_profile :: "string option \<Rightarrow> string option \<Rightarrow> fs \<Rightarrow> bool" where
  "has_current_profile root name f \<longleftrightarrow>
     root \<noteq> None \<and> valid_name name \<and> is_file f (profile_path 720 root name None)"

section \<open>Applying a profile\<close>

text \<open>One \<^verbatim>\<open>%u\<close> of \<^verbatim>\<open>sscanf\<close>: white space, a sign, at least one digit; saturation at 64
  bits, then truncation to 32.\<close>

definition scan_u :: "string \<Rightarrow> (u32 \<times> string) option" where
  "scan_u s =
     (let s1 = dropWhile is_space s;
          (neg, s2) = (case s1 of [] \<Rightarrow> (False, []) | c # r \<Rightarrow>
             if c = CHR ''-'' then (True, r) else if c = CHR ''+'' then (False, r) else (False, s1))
      in if s2 = [] \<or> \<not> is_digit (hd s2) then None
         else (case scan_nat s2 of (n, r) \<Rightarrow>
           Some (if n \<ge> 2 ^ 64 then -1 else if neg then - of_nat n else of_nat n, r)))"

definition scan_resolution :: "string \<Rightarrow> (u32 \<times> u32) option" where
  "scan_resolution s =
     (case scan_u s of
        Some (w, c # r) \<Rightarrow> if c = CHR ''x'' then map_option (\<lambda>(h, _). (w, h)) (scan_u r) else None
      | _ \<Rightarrow> None)"

definition apply_point :: "profile_point \<Rightarrow> workspace \<Rightarrow> workspace" where
  "apply_point p w =
     (let w1 = (if pp_runner p \<noteq> [] then w\<lparr>ws_runner := set_field 64 (Some (pp_runner p))\<rparr> else w);
          w2 = (if pp_architecture p \<noteq> [] then w1\<lparr>ws_architecture := set_field 16 (Some (pp_architecture p))\<rparr> else w1);
          w3 = w2\<lparr>ws_windows_version := pp_windows_version p\<rparr>;
          w4 = (if pp_gfx_backend p \<noteq> [] then w3\<lparr>ws_gfx_backend := set_field 32 (Some (pp_gfx_backend p))\<rparr> else w3);
          w5 = (if pp_audio_backend p \<noteq> [] then w4\<lparr>ws_audio_backend := set_field 32 (Some (pp_audio_backend p))\<rparr> else w4);
          w6 = w5\<lparr>ws_dll_overrides := set_field 512 (Some (pp_dll_overrides p)),
                  ws_dependencies := set_field 256 (Some (pp_dependencies p))\<rparr>;
          w7 = (case (if pp_resolution p \<noteq> [] then scan_resolution (pp_resolution p) else None) of
                  None \<Rightarrow> w6 | Some (wd, ht) \<Rightarrow> w6\<lparr>ws_resolution_width := wd, ws_resolution_height := ht\<rparr>);
          w8 = w7\<lparr>ws_virtual_desktop := pp_virtual_desktop p\<rparr>
      in if pp_exe_hash p \<noteq> [] then w8\<lparr>ws_exe_hash := set_field 40 (Some (pp_exe_hash p))\<rparr> else w8)"

definition active_path :: "string option \<Rightarrow> string option \<Rightarrow> string" where
  "active_path root name =
     cellar_strlcat 720 (the (cellar_strlcpy 720 (Some (ws_dir 720 root name)))) (Some ''/profiles/current.profile'')"

text \<open>The profile is stored and made current only if its label is not the current one.\<close>

definition make_current :: "string option \<Rightarrow> string option \<Rightarrow> profile_point \<Rightarrow> fs \<Rightarrow> fs \<times> cellar_status" where
  "make_current root name p f =
     (let cur = (case cellar_workspace_profile_current root name f of Ok c \<Rightarrow> c | _ \<Rightarrow> point_zero) in
      if pp_label cur = pp_label p then (f, CELLAR_OK)
      else (case cellar_workspace_profile_save root name (Some p) f of (f1, _, st) \<Rightarrow>
        if st \<noteq> CELLAR_OK then (f1, CELLAR_ERR_INVALID_ARGUMENT)
        else (case fs_write f1 (active_path root name) (profile_yaml_write p) of
                None \<Rightarrow> (f1, CELLAR_OK) | Some f2 \<Rightarrow> (f2, CELLAR_OK))))"

definition cellar_workspace_profile_apply ::
    "environment \<Rightarrow> string option \<Rightarrow> string option \<Rightarrow> profile_point option \<Rightarrow> fs \<Rightarrow> fs \<times> cellar_status" where
  "cellar_workspace_profile_apply env root name p f =
     (case (p, cellar_workspace_load root name f) of
        (Some p, Ok w) \<Rightarrow>
          (case cellar_workspace_save env (apply_point p w) f of (f1, _, st) \<Rightarrow>
             if st \<noteq> CELLAR_OK then (f1, CELLAR_ERR_INVALID_ARGUMENT) else make_current root name p f1)
      | _ \<Rightarrow> (f, CELLAR_ERR_INVALID_ARGUMENT))"

section \<open>Listing and comparing\<close>

definition is_profile_file :: "string \<Rightarrow> bool" where
  "is_profile_file n \<longleftrightarrow>
     length n > 8 \<and> drop (length n - 8) n = ''.profile'' \<and> n \<noteq> ''current.profile''"

text \<open>Cutting the suffix writes at index \<^verbatim>\<open>L - 8\<close> of a row of 64 characters.\<close>

definition profile_label :: "string \<Rightarrow> string cres" where
  "profile_label n =
     (if length n - 8 \<ge> 64 then Fault else Ok (take (length n - 8) (the (cellar_strlcpy 64 (Some n)))))"

fun collect_labels :: "nat \<Rightarrow> string list \<Rightarrow> string list cres" where
  "collect_labels 0 ns = Ok []"
| "collect_labels (Suc cap) [] = Ok []"
| "collect_labels (Suc cap) (n # ns) =
     (if is_profile_file n
      then cbind (profile_label n) (\<lambda>l. cbind (collect_labels cap ns) (\<lambda>r. Ok (l # r)))
      else collect_labels (Suc cap) ns)"

definition cellar_workspace_profile_list ::
    "string option \<Rightarrow> string option \<Rightarrow> nat \<Rightarrow> fs \<Rightarrow> string list cres" where
  "cellar_workspace_profile_list root name cap f =
     (if root = None \<or> \<not> valid_name name \<or> cap = 0 then Ok []
      else (case list_dir f (cellar_path_join 720 (Some (ws_dir 640 root name)) (Some ''profiles'')) of
              None \<Rightarrow> Ok [] | Some ns \<Rightarrow> collect_labels cap ns))"

definition diff_append :: "nat \<Rightarrow> string \<Rightarrow> string \<Rightarrow> string" where
  "diff_append cap line out =
     (if cap > 1 \<and> length out + length line < cap - 1 then out @ line else out)"

definition diff_line :: "string \<Rightarrow> string \<Rightarrow> string \<Rightarrow> string" where
  "diff_line key x y = snprintf_s 2048 (''  '' @ key @ '': '' @ x @ '' -> '' @ y @ [NL])"

definition diff_lines :: "profile_point \<Rightarrow> profile_point \<Rightarrow> string list" where
  "diff_lines a b =
     concat (map (\<lambda>(key, g). if g a \<noteq> g b then [diff_line key (g a) (g b)] else [])
       [(''runner'', pp_runner), (''architecture'', pp_architecture), (''graphics.backend'', pp_gfx_backend),
        (''audio.backend'', pp_audio_backend), (''runtime'', pp_runtime), (''dependencies'', pp_dependencies),
        (''dll_overrides'', pp_dll_overrides), (''windows.resolution'', pp_resolution),
        (''launch.executable'', pp_launch_executable), (''launch.arguments'', pp_launch_args),
        (''exe_hash'', pp_exe_hash)]) @
     (if pp_windows_version a \<noteq> pp_windows_version b
      then [diff_line ''windows_version'' (win_mode_name (pp_windows_version a)) (win_mode_name (pp_windows_version b))]
      else []) @
     (if pp_virtual_desktop a \<noteq> pp_virtual_desktop b
      then [diff_line ''windows.virtual_desktop'' (show_int (pp_virtual_desktop a)) (show_int (pp_virtual_desktop b))]
      else [])"

text \<open>The returned number is the number of characters written, 0 without a buffer.\<close>

definition profile_diff_points :: "profile_point \<Rightarrow> profile_point \<Rightarrow> nat option \<Rightarrow> int \<times> string" where
  "profile_diff_points a b cap =
     (case cap of None \<Rightarrow> (0, [])
      | Some c \<Rightarrow> let out = fold (diff_append c) (diff_lines a b) [] in (int (length out), out))"

definition cellar_workspace_profile_diff ::
    "string option \<Rightarrow> string option \<Rightarrow> string option \<Rightarrow> string option \<Rightarrow> nat option \<Rightarrow> fs \<Rightarrow> int \<times> string" where
  "cellar_workspace_profile_diff root name a b cap f =
     (case (cellar_workspace_profile_load root name a f, cellar_workspace_profile_load root name b f) of
        (Ok pa, Ok pb) \<Rightarrow> profile_diff_points pa pb cap
      | _ \<Rightarrow> (-1, []))"

section \<open>Export and import\<close>

definition cellar_workspace_profile_export ::
    "string option \<Rightarrow> string option \<Rightarrow> string option \<Rightarrow> fs \<Rightarrow> fs cres" where
  "cellar_workspace_profile_export root name dest f =
     (case dest of None \<Rightarrow> Err CELLAR_ERR_INVALID_ARGUMENT
      | Some d \<Rightarrow> cbind (cellar_workspace_profile_current root name f) (\<lambda>p.
          case fs_write f d (profile_yaml_write p) of None \<Rightarrow> Err CELLAR_ERR_INVALID_ARGUMENT | Some f' \<Rightarrow> Ok f'))"

definition import_label :: "string \<Rightarrow> string cres" where
  "import_label src =
     (let base = base_name src in
      if length base > 8 \<and> drop (length base - 8) base = ''.profile'' then profile_label base
      else (case rsplit_at CHR ''.'' base of
              Some (c # a, _) \<Rightarrow> Ok (snprintf_s 64 (c # a))
            | _ \<Rightarrow> Ok (snprintf_s 64 base)))"

definition cellar_workspace_profile_import ::
    "environment \<Rightarrow> string option \<Rightarrow> string option \<Rightarrow> string option \<Rightarrow> fs \<Rightarrow> (fs \<times> cellar_status) cres" where
  "cellar_workspace_profile_import env root name src f =
     (case src of None \<Rightarrow> Ok (f, CELLAR_ERR_INVALID_ARGUMENT)
      | Some s \<Rightarrow>
          (case read_text s 8192 f of None \<Rightarrow> Ok (f, CELLAR_ERR_INVALID_ARGUMENT)
           | Some buf \<Rightarrow> cbind (import_label s) (\<lambda>label.
               let p = (profile_parse buf)\<lparr>pp_label := set_field 64 (Some label), pp_trust := 2\<rparr> in
               case cellar_workspace_profile_save root name (Some p) f of (f1, _, st) \<Rightarrow>
                 if st \<noteq> CELLAR_OK then Ok (f1, CELLAR_ERR_INVALID_ARGUMENT)
                 else Ok (cellar_workspace_profile_apply env root name (Some p) f1))))"

section \<open>Facts: the text format\<close>

definition value_ok :: "nat \<Rightarrow> string \<Rightarrow> bool" where
  "value_ok n v \<longleftrightarrow> field_ok n v \<and> ltrim v = v"

lemma parse_yaml_line:
  assumes "k \<noteq> []" "hd k \<noteq> CHR ''#''" "CHR '':'' \<notin> set k" "ltrim v = v" "length k + length v \<le> 765"
  shows "parse_line (yaml_line (k, v)) p = set_point k v p"
proof -
  have "take 767 (yaml_line (k, v)) = k @ CHR '':'' # '' '' @ v" using assms(5) by (simp add: yaml_line_def)
  moreover have "split_at CHR '':'' (k @ CHR '':'' # '' '' @ v) = Some (k, '' '' @ v)"
    by (rule split_at_append) (rule assms(3))
  moreover have "ltrim ('' '' @ v) = v" using assms(4) by (simp add: ltrim_def)
  moreover have "hd (k @ CHR '':'' # '' '' @ v) = hd k" using assms(1) by simp
  ultimately show ?thesis using assms(1,2) by (simp add: parse_line_def)
qed

definition point_ok :: "profile_point \<Rightarrow> bool" where
  "point_ok p \<longleftrightarrow> pp_app_name p \<noteq> [] \<and> value_ok 64 (pp_label p) \<and> value_ok 64 (pp_app_name p) \<and>
     value_ok 64 (pp_runner p) \<and> value_ok 16 (pp_architecture p) \<and> value_ok 32 (pp_gfx_backend p) \<and>
     value_ok 32 (pp_audio_backend p) \<and> value_ok 128 (pp_runtime p) \<and> value_ok 256 (pp_dependencies p) \<and>
     value_ok 512 (pp_dll_overrides p) \<and> value_ok 32 (pp_resolution p) \<and> value_ok 512 (pp_launch_executable p) \<and>
     value_ok 256 (pp_launch_args p) \<and> value_ok 192 (pp_source p) \<and> value_ok 40 (pp_exe_hash p) \<and>
     pp_windows_version p \<in> {0, 1, 2, 3} \<and> pp_trust p \<in> {0, 1, 2, 3} \<and> int32 (pp_virtual_desktop p)"

definition plain :: "string \<Rightarrow> bool" where
  "plain v \<longleftrightarrow> ltrim v = v \<and> NL \<notin> set v \<and> no_nul v \<and> length v \<le> 511"

definition yaml_key :: "string \<Rightarrow> bool" where
  "yaml_key k \<longleftrightarrow> k \<noteq> [] \<and> hd k \<noteq> CHR ''#'' \<and> CHR '':'' \<notin> set k \<and> NL \<notin> set k \<and> no_nul k \<and> length k \<le> 23"

lemma plain_value: "value_ok n v \<Longrightarrow> n \<le> 512 \<Longrightarrow> plain v"
  by (auto simp: value_ok_def plain_def field_ok_def)

lemma plain_names: "plain (win_mode_name m)" "plain (cellar_profile_trust_name m)"
  by (simp_all add: plain_def win_mode_name_def cellar_profile_trust_name_def ltrim_def NL_def no_nul_def TAB_def)

lemma ltrim_dec: "ltrim (dec n) = dec n"
proof -
  obtain c r where c: "dec n = c # r" using dec_nonempty [of n] by (cases "dec n") auto
  then have "is_digit c" using dec_digits [of c n] by simp
  then have "c \<noteq> CHR '' ''" "c \<noteq> TAB" by (auto simp: is_digit_def TAB_def)
  then show ?thesis by (simp add: c ltrim_def)
qed

lemma plain_numbers: "int32 i \<Longrightarrow> plain (show_int i)" "plain (dec (unat (w :: u32)))"
proof -
  have "ltrim (show_int i) = show_int i" using ltrim_dec by (simp add: show_int_def ltrim_def TAB_def)
  then show "int32 i \<Longrightarrow> plain (show_int i)" using length_show_int [of i] by (simp add: plain_def no_nul_def)
  show "plain (dec (unat w))" using length_dec_u32 [of w] ltrim_dec by (simp add: plain_def no_nul_def)
qed

lemma yaml_keys: "list_all yaml_key (map fst (yaml_fields p))"
  by (simp add: yaml_fields_def yaml_key_def NL_def no_nul_def)

lemma yaml_values: "point_ok p \<Longrightarrow> list_all plain (map snd (yaml_fields p))"
proof -
  assume p: "point_ok p"
  have "plain (pp_label p)" "plain (pp_app_name p)" "plain (pp_runner p)" "plain (pp_architecture p)"
    "plain (pp_gfx_backend p)" "plain (pp_audio_backend p)" "plain (pp_runtime p)" "plain (pp_dependencies p)"
    "plain (pp_dll_overrides p)" "plain (pp_resolution p)" "plain (pp_launch_executable p)" "plain (pp_launch_args p)"
    "plain (pp_source p)" "plain (pp_exe_hash p)" "plain (show_int (pp_virtual_desktop p))"
    using p by (auto simp: point_ok_def intro: plain_value plain_numbers)
  then show ?thesis by (simp add: yaml_fields_def plain_names plain_numbers)
qed

lemma yaml_pairs:
  assumes "point_ok p" "kv \<in> set (yaml_fields p)"
  shows "yaml_key (fst kv)" "plain (snd kv)"
  using yaml_keys [of p] yaml_values [OF assms(1)] assms(2) by (auto simp: list_all_iff)

lemma yaml_lines_fine:
  assumes "point_ok p"
  shows "\<forall>l\<in>set (''# Winaltor compatibility profile'' # map yaml_line (yaml_fields p)). NL \<notin> set l \<and> no_nul l"
proof -
  have "NL \<notin> set (yaml_line kv) \<and> no_nul (yaml_line kv)" if "kv \<in> set (yaml_fields p)" for kv
    using yaml_pairs [OF assms that] by (simp add: yaml_line_def yaml_key_def plain_def NL_def no_nul_def)
  then show ?thesis by (auto simp: NL_def no_nul_def)
qed

lemma yaml_text_whole:
  assumes "point_ok p"
  shows "cstr (take 8191 (profile_yaml_write p)) = profile_yaml_write p"
proof -
  have f: "length (pp_label p) < 64" "length (pp_app_name p) < 64" "length (pp_runner p) < 64"
    "length (pp_architecture p) < 16" "length (pp_gfx_backend p) < 32" "length (pp_audio_backend p) < 32"
    "length (pp_runtime p) < 128" "length (pp_dependencies p) < 256" "length (pp_dll_overrides p) < 512"
    "length (pp_resolution p) < 32" "length (pp_launch_executable p) < 512" "length (pp_launch_args p) < 256"
    "length (pp_source p) < 192" "length (pp_exe_hash p) < 40" "int32 (pp_virtual_desktop p)" "pp_app_name p \<noteq> []"
    using assms by (simp_all add: point_ok_def value_ok_def field_ok_def)
  have m: "length (win_mode_name m) \<le> 5" "length (cellar_profile_trust_name m) \<le> 12" for m
    by (simp_all add: win_mode_name_def cellar_profile_trust_name_def)
  have "length (profile_yaml_write p) \<le> 8191"
    using f length_show_int [OF f(15)] length_dec_u32 [of "pp_version p"] m [of "pp_windows_version p"] m [of "pp_trust p"]
    by (simp add: profile_yaml_write_def yaml_fields_def length_unlines yaml_line_def)
  moreover have "no_nul (profile_yaml_write p)"
    unfolding profile_yaml_write_def by (rule no_nul_unlines) (use yaml_lines_fine [OF assms] in \<open>simp add: list_all_iff\<close>)
  ultimately show ?thesis by (simp add: cstr_id)
qed

lemma fold_parse_fields:
  assumes "\<And>kv. kv \<in> set kvs \<Longrightarrow> yaml_key (fst kv) \<and> plain (snd kv)"
  shows "fold parse_line (map yaml_line kvs) p = fold (\<lambda>kv. set_point (fst kv) (snd kv)) kvs p"
  using assms
proof (induction kvs arbitrary: p)
  case (Cons kv kvs)
  have "parse_line (yaml_line (fst kv, snd kv)) p = set_point (fst kv) (snd kv) p"
    using Cons.prems [of kv] by (intro parse_yaml_line) (auto simp: yaml_key_def plain_def)
  then show ?case using Cons by simp
qed simp

lemma names_scanned:
  "m \<in> {0, 1, 2, 3} \<Longrightarrow> win_mode_from_name (Some (win_mode_name m)) = m"
  "m \<in> {0, 1, 2, 3} \<Longrightarrow> trust_of_text (cellar_profile_trust_name m) = m"
  by (auto simp: win_mode_from_name_def win_mode_name_def trust_of_text_def cellar_profile_trust_name_def
      strcasecmp_eq_def tolower_c_def)

lemma profile_parse_write:
  assumes "point_ok p"
  shows "profile_parse (profile_yaml_write p) = p"
proof -
  have c: "parse_line (''# Winaltor compatibility profile'') q = q" for q by (simp add: parse_line_def)
  have "profile_parse (profile_yaml_write p) = fold parse_line (map yaml_line (yaml_fields p)) point_zero"
    using yaml_lines_fine [OF assms] unfolding profile_parse_def profile_yaml_write_def
    by (subst lines_of_unlines) (auto simp: c)
  also have "\<dots> = fold (\<lambda>kv. set_point (fst kv) (snd kv)) (yaml_fields p) point_zero"
    by (rule fold_parse_fields) (use yaml_pairs [OF assms] in blast)
  also have "\<dots> = p"
  proof -
    have s: "value_ok n v \<Longrightarrow> 0 < n \<Longrightarrow> set_field n (Some v) = v" for n v
      by (simp add: value_ok_def field_ok_def set_field_eq snprintf_s_id)
    show ?thesis
      using assms names_scanned
      by (intro profile_point.equality)
        (simp_all add: yaml_fields_def set_point_def point_zero_def s scan_int_show strtoull0_dec32 point_ok_def)
  qed
  finally show ?thesis .
qed

section \<open>Every text parses to a point within its buffers\<close>

definition point_typed :: "profile_point \<Rightarrow> bool" where
  "point_typed p \<longleftrightarrow> length (pp_label p) < 64 \<and> length (pp_app_name p) < 64 \<and> length (pp_runner p) < 64 \<and>
     length (pp_architecture p) < 16 \<and> pp_windows_version p \<in> {0, 1, 2, 3} \<and> length (pp_gfx_backend p) < 32 \<and>
     length (pp_audio_backend p) < 32 \<and> length (pp_runtime p) < 128 \<and> length (pp_dependencies p) < 256 \<and>
     length (pp_dll_overrides p) < 512 \<and> length (pp_resolution p) < 32 \<and> int32 (pp_virtual_desktop p) \<and>
     length (pp_launch_executable p) < 512 \<and> length (pp_launch_args p) < 256 \<and> pp_trust p \<in> {0, 1, 2, 3} \<and>
     length (pp_source p) < 192 \<and> length (pp_exe_hash p) < 40"

lemma length_set_field: "0 < n \<Longrightarrow> length (set_field n (Some v)) < n"
  by (simp add: set_field_eq length_snprintf_s)

lemma enum_ranges: "win_mode_from_name s \<in> {0, 1, 2, 3}" "trust_of_text v \<in> {0, 1, 2, 3}"
  by (simp_all add: win_mode_from_name_def trust_of_text_def split: option.splits)

lemma set_point_typed:
  assumes "point_typed p"
  shows "point_typed (set_point key v p)"
proof -
  note len = length_set_field [of 64 v] length_set_field [of 16 v] length_set_field [of 32 v]
    length_set_field [of 128 v] length_set_field [of 256 v] length_set_field [of 512 v]
    length_set_field [of 192 v] length_set_field [of 40 v]
  show ?thesis
    using assms len scan_int_int32 [of v] enum_ranges(1) [of "Some v"] enum_ranges(2) [of v]
    unfolding set_point_def by (simp add: point_typed_def)
qed

lemma parse_line_typed: "point_typed p \<Longrightarrow> point_typed (parse_line l p)"
  by (simp add: parse_line_def Let_def set_point_typed split: option.splits)

lemma fold_parse_typed: "point_typed p \<Longrightarrow> point_typed (fold parse_line ls p)"
  by (induction ls arbitrary: p) (simp_all add: parse_line_typed)

section \<open>Properties\<close>

lemma profile_save_parts:
  assumes "cellar_workspace_profile_save root name (Some p) f = (f', path, CELLAR_OK)"
  obtains f2 where "root \<noteq> None" "valid_name name" "path = Some (profile_path 720 root name (Some (pp_label p)))"
    "fs_write f2 (profile_path 720 root name (Some (pp_label p))) (profile_yaml_write p) = Some f'"
proof -
  let ?path = "profile_path 720 root name (Some (pp_label p))"
  obtain f1 r1 where m: "cellar_mkdir_p f (Some (snprintf_s 720 (ws_dir 640 root name @ ''/profiles''))) = (f1, r1)"
    by (cases "cellar_mkdir_p f (Some (snprintf_s 720 (ws_dir 640 root name @ ''/profiles'')))")
  obtain f2 r2 where m2: "(case rsplit_at CHR ''/'' ?path of None \<Rightarrow> (f1, 0) | Some (dir, _) \<Rightarrow> cellar_mkdir_p f1 (Some dir)) = (f2, r2)"
    by (cases "case rsplit_at CHR ''/'' ?path of None \<Rightarrow> (f1, 0) | Some (dir, _) \<Rightarrow> cellar_mkdir_p f1 (Some dir)")
  have g: "root \<noteq> None" "valid_name name" "r1 = 0" "r2 = 0"
    using assms m m2 by (auto simp: cellar_workspace_profile_save_def Let_def split: if_splits)
  obtain f3 where "fs_write f2 ?path (profile_yaml_write p) = Some f3"
    using assms m m2 g by (cases "fs_write f2 ?path (profile_yaml_write p)")
      (auto simp: cellar_workspace_profile_save_def Let_def split: if_splits)
  moreover from this have "f' = f3" "path = Some ?path"
    using assms m m2 g by (auto simp: cellar_workspace_profile_save_def Let_def split: if_splits)
  ultimately show thesis using that g(1,2) by blast
qed

text \<open>C21. Whatever text is parsed, every string of the resulting profile fits its buffer with its terminator,
  the Windows version and the trust level are in their enumerations and the desktop flag is an \<^verbatim>\<open>int\<close>:
  the fixed-size structure is always well typed, for hand-edited and imported files as for saved ones.\<close>

theorem profile_parse_typed: "point_typed (profile_parse t)"
  unfolding profile_parse_def by (rule fold_parse_typed) (simp add: point_typed_def point_zero_def int32_def)

text \<open>C20. A profile point that is saved to a workspace is loaded back by its label with every field, and
  the path that saving reports is the file that was written. The values must fit their fields, be single lines and
  not start with a blank, and the version and trust values must be in their enumerations.\<close>

theorem profile_point_roundtrip:
  assumes "point_ok p" "cellar_workspace_profile_save root name (Some p) f = (f', path, CELLAR_OK)"
  shows "cellar_workspace_profile_load root name (Some (pp_label p)) f' = Ok p \<and>
    path = Some (profile_path 720 root name (Some (pp_label p)))"
proof -
  from profile_save_parts [OF assms(2)] obtain f2 where p: "root \<noteq> None" "valid_name name"
    "path = Some (profile_path 720 root name (Some (pp_label p)))"
    "fs_write f2 (profile_path 720 root name (Some (pp_label p))) (profile_yaml_write p) = Some f'" by metis
  show ?thesis
    using p(1-3) disk.rd_wr_same [OF p(4)] yaml_text_whole [OF assms(1)] profile_parse_write [OF assms(1)]
    by (simp add: cellar_workspace_profile_load_def read_text_def)
qed

definition demo_point :: profile_point where
  "demo_point = point_zero\<lparr>pp_label := ''p1'', pp_app_name := ''Game: II'', pp_windows_version := 3, pp_trust := 2,
     pp_virtual_desktop := - 1, pp_version := 7\<rparr>"

theorem profile_point_roundtrip_witness:
  "\<exists>f' path. cellar_workspace_profile_save (Some ''/r'') (Some ''g'') (Some demo_point) empty_fs = (f', path, CELLAR_OK) \<and>
     cellar_workspace_profile_load (Some ''/r'') (Some ''g'') (Some ''p1'') f' = Ok demo_point"
proof -
  have l: "pp_label demo_point = ''p1''" by (simp add: demo_point_def point_zero_def)
  have ok: "point_ok demo_point"
    by (simp add: demo_point_def point_zero_def point_ok_def value_ok_def field_ok_def ltrim_def no_nul_def NL_def
        TAB_def int32_def)
  let ?path = "profile_path 720 (Some ''/r'') (Some ''g'') (Some ''p1'')"
  have p: "?path = ''/r/g/profiles/p1.profile''" "snprintf_s 720 (ws_dir 640 (Some ''/r'') (Some ''g'') @ ''/profiles'') = ''/r/g/profiles''"
    "rsplit_at CHR ''/'' ''/r/g/profiles/p1.profile'' = Some (''/r/g/profiles'', ''p1.profile'')" by code_simp+
  define f1 where "f1 = fst (cellar_mkdir_p empty_fs (Some ''/r/g/profiles''))"
  define f2 where "f2 = fst (cellar_mkdir_p f1 (Some ''/r/g/profiles''))"
  have "snd (cellar_mkdir_p empty_fs (Some ''/r/g/profiles'')) = 0" by code_simp
  then have m1: "cellar_mkdir_p empty_fs (Some ''/r/g/profiles'') = (f1, 0)" by (metis f1_def prod.collapse)
  have "snd (cellar_mkdir_p f1 (Some ''/r/g/profiles'')) = 0" unfolding f1_def by code_simp
  then have m2: "cellar_mkdir_p f1 (Some ''/r/g/profiles'') = (f2, 0)" by (metis f2_def prod.collapse)
  have "can_create f2 (resolve f2 ''/r/g/profiles/p1.profile'')"
    "node_at f2 (resolve f2 ''/r/g/profiles/p1.profile'') \<noteq> Some Dir" unfolding f2_def f1_def by code_simp+
  then have "fs_write f2 ''/r/g/profiles/p1.profile'' t \<noteq> None" for t by (simp add: fs_write_def Let_def)
  then obtain f' where w: "fs_write f2 ''/r/g/profiles/p1.profile'' (profile_yaml_write demo_point) = Some f'" by blast
  have v: "valid_name (Some ''g'')" by code_simp
  have s: "cellar_workspace_profile_save (Some ''/r'') (Some ''g'') (Some demo_point) empty_fs =
      (f', Some ''/r/g/profiles/p1.profile'', CELLAR_OK)"
    unfolding cellar_workspace_profile_save_def by (simp add: l p m1 m2 v w)
  show ?thesis using profile_point_roundtrip [OF ok s] s by (simp add: l)
qed

end
