(* ===== verification/WsSnap.thy ===== *)
theory WsSnap
  imports WsProfile
begin

text \<open>
  Snapshots, rollback and repair of a workspace, \<^verbatim>\<open>src/workspace/workspace.c\<close>: the three
  configuration files that a snapshot keeps, the copy into and out of the snapshot directory,
  the list of snapshots, and the repair of a damaged workspace directory.
\<close>

section \<open>Snapshots\<close>

definition snapshot_files :: "string list" where
  "snapshot_files = [''app.conf'', ''prefix.conf'', ''profiles/current.profile'']"

definition snapshot_dir :: "string option \<Rightarrow> string option \<Rightarrow> string \<Rightarrow> string" where
  "snapshot_dir root name label = snprintf_s 720 (ws_dir 640 root name @ ''/snapshots/'' @ label)"

text \<open>Copies the files of the list that exist below \<open>src\<close> to the same place below \<open>dst\<close>;
  the flag is false where a copy fails.\<close>

fun copy_present :: "string \<Rightarrow> string \<Rightarrow> string list \<Rightarrow> fs \<Rightarrow> fs \<times> bool" where
  "copy_present src dst [] f = (f, True)"
| "copy_present src dst (n # ns) f =
     (let file = snprintf_s 800 (src @ ''/'' @ n) in
      if is_file f file
      then (case copy_file file (snprintf_s 800 (dst @ ''/'' @ n)) f of
              (f1, ok) \<Rightarrow> if ok then copy_present src dst ns f1 else (f1, False))
      else copy_present src dst ns f)"

definition cellar_workspace_snapshot ::
    "string option \<Rightarrow> string option \<Rightarrow> string option \<Rightarrow> fs \<Rightarrow> fs \<times> cellar_status" where
  "cellar_workspace_snapshot root name label f =
     (case label of
        Some (c # l) \<Rightarrow>
          if root = None \<or> \<not> valid_name name \<or> CHR ''/'' \<in> set (c # l) \<or> \<not> is_ok (cellar_workspace_load root name f)
          then (f, CELLAR_ERR_INVALID_ARGUMENT)
          else
            let snap = snapshot_dir root name (c # l) in
            (case cellar_mkdir_p f (Some snap) of (f1, r) \<Rightarrow>
              if r \<noteq> 0 then (f1, CELLAR_ERR_INVALID_ARGUMENT)
              else (case copy_present (ws_dir 640 root name) snap snapshot_files f1 of (f2, ok) \<Rightarrow>
                if \<not> ok then (f2, CELLAR_ERR_INVALID_ARGUMENT)
                else (case write_text (snprintf_s 800 (snap @ ''/label.txt'')) (c # l) f2 of
                        None \<Rightarrow> (f2, CELLAR_OK) | Some f3 \<Rightarrow> (f3, CELLAR_OK))))
      | _ \<Rightarrow> (f, CELLAR_ERR_INVALID_ARGUMENT))"

text \<open>The destination is the path in the loaded record.\<close>

definition cellar_workspace_rollback ::
    "string option \<Rightarrow> string option \<Rightarrow> string option \<Rightarrow> fs \<Rightarrow> fs \<times> cellar_status" where
  "cellar_workspace_rollback root name label f =
     (case label of
        Some (c # l) \<Rightarrow>
          if root = None \<or> \<not> valid_name name then (f, CELLAR_ERR_INVALID_ARGUMENT)
          else (case cellar_workspace_load root name f of
            Ok w \<Rightarrow>
              let snap = snapshot_dir root name (c # l) in
              if \<not> is_dir f snap then (f, CELLAR_ERR_INVALID_ARGUMENT)
              else (case copy_present snap (ws_path w) snapshot_files f of (f1, ok) \<Rightarrow>
                (f1, if ok then CELLAR_OK else CELLAR_ERR_INVALID_ARGUMENT))
          | _ \<Rightarrow> (f, CELLAR_ERR_INVALID_ARGUMENT))
      | _ \<Rightarrow> (f, CELLAR_ERR_INVALID_ARGUMENT))"

definition cellar_workspace_snapshot_list ::
    "string option \<Rightarrow> string option \<Rightarrow> nat \<Rightarrow> fs \<Rightarrow> fs \<times> string list" where
  "cellar_workspace_snapshot_list root name cap f =
     (if root = None \<or> \<not> valid_name name \<or> cap = 0 then (f, [])
      else
        let snap = snapshot_dir root name ''.'' in
        (case cellar_mkdir_p f (Some snap) of (f1, r) \<Rightarrow>
          if r \<noteq> 0 then (f1, [])
          else (case list_dir f1 snap of None \<Rightarrow> (f1, [])
                | Some ns \<Rightarrow> (f1, take cap (map (\<lambda>n. the (cellar_strlcpy 64 (Some n)))
                                          (filter (\<lambda>n. \<not> has_prefix n ''.'') ns))))))"

section \<open>Repair\<close>

definition repair_dirs :: "string list" where
  "repair_dirs = [''drive_c'', ''drive_c/windows'', ''runtime'', ''uninstall'', ''profiles'', ''snapshots'', ''shortcuts'']"

fun make_dirs :: "string \<Rightarrow> string list \<Rightarrow> fs \<Rightarrow> fs \<times> bool" where
  "make_dirs ws [] f = (f, True)"
| "make_dirs ws (d # ds) f =
     (case cellar_mkdir_p f (Some (snprintf_s 720 (ws @ ''/'' @ d))) of (f1, r) \<Rightarrow>
        if r \<noteq> 0 then (f1, False) else make_dirs ws ds f1)"

text \<open>The record: the one that loads, or a fresh default that is saved.\<close>

definition load_or_default ::
    "environment \<Rightarrow> tm option \<Rightarrow> string option \<Rightarrow> string option \<Rightarrow> fs \<Rightarrow> (fs \<times> workspace cres) option" where
  "load_or_default env t root name f =
     (case cellar_workspace_load root name f of
        Ok w \<Rightarrow> Some (f, Ok w)
      | _ \<Rightarrow> map_option (\<lambda>size.
          case cellar_workspace_save env ((ws_defaults t root (the name) 0)\<lparr>ws_install_size := size\<rparr>) f of
            (f1, w, st) \<Rightarrow> (f1, if st = CELLAR_OK then Ok w else Err CELLAR_ERR_INVALID_ARGUMENT))
          (cellar_workspace_size root name f))"

text \<open>\<open>garbage\<close> is the uninitialised local of \<^verbatim>\<open>write_conf\<close>, as in theory Prefix.\<close>

definition repair_conf :: "prefix_info \<Rightarrow> string option \<Rightarrow> string option \<Rightarrow> fs \<Rightarrow> fs cres" where
  "repair_conf garbage root name f =
     (if is_file f (cellar_path_join 720 (Some (ws_dir 640 root name)) (Some ''prefix.conf'')) then Ok f
      else cellar_prefix_set_config garbage root name 2 (Some ''Vulkan'') (Some ''ALSA'') f)"

definition cellar_workspace_repair ::
    "environment \<Rightarrow> tm option \<Rightarrow> prefix_info \<Rightarrow> string option \<Rightarrow> string option \<Rightarrow> fs \<Rightarrow> (fs \<times> cellar_status) option" where
  "cellar_workspace_repair env t garbage root name f =
     (if root = None \<or> \<not> valid_name name then Some (f, CELLAR_ERR_INVALID_ARGUMENT)
      else
        let ws = ws_dir 640 root name in
        (case cellar_mkdir_p f (Some ws) of (f1, r) \<Rightarrow>
          if r \<noteq> 0 then Some (f1, CELLAR_ERR_INVALID_ARGUMENT)
          else (case make_dirs ws repair_dirs f1 of (f2, ok) \<Rightarrow>
            if \<not> ok then Some (f2, CELLAR_ERR_INVALID_ARGUMENT)
            else map_option (\<lambda>(f3, r). case r of
                Ok w \<Rightarrow> (case repair_conf garbage root name f3 of
                    Ok f4 \<Rightarrow>
                      if ws_has_shortcut w \<noteq> 0 then (f4, CELLAR_OK)
                      else (fst (add_shortcut env (cellar_path_join 720 (Some ws) (Some ''shortcuts'')) (the name) w f4),
                            CELLAR_OK)
                  | _ \<Rightarrow> (f3, CELLAR_ERR_INVALID_ARGUMENT))
              | _ \<Rightarrow> (f3, CELLAR_ERR_INVALID_ARGUMENT)) (load_or_default env t root name f2))))"

section \<open>Facts: copying files\<close>

lemma write_stat:
  "fs_write f p c = Some f' \<Longrightarrow> fs_stat f' q =
     (if q = [] then None else if resolve f q = resolve f p then Some (File c) else fs_stat f q)"
  using fs_write_some [of f p c f'] resolve_cwd [of f' f q] by (simp add: fs_stat_def)

lemma mkdir_stat:
  "cellar_mkdir_p f path = (f', r) \<Longrightarrow> fs_stat f q = Some n \<Longrightarrow> fs_stat f' q = Some n"
  using mkdir_p_frame(1,3) [of f path f' r] resolve_cwd [of f' f q] by (auto simp: fs_stat_def split: if_splits)

lemma stat_read: "fs_stat f p = Some (File c) \<Longrightarrow> fs_read f p = Some c"
  by (simp add: fs_read_def)

text \<open>The destination receives the content; whatever else exists stays as it is.\<close>

lemma copy_file_correct:
  assumes "copy_file src dst f = (f', True)" "fs_stat f src = Some (File c)" "resolve f src \<noteq> resolve f dst"
  shows "fs_cwd f' = fs_cwd f" "fs_stat f' dst = Some (File c)"
    "fs_stat f q = Some n \<Longrightarrow> resolve f q \<noteq> resolve f dst \<Longrightarrow> fs_stat f' q = Some n"
proof -
  obtain f1 r where m: "(case rsplit_at CHR ''/'' (snprintf_s 1024 dst) of
      None \<Rightarrow> (f, 0) | Some (dir, _) \<Rightarrow> cellar_mkdir_p f (Some dir)) = (f1, r)" (is "?m = _")
    by (cases ?m)
  have r: "r = 0" using assms(1) m by (auto simp: copy_file_def split: if_splits)
  have keep: "fs_stat f1 q = Some n" if "fs_stat f q = Some n" for q n
    using m that mkdir_stat by (auto split: option.splits prod.splits)
  have cwd: "fs_cwd f1 = fs_cwd f" using m mkdir_p_frame(1) by (auto split: option.splits prod.splits)
  have res: "resolve f1 q = resolve f q" for q by (rule resolve_cwd) (rule cwd)
  have c1: "fs_read f1 src = Some c" using keep [OF assms(2)] by (rule stat_read)
  obtain f2 where f2: "fs_write f1 dst [] = Some f2"
    using assms(1) m r c1 by (cases "fs_write f1 dst []") (auto simp: copy_file_def)
  have "src \<noteq> []" using assms(2) by (auto simp: fs_stat_def)
  then have "fs_stat f2 src = Some (File c)"
    using keep [OF assms(2)] write_stat [OF f2, of src] assms(3) by (simp add: res)
  then have c2: "fs_read f2 src = Some c" by (rule stat_read)
  obtain f3 where f3: "fs_write f2 dst c = Some f3" using fs_write_again [OF f2] by blast
  have f': "f' = f3" using assms(1) m r c1 f2 c2 f3 by (simp add: copy_file_def)
  have cwd2: "fs_cwd f2 = fs_cwd f" using fs_write_some(1) [OF f2] cwd by simp
  have res2: "resolve f2 q = resolve f q" for q by (rule resolve_cwd) (rule cwd2)
  show "fs_cwd f' = fs_cwd f" using fs_write_some(1) [OF f3] cwd2 by (simp add: f')
  show "fs_stat f' dst = Some (File c)" using write_stat [OF f3, of dst] fs_write_some(3) [OF f3] by (simp add: f')
  show "fs_stat f' q = Some n" if "fs_stat f q = Some n" "resolve f q \<noteq> resolve f dst"
    using write_stat [OF f3, of q] write_stat [OF f2, of q] keep [OF that(1)] that
    by (auto simp: f' res res2 fs_stat_def split: if_splits)
qed

text \<open>Copying a list of files between two places that do not overlap.\<close>

definition apart :: "fs \<Rightarrow> string \<Rightarrow> string \<Rightarrow> string list \<Rightarrow> bool" where
  "apart f src dst ns \<longleftrightarrow>
     (\<forall>m\<in>set ns. \<forall>n\<in>set ns. resolve f (snprintf_s 800 (src @ ''/'' @ m)) \<noteq> resolve f (snprintf_s 800 (dst @ ''/'' @ n))) \<and>
     distinct (map (\<lambda>n. resolve f (snprintf_s 800 (dst @ ''/'' @ n))) ns)"

lemma copy_present_correct:
  assumes "copy_present src dst ns f = (f', True)" "apart f src dst ns"
  shows "fs_cwd f' = fs_cwd f \<and>
    (\<forall>n\<in>set ns. \<forall>c. fs_stat f (snprintf_s 800 (src @ ''/'' @ n)) = Some (File c) \<longrightarrow>
       fs_stat f' (snprintf_s 800 (dst @ ''/'' @ n)) = Some (File c)) \<and>
    (\<forall>q x. fs_stat f q = Some x \<longrightarrow> (\<forall>n\<in>set ns. resolve f q \<noteq> resolve f (snprintf_s 800 (dst @ ''/'' @ n))) \<longrightarrow>
       fs_stat f' q = Some x)"
  using assms
proof (induction ns arbitrary: f)
  case (Cons n ns)
  let ?s = "\<lambda>n. snprintf_s 800 (src @ ''/'' @ n)" and ?d = "\<lambda>n. snprintf_s 800 (dst @ ''/'' @ n)"
  have ap: "apart f src dst ns" using Cons.prems(2) by (simp add: apart_def)
  show ?case
  proof (cases "is_file f (?s n)")
    case False
    then have "copy_present src dst ns f = (f', True)" using Cons.prems(1) by simp
    note ih = Cons.IH [OF this ap]
    have "fs_stat f (?s n) \<noteq> Some (File c)" for c using False by (auto simp: is_file_def)
    then show ?thesis using ih by simp
  next
    case True
    then obtain c where c: "fs_stat f (?s n) = Some (File c)"
      by (auto simp: is_file_def split: option.splits node.splits)
    obtain f1 where f1: "copy_file (?s n) (?d n) f = (f1, True)" "copy_present src dst ns f1 = (f', True)"
      using Cons.prems(1) True by (auto simp: Let_def split: prod.splits if_splits)
    have ne: "resolve f (?s n) \<noteq> resolve f (?d n)" using Cons.prems(2) by (simp add: apart_def)
    note cf = copy_file_correct [OF f1(1) c ne]
    have res: "resolve f1 q = resolve f q" for q by (rule resolve_cwd) (rule cf(1))
    have "apart f1 src dst ns" using ap by (simp add: apart_def res)
    note ih = Cons.IH [OF f1(2) this, unfolded res cf(1)]
    have dn: "resolve f (?d n) \<noteq> resolve f (?d m)" if "m \<in> set ns" for m
      using Cons.prems(2) that by (auto simp: apart_def)
    have sn: "resolve f (?s m) \<noteq> resolve f (?d n)" if "m \<in> set ns" for m
      using Cons.prems(2) that by (auto simp: apart_def)
    have "fs_stat f' (?d n) = Some (File c)" using ih cf(2) dn by blast
    moreover have "fs_stat f' (?d m) = Some (File e)" if "m \<in> set ns" "fs_stat f (?s m) = Some (File e)" for m e
      using ih cf(3) [OF that(2)] sn [OF that(1)] that(1) by blast
    moreover have "fs_stat f' q = Some x" if "fs_stat f q = Some x" "\<forall>m\<in>set (n # ns). resolve f q \<noteq> resolve f (?d m)" for q x
      using ih cf(3) [OF that(1)] that(2) by simp
    ultimately show ?thesis using ih c by auto
  qed
qed simp

section \<open>Facts: places\<close>

lemma ws_dir_nonempty: "valid_name (Some name) \<Longrightarrow> ws_dir 640 root (Some name) \<noteq> []"
  by (auto simp: ws_dir_def cellar_path_join_def snprintf_s_def valid_name_def Let_def)

lemma length_ws_dir: "length (ws_dir 640 root name) < 640"
  unfolding ws_dir_def by (rule length_path_join) simp

lemma snapshot_places:
  assumes "ws \<noteq> []" "CHR ''/'' \<notin> set label" "label \<noteq> []" "label \<noteq> ''.''" "label \<noteq> ''..''"
  shows "n \<in> set snapshot_files \<Longrightarrow> resolve f (ws @ ''/'' @ n) = resolve f ws @ split_slash n"
    "n \<in> set (''label.txt'' # snapshot_files) \<Longrightarrow>
       resolve f ((ws @ ''/snapshots/'' @ label) @ ''/'' @ n) = resolve f ws @ [''snapshots'', label] @ split_slash n"
proof -
  have sp: "split_slash ''app.conf'' = [''app.conf'']" "split_slash ''prefix.conf'' = [''prefix.conf'']"
    "split_slash ''profiles/current.profile'' = [''profiles'', ''current.profile'']"
    "split_slash ''label.txt'' = [''label.txt'']" "split_slash ''snapshots'' = [''snapshots'']" by code_simp+
  have st: "foldl norm_step R (split_slash n) = R @ split_slash n" if "n \<in> set (''label.txt'' # snapshot_files)" for R n
    using that by (auto simp: snapshot_files_def sp norm_step_def)
  show "n \<in> set snapshot_files \<Longrightarrow> resolve f (ws @ ''/'' @ n) = resolve f ws @ split_slash n"
    using assms(1) st resolve_append [of ws f n] by simp
  have eq: "ws @ ''/snapshots/'' @ label = (ws @ CHR ''/'' # ''snapshots'') @ CHR ''/'' # label" by simp
  have a: "resolve f ((ws @ CHR ''/'' # ''snapshots'') @ CHR ''/'' # label) =
      foldl norm_step (resolve f (ws @ CHR ''/'' # ''snapshots'')) (split_slash label)"
    by (rule resolve_append) simp
  have b: "resolve f (ws @ CHR ''/'' # ''snapshots'') = foldl norm_step (resolve f ws) (split_slash ''snapshots'')"
    by (rule resolve_append) (rule assms(1))
  have "resolve f (ws @ ''/snapshots/'' @ label) = resolve f ws @ [''snapshots'', label]"
    unfolding eq a b using assms by (simp add: sp norm_step_def split_slash_noslash)
  then show "n \<in> set (''label.txt'' # snapshot_files) \<Longrightarrow>
       resolve f ((ws @ ''/snapshots/'' @ label) @ ''/'' @ n) = resolve f ws @ [''snapshots'', label] @ split_slash n"
    using st resolve_append [of "ws @ ''/snapshots/'' @ label" f n] by simp
qed

lemma split_files:
  "split_slash ''app.conf'' = [''app.conf'']" "split_slash ''prefix.conf'' = [''prefix.conf'']"
  "split_slash ''profiles/current.profile'' = [''profiles'', ''current.profile'']"
  "split_slash ''label.txt'' = [''label.txt'']"
  by code_simp+

lemma files_apart:
  assumes "n \<in> set snapshot_files" "m \<in> set (''label.txt'' # snapshot_files)"
  shows "split_slash n \<noteq> [''snapshots'', label] @ split_slash m" "m \<in> set snapshot_files \<Longrightarrow> split_slash n = split_slash m \<longleftrightarrow> n = m"
    "n \<noteq> ''label.txt'' \<and> split_slash n \<noteq> split_slash ''label.txt''" "length n \<le> 24 \<and> length m \<le> 24"
  using assms by (auto simp: snapshot_files_def split_files)

lemma distinct_snapshot_files: "distinct snapshot_files"
  by (simp add: snapshot_files_def)

text \<open>The two directories of a snapshot do not overlap, whichever is copied to the other.\<close>

lemma snapshot_apart:
  assumes "ws \<noteq> []" "CHR ''/'' \<notin> set label" "label \<noteq> []" "label \<noteq> ''.''" "label \<noteq> ''..''"
    and len: "length ws + length label < 680"
  shows "apart f ws (ws @ ''/snapshots/'' @ label) snapshot_files" "apart f (ws @ ''/snapshots/'' @ label) ws snapshot_files"
proof -
  note pl = snapshot_places [OF assms(1-5)]
  have sn: "snprintf_s 800 (ws @ ''/'' @ n) = ws @ ''/'' @ n"
    "snprintf_s 800 ((ws @ ''/snapshots/'' @ label) @ ''/'' @ n) = (ws @ ''/snapshots/'' @ label) @ ''/'' @ n"
    if "n \<in> set snapshot_files" for n
    using len files_apart(4) [OF that, of n] that by (auto simp: snprintf_s_id)
  have pl2: "n \<in> set snapshot_files \<Longrightarrow>
      resolve f ((ws @ ''/snapshots/'' @ label) @ ''/'' @ n) = resolve f ws @ [''snapshots'', label] @ split_slash n" for n
    by (rule pl(2)) simp
  have d: "distinct (map (\<lambda>n. R @ split_slash n) snapshot_files)" for R
    by (simp add: snapshot_files_def split_files)
  have d1: "distinct (map (\<lambda>n. resolve f (snprintf_s 800 (ws @ ''/'' @ n))) snapshot_files)"
    using d [of "resolve f ws"] sn(1) pl(1) by (simp add: distinct_conv_nth cong: map_cong)
  have d2: "distinct (map (\<lambda>n. resolve f (snprintf_s 800 ((ws @ ''/snapshots/'' @ label) @ ''/'' @ n))) snapshot_files)"
    using d [of "resolve f ws @ [''snapshots'', label]"] sn(2) pl2 by (simp cong: map_cong)
  show "apart f ws (ws @ ''/snapshots/'' @ label) snapshot_files" "apart f (ws @ ''/snapshots/'' @ label) ws snapshot_files"
    unfolding apart_def using d1 d2 sn pl(1) pl2 files_apart(1) files_apart(1) [symmetric] by (auto simp del: append.simps append_assoc)
qed

lemma snapshot_parts:
  assumes "cellar_workspace_snapshot root name (Some label) f = (f', CELLAR_OK)"
  shows "label \<noteq> []" "CHR ''/'' \<notin> set label" "root \<noteq> None" "valid_name name"
    "\<exists>f1 f2. cellar_mkdir_p f (Some (snapshot_dir root name label)) = (f1, 0) \<and>
       copy_present (ws_dir 640 root name) (snapshot_dir root name label) snapshot_files f1 = (f2, True) \<and>
       (f' = f2 \<or> fs_write f2 (snprintf_s 800 (snapshot_dir root name label @ ''/label.txt'')) label = Some f')"
  using assms
  by (cases label; force simp: cellar_workspace_snapshot_def Let_def write_text_def
      split: if_splits prod.splits option.splits)+

lemma rollback_parts:
  assumes "cellar_workspace_rollback root name (Some label) g = (g', CELLAR_OK)"
  shows "\<exists>w. cellar_workspace_load root name g = Ok w \<and>
    copy_present (snapshot_dir root name label) (ws_path w) snapshot_files g = (g', True)"
  using assms
  by (cases label; force simp: cellar_workspace_rollback_def Let_def split: if_splits prod.splits cres.splits)

section \<open>Properties\<close>

text \<open>C18. Rolling back to a snapshot restores every configuration file that existed when the snapshot
  was taken, with the content it had, whatever happened to the workspace in between, provided the
  snapshot directory itself was left alone, the label is not one of the two special names, and the
  paths fit the buffers.\<close>

theorem snapshot_rollback:
  assumes snap: "cellar_workspace_snapshot (Some root) (Some name) (Some label) f = (f1, CELLAR_OK)"
    and roll: "cellar_workspace_rollback (Some root) (Some name) (Some label) g = (g1, CELLAR_OK)"
    and label: "label \<noteq> ''.''" "label \<noteq> ''..''"
    and len: "length (ws_dir 640 (Some root) (Some name)) + length label < 680"
    and cwd: "fs_cwd g = fs_cwd f"
    and kept: "\<And>m. m \<in> set snapshot_files \<Longrightarrow> fs_stat g (snapshot_dir (Some root) (Some name) label @ ''/'' @ m) =
      fs_stat f1 (snapshot_dir (Some root) (Some name) label @ ''/'' @ m)"
    and n: "n \<in> set snapshot_files" "fs_stat f (ws_dir 640 (Some root) (Some name) @ ''/'' @ n) = Some (File c)"
  shows "fs_stat g1 (ws_dir 640 (Some root) (Some name) @ ''/'' @ n) = Some (File c)"
proof -
  define ws where "ws = ws_dir 640 (Some root) (Some name)"
  note sp = snapshot_parts [OF snap]
  have W: "ws \<noteq> []" using ws_dir_nonempty [OF sp(4)] by (simp add: ws_def)
  have len': "length ws + length label < 680" using len by (simp add: ws_def)
  have sd: "snapshot_dir (Some root) (Some name) label = ws @ ''/snapshots/'' @ label"
    using len' by (simp add: snapshot_dir_def ws_def [symmetric] snprintf_s_id)
  note pl = snapshot_places [OF W sp(2,1) label]
  note ap = snapshot_apart [OF W sp(2,1) label len']
  have sn: "snprintf_s 800 (ws @ ''/'' @ n) = ws @ ''/'' @ n"
    "snprintf_s 800 ((ws @ ''/snapshots/'' @ label) @ ''/'' @ n) = (ws @ ''/snapshots/'' @ label) @ ''/'' @ n"
    "snprintf_s 800 ((ws @ ''/snapshots/'' @ label) @ ''/label.txt'') = (ws @ ''/snapshots/'' @ label) @ ''/'' @ ''label.txt''"
    using len' files_apart(4) [OF n(1), of n] n(1) by (auto simp: snprintf_s_id)
  obtain h h' where m: "cellar_mkdir_p f (Some (snapshot_dir (Some root) (Some name) label)) = (h, 0)"
    and cp: "copy_present ws (ws @ ''/snapshots/'' @ label) snapshot_files h = (h', True)"
    and lt: "f1 = h' \<or> fs_write h' ((ws @ ''/snapshots/'' @ label) @ ''/'' @ ''label.txt'') label = Some f1"
    using sp(5) unfolding sd ws_def [symmetric] sn(3) by blast
  have "fs_stat h (ws @ ''/'' @ n) = Some (File c)" using mkdir_stat [OF m] n(2) by (simp add: ws_def)
  then have k: "fs_stat h' ((ws @ ''/snapshots/'' @ label) @ ''/'' @ n) = Some (File c)"
    using copy_present_correct [OF cp ap(1)] n(1) sn(1,2) by metis
  have "resolve h' ((ws @ ''/snapshots/'' @ label) @ ''/'' @ n) \<noteq>
      resolve h' ((ws @ ''/snapshots/'' @ label) @ ''/'' @ ''label.txt'')"
    using pl(2) [of n h'] pl(2) [of "''label.txt''" h'] files_apart(3) [OF n(1), of n] n(1)
    by (simp del: append.simps append_assoc)
  then have "fs_stat f1 ((ws @ ''/snapshots/'' @ label) @ ''/'' @ n) = Some (File c)"
    using lt k write_stat [of h' "(ws @ ''/snapshots/'' @ label) @ ''/'' @ ''label.txt''" label f1] W by auto
  then have kg: "fs_stat g ((ws @ ''/snapshots/'' @ label) @ ''/'' @ n) = Some (File c)"
    using kept [OF n(1)] unfolding sd by simp
  obtain w where w: "cellar_workspace_load (Some root) (Some name) g = Ok w"
    and cg: "copy_present (ws @ ''/snapshots/'' @ label) (ws_path w) snapshot_files g = (g1, True)"
    using rollback_parts [OF roll] unfolding sd by blast
  have "ws_path w = ws" using loaded_place [OF w] by (simp add: ws_def)
  with cg have cg': "copy_present (ws @ ''/snapshots/'' @ label) ws snapshot_files g = (g1, True)" by simp
  have "fs_stat g1 (ws @ ''/'' @ n) = Some (File c)"
    using copy_present_correct [OF cg' ap(2)] kg n(1) sn(1,2) by metis
  then show ?thesis by (simp add: ws_def)
qed

definition demo_ws_fs :: fs where
  "demo_ws_fs = empty_fs\<lparr>fs_nodes := [([''r''], Dir), ([''r'', ''g''], Dir),
     ([''r'', ''g'', ''app.conf''], File (''name=g'' @ [NL]))]\<rparr>"

lemma load_is_Ok:
  assumes "valid_name (Some name)" "fs_read f (ws_conf_path (ws_dir 640 (Some root) (Some name))) \<noteq> None"
  obtains w where "cellar_workspace_load (Some root) (Some name) f = Ok w"
  using assms load_Ok_iff [of "Some root" "Some name" f] by auto

lemma snapshot_run:
  assumes "valid_name (Some name)" "fs_read f (ws_conf_path (ws_dir 640 (Some root) (Some name))) \<noteq> None"
    "label \<noteq> []" "CHR ''/'' \<notin> set label"
    and m: "cellar_mkdir_p f (Some (snapshot_dir (Some root) (Some name) label)) = (f1, 0)"
    and c: "copy_present (ws_dir 640 (Some root) (Some name)) (snapshot_dir (Some root) (Some name) label) snapshot_files f1 = (f2, True)"
    and w: "fs_write f2 (snprintf_s 800 (snapshot_dir (Some root) (Some name) label @ ''/label.txt'')) label = Some f3"
  shows "cellar_workspace_snapshot (Some root) (Some name) (Some label) f = (f3, CELLAR_OK)"
proof -
  obtain v where v: "cellar_workspace_load (Some root) (Some name) f = Ok v" by (rule load_is_Ok [OF assms(1,2)])
  obtain x l where l: "label = x # l" using assms(3) by (cases label) auto
  show ?thesis using assms v unfolding l by (simp add: cellar_workspace_snapshot_def write_text_def)
qed

lemma rollback_run:
  assumes "valid_name (Some name)" "fs_read f (ws_conf_path (ws_dir 640 (Some root) (Some name))) \<noteq> None"
    "label \<noteq> []" "is_dir f (snapshot_dir (Some root) (Some name) label)"
    and c: "copy_present (snapshot_dir (Some root) (Some name) label) (ws_dir 640 (Some root) (Some name)) snapshot_files f = (f1, True)"
  shows "cellar_workspace_rollback (Some root) (Some name) (Some label) f = (f1, CELLAR_OK)"
proof -
  obtain v where v: "cellar_workspace_load (Some root) (Some name) f = Ok v" by (rule load_is_Ok [OF assms(1,2)])
  then have "ws_path v = ws_dir 640 (Some root) (Some name)" using loaded_place by blast
  then show ?thesis using assms v by (cases label) (simp_all add: cellar_workspace_rollback_def)
qed

theorem snapshot_rollback_witness:
  "\<exists>f1 h g1. cellar_workspace_snapshot (Some ''/r'') (Some ''g'') (Some ''s1'') demo_ws_fs = (f1, CELLAR_OK) \<and>
     fs_write f1 ''/r/g/app.conf'' (''name=h'' @ [NL]) = Some h \<and>
     cellar_workspace_rollback (Some ''/r'') (Some ''g'') (Some ''s1'') h = (g1, CELLAR_OK) \<and>
     fs_stat g1 ''/r/g/app.conf'' = Some (File (''name=g'' @ [NL]))"
proof -
  let ?snap = "cellar_workspace_snapshot (Some ''/r'') (Some ''g'') (Some ''s1'')"
  let ?roll = "cellar_workspace_rollback (Some ''/r'') (Some ''g'') (Some ''s1'')"
  let ?w = "\<lambda>f. fs_write f ''/r/g/app.conf'' (''name=h'' @ [NL])"
  have d: "ws_dir 640 (Some ''/r'') (Some ''g'') = ''/r/g''"
    "snapshot_dir (Some ''/r'') (Some ''g'') ''s1'' = ''/r/g/snapshots/s1''"
    "ws_conf_path ''/r/g'' = ''/r/g/app.conf''" "valid_name (Some ''g'')"
    "snprintf_s 800 ''/r/g/snapshots/s1/label.txt'' = ''/r/g/snapshots/s1/label.txt''" by code_simp+
  define a where "a = fst (cellar_mkdir_p demo_ws_fs (Some ''/r/g/snapshots/s1''))"
  define b where "b = fst (copy_present ''/r/g'' ''/r/g/snapshots/s1'' snapshot_files a)"
  define f1 where "f1 = the (fs_write b ''/r/g/snapshots/s1/label.txt'' ''s1'')"
  define h where "h = the (?w f1)"
  define g1 where "g1 = fst (copy_present ''/r/g/snapshots/s1'' ''/r/g'' snapshot_files h)"
  have "fs_read demo_ws_fs ''/r/g/app.conf'' \<noteq> None" "snd (cellar_mkdir_p demo_ws_fs (Some ''/r/g/snapshots/s1'')) = 0"
    by code_simp+
  moreover have "snd (copy_present ''/r/g'' ''/r/g/snapshots/s1'' snapshot_files a)" unfolding a_def by code_simp
  moreover have "\<not> Option.is_none (fs_write b ''/r/g/snapshots/s1/label.txt'' ''s1'')" unfolding b_def a_def by code_simp
  ultimately have s: "?snap demo_ws_fs = (f1, CELLAR_OK)"
    by (intro snapshot_run; auto simp: d a_def b_def f1_def prod_eq_iff Option.is_none_def)
  have "\<not> Option.is_none (?w f1)" unfolding f1_def b_def a_def by code_simp
  then have hw: "?w f1 = Some h" by (auto simp: h_def Option.is_none_def)
  have h: "fs_read h ''/r/g/app.conf'' \<noteq> None" "is_dir h ''/r/g/snapshots/s1''"
    "snd (copy_present ''/r/g/snapshots/s1'' ''/r/g'' snapshot_files h)"
    unfolding h_def f1_def b_def a_def by code_simp+
  then have r: "?roll h = (g1, CELLAR_OK)"
    by (intro rollback_run; simp add: d g1_def prod_eq_iff)
  have cwd: "fs_cwd f1 = fs_cwd empty_fs" unfolding f1_def b_def a_def by code_simp
  have c: "fs_cwd h = fs_cwd demo_ws_fs" using fs_write_some(1) [OF hw] cwd by (simp add: demo_ws_fs_def)
  have ne: "resolve empty_fs (''/r/g/snapshots/s1'' @ ''/'' @ m) \<noteq> resolve empty_fs ''/r/g/app.conf''"
    if "m \<in> set snapshot_files" for m
    using that unfolding snapshot_files_def by (elim set_ConsD [THEN disjE]; (simp only:)?; code_simp?)
  have k: "fs_stat h (''/r/g/snapshots/s1'' @ ''/'' @ m) = fs_stat f1 (''/r/g/snapshots/s1'' @ ''/'' @ m)"
    if "m \<in> set snapshot_files" for m
    using ne [OF that] write_stat [OF hw] resolve_cwd [OF cwd] by simp
  have n: "''app.conf'' \<in> set snapshot_files" "fs_stat demo_ws_fs (''/r/g/app.conf'') = Some (File (''name=g'' @ [NL]))"
    by code_simp+
  show ?thesis
    using snapshot_rollback [OF s r, of "''app.conf''" "''name=g'' @ [NL]"] s hw r d k c n by simp
qed

end
