(* ===== verification/Runtime.thy ===== *)
theory Runtime
  imports Fs Text
begin

text \<open>
  The runtime dependency manager, \<^verbatim>\<open>src/runtime/runtime.c\<close>: redistributables recorded by a
  marker file in the bottle. The kind is a number because \<^verbatim>\<open>cellar_runtime_parse\<close> returns
  the out-of-range value \<^verbatim>\<open>CELLAR_RT_COUNT\<close> for an unknown name.
\<close>

definition CELLAR_RT_VCRUNTIME :: nat where "CELLAR_RT_VCRUNTIME = 0"
definition CELLAR_RT_DOTNET :: nat where "CELLAR_RT_DOTNET = 1"
definition CELLAR_RT_DIRECTX :: nat where "CELLAR_RT_DIRECTX = 2"
definition CELLAR_RT_FONTS :: nat where "CELLAR_RT_FONTS = 3"
definition CELLAR_RT_SYSTEMLIBS :: nat where "CELLAR_RT_SYSTEMLIBS = 4"
definition CELLAR_RT_COUNT :: nat where "CELLAR_RT_COUNT = 5"

lemmas rt_kinds = CELLAR_RT_VCRUNTIME_def CELLAR_RT_DOTNET_def CELLAR_RT_DIRECTX_def
  CELLAR_RT_FONTS_def CELLAR_RT_SYSTEMLIBS_def CELLAR_RT_COUNT_def

record rt_meta =
  rt_name :: string
  rt_version :: string
  rt_dir :: string

definition k_meta :: "rt_meta list" where
  "k_meta =
     [\<lparr>rt_name = ''Visual C++ Runtime'', rt_version = ''14.40'', rt_dir = ''vcruntime''\<rparr>,
      \<lparr>rt_name = ''.NET Runtime'', rt_version = ''8.0'', rt_dir = ''dotnet''\<rparr>,
      \<lparr>rt_name = ''DirectX components'', rt_version = ''9.0c'', rt_dir = ''directx''\<rparr>,
      \<lparr>rt_name = ''Windows fonts'', rt_version = ''1.0'', rt_dir = ''fonts''\<rparr>,
      \<lparr>rt_name = ''Common system libraries'', rt_version = ''1.0'', rt_dir = ''systemlibs''\<rparr>]"

text \<open>The bottle; \<open>None\<close> before \<^verbatim>\<open>cellar_runtime_init\<close>.\<close>

type_synonym runtime_state = "string option"

definition cellar_runtime_init :: "string option \<Rightarrow> runtime_state \<Rightarrow> runtime_state cres" where
  "cellar_runtime_init bottle s =
     (case bottle of Some (c # b) \<Rightarrow> Ok (Some (snprintf_s 512 (c # b)))
      | _ \<Rightarrow> Err CELLAR_ERR_INVALID_ARGUMENT)"

definition cellar_runtime_parse :: "string option \<Rightarrow> nat" where
  "cellar_runtime_parse name =
     (case name of None \<Rightarrow> CELLAR_RT_COUNT
      | Some n \<Rightarrow>
          if strcasecmp_eq n ''vcruntime'' \<or> strcasecmp_eq n ''vc'' \<or> strcasecmp_eq n ''vcredist'' then CELLAR_RT_VCRUNTIME
          else if strcasecmp_eq n ''dotnet'' \<or> strcasecmp_eq n ''net'' then CELLAR_RT_DOTNET
          else if strcasecmp_eq n ''directx'' \<or> strcasecmp_eq n ''dx'' then CELLAR_RT_DIRECTX
          else if strcasecmp_eq n ''fonts'' then CELLAR_RT_FONTS
          else if strcasecmp_eq n ''systemlibs'' \<or> strcasecmp_eq n ''system'' then CELLAR_RT_SYSTEMLIBS
          else CELLAR_RT_COUNT)"

definition cellar_runtime_kind_name :: "nat \<Rightarrow> string" where
  "cellar_runtime_kind_name k = (if k \<ge> CELLAR_RT_COUNT then ''?'' else rt_name (k_meta ! k))"

definition runtime_dir :: "string \<Rightarrow> nat \<Rightarrow> string" where
  "runtime_dir bottle k = snprintf_s 700 (bottle @ ''/runtime/'' @ rt_dir (k_meta ! k))"

definition marker_path :: "string \<Rightarrow> nat \<Rightarrow> string" where
  "marker_path bottle k = cellar_path_join 800 (Some (runtime_dir bottle k)) (Some ''INSTALLED'')"

definition cellar_runtime_is_installed :: "nat \<Rightarrow> runtime_state \<Rightarrow> fs \<Rightarrow> bool" where
  "cellar_runtime_is_installed kind s f =
     (case s of None \<Rightarrow> False
      | Some b \<Rightarrow> kind < CELLAR_RT_COUNT \<and> fs_read f (marker_path b kind) \<noteq> None)"

definition marker_text :: "nat \<Rightarrow> string" where
  "marker_text k = unlines [''name='' @ rt_name (k_meta ! k), ''version='' @ rt_version (k_meta ! k)]"

definition cellar_runtime_install :: "nat \<Rightarrow> runtime_state \<Rightarrow> fs \<Rightarrow> fs \<times> cellar_status" where
  "cellar_runtime_install kind s f =
     (case s of None \<Rightarrow> (f, CELLAR_ERR_INVALID_ARGUMENT)
      | Some b \<Rightarrow>
          if kind \<ge> CELLAR_RT_COUNT then (f, CELLAR_ERR_INVALID_ARGUMENT)
          else (case cellar_mkdir_p f (Some (runtime_dir b kind)) of (f1, r) \<Rightarrow>
            if r \<noteq> 0 then (f1, CELLAR_ERR_INVALID_ARGUMENT)
            else (case fs_write f1 (marker_path b kind) (marker_text kind) of
                    None \<Rightarrow> (f1, CELLAR_ERR_INVALID_ARGUMENT)
                  | Some f2 \<Rightarrow>
                      let f3 = (if kind = CELLAR_RT_FONTS
                                then fst (cellar_mkdir_p f2 (Some (snprintf_s 800 (b @ ''/drive_c/windows/fonts'')))) else f2);
                          f4 = (if kind = CELLAR_RT_VCRUNTIME
                                then fst (cellar_mkdir_p f3 (Some (snprintf_s 800 (b @ ''/drive_c/windows/system32'')))) else f3)
                      in (f4, CELLAR_OK))))"

definition cellar_runtime_uninstall :: "nat \<Rightarrow> runtime_state \<Rightarrow> fs \<Rightarrow> fs \<times> cellar_status" where
  "cellar_runtime_uninstall kind s f =
     (case s of None \<Rightarrow> (f, CELLAR_ERR_INVALID_ARGUMENT)
      | Some b \<Rightarrow>
          if kind \<ge> CELLAR_RT_COUNT then (f, CELLAR_ERR_INVALID_ARGUMENT)
          else (fst (fs_remove f (marker_path b kind)), CELLAR_OK))"

record runtime_info =
  ri_kind :: nat
  ri_name :: string
  ri_version :: string
  ri_installed :: bool
  ri_install_path :: string

definition runtime_entry :: "runtime_state \<Rightarrow> fs \<Rightarrow> nat \<Rightarrow> runtime_info" where
  "runtime_entry s f k = \<lparr>ri_kind = k, ri_name = rt_name (k_meta ! k), ri_version = rt_version (k_meta ! k),
     ri_installed = cellar_runtime_is_installed k s f,
     ri_install_path = cellar_path_join 256
       (Some (case s of Some (c # b) \<Rightarrow> c # b | _ \<Rightarrow> ''.''))
       (Some (snprintf_s 64 (''runtime/'' @ rt_dir (k_meta ! k))))\<rparr>"

definition cellar_runtime_list :: "bool \<Rightarrow> nat \<Rightarrow> runtime_state \<Rightarrow> fs \<Rightarrow> runtime_info list" where
  "cellar_runtime_list out cap s f =
     (if \<not> out then [] else map (runtime_entry s f) (take cap [0..<CELLAR_RT_COUNT]))"

text \<open>The marks are the UTF-8 bytes of a check mark and a middle dot.\<close>

definition cellar_runtime_report :: "runtime_state \<Rightarrow> fs \<Rightarrow> string" where
  "cellar_runtime_report s f =
     unlines ([''Runtime Manager'', ''---------------''] @
       map (\<lambda>r. (if ri_installed r then [CHR 0xE2, CHR 0x9C, CHR 0x93] else [CHR 0xC2, CHR 0xB7]) @ '' '' @
                ri_name r @ ''  ('' @ ri_version r @ '')'')
         (cellar_runtime_list True CELLAR_RT_COUNT s f))"

section \<open>Facts\<close>

lemma kind_cases: "k < CELLAR_RT_COUNT \<Longrightarrow> k = 0 \<or> k = 1 \<or> k = 2 \<or> k = 3 \<or> k = 4"
  by (auto simp: rt_kinds)

lemma install_parts:
  assumes "cellar_runtime_install k (Some b) f = (f', CELLAR_OK)"
  obtains f1 f2 f3 r where "k < CELLAR_RT_COUNT" "cellar_mkdir_p f (Some (runtime_dir b k)) = (f1, 0)"
    "fs_write f1 (marker_path b k) (marker_text k) = Some f2"
    "f' = f2 \<or> (\<exists>p. cellar_mkdir_p f2 (Some p) = (f', r))"
proof -
  obtain f1 r where m: "cellar_mkdir_p f (Some (runtime_dir b k)) = (f1, r)" by (cases "cellar_mkdir_p f (Some (runtime_dir b k))")
  then have r: "r = 0" "k < CELLAR_RT_COUNT" using assms by (auto simp: cellar_runtime_install_def split: if_splits)
  obtain f2 where f2: "fs_write f1 (marker_path b k) (marker_text k) = Some f2"
    using assms m r by (cases "fs_write f1 (marker_path b k) (marker_text k)") (auto simp: cellar_runtime_install_def)
  have "f' = f2 \<or> (\<exists>p. fst (cellar_mkdir_p f2 (Some p)) = f')"
    using assms m r f2 by (auto simp: cellar_runtime_install_def Let_def rt_kinds split: if_splits)
  then obtain r2 where "f' = f2 \<or> (\<exists>p. cellar_mkdir_p f2 (Some p) = (f', r2))"
    by (metis prod.collapse)
  then show thesis using that r m f2 by metis
qed

text \<open>An installation that succeeds is seen as installed, and stays so until it is uninstalled.\<close>

lemma installed_after_install:
  assumes "cellar_runtime_install k (Some b) f = (f', CELLAR_OK)"
  shows "cellar_runtime_is_installed k (Some b) f'"
proof -
  from install_parts [OF assms] obtain f1 f2 r where p: "k < CELLAR_RT_COUNT"
    "fs_write f1 (marker_path b k) (marker_text k) = Some f2"
    "f' = f2 \<or> (\<exists>p. cellar_mkdir_p f2 (Some p) = (f', r))" by metis
  have "fs_read f2 (marker_path b k) = Some (marker_text k)" by (rule disk.rd_wr_same) (rule p(2))
  then have "fs_read f' (marker_path b k) = Some (marker_text k)" using p(3) mkdir_p_read by blast
  then show ?thesis using p(1) by (simp add: cellar_runtime_is_installed_def)
qed

end
