(* ===== verification/WsDoctor.thy ===== *)
theory WsDoctor
  imports WsSnap Runtime Device Plugin
begin

text \<open>
  Diagnosis of a workspace, \<^verbatim>\<open>src/workspace/workspace.c\<close>: the launch doctor, the support bundle with
  its redaction of the user's home, the log diagnosis, the permission and safety texts, the device
  report and the shader cache of a workspace. \<^verbatim>\<open>statvfs\<close>, \<^verbatim>\<open>uname\<close>, \<^verbatim>\<open>sysconf\<close> and \<^verbatim>\<open>getpid\<close> are
  arguments; the backend registry and the runtime manager are states that are passed through.
\<close>

section \<open>The launch doctor\<close>

datatype doctor_result = CELLAR_DOCTOR_UNKNOWN | CELLAR_DOCTOR_OK | CELLAR_DOCTOR_WARN | CELLAR_DOCTOR_FAIL

record doctor_check =
  dc_name :: string
  dc_detail :: string
  dc_result :: doctor_result

record doctor_report =
  dr_checks :: "doctor_check list"
  dr_ready :: bool

definition add_check :: "string \<times> string option \<times> doctor_result \<Rightarrow> doctor_report \<Rightarrow> doctor_report" where
  "add_check c r =
     (case c of (name, detail, result) \<Rightarrow>
       if length (dr_checks r) \<ge> 16 then r
       else r\<lparr>dr_checks := dr_checks r @ [\<lparr>dc_name = the (cellar_strlcpy 64 (Some name)),
                dc_detail = the (cellar_strlcpy 192 (Some (text_or [] detail))), dc_result = result\<rparr>],
              dr_ready := dr_ready r \<and> result \<noteq> CELLAR_DOCTOR_FAIL\<rparr>)"

type_synonym check = "string \<times> string option \<times> doctor_result"

definition executable_check :: "workspace \<Rightarrow> fs \<Rightarrow> check" where
  "executable_check w f =
     (if ws_executable w = [] \<or> \<not> is_file f (ws_executable w)
      then (''executable'', Some ''launch file missing or not set'', CELLAR_DOCTOR_FAIL)
      else (''executable'', Some (ws_executable w), CELLAR_DOCTOR_OK))"

definition prefix_check :: "workspace \<Rightarrow> fs \<Rightarrow> check" where
  "prefix_check w f =
     (if is_dir f (snprintf_s 720 (ws_path w @ ''/drive_c'')) then (''prefix'', Some (ws_path w), CELLAR_DOCTOR_OK)
      else (''prefix'', Some ''drive_c missing; run repair'', CELLAR_DOCTOR_WARN))"

text \<open>\<^verbatim>\<open>statvfs\<close> gives the available blocks and their size; the product is 64 bits wide.\<close>

type_synonym statvfs_fn = "string \<Rightarrow> (u64 \<times> u64) option"

definition storage_check :: "statvfs_fn \<Rightarrow> workspace \<Rightarrow> check" where
  "storage_check statvfs w =
     (case statvfs (ws_path w) of
        None \<Rightarrow> (''storage'', Some ''could not query'', CELLAR_DOCTOR_WARN)
      | Some (bavail, frsize) \<Rightarrow>
          let free_bytes = bavail * frsize in
          if free_bytes < 256 * 1024 * 1024
          then (''storage'', Some (snprintf_s 128 (dec (unat (free_bytes div (1024 * 1024))) @ '' MB free (recommend >=256)'')),
                CELLAR_DOCTOR_WARN)
          else (''storage'', Some ''enough free space'', CELLAR_DOCTOR_OK))"

definition architecture_check :: "workspace \<Rightarrow> check" where
  "architecture_check w =
     (''architecture'', Some (ws_architecture w),
      if ws_architecture w \<in> set [''x86-64'', ''x86'', ''arm64'', ''arm''] then CELLAR_DOCTOR_OK else CELLAR_DOCTOR_WARN)"

definition renderer_check :: "workspace \<Rightarrow> backends \<Rightarrow> check \<times> backends" where
  "renderer_check w b =
     (if ws_gfx_backend w = ''Vulkan'' then
        (case cellar_backend_pick CELLAR_BACKEND_GRAPHICS b of (picked, b') \<Rightarrow>
          (if text_or [] picked \<noteq> ''Vulkan''
           then (''renderer'', Some ''Vulkan requested but unavailable; fallback'', CELLAR_DOCTOR_WARN)
           else (''renderer'', Some (ws_gfx_backend w), CELLAR_DOCTOR_OK), b'))
      else if ws_gfx_backend w = ''Software''
      then ((''renderer'', Some ''software fallback (expect low performance)'', CELLAR_DOCTOR_WARN), b)
      else ((''renderer'', Some (ws_gfx_backend w), CELLAR_DOCTOR_OK), b))"

text \<open>\<^verbatim>\<open>strtok(dup, ", ")\<close>, at most 16 tokens of at most 31 characters.\<close>

definition dependency_tokens :: "string \<Rightarrow> string list" where
  "dependency_tokens deps =
     map (snprintf_s 32) (take 16 (concat (map (tokens CHR '' '') (split_on CHR '','' deps))))"

definition dependencies_check :: "workspace \<Rightarrow> runtime_state \<Rightarrow> fs \<Rightarrow> check \<times> runtime_state" where
  "dependencies_check w r f =
     (if ws_dependencies w = [] then ((''dependencies'', Some ''no extra runtimes declared'', CELLAR_DOCTOR_OK), r)
      else (case cellar_runtime_init (Some (ws_path w)) r of
        Ok r' \<Rightarrow>
          let ts = dependency_tokens (ws_dependencies w);
              missing = length (filter (\<lambda>t. \<not> cellar_runtime_is_installed (cellar_runtime_parse (Some t)) r' f) ts)
          in if ts = [] then ((''dependencies'', Some ''none required'', CELLAR_DOCTOR_OK), r')
             else ((''dependencies'', Some (snprintf_s 720 (dec (length ts) @ '' required, '' @
                      (if missing \<noteq> 0 then ''some missing'' else ''all installed''))),
                    if missing \<noteq> 0 then CELLAR_DOCTOR_WARN else CELLAR_DOCTOR_OK), r')
      | _ \<Rightarrow> ((''dependencies'', Some ''cannot init runtime manager'', CELLAR_DOCTOR_WARN), r)))"

definition hash_check :: "workspace \<Rightarrow> check" where
  "hash_check w =
     (if ws_exe_hash w \<noteq> [] then (''hash'', Some (ws_exe_hash w), CELLAR_DOCTOR_OK)
      else (''hash'', Some ''not recorded'', CELLAR_DOCTOR_WARN))"

definition profile_check :: "string option \<Rightarrow> string option \<Rightarrow> fs \<Rightarrow> check" where
  "profile_check root name f =
     (if \<not> has_current_profile root name f
      then (''profile'', Some ''no saved profile; run profile apply'', CELLAR_DOCTOR_WARN)
      else (''profile'', Some ''active profile present'', CELLAR_DOCTOR_OK))"

definition empty_report :: doctor_report where
  "empty_report = \<lparr>dr_checks = [], dr_ready = True\<rparr>"

definition cellar_workspace_doctor ::
    "statvfs_fn \<Rightarrow> string option \<Rightarrow> string option \<Rightarrow> backends \<Rightarrow> runtime_state \<Rightarrow> fs \<Rightarrow>
     doctor_report \<times> backends \<times> runtime_state" where
  "cellar_workspace_doctor statvfs root name b r f =
     (case cellar_workspace_load root name f of
        Ok w \<Rightarrow>
          (case renderer_check w b of (rc, b') \<Rightarrow>
           case dependencies_check w r f of (dc, r') \<Rightarrow>
             (fold add_check
                [(''workspace'', Some (ws_path w), CELLAR_DOCTOR_OK), executable_check w f, prefix_check w f,
                 storage_check statvfs w, architecture_check w, rc, dc, hash_check w, profile_check root name f]
                empty_report, b', r'))
      | _ \<Rightarrow> (add_check (''workspace'', Some ''workspace does not exist'', CELLAR_DOCTOR_FAIL) empty_report, b, r))"

definition result_label :: "doctor_result \<Rightarrow> string" where
  "result_label r =
     (case r of CELLAR_DOCTOR_UNKNOWN \<Rightarrow> ''unknown'' | CELLAR_DOCTOR_OK \<Rightarrow> ''ok''
      | CELLAR_DOCTOR_WARN \<Rightarrow> ''warn'' | CELLAR_DOCTOR_FAIL \<Rightarrow> ''fail'')"

text \<open>The text that \<^verbatim>\<open>cellar_doctor_report\<close> prints.\<close>

definition pad_to :: "nat \<Rightarrow> string \<Rightarrow> string" where
  "pad_to w s = s @ replicate (w - length s) CHR '' ''"

definition cellar_doctor_report :: "doctor_report \<Rightarrow> string" where
  "cellar_doctor_report r =
     unlines (map (\<lambda>c. ''  ['' @ pad_to 6 (result_label (dc_result c)) @ ''] '' @ pad_to 12 (dc_name c) @ '' '' @ dc_detail c)
                (dr_checks r) @
              [''  launch doctor verdict: '' @ (if dr_ready r then ''READY'' else ''NOT READY'')])"

section \<open>Permissions and safety\<close>

definition perm_phrase :: "u32 \<Rightarrow> u32 \<Rightarrow> string \<Rightarrow> string \<Rightarrow> string" where
  "perm_phrase perms p yes no = (if perms AND p \<noteq> 0 then yes else no)"

definition permission_phrases :: "u32 \<Rightarrow> string list" where
  "permission_phrases perms =
     [perm_phrase perms CELLAR_PERM_NETWORK ''can use network; '' ''cannot use network; '',
      perm_phrase perms CELLAR_PERM_SHARED_FILES ''can read selected shared folders; '' ''cannot access shared folders; '',
      perm_phrase perms CELLAR_PERM_CAMERA ''can use camera; '' ''cannot use camera; '',
      perm_phrase perms CELLAR_PERM_MIC ''can use microphone; '' ''cannot use microphone; '',
      perm_phrase perms CELLAR_PERM_EXTERNAL_STORAGE ''can use external storage'' ''cannot use external storage'']"

definition cellar_workspace_permissions_text :: "u32 \<Rightarrow> nat \<Rightarrow> string option" where
  "cellar_workspace_permissions_text perms cap =
     cellar_strlcpy cap (Some (fold (\<lambda>p line. cellar_strlcat 512 line (Some p)) (permission_phrases perms) []))"

definition safety_text :: "workspace \<Rightarrow> string" where
  "safety_text w = unlines
     [''Safety report for '' @ ws_name w @ '':'',
      ''  sandbox:                 '' @ (if ws_sandbox_enabled w \<noteq> 0 then ''enabled (host-opt-in access)'' else ''disabled''),
      ''  permissions:             '' @ the (cellar_workspace_permissions_text (ws_permissions w) 512),
      ''  source:                  '' @ (if ws_source w \<noteq> [] then ws_source w else ''(not recorded)''),
      ''  runner:                  '' @ ws_runner w,
      ''  dependencies:            '' @ (if ws_dependencies w \<noteq> [] then ws_dependencies w else ''(none)''),
      ''  warning:                 running an unverified Windows'',
      ''                           executable is not made safe by the'',
      ''                           compatibility layer.'']"

definition cellar_workspace_safety_report :: "string option \<Rightarrow> string option \<Rightarrow> nat \<Rightarrow> fs \<Rightarrow> string cres" where
  "cellar_workspace_safety_report root name cap f =
     (if cap = 0 then Err CELLAR_ERR_INVALID_ARGUMENT
      else (case cellar_workspace_load root name f of
              Ok w \<Rightarrow> Ok (snprintf_s cap (safety_text w)) | _ \<Rightarrow> Err CELLAR_ERR_INVALID_ARGUMENT))"

section \<open>Diagnosis of a log\<close>

fun contains_ci :: "string \<Rightarrow> string \<Rightarrow> bool" where
  "contains_ci hay needle =
     (needle \<noteq> [] \<and> length needle \<le> length hay \<and>
      (has_prefix_ci hay needle \<or> (case hay of [] \<Rightarrow> False | _ # r \<Rightarrow> contains_ci r needle)))"

declare contains_ci.simps [simp del]

definition diagnosis :: "string \<Rightarrow> string option" where
  "diagnosis line =
     (let has = contains_ci line; note = (\<lambda>m. Some (m @ line @ [NL])) in
      if has ''visual c++'' \<or> has ''vcruntime'' \<or> has ''msvcr''
      then note ''[vc-runtime] missing Visual C++ runtime: ''
      else if has ''override conflict'' \<or> has ''dll override''
      then note ''[dll-override] DLL override conflict: ''
      else if has ''vulkan'' \<and> (has ''fail'' \<or> has ''error'' \<or> has ''unavailable'')
      then note ''[gfx] Vulkan initialization failed: ''
      else if has ''d3d'' \<or> has ''directx''
      then note ''[gfx] DirectX component missing or old: ''
      else if has ''box64'' \<or> has ''box86''
      then note ''[box64] CPU translation note: ''
      else if strstr line ''err:'' \<noteq> None \<or> strstr line ''err,'' \<noteq> None
      then note ''[wine] raw error: ''
      else None)"

text \<open>The comparison \<^verbatim>\<open>off >= cap - 256\<close> is on \<^verbatim>\<open>size_t\<close>: it never holds for a smaller buffer.\<close>

fun diagnose_loop :: "nat \<Rightarrow> string list \<Rightarrow> string \<Rightarrow> string" where
  "diagnose_loop cap [] out = out"
| "diagnose_loop cap (l # ls) out =
     (let out' = (case diagnosis l of None \<Rightarrow> out | Some m \<Rightarrow> out @ snprintf_s (cap - length out) m) in
      if cap \<ge> 256 \<and> length out' \<ge> cap - 256 then out' else diagnose_loop cap ls out')"

definition cellar_workspace_diagnose :: "string option \<Rightarrow> nat \<Rightarrow> fs \<Rightarrow> string cres" where
  "cellar_workspace_diagnose log_path cap f =
     (case log_path of None \<Rightarrow> Err CELLAR_ERR_INVALID_ARGUMENT
      | Some p \<Rightarrow>
          if cap = 0 then Err CELLAR_ERR_INVALID_ARGUMENT
          else (case fs_read f p of None \<Rightarrow> Err CELLAR_ERR_INVALID_ARGUMENT
                | Some text \<Rightarrow>
                    let out = diagnose_loop cap (fgets_lines 512 text) [] in
                    Ok (if out = [] then snprintf_s cap (''No obvious compatibility issues found in '' @ p @ ''.'' @ [NL])
                        else out)))"

section \<open>Device report\<close>

record host_info =
  hi_uname :: "(string \<times> string \<times> string) option"
  hi_pages :: int
  hi_pagesize :: int

definition mem_mb :: "host_info \<Rightarrow> u64" where
  "mem_mb h =
     (if hi_pages h > 0 \<and> hi_pagesize h > 0
      then of_int (hi_pages h) * of_int (hi_pagesize h) div (1024 * 1024) else 0)"

fun joined_names :: "nat \<Rightarrow> bool \<Rightarrow> string list \<Rightarrow> string list" where
  "joined_names n later [] = []"
| "joined_names n later (x # xs) = snprintf_s n ((if later then '','' else []) @ x) # joined_names n True xs"

definition append_names :: "nat \<Rightarrow> nat \<Rightarrow> string \<Rightarrow> string list \<Rightarrow> string \<Rightarrow> string" where
  "append_names cap n label names buf =
     (if names = [] \<or> length buf + 16 \<ge> cap then buf
      else cellar_strlcat cap
             (fold (\<lambda>t acc. cellar_strlcat cap acc (Some t)) (joined_names n False names) (cellar_strlcat cap buf (Some label)))
             (Some [NL]))"

definition cellar_device_report ::
    "host_info \<Rightarrow> device_state \<Rightarrow> nat \<Rightarrow> backends \<Rightarrow> string \<times> cellar_status \<times> backends" where
  "cellar_device_report h devs cap b =
     (if cap = 0 then ([], CELLAR_ERR_INVALID_ARGUMENT, b)
      else (case hi_uname h of
        None \<Rightarrow> (snprintf_s cap ''unavailable'', CELLAR_ERR_INVALID_ARGUMENT, b)
      | Some (sysname, release, machine) \<Rightarrow>
          (case cellar_backend_pick CELLAR_BACKEND_GRAPHICS b of (g, b1) \<Rightarrow>
           case cellar_backend_pick CELLAR_BACKEND_AUDIO b1 of (a, b2) \<Rightarrow>
           case cellar_backend_list CELLAR_BACKEND_GRAPHICS True 8 b2 of (gs, b3) \<Rightarrow>
             let buf = snprintf_s cap (unlines
                   [''OS:       '' @ sysname @ '' '' @ release @ ''  ('' @ machine @ '')'', ''ABI:      64-bit'',
                    ''RAM:      '' @ dec (unat (mem_mb h)) @ '' MB'', ''Renderer: '' @ text_or ''unknown'' g,
                    ''Audio:    '' @ text_or ''unknown'' a]);
                 buf1 = append_names cap 64 ''Paths:    '' (map be_name gs) buf;
                 buf2 = append_names cap 96 ''Devices:  '' (map dv_name (cellar_device_list True 8 devs)) buf1
             in (buf2, CELLAR_OK, b3))))"

section \<open>Redaction\<close>

text \<open>One pass of \<^verbatim>\<open>sanitize_line\<close> over a buffer of \<open>n\<close> bytes: while the pattern occurs, the text after
  the occurrence is moved behind \<^verbatim>\<open>$HOME\<close>. Where the moved text leaves the buffer, or the move is
  skipped so that the terminator is overwritten, the result is \<open>Fault\<close>; \<open>None\<close> is a loop that
  does not end.\<close>

partial_function (option) redact_loop :: "nat \<Rightarrow> string \<Rightarrow> string \<Rightarrow> string cres option" where
  "redact_loop n pat line =
     (case strstr line pat of
        None \<Rightarrow> Some (Ok line)
      | Some p \<Rightarrow>
          let at = length line - length p; tail = drop (length pat) p in
          if at + 6 > n \<or> at + 5 + length tail + 1 > n then Some Fault
          else redact_loop n pat (take at line @ ''$HOME'' @ tail))"

declare redact_loop.simps [code]

definition home_pattern :: "environment \<Rightarrow> string" where
  "home_pattern env = text_or [] (env ''HOME'')"

definition user_pattern :: "environment \<Rightarrow> string" where
  "user_pattern env = (case text_or [] (env ''USER'') of [] \<Rightarrow> [] | u \<Rightarrow> snprintf_s 128 (''/home/'' @ u))"

definition redact :: "nat \<Rightarrow> string \<Rightarrow> string \<Rightarrow> string cres option" where
  "redact n pat line = (if pat = [] then Some (Ok line) else redact_loop n pat line)"

definition sanitize_line :: "environment \<Rightarrow> nat \<Rightarrow> string \<Rightarrow> string cres option" where
  "sanitize_line env n line =
     (case redact n (home_pattern env) line of
        Some (Ok l) \<Rightarrow> redact n (user_pattern env) l | r \<Rightarrow> r)"

section \<open>The support bundle\<close>

definition support_text ::
    "workspace \<Rightarrow> string option \<Rightarrow> doctor_report \<Rightarrow> profile_point option \<Rightarrow> string" where
  "support_text w device dr p = unlines (
     [''# Winaltor support bundle ('' @ ws_name w @ '')'', ''winaltor: 0.2.0'', ''device-report:''] @
     map (\<lambda>t. ''  '' @ t) (tokens NL (text_or [] device)) @
     [''workspace:'', ''  name='' @ ws_name w, ''  setup='' @ ws_setup_label w, ''  architecture='' @ ws_architecture w,
      ''  runner='' @ ws_runner w, ''  gfx='' @ ws_gfx_backend w, ''  audio='' @ ws_audio_backend w,
      ''  deps='' @ ws_dependencies w, ''  exe_hash='' @ ws_exe_hash w, ''doctor:''] @
     map (\<lambda>c. ''  '' @ pad_to 6 (result_label (dc_result c)) @ '' '' @ pad_to 12 (dc_name c) @ '' '' @ dc_detail c)
       (dr_checks dr) @
     [''verdict: '' @ (if dr_ready dr then ''ready'' else ''not-ready'')] @
     (case p of None \<Rightarrow> []
      | Some q \<Rightarrow> [''profile:'', ''  label='' @ pp_label q, ''  version='' @ dec (unat (pp_version q)),
                   ''  trust='' @ cellar_profile_trust_name (pp_trust q)]) @
     [''privacy: usernames and home paths redacted''])"

definition profile_opt :: "profile_point cres \<Rightarrow> profile_point option" where
  "profile_opt r = (case r of Ok p \<Rightarrow> Some p | _ \<Rightarrow> None)"

text \<open>The file is read back, redacted and written again; the result of the second write is ignored.
  The profile is read while the bundle is open, after the open has emptied it.\<close>

definition cellar_workspace_support ::
    "environment \<Rightarrow> statvfs_fn \<Rightarrow> host_info \<Rightarrow> device_state \<Rightarrow> string option \<Rightarrow> string option \<Rightarrow> string option \<Rightarrow>
     backends \<Rightarrow> runtime_state \<Rightarrow> fs \<Rightarrow> (fs \<times> cellar_status) cres option" where
  "cellar_workspace_support env statvfs h devs root name out_path b r f =
     (case (out_path, cellar_workspace_load root name f) of
        (Some out, Ok w) \<Rightarrow>
          (case cellar_workspace_doctor statvfs root name b r f of (dr, b1, r1) \<Rightarrow>
           case fs_write f out [] of
             None \<Rightarrow> Some (Ok (f, CELLAR_ERR_INVALID_ARGUMENT))
           | Some f1 \<Rightarrow>
               (case cellar_device_report h devs 16384 b1 of (dev, st, b2) \<Rightarrow>
                let body = support_text w (if st = CELLAR_OK then Some dev else None) dr
                      (profile_opt (cellar_workspace_profile_current root name f1))
                in case fs_write f1 out body of
                     None \<Rightarrow> Some (Ok (f1, CELLAR_ERR_INVALID_ARGUMENT))
                   | Some f2 \<Rightarrow>
                       (case read_text out 16384 f2 of
                          None \<Rightarrow> Some (Ok (f2, CELLAR_ERR_INVALID_ARGUMENT))
                        | Some tmp \<Rightarrow> map_option (\<lambda>l. cbind l (\<lambda>buf.
                            Ok (case write_text out buf f2 of None \<Rightarrow> f2 | Some f3 \<Rightarrow> f3, CELLAR_OK)))
                            (sanitize_line env 16384 (snprintf_s 16384 tmp)))))
      | _ \<Rightarrow> Some (Ok (f, CELLAR_ERR_INVALID_ARGUMENT)))"

section \<open>The shader cache of a workspace\<close>

text \<open>\<^verbatim>\<open>rename\<close> of a directory: the target must be absent or an empty directory, its parent must exist,
  and it must not lie inside the source; the subtree moves.\<close>

definition fs_rename_dir :: "fs \<Rightarrow> string \<Rightarrow> string \<Rightarrow> fs option" where
  "fs_rename_dir f p q =
     (let k = resolve f p; l = resolve f q in
      if p = [] \<or> q = [] \<or> k = [] \<or> node_at f k \<noteq> Some Dir \<or> fs_denied f k then None
      else if k = l then Some f
      else if take (length k) l = k \<or> \<not> can_create f l \<or>
        (case node_at f l of None \<Rightarrow> False | Some (File _) \<Rightarrow> True | Some Dir \<Rightarrow> children f l \<noteq> []) then None
      else Some (f\<lparr>fs_nodes := map (\<lambda>(m, x). (if take (length k) m = k then l @ drop (length k) m else m, x))
                                 (AList.delete l (fs_nodes f))\<rparr>))"

definition shader_dir :: "string option \<Rightarrow> string option \<Rightarrow> string" where
  "shader_dir root name = cellar_path_join 720 (Some (ws_dir 640 root name)) (Some ''shadercache'')"

definition cellar_workspace_shader_size :: "string option \<Rightarrow> string option \<Rightarrow> fs \<Rightarrow> u64 option" where
  "cellar_workspace_shader_size root name f =
     (if root = None \<or> \<not> valid_name name then Some 0
      else if is_dir f (shader_dir root name) then dir_size_rec (shader_dir root name) f else Some 0)"

definition cellar_workspace_shader_clear :: "nat \<Rightarrow> string option \<Rightarrow> string option \<Rightarrow> fs \<Rightarrow> fs \<times> cellar_status" where
  "cellar_workspace_shader_clear pid root name f =
     (if root = None \<or> \<not> valid_name name then (f, CELLAR_ERR_INVALID_ARGUMENT)
      else
        let path = shader_dir root name;
            bak = snprintf_s 720 (ws_dir 640 root name @ ''/shadercache.bak-'' @ dec pid) in
        (case (if is_dir f path then fs_rename_dir f path bak else Some f) of
           None \<Rightarrow> (f, CELLAR_ERR_INVALID_ARGUMENT)
         | Some f1 \<Rightarrow> (case cellar_mkdir_p f1 (Some path) of (f2, r) \<Rightarrow>
             (f2, if r \<noteq> 0 then CELLAR_ERR_INVALID_ARGUMENT else CELLAR_OK))))"

section \<open>Facts: redaction\<close>

lemma strstr_Some: "strstr s p = Some r \<Longrightarrow> \<exists>u v. s = u @ p @ v \<and> r = p @ v"
proof (induction s)
  case Nil
  then show ?case by (auto simp: strstr.simps has_prefix_def split: if_splits)
next
  case (Cons x s)
  show ?case
  proof (cases "has_prefix (x # s) p")
    case True
    then obtain v where "x # s = p @ v" by (metis append_take_drop_id has_prefix_def)
    moreover have "r = x # s" using Cons.prems True by (simp add: strstr.simps)
    ultimately show ?thesis by (metis append_Nil)
  next
    case False
    then have "strstr s p = Some r" using Cons.prems by (simp add: strstr.simps)
    from Cons.IH [OF this] show ?thesis by (metis append_Cons)
  qed
qed

text \<open>A pattern that starts with a slash and has no dollar sign does not arise by putting
  \<^verbatim>\<open>$HOME\<close> in place of some text.\<close>

lemma no_new_occurrence:
  assumes "hd q = CHR ''/''" "q \<noteq> []" "CHR ''$'' \<notin> set q" "strstr (a @ m @ t) q = None"
  shows "strstr (a @ ''$HOME'' @ t) q = None"
proof (rule ccontr)
  assume "strstr (a @ ''$HOME'' @ t) q \<noteq> None"
  then obtain u v where s: "a @ ''$HOME'' @ t = u @ q @ v" by (auto simp: strstr_None_iff)
  have none: "a @ m @ t \<noteq> x @ q @ y" for x y using assms(4) by (simp add: strstr_None_iff)
  consider (left) "length u + length q \<le> length a" | (over) "length u \<le> length a" "length a < length u + length q"
    | (inside) "length a < length u" "length u < length a + 5" | (right) "length a + 5 \<le> length u" by linarith
  then show False
  proof cases
    case left
    from s have "take (length a) (a @ ''$HOME'' @ t) = take (length a) (u @ q @ v)" by simp
    with left have "a = u @ q @ take (length a - length u - length q) v" by simp
    then show False using none [of u "take (length a - length u - length q) v @ m @ t"] by (metis append.assoc)
  next
    case over
    from s have nth: "(a @ ''$HOME'' @ t) ! length a = (u @ q @ v) ! length a" by simp
    have lt: "length a - length u < length q" using over by linarith
    with nth have "q ! (length a - length u) = CHR ''$''" using over by (simp add: nth_append)
    then show False using assms(3) lt by (metis nth_mem)
  next
    case inside
    from s have "(a @ ''$HOME'' @ t) ! length u = (u @ q @ v) ! length u" by simp
    moreover have "(u @ q @ v) ! length u = CHR ''/''" using assms(1,2) by (simp add: nth_append hd_conv_nth)
    moreover obtain d where "length u = length a + d" "d \<in> {1, 2, 3, 4}"
      using inside by (intro that [of "length u - length a"]) auto
    ultimately show False by (auto simp: nth_append nth_Cons')
  next
    case right
    from s have "drop (length a + 5) (a @ ''$HOME'' @ t) = drop (length a + 5) (u @ q @ v)" by simp
    with right have "t = drop (length a + 5) u @ q @ v" by simp
    then show False using none [of "a @ m @ drop (length a + 5) u" v] by (metis append.assoc)
  qed
qed

text \<open>Every step removes a slash and does not lengthen the line.\<close>

lemma redact_loop_ok:
  assumes pat: "hd pat = CHR ''/''" "CHR ''$'' \<notin> set pat" "length pat \<ge> 5"
  shows "length line < n \<Longrightarrow> \<exists>l. redact_loop n pat line = Some (Ok l) \<and> length l < n \<and> strstr l pat = None \<and>
    (\<forall>q. q \<noteq> [] \<longrightarrow> hd q = CHR ''/'' \<longrightarrow> CHR ''$'' \<notin> set q \<longrightarrow> strstr line q = None \<longrightarrow> strstr l q = None)"
proof (induction "count_list line CHR ''/''" arbitrary: line rule: less_induct)
  case less
  show ?case
  proof (cases "strstr line pat")
    case None
    then show ?thesis using less.prems by (simp add: redact_loop.simps)
  next
    case (Some p)
    from strstr_Some [OF this] obtain u v where l: "line = u @ pat @ v" "p = pat @ v" by blast
    have "pat \<noteq> []" using pat(3) by auto
    then have "count_list pat CHR ''/'' > 0" using pat(1) by (cases pat) auto
    then have "count_list (u @ ''$HOME'' @ v) CHR ''/'' < count_list line CHR ''/''" by (simp add: l)
    moreover have len: "length (u @ ''$HOME'' @ v) < n" using less.prems pat(3) by (simp add: l)
    ultimately obtain r where r: "redact_loop n pat (u @ ''$HOME'' @ v) = Some (Ok r)" "length r < n" "strstr r pat = None"
      "\<And>q. q \<noteq> [] \<Longrightarrow> hd q = CHR ''/'' \<Longrightarrow> CHR ''$'' \<notin> set q \<Longrightarrow> strstr (u @ ''$HOME'' @ v) q = None \<Longrightarrow> strstr r q = None"
      using less.hyps by meson
    have "redact_loop n pat line = redact_loop n pat (u @ ''$HOME'' @ v)"
      using Some len by (subst redact_loop.simps) (simp add: l)
    moreover have "strstr r q = None" if "q \<noteq> []" "hd q = CHR ''/''" "CHR ''$'' \<notin> set q" "strstr line q = None" for q
      using r(4) [OF that(1-3)] no_new_occurrence [OF that(2,1,3), of u pat v] that(4) by (simp add: l)
    ultimately show ?thesis using r by auto
  qed
qed

text \<open>What redaction relies on: the home directory is an absolute path of at least five characters
  without a dollar sign, and neither is there one in the user name.\<close>

definition env_ok :: "environment \<Rightarrow> bool" where
  "env_ok env \<longleftrightarrow> (home_pattern env = [] \<or>
       hd (home_pattern env) = CHR ''/'' \<and> CHR ''$'' \<notin> set (home_pattern env) \<and> length (home_pattern env) \<ge> 5) \<and>
     CHR ''$'' \<notin> set (text_or [] (env ''USER''))"

lemma user_pattern_ok:
  assumes "env_ok env" "user_pattern env \<noteq> []"
  shows "hd (user_pattern env) = CHR ''/''" "CHR ''$'' \<notin> set (user_pattern env)" "length (user_pattern env) \<ge> 5"
  using assms by (auto simp: user_pattern_def env_ok_def snprintf_s_def split: list.splits dest!: in_set_takeD)

lemma sanitize_ok:
  assumes "env_ok env" "length line < n"
  shows "\<exists>l. sanitize_line env n line = Some (Ok l) \<and> length l < n \<and>
    (home_pattern env \<noteq> [] \<longrightarrow> strstr l (home_pattern env) = None) \<and>
    (user_pattern env \<noteq> [] \<longrightarrow> strstr l (user_pattern env) = None)"
proof -
  have "\<exists>l. redact n (home_pattern env) line = Some (Ok l) \<and> length l < n \<and>
      (home_pattern env \<noteq> [] \<longrightarrow> strstr l (home_pattern env) = None)"
    using redact_loop_ok [of "home_pattern env" line n] assms by (auto simp: redact_def env_ok_def)
  then obtain a where a: "redact n (home_pattern env) line = Some (Ok a)" "length a < n"
    "home_pattern env \<noteq> [] \<Longrightarrow> strstr a (home_pattern env) = None" by blast
  show ?thesis
  proof (cases "user_pattern env = []")
    case True
    then show ?thesis using a by (simp add: sanitize_line_def redact_def)
  next
    case False
    note up = user_pattern_ok [OF assms(1) False]
    obtain l where l: "redact_loop n (user_pattern env) a = Some (Ok l)" "length l < n" "strstr l (user_pattern env) = None"
      "\<And>q. q \<noteq> [] \<Longrightarrow> hd q = CHR ''/'' \<Longrightarrow> CHR ''$'' \<notin> set q \<Longrightarrow> strstr a q = None \<Longrightarrow> strstr l q = None"
      using redact_loop_ok [OF up a(2)] by blast
    have "strstr l (home_pattern env) = None" if "home_pattern env \<noteq> []"
      using l(4) [OF that] a(3) that assms(1) by (auto simp: env_ok_def)
    then show ?thesis using a(1) l(1-3) False by (simp add: sanitize_line_def redact_def)
  qed
qed

text \<open>A short home directory makes the text grow until it leaves the buffer.\<close>

lemma short_home_overflow: "redact 12 ''/'' ''/a/b'' = Some Fault"
  by code_simp

lemma doctor_fold:
  "length (dr_checks r) + length cs \<le> 16 \<Longrightarrow>
     dr_ready (fold add_check cs r) \<longleftrightarrow> dr_ready r \<and> (\<forall>c\<in>set cs. snd (snd c) \<noteq> CELLAR_DOCTOR_FAIL)"
proof (induction cs arbitrary: r)
  case (Cons c cs)
  obtain n d x where c: "c = (n, d, x)" by (cases c)
  have "length (dr_checks (add_check c r)) + length cs \<le> 16" "dr_ready (add_check c r) \<longleftrightarrow> dr_ready r \<and> x \<noteq> CELLAR_DOCTOR_FAIL"
    using Cons.prems by (auto simp: add_check_def c)
  then show ?case using Cons.IH [of "add_check c r"] by (auto simp: c)
qed simp

lemma check_results:
  "snd (snd (prefix_check w f)) \<noteq> CELLAR_DOCTOR_FAIL" "snd (snd (storage_check sv w)) \<noteq> CELLAR_DOCTOR_FAIL"
  "snd (snd (architecture_check w)) \<noteq> CELLAR_DOCTOR_FAIL" "snd (snd (hash_check w)) \<noteq> CELLAR_DOCTOR_FAIL"
  "snd (snd (profile_check root name f)) \<noteq> CELLAR_DOCTOR_FAIL"
  "snd (snd (fst (renderer_check w b))) \<noteq> CELLAR_DOCTOR_FAIL"
  "snd (snd (fst (dependencies_check w r f))) \<noteq> CELLAR_DOCTOR_FAIL"
  "snd (snd (executable_check w f)) = CELLAR_DOCTOR_FAIL \<longleftrightarrow> ws_executable w = [] \<or> \<not> is_file f (ws_executable w)"
  by (auto simp: prefix_check_def storage_check_def architecture_check_def hash_check_def profile_check_def
      renderer_check_def dependencies_check_def executable_check_def Let_def split: option.splits prod.splits cres.splits)

text \<open>The verdict depends only on the two checks that can fail.\<close>

theorem doctor_ready:
  "dr_ready (fst (cellar_workspace_doctor statvfs root name b r f)) \<longleftrightarrow>
     (\<exists>w. cellar_workspace_load root name f = Ok w \<and> ws_executable w \<noteq> [] \<and> is_file f (ws_executable w))"
proof (cases "cellar_workspace_load root name f")
  case (Ok w)
  obtain rc b' where rc: "renderer_check w b = (rc, b')" by (cases "renderer_check w b")
  obtain dc r' where dc: "dependencies_check w r f = (dc, r')" by (cases "dependencies_check w r f")
  have "snd (snd rc) \<noteq> CELLAR_DOCTOR_FAIL" "snd (snd dc) \<noteq> CELLAR_DOCTOR_FAIL"
    using check_results(6) [of w b] check_results(7) [of w r f] rc dc by simp_all
  then show ?thesis
    using check_results(1-5,8) Ok
    by (simp add: cellar_workspace_doctor_def rc dc doctor_fold empty_report_def del: fold.simps)
qed (simp_all add: cellar_workspace_doctor_def add_check_def empty_report_def)

section \<open>Properties\<close>

text \<open>C27. A support bundle that is reported as written contains neither the home directory nor
  \<^verbatim>\<open>/home/USER\<close>, and the redaction neither runs for ever nor leaves its buffer, provided the home is
  an absolute path of at least five characters and neither name has a dollar sign.\<close>

theorem support_redacts:
  assumes "env_ok env"
  shows "\<exists>f' st. cellar_workspace_support env statvfs h devs root name (Some out) b r f = Some (Ok (f', st)) \<and>
    (st = CELLAR_OK \<longleftrightarrow> (\<exists>w. cellar_workspace_load root name f = Ok w) \<and> fs_write f out [] \<noteq> None) \<and>
    (st = CELLAR_OK \<longrightarrow> (\<exists>t. fs_read f' out = Some t \<and>
       (home_pattern env \<noteq> [] \<longrightarrow> strstr t (home_pattern env) = None) \<and>
       (user_pattern env \<noteq> [] \<longrightarrow> strstr t (user_pattern env) = None)))"
proof (cases "cellar_workspace_load root name f")
  case (Ok w)
  obtain dr b1 r1 where d: "cellar_workspace_doctor statvfs root name b r f = (dr, b1, r1)"
    by (metis prod_cases3)
  obtain dev st b2 where dv: "cellar_device_report h devs 16384 b1 = (dev, st, b2)" by (metis prod_cases3)
  show ?thesis
  proof (cases "fs_write f out []")
    case None
    then show ?thesis using Ok d by (simp add: cellar_workspace_support_def)
  next
    case (Some f1)
    define body where "body = support_text w (if st = CELLAR_OK then Some dev else None) dr
      (profile_opt (cellar_workspace_profile_current root name f1))"
    obtain f2 where f2: "fs_write f1 out body = Some f2" using fs_write_again [OF Some] by blast
    then have rd: "read_text out 16384 f2 = Some (cstr (take 16383 body))"
      using disk.rd_wr_same [OF f2] by (simp add: read_text_def)
    obtain l where l: "sanitize_line env 16384 (snprintf_s 16384 (cstr (take 16383 body))) = Some (Ok l)"
      "home_pattern env \<noteq> [] \<longrightarrow> strstr l (home_pattern env) = None"
      "user_pattern env \<noteq> [] \<longrightarrow> strstr l (user_pattern env) = None"
      using sanitize_ok [OF assms, of "snprintf_s 16384 (cstr (take 16383 body))" 16384] length_snprintf_s by auto
    obtain f3 where f3: "fs_write f2 out l = Some f3" using fs_write_again [OF f2] by blast
    have "cellar_workspace_support env statvfs h devs root name (Some out) b r f = Some (Ok (f3, CELLAR_OK))"
      using Ok d Some dv f2 rd l(1) f3
      by (simp add: cellar_workspace_support_def body_def [symmetric] write_text_def)
    then show ?thesis using disk.rd_wr_same [OF f3] l(2,3) Ok Some by blast
  qed
qed (simp_all add: cellar_workspace_support_def)

definition demo_env :: environment where
  "demo_env = (\<lambda>v. if v = ''HOME'' then Some ''/home/bob'' else if v = ''USER'' then Some ''bob'' else None)"

theorem support_redacts_witness:
  "\<exists>f' t. cellar_workspace_support demo_env (\<lambda>_. None) \<lparr>hi_uname = None, hi_pages = 0, hi_pagesize = 0\<rparr> cellar_device_reset
       (Some ''/r'') (Some ''g'') (Some ''/r/out'') backends_start None demo_ws_fs = Some (Ok (f', CELLAR_OK)) \<and>
     fs_read f' ''/r/out'' = Some t \<and> strstr t ''/home/bob'' = None"
proof -
  have e: "env_ok demo_env" "home_pattern demo_env = ''/home/bob''" "user_pattern demo_env = ''/home/bob''" by code_simp+
  have "valid_name (Some ''g'')" "fs_read demo_ws_fs (ws_conf_path (ws_dir 640 (Some ''/r'') (Some ''g''))) \<noteq> None"
    by code_simp+
  then obtain w where w: "cellar_workspace_load (Some ''/r'') (Some ''g'') demo_ws_fs = Ok w" by (rule load_is_Ok)
  have "\<not> Option.is_none (fs_write demo_ws_fs ''/r/out'' [])" by code_simp
  then have wr: "fs_write demo_ws_fs ''/r/out'' [] \<noteq> None" by (simp add: Option.is_none_def)
  show ?thesis
    using support_redacts [OF e(1), of "\<lambda>_. None" "\<lparr>hi_uname = None, hi_pages = 0, hi_pagesize = 0\<rparr>" cellar_device_reset
        "Some ''/r''" "Some ''g''" "''/r/out''" backends_start None demo_ws_fs] w wr
    by (auto simp: e)
qed

end
