(* ===== verification/Posix.thy ===== *)
theory Posix
  imports Fs Text
begin

text \<open>
  The platform layer, \<^verbatim>\<open>src/port/posix.c\<close>: sleeping, the two clocks and the file time, and the
  mapping of a file into memory. What \<^verbatim>\<open>clock_gettime\<close>, \<^verbatim>\<open>nanosleep\<close> and \<^verbatim>\<open>mmap\<close> answer are
  arguments; a \<^verbatim>\<open>timespec\<close> is a pair of seconds and nanoseconds.
\<close>

record timespec =
  tv_sec :: u64
  tv_nsec :: u64

section \<open>Sleeping\<close>

definition sleep_request :: "u32 \<Rightarrow> timespec" where
  "sleep_request ms = \<lparr>tv_sec = ucast (ms div 1000), tv_nsec = ucast (ms mod 1000 * 1000000)\<rparr>"

text \<open>What \<^verbatim>\<open>nanosleep\<close> answers: done, interrupted with the rest, or another error.\<close>

datatype nap = Slept | Interrupted timespec | NapError

text \<open>The requests made for a sequence of answers; \<open>None\<close> while the answers so far were all interruptions.\<close>

fun sleep_loop :: "timespec \<Rightarrow> nap list \<Rightarrow> timespec list option" where
  "sleep_loop ts [] = None"
| "sleep_loop ts (Interrupted r # ns) = map_option (\<lambda>q. ts # q) (sleep_loop r ns)"
| "sleep_loop ts (n # ns) = Some [ts]"

definition cellar_sleep_ms :: "u32 \<Rightarrow> nap list \<Rightarrow> timespec list option" where
  "cellar_sleep_ms ms naps = sleep_loop (sleep_request ms) naps"

section \<open>Clocks\<close>

definition cellar_monotonic_ms :: "timespec option \<Rightarrow> u64" where
  "cellar_monotonic_ms ts = (case ts of None \<Rightarrow> 0 | Some t \<Rightarrow> tv_sec t * 1000 + tv_nsec t div 1000000)"

definition cellar_perf_counter :: "timespec option \<Rightarrow> u64" where
  "cellar_perf_counter ts = (case ts of None \<Rightarrow> 0 | Some t \<Rightarrow> tv_sec t * 1000000000 + tv_nsec t)"

definition cellar_perf_frequency :: u64 where "cellar_perf_frequency = 1000000000"

definition CELLAR_EPOCH_1970_TO_1601 :: u64 where "CELLAR_EPOCH_1970_TO_1601 = 11644473600"

definition cellar_system_time_as_filetime :: "timespec option \<Rightarrow> u64" where
  "cellar_system_time_as_filetime ts =
     (case ts of None \<Rightarrow> 0
      | Some t \<Rightarrow> (tv_sec t * 1000000000 + tv_nsec t) div 100 + CELLAR_EPOCH_1970_TO_1601 * 10000000)"

section \<open>Process and thread\<close>

text \<open>The numbers of the system, as unsigned 32-bit values.\<close>

definition cellar_getpid :: "int \<Rightarrow> u32" where "cellar_getpid pid = of_int pid"
definition cellar_gettid :: "int \<Rightarrow> u32" where "cellar_gettid tid = of_int tid"

section \<open>Mapped files\<close>

text \<open>The bytes, and whether there is a region to unmap. A directory opens, but cannot be mapped.\<close>

record mapped_file =
  mf_data :: string
  mf_region :: bool

definition cellar_map_file :: "bool \<Rightarrow> string option \<Rightarrow> fs \<Rightarrow> mapped_file cres" where
  "cellar_map_file mmap_ok path f =
     (case path of None \<Rightarrow> Err CELLAR_ERR_INVALID_ARGUMENT
      | Some p \<Rightarrow>
          (case fs_stat f p of None \<Rightarrow> Err CELLAR_ERR_INVALID_ARGUMENT
           | Some Dir \<Rightarrow> Err CELLAR_ERR_OUT_OF_MEMORY
           | Some (File c) \<Rightarrow>
               if c = [] then Ok \<lparr>mf_data = [], mf_region = False\<rparr>
               else if mmap_ok then Ok \<lparr>mf_data = c, mf_region = True\<rparr> else Err CELLAR_ERR_OUT_OF_MEMORY))"

definition cellar_unmap_file :: "mapped_file \<Rightarrow> mapped_file" where
  "cellar_unmap_file mf = \<lparr>mf_data = [], mf_region = False\<rparr>"

section \<open>Facts\<close>

lemma unat_widen: "unat (ucast (w :: u32) :: u64) = unat w"
proof -
  have "unat w < 2 ^ LENGTH(32)" by (rule unsigned_less)
  then show ?thesis by (simp add: unsigned_ucast_eq take_bit_nat_eq_self)
qed

text \<open>The request is a valid \<^verbatim>\<open>timespec\<close> of exactly that many milliseconds.\<close>

lemma sleep_request_valid:
  "unat (tv_nsec (sleep_request ms)) < 1000000000 \<and>
   unat (tv_sec (sleep_request ms)) * 1000000000 + unat (tv_nsec (sleep_request ms)) = unat ms * 1000000"
proof -
  have m: "unat (ms mod 1000) = unat ms mod 1000" by (simp add: unat_mod)
  have "unat ms mod 1000 * 1000000 < 2 ^ 32"
    using mod_less_divisor [of 1000 "unat ms"] by (simp add: less_le_trans)
  then have "unat (ms mod 1000 * 1000000) = unat ms mod 1000 * 1000000"
    using m by (simp add: unat_word_ariths)
  then have n: "unat (tv_nsec (sleep_request ms)) = unat ms mod 1000 * 1000000"
    by (simp add: sleep_request_def unat_widen)
  have s: "unat (tv_sec (sleep_request ms)) = unat ms div 1000"
    by (simp add: sleep_request_def unat_widen unat_div)
  have "unat ms div 1000 * 1000 + unat ms mod 1000 = unat ms" by simp
  then show ?thesis using mod_less_divisor [of 1000 "unat ms"] unfolding n s by linarith
qed

text \<open>Up to the year 2554 the file time is the number of 100 ns units since 1601.\<close>

lemma filetime_correct:
  assumes "unat (tv_sec t) * 1000000000 + unat (tv_nsec t) < 2 ^ 64"
  shows "unat (cellar_system_time_as_filetime (Some t)) =
    (unat (tv_sec t) * 1000000000 + unat (tv_nsec t)) div 100 + 116444736000000000"
proof -
  have "unat (tv_sec t * 1000000000 + tv_nsec t) = unat (tv_sec t) * 1000000000 + unat (tv_nsec t)"
    using assms by (simp add: unat_word_ariths mod_add_left_eq)
  moreover have "(unat (tv_sec t) * 1000000000 + unat (tv_nsec t)) div 100 \<le> 2 ^ 64 div 100"
    by (rule div_le_mono) (rule less_imp_le [OF assms])
  ultimately show ?thesis
    by (simp add: cellar_system_time_as_filetime_def CELLAR_EPOCH_1970_TO_1601_def unat_word_ariths unat_div)
qed

text \<open>However often the sleep is interrupted, the first request is the whole time and each later one
  what was left; it ends with the first answer that is not an interruption.\<close>

lemma sleep_loop_ends:
  "a = Slept \<or> a = NapError \<Longrightarrow> sleep_loop ts (map Interrupted rs @ a # ns) = Some (ts # rs)"
  by (induction rs arbitrary: ts) auto

end
