(* ===== verification/Cli.thy ===== *)
theory Cli
  imports WsDoctor Diag Audio Posix Trace
begin

text \<open>
  The command-line driver \<^verbatim>\<open>src/cli.c\<close>, first half: what the commands share, the commands
  on single executables (\<^verbatim>\<open>inspect\<close>, \<^verbatim>\<open>analyze\<close>, \<^verbatim>\<open>debug\<close> and the load report), on the
  compatibility database, on the runtimes and on the prefixes. A command takes the argument vector and
  the state of the process and yields the new state, what it printed to the two output streams and its
  exit code. \<open>None\<close> is a command that does not return, \<open>Fault\<close> one that reads an object it never
  initialised. The build is the one without ALSA, whose default sink writes a WAV file.
\<close>

section \<open>The process\<close>

text \<open>What a run only reads: the environment, the answers of the allocator and of the host, the
  identity of the process, the broken-down time, the content of uninitialised locals.\<close>

record cli_env =
  ce_env :: environment
  ce_alloc :: "nat \<Rightarrow> bool"
  ce_flushed :: "string \<Rightarrow> nat"
  ce_pid :: u32
  ce_tid :: u32
  ce_statvfs :: statvfs_fn
  ce_host :: host_info
  ce_devices :: device_state
  ce_time :: "tm option"
  ce_garbage :: prefix_info
  ce_clock :: u64
  ce_tone :: "nat \<Rightarrow> bool"
  ce_priority_granted :: bool

record cli_world =
  cw_fs :: fs
  cw_shell :: shell_state
  cw_backends :: backends
  cw_runtime :: runtime_state
  cw_load :: load_env
  cw_perf :: perf_counters
  cw_ring :: perf_ring
  cw_trace :: u64

record run_output =
  out_stdout :: string
  out_stderr :: string
  out_exit :: int

type_synonym command = "cli_world \<Rightarrow> (cli_world \<times> run_output) cres option"

definition say :: "string \<Rightarrow> command" where
  "say s w = Some (Ok (w, \<lparr>out_stdout = s, out_stderr = [], out_exit = 0\<rparr>))"

definition complain :: "string \<Rightarrow> command" where
  "complain s w = Some (Ok (w, \<lparr>out_stdout = [], out_stderr = s @ [NL], out_exit = 1\<rparr>))"

definition quit :: command where
  "quit w = Some (Ok (w, \<lparr>out_stdout = [], out_stderr = [], out_exit = 1\<rparr>))"

definition fault :: command where
  "fault w = Some Fault"

text \<open>Output printed before a command goes on.\<close>

definition after :: "string \<Rightarrow> (cli_world \<times> run_output) cres option \<Rightarrow> (cli_world \<times> run_output) cres option" where
  "after s r = map_option (\<lambda>x. cbind x (\<lambda>(w, out). Ok (w, out\<lparr>out_stdout := s @ out_stdout out\<rparr>))) r"

definition quoted :: "string \<Rightarrow> string" where
  "quoted s = CHR 0x27 # s @ [CHR 0x27]"

fun all_ok :: "'a cres list \<Rightarrow> 'a list cres" where
  "all_ok [] = Ok []"
| "all_ok (x # xs) = cbind x (\<lambda>y. cbind (all_ok xs) (\<lambda>ys. Ok (y # ys)))"

definition need :: "'a option \<Rightarrow> 'a cres" where
  "need x = (case x of None \<Rightarrow> Fault | Some y \<Rightarrow> Ok y)"

section \<open>Names\<close>

definition machine_name :: "u16 \<Rightarrow> string" where
  "machine_name m =
     (if m = 0x014c then ''x86'' else if m = 0x8664 then ''x86-64'' else if m = 0x01c0 then ''ARM''
      else if m = 0xaa64 then ''ARM64'' else ''unknown'')"

definition subsystem_name :: "u16 \<Rightarrow> string" where
  "subsystem_name s =
     (if s = 1 then ''native'' else if s = 2 then ''windows-gui'' else if s = 3 then ''windows-console'' else ''other'')"

definition architecture_word :: "cellar_image \<Rightarrow> string" where
  "architecture_word img = (if opt_magic (img_opt img) = CELLAR_PE_MAGIC_PE32 then ''32-bit'' else ''64-bit'')"

section \<open>Reports of the driver itself\<close>

definition ring_line :: "perf_sample \<Rightarrow> string" where
  "ring_line s = ''    t='' @ dec (unat (sm_t_ms s)) @ ''ms '' @ pad_to 24 (sm_label s) @ '' '' @ dec (unat (sm_value s))"

definition dump_perf :: "cli_world \<Rightarrow> string" where
  "dump_perf w =
     (let c = cw_perf w; opt = le_options (cw_load w); ring = cellar_perf_ring_drain True 64 (cw_ring w) in
      unlines ([''== performance =='',
        ''  images loaded      '' @ dec (unat (pc_images_loaded c)),
        ''  imports resolved   '' @ dec (unat (pc_imports_resolved c)),
        ''  bytes mapped       '' @ dec (unat (pc_map_bytes c)),
        ''  mmap file reads    '' @ dec (unat (pc_mmap_reads c)),
        ''  audio bytes        '' @ dec (unat (pc_audio_bytes c)),
        ''  prefault calls     '' @ dec (unat (pc_prefault_calls c)),
        ''  options: papi='' @ show_int (po_papi opt) @ '' mmap_threshold='' @ show_int (po_mmap_threshold opt) @
          '' large_pages='' @ show_int (po_large_pages opt)] @
        (if ring \<noteq> [] then ''  trace:'' # map ring_line ring else [])))"

text \<open>\<open>ce_clock\<close> is the monotonic clock in milliseconds.\<close>

definition dump_platform :: "cli_env \<Rightarrow> command" where
  "dump_platform e w =
     (case cellar_perf_hint_high_performance (ce_priority_granted e) (cw_perf w) of (st, c) \<Rightarrow>
        say (unlines [''== platform =='', ''  pid              '' @ dec (unat (ce_pid e)),
               ''  tid              '' @ dec (unat (ce_tid e)),
               ''  monotonic ms     '' @ dec (unat (ce_clock e)),
               ''  perf freq        '' @ dec (unat cellar_perf_frequency) @ '' counts/sec'',
               ''  high-performance hint: '' @ (if st = CELLAR_OK then ''applied'' else ''not supported here'')])
          (w\<lparr>cw_perf := c\<rparr>))"

text \<open>The test tone: 1024 pairs of equal 16-bit samples. \<open>ce_tone i\<close> answers the floating-point
  comparison that decides the sign of the sample at \<open>i\<close>.\<close>

definition tone_buffer :: "(nat \<Rightarrow> bool) \<Rightarrow> string" where
  "tone_buffer high =
     concat (map (\<lambda>k. let s = wr_u16 (if high (2 * k) then 12000 else - 12000) in s @ s) [0..<1024])"

definition tone_format :: audio_format where
  "tone_format = \<lparr>af_format_tag = 1, af_channels = 2, af_sample_rate = 44100, af_avg_bytes_per_sec = 176400,
     af_block_align = 4, af_bits_per_sample = 16\<rparr>"

fun write_tone :: "nat \<Rightarrow> cli_env \<Rightarrow> wav_sink audio_device \<Rightarrow> string \<Rightarrow> cli_world \<Rightarrow>
    (wav_sink audio_device \<times> string \<times> cli_world) cres" where
  "write_tone 0 e dev err w = Ok (dev, err, w)"
| "write_tone (Suc n) e dev err w =
     cbind (cellar_audio_write (ce_clock e) (cw_trace w) (tone_buffer (ce_tone e)) 4096 dev (cw_ring w))
       (\<lambda>(dev', ring, line, _). write_tone n e dev' (err @ opt_text [] line) (w\<lparr>cw_ring := ring\<rparr>))"

definition dump_audio_sink :: "cli_env \<Rightarrow> string \<Rightarrow> command" where
  "dump_audio_sink e path w =
     (let env = (if path \<noteq> [] then (ce_env e)(''CELLAR_WAV_OUT'' := Some path) else ce_env e);
          backend = wav_backend env (ce_alloc e 1) in
      case cellar_audio_open (Some backend) (Some tone_format) \<lparr>ad_backend = None, ad_impl = None\<rparr> (cw_fs w) of
        (f1, dev, st) \<Rightarrow>
          if st \<noteq> CELLAR_OK
          then complain (''cellar: audio open failed ('' @ cellar_status_string st @ '')'') (w\<lparr>cw_fs := f1\<rparr>)
          else Some (cbind (write_tone 8 e dev [] (w\<lparr>cw_fs := f1\<rparr>)) (\<lambda>(dev', err, w').
            case cellar_audio_close dev' (cw_fs w') of (f2, _, _) \<Rightarrow>
              Ok (w'\<lparr>cw_fs := f2\<rparr>, \<lparr>out_stdout = unlines [''== audio =='', ''  backend:  '' @ ab_name backend,
                    ''  format:   44100 Hz, 2 ch, 16-bit PCM'', ''  output:   '' @ path],
                  out_stderr = err, out_exit = 0\<rparr>))))"

section \<open>Commands on an executable\<close>

definition FULL_FLAGS :: u32 where
  "FULL_FLAGS = CELLAR_LOAD_DEFAULT OR CELLAR_LOAD_PARSE_EXPORTS OR CELLAR_LOAD_PARSE_RELOCS"

definition with_image :: "string \<Rightarrow> u32 \<Rightarrow> (cellar_image \<Rightarrow> command) \<Rightarrow> command" where
  "with_image path flags k w =
     (case cellar_image_load_file (cw_load w) (cw_fs w) path flags (cw_perf w) of
        None \<Rightarrow> None
      | Some Fault \<Rightarrow> fault w
      | Some (Err st) \<Rightarrow> complain (''cellar: cannot load '' @ quoted path @ '': '' @ cellar_status_string st) w
      | Some (Ok (img, c)) \<Rightarrow> k img (w\<lparr>cw_perf := c\<rparr>))"

definition import_line :: "bytes \<Rightarrow> cellar_import \<Rightarrow> string cres" where
  "import_line m im =
     cbind (need (cstr_at m (imp_module im))) (\<lambda>md.
       case imp_name im of
         Some p \<Rightarrow> cbind (need (cstr_at m p)) (\<lambda>fn.
           Ok (''    '' @ pad_to 16 md @ '' '' @ fn @ (if imp_resolved im = None then ''   [UNRESOLVED]'' else [])))
       | None \<Rightarrow> Ok (''    '' @ pad_to 16 md @ '' #'' @ dec (unat (imp_ordinal im))))"

definition import_section :: "cellar_image \<Rightarrow> string list cres" where
  "import_section img =
     (if img_imports img = [] then Ok []
      else cbind (need (img_mapped img)) (\<lambda>m.
        cbind (all_ok (map (import_line m) (img_imports img))) (\<lambda>ls. Ok ([] # ''  imports:'' # ls))))"

definition export_section :: "cellar_image \<Rightarrow> string list cres" where
  "export_section img =
     (if img_export_name_count img = 0 then Ok []
      else cbind (need (img_export_names img)) (\<lambda>ns.
        cbind (all_ok (map need (take (img_export_name_count img) ns)))
          (\<lambda>ls. Ok ([] # ''  exports:'' # map (\<lambda>n. ''    '' @ n) ls))))"

definition image_summary :: "string \<Rightarrow> cellar_image \<Rightarrow> string list" where
  "image_summary path img =
     [''== '' @ path @ '' =='',
      ''  format         PE/'' @ architecture_word img @ ''  ('' @ machine_name (coff_machine (img_coff img)) @ '')'',
      ''  kind           '' @ (if img_is_dll img then ''DLL'' else ''executable''),
      ''  subsystem      '' @ subsystem_name (opt_subsystem (img_opt img)),
      ''  entry point    RVA 0x'' @ hex_pad_upper 8 (unat (opt_address_of_entry_point (img_opt img))),
      ''  image base     0x'' @ hex_pad_upper 8 (unat (opt_image_base (img_opt img))),
      ''  image size     0x'' @ hex_pad_upper 8 (unat (opt_size_of_image (img_opt img))) @ '' ('' @
        dec (unat (opt_size_of_image (img_opt img))) @ '' bytes)'',
      ''  sections       '' @ dec (length (img_sections img)),
      ''  imports        '' @ dec (length (img_imports img)),
      ''  exports        '' @ dec (img_export_name_count img)]"

definition dump_image :: "string \<Rightarrow> command" where
  "dump_image path = with_image path FULL_FLAGS (\<lambda>img w.
     Some (cbind (import_section img) (\<lambda>is. cbind (export_section img) (\<lambda>es.
       Ok (w, \<lparr>out_stdout = unlines (image_summary path img @ is @ es), out_stderr = [], out_exit = 0\<rparr>)))))"

text \<open>The database is opened, updated, saved and closed; every failure is ignored.\<close>

definition remember_in_db :: "cli_env \<Rightarrow> cellar_inspect \<Rightarrow> cellar_analysis \<Rightarrow> fs \<Rightarrow> fs cres" where
  "remember_in_db e ins a f =
     (case cellar_db_open (ce_alloc e) f (Some (cellar_db_default_path (ce_env e) 1024)) of
        Ok db \<Rightarrow>
          (case cellar_db_save (put_ignoring (ce_alloc e) (cellar_db_from_analysis (Some ins) (Some a)) db) f of
             Ok f' \<Rightarrow> Ok f' | Err _ \<Rightarrow> Ok f | Fault \<Rightarrow> Fault)
      | Err _ \<Rightarrow> Ok f | Fault \<Rightarrow> Fault)"

definition recommended_profile :: "string \<Rightarrow> cellar_analysis \<Rightarrow> app_profile" where
  "recommended_profile base a =
     \<lparr>pr_app_name = snprintf_s 128 base, pr_version_mode = 2, pr_gfx_backend = snprintf_s 32 (an_gfx_rec a),
      pr_audio_backend = snprintf_s 32 (an_audio_rec a), pr_dll_overrides = [], pr_low_latency = 0,
      pr_shader_cache = (if an_shader_cache a then 1 else 0), pr_last_good = 0\<rparr>"

definition cmd_analyze :: "cli_env \<Rightarrow> string \<Rightarrow> command" where
  "cmd_analyze e path = with_image path CELLAR_LOAD_DEFAULT (\<lambda>img w.
     case cellar_compat_analyze (le_registry (cw_load w)) (Some img) (Some (base_name path)) of
       Fault \<Rightarrow> fault w
     | Err st \<Rightarrow> complain (''cellar: analysis failed: '' @ cellar_status_string st) w
     | Ok a \<Rightarrow>
         (case (case cellar_inspect_image (Some img) (Some path) of
                  Ok ins \<Rightarrow> remember_in_db e ins a (cw_fs w) | Err _ \<Rightarrow> Ok (cw_fs w) | Fault \<Rightarrow> Fault) of
            Ok f \<Rightarrow>
              (case cellar_profile_save (Some (cellar_prefix_dir (ce_env e))) (Some (recommended_profile (base_name path) a)) f of
                 Fault \<Rightarrow> fault w
               | Ok f' \<Rightarrow> say (cellar_compat_report (Some a)) (w\<lparr>cw_fs := f'\<rparr>)
               | Err _ \<Rightarrow> say (cellar_compat_report (Some a)) (w\<lparr>cw_fs := f\<rparr>))
          | _ \<Rightarrow> fault w))"

definition cmd_inspect :: "cli_env \<Rightarrow> string \<Rightarrow> command" where
  "cmd_inspect e path = with_image path FULL_FLAGS (\<lambda>img w.
     case cellar_inspect_image (Some img) (Some path) of
       Fault \<Rightarrow> fault w
     | Err _ \<Rightarrow> quit w
     | Ok ins \<Rightarrow>
         (case (case cellar_compat_analyze (le_registry (cw_load w)) (Some img) (Some (ins_basename ins)) of
                  Ok a \<Rightarrow> remember_in_db e ins a (cw_fs w) | Err _ \<Rightarrow> Ok (cw_fs w) | Fault \<Rightarrow> Fault) of
            Ok f \<Rightarrow> say (cellar_inspect_report (Some ins)) (w\<lparr>cw_fs := f\<rparr>)
          | _ \<Rightarrow> fault w))"

text \<open>The first import by name that is not resolved is noted as the last API.\<close>

definition unresolved_api :: "cellar_image \<Rightarrow> string option cres" where
  "unresolved_api img =
     (case find (\<lambda>im. imp_name im \<noteq> None \<and> imp_resolved im = None) (img_imports img) of
        None \<Rightarrow> Ok None
      | Some im \<Rightarrow> cbind (need (img_mapped img)) (\<lambda>m.
          cbind (need (cstr_at m (imp_module im))) (\<lambda>md.
          cbind (need (cstr_at m (the (imp_name im)))) (\<lambda>fn. Ok (Some (snprintf_s 160 (md @ ''!'' @ fn)))))))"

definition cmd_debug :: "cli_env \<Rightarrow> string \<Rightarrow> command" where
  "cmd_debug e path = with_image path CELLAR_LOAD_DEFAULT (\<lambda>img w.
     case cellar_inspect_image (Some img) (Some path) of
       Ok ins \<Rightarrow>
         (case unresolved_api img of
            Ok api \<Rightarrow>
              let s0 = cellar_debug_begin (ce_pid e) (ce_tid e) (Some (base_name path));
                  s1 = (cellar_debug_note_module ^^ (1 + length (ins_unique_dlls ins))) s0;
                  s2 = cellar_debug_note_handle s1;
                  s3 = (case api of None \<Rightarrow> s2 | Some a \<Rightarrow> cellar_debug_note_api (Some a) (Some ''Win32'') s2)
              in say (cellar_debug_report s3) w
          | _ \<Rightarrow> fault w)
     | _ \<Rightarrow> fault w)"

section \<open>Commands on the database and the runtimes\<close>

definition db_list_line :: "db_entry \<Rightarrow> string" where
  "db_list_line x = ''  '' @ pad_to 24 (de_application x) @ ''  '' @ pad_to 6 (de_architecture x) @ ''  '' @
     cellar_rating_name (de_rating x)"

definition cmd_db :: "cli_env \<Rightarrow> string list \<Rightarrow> command" where
  "cmd_db e argv w =
     (let argc = length argv; sub_cmd = (if argc > 2 then argv ! 2 else ''list'');
          path = cellar_db_default_path (ce_env e) 1024 in
      case cellar_db_open (ce_alloc e) (cw_fs w) (Some path) of
        Fault \<Rightarrow> fault w
      | Err _ \<Rightarrow> complain (''cellar: cannot open '' @ path) w
      | Ok db \<Rightarrow>
          if sub_cmd = ''list'' then
            say (unlines ((''Compatibility database ('' @ path @ '') '' @ em_dash @ '' '' @ dec (cellar_db_count (Some db)) @
                   '' application(s)'') # map db_list_line (db_entries db))) w
          else if sub_cmd = ''show'' then
            (if argc < 4 then complain ''cellar: db show needs an application name'' w
             else (case cellar_db_find (Some db) (Some (argv ! 3)) of
                     None \<Rightarrow> complain (''cellar: no entry for '' @ quoted (argv ! 3)) w
                   | Some x \<Rightarrow> say (cellar_db_report (Some x)) w))
          else complain (''cellar: unknown db subcommand '' @ quoted sub_cmd) w)"

definition cmd_runtime :: "cli_env \<Rightarrow> string list \<Rightarrow> command" where
  "cmd_runtime e argv w0 =
     (let argc = length argv;
          bottle = cellar_path_join 1024 (Some (cellar_prefix_dir (ce_env e))) (Some ''default'');
          rt = (case cellar_runtime_init (Some bottle) (cw_runtime w0) of Ok s \<Rightarrow> s | _ \<Rightarrow> cw_runtime w0);
          w = w0\<lparr>cw_fs := fst (cellar_mkdir_p (cw_fs w0) (Some bottle)), cw_runtime := rt\<rparr>;
          sub_cmd = (if argc > 2 then argv ! 2 else ''list'') in
      if sub_cmd = ''list'' then say (cellar_runtime_report rt (cw_fs w)) w
      else if argc < 4 then
        complain (''cellar: runtime '' @ sub_cmd @ '' needs a kind (vcruntime|dotnet|directx|fonts|systemlibs)'') w
      else
        let k = cellar_runtime_parse (Some (argv ! 3)) in
        if k \<ge> CELLAR_RT_COUNT then complain (''cellar: unknown runtime '' @ quoted (argv ! 3)) w
        else if sub_cmd = ''install'' then
          (case cellar_runtime_install k rt (cw_fs w) of (f, st) \<Rightarrow>
             if st \<noteq> CELLAR_OK then quit (w\<lparr>cw_fs := f\<rparr>)
             else say (''installed '' @ cellar_runtime_kind_name k @ [NL]) (w\<lparr>cw_fs := f\<rparr>))
        else if sub_cmd = ''uninstall'' then
          say (''uninstalled '' @ cellar_runtime_kind_name k @ [NL])
            (w\<lparr>cw_fs := fst (cellar_runtime_uninstall k rt (cw_fs w))\<rparr>)
        else complain (''cellar: unknown runtime subcommand '' @ quoted sub_cmd) w)"

section \<open>Commands on prefixes\<close>

definition prefix_keys :: "string list" where
  "prefix_keys = [''version_mode'', ''gfx'', ''audio'', ''arch'', ''runner'', ''resolution'', ''virtual_desktop'',
     ''vd_width'', ''vd_height'', ''vd_dpi'', ''box64'', ''cpu_core_limit'', ''frame_cap'', ''esync'', ''fsync'',
     ''dll_overrides'']"

definition prefix_list_line :: "prefix_info \<Rightarrow> string" where
  "prefix_list_line i = ''  '' @ pad_to 16 (pi_name i) @ ''  '' @ pi_path i @ ''  gfx='' @ pi_gfx i @
     '' audio='' @ pi_audio i @ '' arch='' @ pi_arch i @ '' runner='' @ pi_runner i"

text \<open>An entry that \<^verbatim>\<open>cellar_prefix_info\<close> refuses stays uninitialised in the array.\<close>

definition prefix_list :: "string \<Rightarrow> command" where
  "prefix_list root w =
     (case all_ok (cellar_prefix_list (Some root) 64 (cw_fs w)) of
        Ok is \<Rightarrow> say (unlines ((''Prefixes in '' @ root @ '' ('' @ dec (length is) @ ''):'') # map prefix_list_line is)) w
      | _ \<Rightarrow> fault w)"

definition arch_argument :: "string list \<Rightarrow> string option" where
  "arch_argument argv =
     (if length argv > 4 then
        (if has_prefix (argv ! 4) ''--arch='' then Some (drop 7 (argv ! 4))
         else if argv ! 4 = ''--arch'' \<and> length argv > 5 then Some (argv ! 5) else None)
      else None)"

definition prefix_create :: "string \<Rightarrow> string list \<Rightarrow> command" where
  "prefix_create root argv w =
     (let arch = arch_argument argv in
      case cellar_prefix_create_arch (Some root) (Some (argv ! 3)) arch (cw_shell w) (cw_fs w) of (f, sh, st) \<Rightarrow>
        let w' = w\<lparr>cw_fs := f, cw_shell := sh\<rparr> in
        if st \<noteq> CELLAR_OK then complain (''cellar: failed to create prefix '' @ quoted (argv ! 3)) w'
        else say (''created prefix '' @ root @ ''/'' @ argv ! 3 @ '' (arch='' @ opt_text ''win64'' arch @ '')'' @ [NL]) w')"

text \<open>The shape of the subcommands that take a file or a second name.\<close>

definition with_fourth :: "string \<Rightarrow> string list \<Rightarrow> (string \<Rightarrow> command) \<Rightarrow> command" where
  "with_fourth usage argv k w = (if length argv > 4 then k (argv ! 4) w else complain usage w)"

definition report_status :: "string \<Rightarrow> cellar_status \<Rightarrow> command" where
  "report_status msg st w = (if st \<noteq> CELLAR_OK then quit w else say (msg @ [NL]) w)"

definition prefix_clone :: "cli_env \<Rightarrow> string \<Rightarrow> string \<Rightarrow> string \<Rightarrow> command" where
  "prefix_clone e root name dst w =
     (case cellar_prefix_clone (ce_alloc e) (ce_flushed e) (ce_pid e) (Some root) (Some name) (Some dst) (cw_shell w) (cw_fs w) of
        None \<Rightarrow> None
      | Some (f, sh, st) \<Rightarrow> report_status (''cloned '' @ name @ '' -> '' @ dst) st (w\<lparr>cw_fs := f, cw_shell := sh\<rparr>))"

text \<open>\<^verbatim>\<open>import\<close> and \<^verbatim>\<open>export\<close> call the functions that are restore and backup under other names.\<close>

definition prefix_restore :: "cli_env \<Rightarrow> string \<Rightarrow> string \<Rightarrow> string \<Rightarrow> string \<Rightarrow> command" where
  "prefix_restore e verb root name file w =
     (case cellar_prefix_restore (ce_alloc e) (Some root) (Some name) (Some file) (cw_shell w) (cw_fs w) of (f, sh, st) \<Rightarrow>
        report_status (verb @ '' '' @ name @ '' from '' @ file) st (w\<lparr>cw_fs := f, cw_shell := sh\<rparr>))"

definition prefix_backup :: "cli_env \<Rightarrow> string \<Rightarrow> string \<Rightarrow> string \<Rightarrow> string \<Rightarrow> command" where
  "prefix_backup e verb root name file w =
     (case cellar_prefix_backup (ce_alloc e) (ce_flushed e) (Some root) (Some name) (Some file) (cw_fs w) of
        None \<Rightarrow> None
      | Some Fault \<Rightarrow> fault w
      | Some (Err _) \<Rightarrow> quit w
      | Some (Ok f) \<Rightarrow> say (verb @ '' '' @ name @ '' -> '' @ file @ [NL]) (w\<lparr>cw_fs := f\<rparr>))"

definition prefix_set :: "string \<Rightarrow> string list \<Rightarrow> command" where
  "prefix_set root argv w =
     (if length argv < 6 then complain ''cellar: prefix set NAME KEY VALUE'' w
      else (case cellar_prefix_set_setting (Some root) (Some (argv ! 3)) (Some (argv ! 4)) (Some (argv ! 5)) (cw_fs w) of
              Fault \<Rightarrow> fault w
            | Err _ \<Rightarrow> quit w
            | Ok f \<Rightarrow> say (argv ! 3 @ ''.'' @ argv ! 4 @ ''='' @ argv ! 5 @ [NL]) (w\<lparr>cw_fs := f\<rparr>)))"

definition setting_line :: "string \<Rightarrow> string \<Rightarrow> fs \<Rightarrow> string \<Rightarrow> string list" where
  "setting_line root name f k =
     (case cellar_prefix_get_setting (Some root) (Some name) (Some k) 256 f of Ok v \<Rightarrow> [k @ ''='' @ v] | _ \<Rightarrow> [])"

definition prefix_settings :: "string \<Rightarrow> string \<Rightarrow> command" where
  "prefix_settings root name w = say (unlines (concat (map (setting_line root name (cw_fs w)) prefix_keys))) w"

definition prefix_delete :: "string \<Rightarrow> string \<Rightarrow> command" where
  "prefix_delete root name w =
     (case cellar_prefix_delete (Some root) (Some name) (cw_fs w) of
        None \<Rightarrow> None
      | Some r \<Rightarrow> say (''deleted prefix '' @ name @ [NL])
          (case r of Ok f \<Rightarrow> w\<lparr>cw_fs := f\<rparr> | _ \<Rightarrow> w))"

text \<open>\<^verbatim>\<open>info\<close> and \<^verbatim>\<open>launch\<close> read the \<^verbatim>\<open>exists\<close> flag of a structure that stays
  uninitialised when the name is refused.\<close>

definition prefix_info_lines :: "prefix_info \<Rightarrow> string list" where
  "prefix_info_lines i =
     [''Name:     '' @ pi_name i, ''Path:     '' @ pi_path i,
      ''Version:  '' @ vp_name (cellar_version_profile (pi_version_mode i)), ''Graphics: '' @ pi_gfx i,
      ''Audio:    '' @ pi_audio i, ''Arch:     '' @ pi_arch i, ''Runner:   '' @ pi_runner i]"

definition prefix_show :: "string \<Rightarrow> string \<Rightarrow> command" where
  "prefix_show root name w =
     (case cellar_prefix_info (Some root) (Some name) (cw_fs w) of
        Ok i \<Rightarrow> if \<not> pi_exists i then complain (''cellar: prefix '' @ quoted name @ '' does not exist'') w
                else say (unlines (prefix_info_lines i)) w
      | _ \<Rightarrow> fault w)"

definition prefix_launch :: "cli_env \<Rightarrow> string \<Rightarrow> string \<Rightarrow> string \<Rightarrow> command" where
  "prefix_launch e root name exe w =
     (case cellar_prefix_info (Some root) (Some name) (cw_fs w) of
        Ok i \<Rightarrow>
          if \<not> pi_exists i then
            complain (''cellar: prefix '' @ quoted name @ '' does not exist (try: cellar prefix create '' @ name @ '')'') w
          else
            after (unlines [''== launching '' @ exe @ '' in prefix '' @ name @ '' =='', ''  bottle:   '' @ pi_path i,
                ''  version:  '' @ vp_name (cellar_version_profile (pi_version_mode i)), ''  graphics: '' @ pi_gfx i,
                ''  audio:    '' @ pi_audio i, []])
              (map_option (\<lambda>r. cbind r (\<lambda>(w', out). Ok (w', out\<lparr>out_exit := 0, out_stdout := out_stdout out @
                  ''Execution of loaded binaries is not yet implemented (see docs/ROADMAP.md, Milestone 1).'' @ [NL]\<rparr>)))
                (cmd_inspect e exe w))
      | _ \<Rightarrow> fault w)"

definition prefix_usage :: string where
  "prefix_usage = ''cellar: prefix needs create|list|info|delete|clone|import|export|set|settings|backup|restore|launch''"

definition cmd_prefix :: "cli_env \<Rightarrow> string list \<Rightarrow> command" where
  "cmd_prefix e argv w =
     (let root = cellar_prefix_dir (ce_env e); argc = length argv; sub_cmd = argv ! 2; name = argv ! 3 in
      if argc < 3 then complain prefix_usage w
      else if sub_cmd = ''list'' then prefix_list root w
      else if argc < 4 then complain (''cellar: prefix '' @ sub_cmd @ '' needs a name'') w
      else if sub_cmd = ''create'' then prefix_create root argv w
      else if sub_cmd = ''clone'' then with_fourth ''cellar: prefix clone SRC DST'' argv (prefix_clone e root name) w
      else if sub_cmd = ''import'' then
        with_fourth ''cellar: prefix import NAME FILE'' argv (prefix_restore e ''imported'' root name) w
      else if sub_cmd = ''export'' then
        with_fourth ''cellar: prefix export NAME FILE'' argv (prefix_backup e ''exported'' root name) w
      else if sub_cmd = ''set'' then prefix_set root argv w
      else if sub_cmd = ''settings'' then prefix_settings root name w
      else if sub_cmd = ''delete'' then prefix_delete root name w
      else if sub_cmd = ''info'' then prefix_show root name w
      else if sub_cmd = ''backup'' then
        with_fourth ''cellar: prefix backup NAME FILE'' argv (prefix_backup e ''backed up'' root name) w
      else if sub_cmd = ''restore'' then
        with_fourth ''cellar: prefix restore NAME FILE'' argv (prefix_restore e ''restored'' root name) w
      else if sub_cmd = ''launch'' then
        with_fourth ''cellar: prefix launch NAME game.exe'' argv (prefix_launch e root name) w
      else complain (''cellar: unknown prefix subcommand '' @ quoted sub_cmd) w)"

end
