(* ===== verification/TestLab.thy ===== *)
theory TestLab
  imports Complex_Main CodePage Security Service Win32Api Registry
begin

text \<open>
  The compatibility test lab, \<^verbatim>\<open>src/testlab/testlab.c\<close>: one case per Windows behaviour, each of
  which drives a component, and one generated case per registered export. A case is a function on the
  state of its component; the world holds all of them. The text \<^verbatim>\<open>printf\<close> makes of 1234.5, the
  addresses the allocator returns and the bodies of service main functions are arguments. Messages
  about failed cases are not modelled.
\<close>

datatype lab_result = CELLAR_LAB_PASS | CELLAR_LAB_FAIL | CELLAR_LAB_SKIP

record lab_world =
  lw_reg :: registry
  lw_display :: "cellar_display option"
  lw_locale :: locale_state
  lw_com :: com_state
  lw_heap :: com_heap
  lw_notify :: notify_state
  lw_a11y :: a11y_state
  lw_print :: prn_state
  lw_fs :: fs
  lw_device :: device_state
  lw_desktop :: desktop_state
  lw_service :: svc_table

record lab_env =
  le_object1 :: "nat option"
  le_object2 :: "nat option"
  le_printed :: string
  le_run :: "string \<Rightarrow> svc_table \<Rightarrow> svc_table"

type_synonym lab_fn = "lab_world \<Rightarrow> (lab_result \<times> lab_world) cres"

definition pass_if :: "bool \<Rightarrow> lab_result" where
  "pass_if c = (if c then CELLAR_LAB_PASS else CELLAR_LAB_FAIL)"

text \<open>A case that only reads the world.\<close>

definition check :: "(lab_world \<Rightarrow> bool) \<Rightarrow> lab_fn" where
  "check P w = Ok (pass_if (P w), w)"

section \<open>The cases on exports\<close>

definition has_export :: "lab_world \<Rightarrow> string \<Rightarrow> string \<Rightarrow> bool" where
  "has_export w m e = cellar_win32_export_exists (lw_reg w) (Some m) (Some e)"

definition t_kernel32_exports :: lab_fn where
  "t_kernel32_exports = check (\<lambda>w. has_export w ''KERNEL32.dll'' ''ExitProcess'' \<and> has_export w ''KERNEL32.dll'' ''GetLastError'')"
definition t_user32_messagebox :: lab_fn where
  "t_user32_messagebox = check (\<lambda>w. has_export w ''USER32.dll'' ''MessageBoxA'')"
definition t_ntdll_rtlgetversion :: lab_fn where
  "t_ntdll_rtlgetversion = check (\<lambda>w. has_export w ''ntdll.dll'' ''RtlGetVersion'')"
definition t_advapi_reg :: lab_fn where
  "t_advapi_reg = check (\<lambda>w. has_export w ''ADVAPI32.dll'' ''RegOpenKeyExA'')"
definition t_ws2_startup :: lab_fn where
  "t_ws2_startup = check (\<lambda>w. has_export w ''ws2_32.dll'' ''WSAStartup'')"
definition t_ole32_coinit :: lab_fn where
  "t_ole32_coinit = check (\<lambda>w. has_export w ''ole32.dll'' ''CoInitializeEx'')"
definition t_shell32_folder :: lab_fn where
  "t_shell32_folder = check (\<lambda>w. has_export w ''shell32.dll'' ''SHGetFolderPathA'')"
definition t_gdi32_caps :: lab_fn where
  "t_gdi32_caps = check (\<lambda>w. has_export w ''gdi32.dll'' ''GetDeviceCaps'')"
definition t_version_ex :: lab_fn where
  "t_version_ex = check (\<lambda>w. has_export w ''version.dll'' ''GetFileVersionInfoSizeA'' \<or> has_export w ''KERNEL32.dll'' ''GetVersionExA'')"

section \<open>The cases on the display and the locale\<close>

text \<open>The quotient before rounding; comparing it with 1 is exact.\<close>

definition cellar_display_scale :: "cellar_monitor option \<Rightarrow> rat" where
  "cellar_display_scale m =
     (case m of None \<Rightarrow> 1 | Some x \<Rightarrow> if mo_dpi x = 0 then 1 else of_nat (unat (mo_dpi x)) / 96)"

definition t_display_primary :: lab_fn where
  "t_display_primary = check (\<lambda>w.
     case cellar_display_primary (cellar_display_current (lw_display w)) of None \<Rightarrow> False
     | Some m \<Rightarrow> mo_width m = 1920 \<and> mo_height m = 1080 \<and> cellar_display_scale (Some m) = 1)"

definition second_monitor :: cellar_monitor where
  "second_monitor = \<lparr>mo_name = ''DISPLAY2'', mo_width = 1280, mo_height = 720, mo_dpi = 144, mo_refresh_hz = 144, mo_hdr = True,
     mo_orientation = CELLAR_ORIENT_PORTRAIT, mo_primary = False\<rparr>"

definition t_display_multimon :: lab_fn where
  "t_display_multimon w =
     (case cellar_display_add_monitor (Some second_monitor) cellar_display_init_default of
        Ok d \<Rightarrow> let d' = cellar_display_set_mode CELLAR_WINDOW_FULLSCREEN d in
          Ok (pass_if (length (di_monitors d') = 2 \<and> di_mode d' = CELLAR_WINDOW_FULLSCREEN \<and>
                       cellar_display_scale (Some (di_monitors d' ! 1)) > 1), w)
      | _ \<Rightarrow> Ok (CELLAR_LAB_FAIL, w))"

definition t_locale_cp1252 :: lab_fn where
  "t_locale_cp1252 w =
     (let n = cellar_cp_to_utf8 (cellar_locale_get (lw_locale w)) CELLAR_CP_1252 (Some [0x41, 0x80]) 16
      in Ok (pass_if (case n of None \<Rightarrow> False | Some out \<Rightarrow> length out > 1 \<and> out ! 0 = 0x41),
             w\<lparr>lw_locale := ensure (lw_locale w)\<rparr>))"

definition number_case :: "string \<Rightarrow> locale_state \<Rightarrow> (lab_result \<times> locale_state) cres" where
  "number_case printed g =
     (case cellar_locale_format_number (cellar_locale_set (Some cellar_locale_english_us) g) printed True 32 of
        (Ok buf, g') \<Rightarrow> Ok (pass_if (strstr buf ''1,234'' \<noteq> None), g')
      | (Err _, g') \<Rightarrow> Ok (CELLAR_LAB_FAIL, g')
      | (Fault, g') \<Rightarrow> Fault)"

definition t_locale_number :: "lab_env \<Rightarrow> lab_fn" where
  "t_locale_number e w = cbind (number_case (le_printed e) (lw_locale w)) (\<lambda>(r, g). Ok (r, w\<lparr>lw_locale := g\<rparr>))"

definition t_locale_date :: lab_fn where
  "t_locale_date w =
     (case cellar_locale_format_date (Some \<lparr>tm_sec = 0, tm_min = 0, tm_hour = 0, tm_mday = 30, tm_mon = 7, tm_year = 126\<rparr>) 32 of
        Ok buf \<Rightarrow> Ok (pass_if (buf = ''08/30/2026''), w) | Err _ \<Rightarrow> Ok (CELLAR_LAB_FAIL, w) | Fault \<Rightarrow> Fault)"

section \<open>The cases on security and COM\<close>

text \<open>The result of adding the entry is ignored, as in the code.\<close>

definition security_case :: lab_result where
  "security_case =
     (let tok = cellar_token_default; other = cellar_sid_make 5 1001;
          dacl = (case cellar_acl_add (Some []) True (Some (tok_user tok)) CELLAR_ACCESS_READ of Ok a \<Rightarrow> a | _ \<Rightarrow> []);
          sd = \<lparr>sd_owner = cellar_sid_make 5 1000, sd_group = sid_zero, sd_dacl = dacl\<rparr>
      in if \<not> cellar_acl_check (Some sd) (Some tok) CELLAR_ACCESS_READ then CELLAR_LAB_FAIL
         else if cellar_acl_check (Some sd) (Some tok) CELLAR_ACCESS_WRITE then CELLAR_LAB_FAIL
         else
           let tok1 = (case cellar_token_impersonate (Some tok) (Some other) of Ok t \<Rightarrow> t | _ \<Rightarrow> tok)
           in if cellar_acl_check (Some sd) (Some tok1) CELLAR_ACCESS_READ then CELLAR_LAB_FAIL else CELLAR_LAB_PASS)"

definition t_security_acl :: lab_fn where "t_security_acl w = Ok (security_case, w)"

definition t_sid_system_uid :: lab_fn where
  "t_sid_system_uid w =
     cbind (cellar_sid_to_uid (Some (cellar_sid_make 5 18))) (\<lambda>u. Ok (pass_if (u = 0), w))"

text \<open>A case that creates the null object: the class table, then the object, then what \<open>k\<close> does with it.\<close>

definition com_create_case ::
    "nat option \<Rightarrow> com_state \<Rightarrow> com_heap \<Rightarrow> (nat \<Rightarrow> com_state \<Rightarrow> com_heap \<Rightarrow> (lab_result \<times> com_state \<times> com_heap) cres) \<Rightarrow>
     (lab_result \<times> com_state \<times> com_heap) cres" where
  "com_create_case fresh c h k =
     (let c1 = (case cellar_com_register_builtins c of Ok t \<Rightarrow> t | _ \<Rightarrow> c)
      in cbind (cellar_com_create (\<lambda>_. null_factory fresh) (Some CELLAR_CLSID_NULL) (Some CELLAR_IID_IUNKNOWN) True c1 h)
           (\<lambda>(h1, st, obj). case obj of
              Some a \<Rightarrow> if st \<noteq> CELLAR_OK then Ok (CELLAR_LAB_FAIL, c1, h1) else k a c1 h1
            | None \<Rightarrow> if st \<noteq> CELLAR_OK then Ok (CELLAR_LAB_FAIL, c1, h1) else Fault))"

definition refcount_case :: "nat option \<Rightarrow> com_state \<Rightarrow> com_heap \<Rightarrow> (lab_result \<times> com_state \<times> com_heap) cres" where
  "refcount_case fresh c h =
     (case cellar_com_init CELLAR_APT_MTA (cellar_com_uninit c) of (st, c1) \<Rightarrow>
        if st \<noteq> CELLAR_OK then Ok (CELLAR_LAB_FAIL, c1, h)
        else com_create_case fresh c1 h (\<lambda>a c2 h1.
          cbind (iu_addref h1 (Some a)) (\<lambda>(h2, r). if r \<noteq> 3 then Ok (CELLAR_LAB_FAIL, c2, h2) else
          cbind (iu_release h2 (Some a)) (\<lambda>(h3, r). if r \<noteq> 2 then Ok (CELLAR_LAB_FAIL, c2, h3) else
          cbind (iu_release h3 (Some a)) (\<lambda>(h4, r). if r \<noteq> 1 then Ok (CELLAR_LAB_FAIL, c2, h4) else
          cbind (iu_release h4 (Some a)) (\<lambda>(h5, r). if r \<noteq> 0 then Ok (CELLAR_LAB_FAIL, c2, h5) else
            Ok (CELLAR_LAB_PASS, cellar_com_uninit c2, h5)))))))"

definition marshal_case :: "nat option \<Rightarrow> com_state \<Rightarrow> com_heap \<Rightarrow> (lab_result \<times> com_state \<times> com_heap) cres" where
  "marshal_case fresh c h =
     com_create_case fresh (snd (cellar_com_init CELLAR_APT_MTA c)) h (\<lambda>a c2 h1.
       case cellar_com_marshal h1 (Some a) 32 of
         Ok (h2, buf) \<Rightarrow>
           (case cellar_com_unmarshal (Some buf) of
              Ok b \<Rightarrow> if b \<noteq> a then Ok (CELLAR_LAB_FAIL, c2, h2)
                      else cbind (iu_release h2 (Some a)) (\<lambda>(h3, _). cbind (iu_release h3 (Some a)) (\<lambda>(h4, _).
                           cbind (iu_release h4 (Some a)) (\<lambda>(h5, _). Ok (CELLAR_LAB_PASS, cellar_com_uninit c2, h5))))
            | Err _ \<Rightarrow> Ok (CELLAR_LAB_FAIL, c2, h2)
            | Fault \<Rightarrow> Fault)
       | Err _ \<Rightarrow> Ok (CELLAR_LAB_FAIL, c2, h1)
       | Fault \<Rightarrow> Fault)"

definition t_com_refcount :: "lab_env \<Rightarrow> lab_fn" where
  "t_com_refcount e w = cbind (refcount_case (le_object1 e) (lw_com w) (lw_heap w))
     (\<lambda>(r, c, h). Ok (r, w\<lparr>lw_com := c, lw_heap := h\<rparr>))"

definition t_com_marshal :: "lab_env \<Rightarrow> lab_fn" where
  "t_com_marshal e w = cbind (marshal_case (le_object2 e) (lw_com w) (lw_heap w))
     (\<lambda>(r, c, h). Ok (r, w\<lparr>lw_com := c, lw_heap := h\<rparr>))"

definition guid_case :: lab_result where
  "guid_case =
     (case cellar_guid_parse (Some ''{00000000-0000-0000-C000-000000000046}'') of
        Ok g \<Rightarrow> if \<not> cellar_guid_eq (Some g) (Some CELLAR_IID_IUNKNOWN) then CELLAR_LAB_FAIL
                else pass_if (strstr (cellar_guid_format g 64) ''00000000'' \<noteq> None)
      | _ \<Rightarrow> CELLAR_LAB_FAIL)"

definition t_guid_parse :: lab_fn where "t_guid_parse w = Ok (guid_case, w)"

section \<open>The cases on the desktop, devices and services\<close>

definition notify_case :: "notify_state \<Rightarrow> lab_result \<times> notify_state" where
  "notify_case s =
     (case cellar_notify_show (Some \<lparr>nt_app = [], nt_summary = ''hello'', nt_body = [], nt_urgency = 0, nt_id = 0\<rparr>) s of (i, s1) \<Rightarrow>
        if i = 0 \<or> cellar_notify_history True 4 s1 = [] then (CELLAR_LAB_FAIL, s1)
        else (case cellar_notify_close i s1 of Ok s2 \<Rightarrow> (CELLAR_LAB_PASS, s2) | _ \<Rightarrow> (CELLAR_LAB_FAIL, s1)))"

definition t_notify :: lab_fn where
  "t_notify w = (case notify_case (lw_notify w) of (r, s) \<Rightarrow> Ok (r, w\<lparr>lw_notify := s\<rparr>))"

definition a11y_case :: "lab_result \<times> a11y_state" where
  "a11y_case =
     (case cellar_a11y_create 0 CELLAR_A11Y_BUTTON (Some ''OK'') cellar_a11y_reset of (btn, s1) \<Rightarrow>
        if btn = 0 then (CELLAR_LAB_FAIL, s1)
        else
          let s2 = (case cellar_a11y_set_value btn (Some ''pressed'') s1 of Ok t \<Rightarrow> t | _ \<Rightarrow> s1)
          in (case cellar_a11y_get btn s2 of None \<Rightarrow> (CELLAR_LAB_FAIL, s2)
              | Some node \<Rightarrow>
                  if an_name node \<noteq> ''OK'' then (CELLAR_LAB_FAIL, s2)
                  else (case cellar_a11y_children 1 4 s2 of (kids, s3) \<Rightarrow> (pass_if (length kids \<ge> 1), s3))))"

definition t_a11y :: lab_fn where
  "t_a11y w = (case a11y_case of (r, s) \<Rightarrow> Ok (r, w\<lparr>lw_a11y := s\<rparr>))"

definition t_print :: lab_fn where
  "t_print w =
     (case cellar_print_job None (Some ''test'') (Some ''hello'') (Some ''/tmp'') (lw_print w) (lw_fs w) of (f, s, job, st) \<Rightarrow>
        Ok (if st \<noteq> CELLAR_OK then CELLAR_LAB_FAIL
            else pass_if (case job of None \<Rightarrow> False | Some j \<Rightarrow> pj_completed j \<and> pj_bytes j = 5),
            w\<lparr>lw_print := s, lw_fs := f\<rparr>))"

definition device_case :: "lab_result \<times> device_state" where
  "device_case =
     (case cellar_device_attach CELLAR_DEV_CONTROLLER (Some ''Xbox pad'') (Some ''XInput'') cellar_device_reset of
        Ok (i, s) \<Rightarrow>
          if cellar_device_get i s = None then (CELLAR_LAB_FAIL, s)
          else (case cellar_device_detach i s of Ok s2 \<Rightarrow> (CELLAR_LAB_PASS, s2) | _ \<Rightarrow> (CELLAR_LAB_FAIL, s))
      | _ \<Rightarrow> (CELLAR_LAB_FAIL, cellar_device_reset))"

definition t_device :: lab_fn where
  "t_device w = (case device_case of (r, s) \<Rightarrow> Ok (r, w\<lparr>lw_device := s\<rparr>))"

definition t_clipboard :: lab_fn where
  "t_clipboard w =
     (let s = fst (cellar_clipboard_set (Some ''clip'') (lw_desktop w))
      in Ok (pass_if (case cellar_clipboard_get 64 s of Ok b \<Rightarrow> b = ''clip'' | _ \<Rightarrow> False), w\<lparr>lw_desktop := s\<rparr>))"

text \<open>\<^verbatim>\<open>q\<close> points into the table, so the second query sees the table after the stop; every service
  is a user-space service.\<close>

definition service_case :: "(string \<Rightarrow> svc_table \<Rightarrow> svc_table) \<Rightarrow> svc_table \<Rightarrow> lab_result \<times> svc_table" where
  "service_case run t =
     (let t1 = (case cellar_svc_register (Some ''Spooler'') None t of Ok u \<Rightarrow> u | _ \<Rightarrow> t) in
      case cellar_svc_start run (Some ''Spooler'') t1 of
        Ok t2 \<Rightarrow>
          (case cellar_svc_query (Some ''Spooler'') t2 of None \<Rightarrow> (CELLAR_LAB_FAIL, t2)
           | Some q \<Rightarrow>
               if svc_state q \<noteq> CELLAR_SVC_RUNNING \<or> svc_user_space q = 0 then (CELLAR_LAB_FAIL, t2)
               else
                 let t3 = (case cellar_svc_stop (Some ''Spooler'') t2 of Ok u \<Rightarrow> u | _ \<Rightarrow> t2)
                 in (pass_if (case cellar_svc_query (Some ''Spooler'') t3 of None \<Rightarrow> False
                              | Some q2 \<Rightarrow> svc_state q2 = CELLAR_SVC_STOPPED), t3))
      | _ \<Rightarrow> (CELLAR_LAB_FAIL, t1))"

definition t_service :: "lab_env \<Rightarrow> lab_fn" where
  "t_service e w = (case service_case (le_run e) (lw_service w) of (r, t) \<Rightarrow> Ok (r, w\<lparr>lw_service := t\<rparr>))"

section \<open>Running the lab\<close>

definition k_cases :: "lab_env \<Rightarrow> (string \<times> string \<times> lab_fn) list" where
  "k_cases e =
     [(''kernel32'', ''ExitProcess/GetLastError exports'', t_kernel32_exports),
      (''user32'', ''MessageBoxA export'', t_user32_messagebox),
      (''ntdll'', ''RtlGetVersion export'', t_ntdll_rtlgetversion),
      (''advapi32'', ''RegOpenKeyExA export'', t_advapi_reg),
      (''ws2_32'', ''WSAStartup export'', t_ws2_startup),
      (''ole32'', ''CoInitializeEx export'', t_ole32_coinit),
      (''shell32'', ''SHGetFolderPathA export'', t_shell32_folder),
      (''gdi32'', ''GetDeviceCaps export'', t_gdi32_caps),
      (''version'', ''version APIs'', t_version_ex),
      (''display'', ''primary 1920x1080 @ 96dpi'', t_display_primary),
      (''display'', ''multimon + HDR + DPI scale'', t_display_multimon),
      (''locale'', ''CP1252 to UTF-8'', t_locale_cp1252),
      (''locale'', ''US number grouping'', t_locale_number e),
      (''locale'', ''US date format'', t_locale_date),
      (''security'', ''ACL allow/deny + impersonation'', t_security_acl),
      (''security'', ''SYSTEM SID maps to uid 0'', t_sid_system_uid),
      (''com'', ''IUnknown refcount'', t_com_refcount e),
      (''com'', ''same-process marshal'', t_com_marshal e),
      (''com'', ''GUID parse/format'', t_guid_parse),
      (''notify'', ''notification history'', t_notify),
      (''a11y'', ''accessibility tree'', t_a11y),
      (''print'', ''virtual PDF printer'', t_print),
      (''device'', ''controller attach/detach'', t_device),
      (''desktop'', ''clipboard round-trip'', t_clipboard),
      (''service'', ''user-space service start/stop'', t_service e)]"

record lab_report =
  lr_total :: u32
  lr_passed :: u32
  lr_failed :: u32
  lr_skipped :: u32

text \<open>The percentage before rounding.\<close>

definition lr_percent :: "lab_report \<Rightarrow> rat" where
  "lr_percent r = (if lr_total r \<noteq> 0 then 100 * of_nat (unat (lr_passed r)) / of_nat (unat (lr_total r)) else 100)"

definition lab_zero :: lab_report where
  "lab_zero = \<lparr>lr_total = 0, lr_passed = 0, lr_failed = 0, lr_skipped = 0\<rparr>"

definition count_result :: "lab_result \<Rightarrow> lab_report \<Rightarrow> lab_report" where
  "count_result res r =
     (let r1 = r\<lparr>lr_total := lr_total r + 1\<rparr> in
      case res of CELLAR_LAB_PASS \<Rightarrow> r1\<lparr>lr_passed := lr_passed r1 + 1\<rparr>
      | CELLAR_LAB_SKIP \<Rightarrow> r1\<lparr>lr_skipped := lr_skipped r1 + 1\<rparr>
      | CELLAR_LAB_FAIL \<Rightarrow> r1\<lparr>lr_failed := lr_failed r1 + 1\<rparr>)"

fun run_cases :: "(string \<times> string \<times> lab_fn) list \<Rightarrow> lab_report \<Rightarrow> lab_world \<Rightarrow> (lab_report \<times> lab_world) cres" where
  "run_cases [] r w = Ok (r, w)"
| "run_cases ((suite, name, fn) # cs) r w = cbind (fn w) (\<lambda>(res, w'). run_cases cs (count_result res r) w')"

definition export_case :: "registry \<Rightarrow> string \<times> string \<Rightarrow> lab_result" where
  "export_case reg me = pass_if (cellar_win32_lookup reg (Some (fst me)) (Some (snd me)) \<noteq> None)"

definition all_exports :: "registry \<Rightarrow> (string \<times> string) list" where
  "all_exports reg = concat (map (\<lambda>m. map (\<lambda>e. (mod_name m, ex_name e)) (mod_exports m)) (g_modules reg))"

definition cellar_lab_run :: "lab_env \<Rightarrow> lab_world \<Rightarrow> (lab_report \<times> lab_world) cres" where
  "cellar_lab_run e w =
     cbind (run_cases (k_cases e) lab_zero w) (\<lambda>(r, w').
       Ok (fold (\<lambda>me. count_result (export_case (lw_reg w') me)) (all_exports (lw_reg w')) r, w'))"

definition cellar_lab_print :: "string \<Rightarrow> lab_report \<Rightarrow> string" where
  "cellar_lab_print percent r = unlines
     [''Tests:       '' @ dec (unat (lr_total r)), ''Passed:      '' @ dec (unat (lr_passed r)),
      ''Failed:      '' @ dec (unat (lr_failed r)), ''Skipped:     '' @ dec (unat (lr_skipped r)), [],
      ''Compatibility: '' @ percent @ ''%'']"

section \<open>Facts: the cases\<close>

definition init_registry :: registry where
  "init_registry = cellar_win32_init (\<lambda>_. True) registry_empty"

lemma lab_registry_modules: "g_modules init_registry = init_modules"
  by (simp add: init_registry_def init_registry_modules registry_empty_def)

lemma find_init_module:
  "cellar_win32_find_module init_registry (Some n) = lookup_by module_name_eq mod_name n init_modules"
  by (simp add: cellar_win32_find_module_def lab_registry_modules)

lemma export_init:
  "cellar_win32_export_exists init_registry (Some n) (Some f) =
    (case lookup_by module_name_eq mod_name n init_modules of None \<Rightarrow> False
     | Some m \<Rightarrow> list_ex (\<lambda>e. ex_name e = f) (mod_exports m))"
  by (simp add: cellar_win32_export_exists_def find_init_module split: option.split)

definition com_start :: com_state where
  "com_start = \<lparr>g_inited = False, g_apt = CELLAR_APT_MTA, g_classes = []\<rparr>"

definition com_after :: com_state where
  "com_after = com_start\<lparr>g_classes := [\<lparr>ce_clsid = CELLAR_CLSID_NULL, ce_progid = ''Cellar.Null'', ce_fac = ''null_factory''\<rparr>]\<rparr>"

definition lab_start :: "fs \<Rightarrow> lab_world" where
  "lab_start f = \<lparr>lw_reg = init_registry, lw_display = None, lw_locale = None, lw_com = com_start, lw_heap = (\<lambda>_. None),
     lw_notify = notify_start, lw_a11y = cellar_a11y_reset, lw_print = print_start, lw_fs = f, lw_device = cellar_device_reset,
     lw_desktop = \<lparr>g_clipboard = [], g_last_url = []\<rparr>, lw_service = []\<rparr>"

lemma export_cases_pass:
  "cellar_win32_export_exists init_registry (Some ''KERNEL32.dll'') (Some ''ExitProcess'')"
  "cellar_win32_export_exists init_registry (Some ''KERNEL32.dll'') (Some ''GetLastError'')"
  "cellar_win32_export_exists init_registry (Some ''USER32.dll'') (Some ''MessageBoxA'')"
  "cellar_win32_export_exists init_registry (Some ''ntdll.dll'') (Some ''RtlGetVersion'')"
  "cellar_win32_export_exists init_registry (Some ''ADVAPI32.dll'') (Some ''RegOpenKeyExA'')"
  "cellar_win32_export_exists init_registry (Some ''ws2_32.dll'') (Some ''WSAStartup'')"
  "cellar_win32_export_exists init_registry (Some ''ole32.dll'') (Some ''CoInitializeEx'')"
  "cellar_win32_export_exists init_registry (Some ''shell32.dll'') (Some ''SHGetFolderPathA'')"
  "cellar_win32_export_exists init_registry (Some ''gdi32.dll'') (Some ''GetDeviceCaps'')"
  "cellar_win32_export_exists init_registry (Some ''version.dll'') (Some ''GetFileVersionInfoSizeA'')"
  unfolding export_init by code_simp+

lemmas export_tests = t_kernel32_exports_def t_user32_messagebox_def t_ntdll_rtlgetversion_def t_advapi_reg_def
  t_ws2_startup_def t_ole32_coinit_def t_shell32_folder_def t_gdi32_caps_def t_version_ex_def check_def has_export_def

lemma export_tests_pass:
  assumes "lw_reg w = init_registry"
  shows "t_kernel32_exports w = Ok (CELLAR_LAB_PASS, w)" "t_user32_messagebox w = Ok (CELLAR_LAB_PASS, w)"
    "t_ntdll_rtlgetversion w = Ok (CELLAR_LAB_PASS, w)" "t_advapi_reg w = Ok (CELLAR_LAB_PASS, w)"
    "t_ws2_startup w = Ok (CELLAR_LAB_PASS, w)" "t_ole32_coinit w = Ok (CELLAR_LAB_PASS, w)"
    "t_shell32_folder w = Ok (CELLAR_LAB_PASS, w)" "t_gdi32_caps w = Ok (CELLAR_LAB_PASS, w)"
    "t_version_ex w = Ok (CELLAR_LAB_PASS, w)"
  using export_cases_pass by (simp_all add: export_tests assms pass_if_def)

lemma display_tests_pass:
  "lw_display w = None \<Longrightarrow> t_display_primary w = Ok (CELLAR_LAB_PASS, w)" "t_display_multimon w = Ok (CELLAR_LAB_PASS, w)"
  by (simp_all add: t_display_primary_def t_display_multimon_def check_def cellar_display_current_def
      cellar_display_init_default_def cellar_display_primary_def cellar_display_scale_def pass_if_def
      cellar_display_add_monitor_def cellar_display_set_mode_def second_monitor_def)

lemma locale_tests_pass:
  "lw_locale w = None \<Longrightarrow> t_locale_cp1252 w = Ok (CELLAR_LAB_PASS, w\<lparr>lw_locale := Some cellar_locale_english_us\<rparr>)"
  "lw_locale w = Some cellar_locale_english_us \<Longrightarrow> le_printed e = ''1234.50'' \<Longrightarrow> t_locale_number e w = Ok (CELLAR_LAB_PASS, w)"
  "t_locale_date w = Ok (CELLAR_LAB_PASS, w)"
proof -
  have "cellar_cp_to_utf8 cellar_locale_english_us CELLAR_CP_1252 (Some [0x41, 0x80]) 16 = Some [0x41, 0xE2, 0x82, 0xAC]" by code_simp
  then show "lw_locale w = None \<Longrightarrow> t_locale_cp1252 w = Ok (CELLAR_LAB_PASS, w\<lparr>lw_locale := Some cellar_locale_english_us\<rparr>)"
    by (simp add: t_locale_cp1252_def cellar_locale_get_def ensure_def pass_if_def)
  have "number_case ''1234.50'' (Some cellar_locale_english_us) = Ok (CELLAR_LAB_PASS, Some cellar_locale_english_us)" by code_simp
  then show "lw_locale w = Some cellar_locale_english_us \<Longrightarrow> le_printed e = ''1234.50'' \<Longrightarrow> t_locale_number e w = Ok (CELLAR_LAB_PASS, w)"
    by (simp add: t_locale_number_def)
  have "cellar_locale_format_date (Some \<lparr>tm_sec = 0, tm_min = 0, tm_hour = 0, tm_mday = 30, tm_mon = 7, tm_year = 126\<rparr>) 32 =
      Ok ''08/30/2026''" by code_simp
  then show "t_locale_date w = Ok (CELLAR_LAB_PASS, w)" by (simp add: t_locale_date_def pass_if_def)
qed

lemma security_tests_pass:
  "t_security_acl w = Ok (CELLAR_LAB_PASS, w)" "t_sid_system_uid w = Ok (CELLAR_LAB_PASS, w)" "t_guid_parse w = Ok (CELLAR_LAB_PASS, w)"
proof -
  have "security_case = CELLAR_LAB_PASS" "guid_case = CELLAR_LAB_PASS" "cellar_sid_to_uid (Some (cellar_sid_make 5 18)) = Ok 0" by code_simp+
  then show "t_security_acl w = Ok (CELLAR_LAB_PASS, w)" "t_sid_system_uid w = Ok (CELLAR_LAB_PASS, w)"
    "t_guid_parse w = Ok (CELLAR_LAB_PASS, w)"
    by (simp_all add: t_security_acl_def t_sid_system_uid_def t_guid_parse_def pass_if_def)
qed

lemma com_create_case_null:
  assumes "cellar_com_register_builtins c = Ok c1" "g_inited c1"
    "lookup_by (=) ce_clsid CELLAR_CLSID_NULL (g_classes c1) = Some x"
  shows "com_create_case (Some a) c h k = k a c1 (h(a \<mapsto> 2))"
  using assms
  by (simp add: com_create_case_def cellar_com_create_def null_factory_def iu_qi_def iu_addref_def cellar_guid_eq_def)

lemma com_builtins:
  "cellar_com_register_builtins (com_start\<lparr>g_inited := True\<rparr>) = Ok (com_after\<lparr>g_inited := True\<rparr>)"
  "cellar_com_register_builtins (com_after\<lparr>g_inited := True\<rparr>) = Ok (com_after\<lparr>g_inited := True\<rparr>)"
  "lookup_by (=) ce_clsid CELLAR_CLSID_NULL (g_classes (com_after\<lparr>g_inited := True\<rparr>)) =
     Some \<lparr>ce_clsid = CELLAR_CLSID_NULL, ce_progid = ''Cellar.Null'', ce_fac = ''null_factory''\<rparr>"
  by code_simp+

lemma refcount_case_pass: "refcount_case (Some a) com_start h = Ok (CELLAR_LAB_PASS, com_after, h(a := None))"
proof -
  have i: "cellar_com_init CELLAR_APT_MTA (cellar_com_uninit com_start) = (CELLAR_OK, com_start\<lparr>g_inited := True\<rparr>)"
    by (simp add: cellar_com_init_def cellar_com_uninit_def com_start_def)
  have u: "cellar_com_uninit (com_after\<lparr>g_inited := True\<rparr>) = com_after"
    by (simp add: cellar_com_uninit_def com_after_def com_start_def)
  show ?thesis
    unfolding refcount_case_def i
    by (simp add: com_create_case_null [OF com_builtins(1) _ com_builtins(3)] iu_addref_def iu_release_def u)
qed

lemma marshal_case_pass:
  assumes "b < 2 ^ 64"
  shows "marshal_case (Some b) com_after h = Ok (CELLAR_LAB_PASS, com_after, h(b := None))"
proof -
  have i: "snd (cellar_com_init CELLAR_APT_MTA com_after) = com_after\<lparr>g_inited := True\<rparr>"
    by (simp add: cellar_com_init_def com_after_def com_start_def)
  have u: "cellar_com_uninit (com_after\<lparr>g_inited := True\<rparr>) = com_after"
    by (simp add: cellar_com_uninit_def com_after_def com_start_def)
  have b: "unat (of_nat b :: u64) = b" using assms by (simp add: unsigned_of_nat take_bit_nat_eq_self)
  have "cellar_com_unmarshal (Some (com_magic @ wput64 (of_nat b))) = Ok b"
    using le64_wput64 [of "of_nat b" "[]"] b by (simp add: cellar_com_unmarshal_def com_magic_def)
  then show ?thesis
    unfolding marshal_case_def i
    by (simp add: com_create_case_null [OF com_builtins(2) _ com_builtins(3)] cellar_com_marshal_def iu_addref_def iu_release_def u)
qed

lemma com_tests_pass:
  "lw_com w = com_start \<Longrightarrow> le_object1 e = Some a \<Longrightarrow>
     t_com_refcount e w = Ok (CELLAR_LAB_PASS, w\<lparr>lw_com := com_after, lw_heap := (lw_heap w)(a := None)\<rparr>)"
  "lw_com w = com_after \<Longrightarrow> le_object2 e = Some b \<Longrightarrow> b < 2 ^ 64 \<Longrightarrow>
     t_com_marshal e w = Ok (CELLAR_LAB_PASS, w\<lparr>lw_com := com_after, lw_heap := (lw_heap w)(b := None)\<rparr>)"
  by (simp_all add: t_com_refcount_def t_com_marshal_def refcount_case_pass marshal_case_pass)

lemma state_tests_pass:
  "lw_notify w = notify_start \<Longrightarrow> t_notify w = Ok (CELLAR_LAB_PASS, w\<lparr>lw_notify := snd (notify_case notify_start)\<rparr>)"
  "t_a11y w = Ok (CELLAR_LAB_PASS, w\<lparr>lw_a11y := snd a11y_case\<rparr>)"
  "t_device w = Ok (CELLAR_LAB_PASS, w\<lparr>lw_device := snd device_case\<rparr>)"
  "t_clipboard w = Ok (CELLAR_LAB_PASS, w\<lparr>lw_desktop := (lw_desktop w)\<lparr>g_clipboard := ''clip''\<rparr>\<rparr>)"
  "lw_service w = [] \<Longrightarrow> t_service e w = Ok (CELLAR_LAB_PASS, w\<lparr>lw_service := snd (service_case (le_run e) [])\<rparr>)"
proof -
  have "fst (notify_case notify_start) = CELLAR_LAB_PASS" "fst a11y_case = CELLAR_LAB_PASS" "fst device_case = CELLAR_LAB_PASS"
    by code_simp+
  then show "lw_notify w = notify_start \<Longrightarrow> t_notify w = Ok (CELLAR_LAB_PASS, w\<lparr>lw_notify := snd (notify_case notify_start)\<rparr>)"
    "t_a11y w = Ok (CELLAR_LAB_PASS, w\<lparr>lw_a11y := snd a11y_case\<rparr>)"
    "t_device w = Ok (CELLAR_LAB_PASS, w\<lparr>lw_device := snd device_case\<rparr>)"
    by (simp_all add: t_notify_def t_a11y_def t_device_def split_beta)
  show "t_clipboard w = Ok (CELLAR_LAB_PASS, w\<lparr>lw_desktop := (lw_desktop w)\<lparr>g_clipboard := ''clip''\<rparr>\<rparr>)"
    by (simp add: t_clipboard_def cellar_clipboard_set_def cellar_clipboard_get_def text_or_def snprintf_s_id pass_if_def)
  have "fst (service_case run []) = CELLAR_LAB_PASS" for run by code_simp
  then show "lw_service w = [] \<Longrightarrow> t_service e w = Ok (CELLAR_LAB_PASS, w\<lparr>lw_service := snd (service_case (le_run e) [])\<rparr>)"
    by (simp add: t_service_def split_beta)
qed

definition print_path :: string where
  "print_path = ''/tmp/cellar-print-1.ps''"

definition after_print :: "fs \<Rightarrow> lab_world \<Rightarrow> lab_world" where
  "after_print f w = w\<lparr>lw_print := (cellar_print_init print_start)\<lparr>g_job := 2\<rparr>, lw_fs := f\<rparr>"

lemma print_test_pass:
  assumes "lw_print w = print_start" "\<And>t. fs_write (lw_fs w) print_path t \<noteq> None"
  shows "\<exists>f. t_print w = Ok (CELLAR_LAB_PASS, after_print f w)"
proof -
  have p: "job_path (Some ''/tmp'') 1 = print_path" by code_simp
  show ?thesis
    using assms(2)
    by (simp add: t_print_def assms(1) cellar_print_job_def print_start_def cellar_print_init_def cellar_print_default_def p
        pass_if_def Let_def after_print_def split: option.splits) blast
qed

section \<open>Facts: the counts\<close>

definition passes :: "nat \<Rightarrow> lab_report \<Rightarrow> lab_report" where
  "passes n r = r\<lparr>lr_total := lr_total r + of_nat n, lr_passed := lr_passed r + of_nat n\<rparr>"

lemma count_pass: "count_result CELLAR_LAB_PASS (passes n r) = passes (Suc n) r" "r = passes 0 r"
  by (simp_all add: count_result_def passes_def add_ac)

lemma fold_passes:
  "\<forall>x\<in>set xs. P x = CELLAR_LAB_PASS \<Longrightarrow> fold (\<lambda>x. count_result (P x)) xs (passes n r) = passes (n + length xs) r"
  by (induction xs arbitrary: n) (simp_all add: count_pass)

lemma run_pass:
  "fn w = Ok (CELLAR_LAB_PASS, w') \<Longrightarrow> run_cases ((a, b, fn) # cs) (passes n r) w = run_cases cs (passes (Suc n) r) w'"
  by (simp add: count_pass)

text \<open>Whatever the cases do, the counters add up.\<close>

definition counts_ok :: "lab_report \<Rightarrow> bool" where
  "counts_ok r \<longleftrightarrow> lr_total r = lr_passed r + lr_failed r + lr_skipped r"

lemma count_result_ok: "counts_ok r \<Longrightarrow> counts_ok (count_result res r)"
  by (cases res) (simp_all add: counts_ok_def count_result_def)

lemma run_cases_ok: "counts_ok r \<Longrightarrow> run_cases cs r w = Ok (r', w') \<Longrightarrow> counts_ok r'"
proof (induction cs arbitrary: r w)
  case (Cons c cs)
  obtain a b fn where c: "c = (a, b, fn)" by (cases c)
  obtain res v where "fn w = Ok (res, v)" using Cons.prems(2) by (cases "fn w") (auto simp: c)
  then show ?case using Cons.prems Cons.IH [of "count_result res r" v] count_result_ok by (auto simp: c)
qed simp

lemma fold_count_ok: "counts_ok r \<Longrightarrow> counts_ok (fold (\<lambda>x. count_result (P x)) xs r)"
  by (induction xs arbitrary: r) (simp_all add: count_result_ok)

theorem lab_counts_add_up: "cellar_lab_run e w = Ok (r, w') \<Longrightarrow> lr_total r = lr_passed r + lr_failed r + lr_skipped r"
proof -
  assume "cellar_lab_run e w = Ok (r, w')"
  then obtain r1 where "run_cases (k_cases e) lab_zero w = Ok (r1, w')"
    "r = fold (\<lambda>me. count_result (export_case (lw_reg w') me)) (all_exports (lw_reg w')) r1"
    by (cases "run_cases (k_cases e) lab_zero w") (auto simp: cellar_lab_run_def)
  moreover have "counts_ok lab_zero" by (simp add: counts_ok_def lab_zero_def)
  ultimately show ?thesis using run_cases_ok fold_count_ok unfolding counts_ok_def by blast
qed

text \<open>Module names are compared by their lower-case stems, which differ.\<close>

definition module_stem_key :: "string \<Rightarrow> string" where
  "module_stem_key a = map tolower_c (module_stem a)"

lemma module_name_eq_key: "module_name_eq a b \<longleftrightarrow> module_stem_key a = module_stem_key b"
  by (auto simp: module_stem_key_def module_name_eq_def Let_def list_eq_iff_zip_eq zip_map_map list_all_iff
      dest: map_eq_imp_length_eq)

lemma init_keys_distinct: "distinct (map (\<lambda>m. module_stem_key (mod_name m)) init_modules)"
  by code_simp

lemma lookup_distinct_key:
  "distinct (map (\<lambda>m. module_stem_key (mod_name m)) ms) \<Longrightarrow> m \<in> set ms \<Longrightarrow>
     lookup_by module_name_eq mod_name (mod_name m) ms = Some m"
  by (induction ms) (auto simp: lookup_by_def module_name_eq_key)

lemma init_modules_found:
  "list_all (\<lambda>m. cellar_win32_find_module init_registry (Some (mod_name m)) = Some m) init_modules"
  using lookup_distinct_key [OF init_keys_distinct] by (simp add: find_init_module list_all_iff)

lemma all_exports_pass: "\<forall>me\<in>set (all_exports init_registry). export_case init_registry me = CELLAR_LAB_PASS"
proof
  fix me assume "me \<in> set (all_exports init_registry)"
  then obtain m x where m: "m \<in> set init_modules" "x \<in> set (mod_exports m)" "me = (mod_name m, ex_name x)"
    by (auto simp: all_exports_def lab_registry_modules)
  then have "cellar_win32_find_module init_registry (Some (mod_name m)) = Some m"
    using init_modules_found by (auto simp: list_all_iff)
  then have "cellar_win32_export_exists init_registry (Some (fst me)) (Some (snd me))"
    using m(2,3) by (auto simp: cellar_win32_export_exists_def list_ex_iff)
  then show "export_case init_registry me = CELLAR_LAB_PASS" using lookup_exists by (simp add: export_case_def pass_if_def)
qed

lemma export_count: "length (all_exports init_registry) = 51"
  by (simp add: all_exports_def lab_registry_modules length_concat init_modules_def) code_simp

lemmas lab_steps = export_tests_pass display_tests_pass locale_tests_pass security_tests_pass com_tests_pass state_tests_pass

definition before_print :: "fs \<Rightarrow> nat \<Rightarrow> nat \<Rightarrow> lab_world" where
  "before_print f a b = (lab_start f)\<lparr>lw_locale := Some cellar_locale_english_us, lw_com := com_after,
     lw_heap := ((\<lambda>_. None)(a := None))(b := None), lw_notify := snd (notify_case notify_start), lw_a11y := snd a11y_case\<rparr>"

lemma cases_before_print:
  assumes "le_object1 e = Some a" "le_object2 e = Some b" "b < 2 ^ 64" "le_printed e = ''1234.50''"
  shows "run_cases (k_cases e) (passes 0 lab_zero) (lab_start f) =
    run_cases (drop 21 (k_cases e)) (passes 21 lab_zero) (before_print f a b)"
  unfolding k_cases_def before_print_def
  by (simp del: run_cases.simps add: run_pass lab_steps assms assms(3) [simplified] lab_start_def)
    (simp add: eval_nat_numeral)

lemma cases_after_print:
  assumes "lw_service w = []"
  shows "\<exists>v. run_cases (drop 22 (k_cases e)) (passes 22 lab_zero) w = Ok (passes 25 lab_zero, v) \<and> lw_reg v = lw_reg w"
  by (simp add: k_cases_def run_pass lab_steps assms del: run_cases.simps(2))

lemma cases_pass:
  assumes "le_object1 e = Some a" "le_object2 e = Some b" "b < 2 ^ 64" "le_printed e = ''1234.50''"
    and "\<And>t. fs_write f print_path t \<noteq> None"
  shows "\<exists>w. run_cases (k_cases e) (passes 0 lab_zero) (lab_start f) = Ok (passes 25 lab_zero, w) \<and> lw_reg w = init_registry"
proof -
  let ?w = "before_print f a b"
  have f: "lw_fs ?w = f" "lw_print ?w = print_start" "lw_service ?w = []" "lw_reg ?w = init_registry"
    by (simp_all add: before_print_def lab_start_def)
  obtain g where g: "t_print ?w = Ok (CELLAR_LAB_PASS, after_print g ?w)"
    using print_test_pass [OF f(2)] assms(5) by (auto simp: f)
  have "drop 21 (k_cases e) = (''print'', ''virtual PDF printer'', t_print) # drop 22 (k_cases e)"
    by (simp add: k_cases_def)
  then have "run_cases (k_cases e) (passes 0 lab_zero) (lab_start f) = run_cases (drop 22 (k_cases e)) (passes 22 lab_zero) (after_print g ?w)"
    using cases_before_print [OF assms(1-4), of f] run_pass [of t_print, OF g] by (simp del: run_cases.simps)
  then show ?thesis
    using cases_after_print [of "after_print g ?w" e] f(3,4) by (auto simp: after_print_def)
qed

section \<open>Properties\<close>

text \<open>C24. Run from the start of the program, with its eleven modules registered and a writable
  \<^verbatim>\<open>/tmp\<close>, the lab passes: every one of the 25 cases and the case of every registered export
  succeeds, none fails or is skipped, and the reported compatibility is 100 percent.\<close>

theorem lab_all_pass:
  assumes "le_object1 e = Some a" "le_object2 e = Some b" "b < 2 ^ 64" "le_printed e = ''1234.50''"
    and "\<And>t. fs_write f print_path t \<noteq> None"
  shows "\<exists>r w. cellar_lab_run e (lab_start f) = Ok (r, w) \<and> lr_total r = 76 \<and> lr_passed r = 76 \<and>
    lr_failed r = 0 \<and> lr_skipped r = 0 \<and> lr_percent r = 100"
proof -
  obtain w where w: "run_cases (k_cases e) (passes 0 lab_zero) (lab_start f) = Ok (passes 25 lab_zero, w)"
    "lw_reg w = init_registry" using cases_pass [OF assms] by blast
  have "cellar_lab_run e (lab_start f) = Ok (passes (25 + 51) lab_zero, w)"
    unfolding cellar_lab_run_def using w fold_passes [OF all_exports_pass] count_pass(2) [of lab_zero] export_count by simp
  then show ?thesis by (simp add: passes_def lab_zero_def lr_percent_def)
qed

theorem lab_all_pass_witness:
  "\<exists>r w. cellar_lab_run \<lparr>le_object1 = Some 16, le_object2 = Some 16, le_printed = ''1234.50'', le_run = (\<lambda>_ t. t)\<rparr>
       (lab_start (empty_fs\<lparr>fs_nodes := [([''tmp''], Dir)]\<rparr>)) = Ok (r, w) \<and> lr_percent r = 100"
proof -
  let ?f = "empty_fs\<lparr>fs_nodes := [([''tmp''], Dir)]\<rparr>"
  have "can_create ?f (resolve ?f print_path)" "node_at ?f (resolve ?f print_path) \<noteq> Some Dir" "print_path \<noteq> []" by code_simp+
  then have w: "fs_write ?f print_path t \<noteq> None" for t by (simp add: fs_write_def Let_def)
  show ?thesis
    using lab_all_pass [of "\<lparr>le_object1 = Some 16, le_object2 = Some 16, le_printed = ''1234.50'', le_run = (\<lambda>_ t. t)\<rparr>" 16 16 ?f] w
    by auto
qed

end
