(* ===== verification/CliApp.thy ===== *)
theory CliApp
  imports Cli TestLab
begin

text \<open>
  The command-line driver \<^verbatim>\<open>src/cli.c\<close>, second half: the commands on workspaces and their
  profiles, the container alias, the device report, the usage text and \<^verbatim>\<open>main\<close>.
\<close>

definition CELLAR_SETUP_EXE :: nat where "CELLAR_SETUP_EXE = 0"
definition CELLAR_SETUP_MSI :: nat where "CELLAR_SETUP_MSI = 1"
definition CELLAR_SETUP_IMPORT :: nat where "CELLAR_SETUP_IMPORT = 2"

section \<open>Printing a workspace\<close>

definition setup_from_name :: "string option \<Rightarrow> nat" where
  "setup_from_name s =
     (case s of None \<Rightarrow> CELLAR_SETUP_EXE
      | Some n \<Rightarrow>
          if n = ''msi'' \<or> n = ''install-msi'' then CELLAR_SETUP_MSI
          else if n = ''import'' \<or> n = ''import-prefix'' then CELLAR_SETUP_IMPORT
          else if n = ''portable'' \<or> n = ''add-portable'' then CELLAR_SETUP_PORTABLE
          else CELLAR_SETUP_EXE)"

definition workspace_lines :: "workspace \<Rightarrow> string list" where
  "workspace_lines w =
     [''Name:          '' @ ws_name w, ''Path:          '' @ ws_path w, ''Setup:         '' @ ws_setup_label w,
      ''Source:        '' @ or_text (ws_source w) ''(none)'', ''Executable:    '' @ or_text (ws_executable w) ''(unset)'',
      ''Architecture:  '' @ or_text (ws_architecture w) ''?'', ''Runner:        '' @ or_text (ws_runner w) ''?'',
      ''Windows:       '' @ vp_name (cellar_version_profile (ws_windows_version w)),
      ''Graphics:      '' @ or_text (ws_gfx_backend w) ''Auto'', ''Audio:         '' @ or_text (ws_audio_backend w) ''Auto'',
      ''DLL overrides: '' @ or_text (ws_dll_overrides w) ''(none)'',
      ''Dependencies:  '' @ or_text (ws_dependencies w) ''(none)'', ''Tags:          '' @ or_text (ws_tags w) ''(none)'',
      ''Perf mode:     '' @ cellar_perf_mode_name (ws_perf_mode w),
      ''Resolution:    '' @ dec (unat (ws_resolution_width w)) @ ''x'' @ dec (unat (ws_resolution_height w)) @ '' @'' @
        dec (unat (ws_dpi w)) @ '' DPI'' @ (if ws_virtual_desktop w \<noteq> 0 then '' virtual'' else []),
      ''Hash:          '' @ or_text (ws_exe_hash w) ''(none)'', ''Rating:        '' @ or_text (ws_compat_rating w) ''UNKNOWN'',
      ''Size:          '' @ dec (unat (ws_install_size w)) @ '' bytes'' @
        (if ws_favorite w \<noteq> 0 then ''  [favorite]'' else []),
      ''Shortcut:      '' @ (if ws_has_shortcut w \<noteq> 0 then ''yes'' else ''no''),
      ''Sandbox:       '' @ (if ws_sandbox_enabled w \<noteq> 0 then ''enabled'' else ''disabled''),
      ''Permissions:   '' @ opt_text [] (cellar_workspace_permissions_text (ws_permissions w) 512),
      ''Controls:      '' @ or_text (ws_controls w) ''default'']"

definition print_workspace :: "workspace \<Rightarrow> string" where
  "print_workspace w = unlines (workspace_lines w)"

section \<open>Commands on workspaces\<close>

text \<open>A command that needs the workspace; \<open>missing\<close> is what it does without.\<close>

definition with_workspace :: "string \<Rightarrow> string \<Rightarrow> command \<Rightarrow> (workspace \<Rightarrow> command) \<Rightarrow> command" where
  "with_workspace rdir name missing k w =
     (case cellar_workspace_load (Some rdir) (Some name) (cw_fs w) of
        Ok ws \<Rightarrow> k ws w | Err _ \<Rightarrow> missing w | Fault \<Rightarrow> fault w)"

text \<open>A command that changes the file system and reports a status.\<close>

definition with_status :: "string \<Rightarrow> fs \<times> cellar_status \<Rightarrow> command" where
  "with_status msg r w = report_status msg (snd r) (w\<lparr>cw_fs := fst r\<rparr>)"

text \<open>The options of \<^verbatim>\<open>app add\<close>: kind, launch file and the first argument that is neither.\<close>

fun add_options :: "string list \<Rightarrow> nat \<times> string option \<times> string option \<Rightarrow> nat \<times> string option \<times> string option" where
  "add_options (a # b # r) (kind, launch, source) =
     (if a = ''--kind'' then add_options r (setup_from_name (Some b), launch, source)
      else if a = ''--launch'' then add_options r (kind, Some b, source)
      else if source = None then add_options (b # r) (kind, launch, Some a)
      else add_options (b # r) (kind, launch, source))"
| "add_options [a] (kind, launch, source) = (kind, launch, if source = None then Some a else source)"
| "add_options [] st = st"

definition app_add :: "cli_env \<Rightarrow> string \<Rightarrow> string list \<Rightarrow> command" where
  "app_add e rdir argv w =
     (if length argv < 4 then
        complain ''cellar: app add NAME [SOURCE] [--kind exe|msi|import|portable] [--launch EXE]'' w
      else
        let name = argv ! 3 in
        case add_options (drop 4 argv) (CELLAR_SETUP_EXE, None, None) of (kind, launch, source) \<Rightarrow>
          (case cellar_workspace_install (ce_env e) (cw_load w) (ce_time e) (Some rdir) (Some name) kind source launch
                  (cw_shell w) (cw_fs w) of
             None \<Rightarrow> None
           | Some Fault \<Rightarrow> fault w
           | Some (Err _) \<Rightarrow> complain (''cellar: failed to add workspace '' @ quoted name) w
           | Some (Ok (f, sh, ws, st)) \<Rightarrow>
               let w' = w\<lparr>cw_fs := f, cw_shell := sh\<rparr> in
               if st \<noteq> CELLAR_OK then complain (''cellar: failed to add workspace '' @ quoted name) w'
               else (case ws of
                       None \<Rightarrow> fault w'
                     | Some x \<Rightarrow> say (''Added workspace '' @ name @ '' (kind='' @ cellar_setup_kind_name (int kind) @ '', id='' @
                                     ws_id x @ '')'' @ [NL]) w')))"

definition workspace_list_line :: "workspace \<Rightarrow> string" where
  "workspace_list_line x =
     ''  '' @ pad_to 20 (ws_name x) @ '' '' @ ws_setup_label x @ ''  '' @ ws_architecture x @ ''  '' @
     or_text (ws_gfx_backend x) ''Auto'' @ (if ws_favorite x \<noteq> 0 then '' *'' else []) @ ''  ('' @
     dec (unat (ws_install_size x)) @ '' bytes)''"

definition app_list :: "string \<Rightarrow> command" where
  "app_list rdir w =
     (let ws = cellar_workspace_list (Some rdir) 64 (cw_fs w) in
      say (unlines ((''Winaltor workspaces in '' @ rdir @ '' ('' @ dec (length ws) @ ''):'') # map workspace_list_line ws)) w)"

definition app_diagnose :: "string list \<Rightarrow> command" where
  "app_diagnose argv w =
     (if length argv < 4 then complain ''cellar: app diagnose LOGFILE'' w
      else (case cellar_workspace_diagnose (Some (argv ! 3)) 4096 (cw_fs w) of
              Ok s \<Rightarrow> say s w | Err _ \<Rightarrow> quit w | Fault \<Rightarrow> fault w))"

definition not_found :: "string \<Rightarrow> command" where
  "not_found name = complain (''cellar: workspace '' @ quoted name @ '' not found'')"

definition app_remove :: "string \<Rightarrow> string \<Rightarrow> command" where
  "app_remove rdir name w =
     (case cellar_workspace_remove (Some rdir) (Some name) (cw_fs w) of
        None \<Rightarrow> None
      | Some Fault \<Rightarrow> fault w
      | Some (Err _) \<Rightarrow> quit w
      | Some (Ok f) \<Rightarrow> say (''Removed workspace '' @ name @ [NL]) (w\<lparr>cw_fs := f\<rparr>))"

definition app_set :: "cli_env \<Rightarrow> string \<Rightarrow> string list \<Rightarrow> command" where
  "app_set e rdir argv w =
     (if length argv < 6 then complain ''cellar: app set NAME KEY VALUE'' w
      else (case cellar_workspace_set (ce_env e) (Some rdir) (Some (argv ! 3)) (Some (argv ! 4)) (Some (argv ! 5)) (cw_fs w) of
              (f, st) \<Rightarrow>
                if st \<noteq> CELLAR_OK then complain (''cellar: cannot set '' @ argv ! 4) (w\<lparr>cw_fs := f\<rparr>)
                else say (''Set '' @ argv ! 4 @ ''='' @ argv ! 5 @ '' for '' @ argv ! 3 @ [NL]) (w\<lparr>cw_fs := f\<rparr>)))"

text \<open>\<^verbatim>\<open>strtoul\<close> with base 0, truncated to 32 bits.\<close>

definition number :: "string \<Rightarrow> u32" where
  "number s = ucast (strtoull0 s)"

definition app_permissions :: "cli_env \<Rightarrow> string \<Rightarrow> string list \<Rightarrow> command" where
  "app_permissions e rdir argv w =
     (let name = argv ! 3 in
      if length argv \<ge> 5 then
        let p = number (argv ! 4) in
        with_status (''Set permissions to 0x'' @ hex_pad 1 (unat p))
          (cellar_workspace_set_permissions (ce_env e) (Some rdir) (Some name) p (cw_fs w)) w
      else with_workspace rdir name quit
        (\<lambda>ws. say (opt_text [] (cellar_workspace_permissions_text (ws_permissions ws) 512) @ [NL])) w)"

definition app_perf :: "cli_env \<Rightarrow> string \<Rightarrow> string list \<Rightarrow> command" where
  "app_perf e rdir argv w =
     (let name = argv ! 3 in
      if length argv \<ge> 5 then
        (case find (\<lambda>i. cellar_perf_mode_name (int i) = argv ! 4) [0..<CELLAR_PERF_MODE_COUNT] of
           None \<Rightarrow> complain (''cellar: unknown perf mode '' @ quoted (argv ! 4)) w
         | Some i \<Rightarrow> with_status (''Set perf mode '' @ argv ! 4)
             (cellar_workspace_set_perf_mode (ce_env e) (Some rdir) (Some name) i (cw_fs w)) w)
      else with_workspace rdir name quit (\<lambda>ws. say (cellar_perf_mode_name (ws_perf_mode ws) @ [NL])) w)"

text \<open>The arguments from the fourth on, joined by blanks in a buffer of 1024 bytes.\<close>

definition join_controls :: "string list \<Rightarrow> string" where
  "join_controls args =
     (case args of [] \<Rightarrow> []
      | a # r \<Rightarrow> fold (\<lambda>x s. cellar_strlcat 1024 (cellar_strlcat 1024 s (Some '' '')) (Some x)) r
                   (cellar_strlcat 1024 [] (Some a)))"

definition app_controls :: "cli_env \<Rightarrow> string \<Rightarrow> string list \<Rightarrow> command" where
  "app_controls e rdir argv w =
     (let name = argv ! 3 in
      if length argv \<ge> 5 then
        with_status (''Set controls for '' @ name)
          (cellar_workspace_set_controls (ce_env e) (Some rdir) (Some name) (Some (join_controls (drop 4 argv))) (cw_fs w)) w
      else with_workspace rdir name quit (\<lambda>ws. say (or_text (ws_controls ws) ''default'' @ [NL])) w)"

definition app_resolution :: "cli_env \<Rightarrow> string \<Rightarrow> string list \<Rightarrow> command" where
  "app_resolution e rdir argv w =
     (let argc = length argv in
      if argc < 6 then complain ''cellar: app resolution NAME WIDTH HEIGHT [DPI [VIRTUAL]]'' w
      else
        let wd = number (argv ! 4); ht = number (argv ! 5);
            dpi = (if argc \<ge> 7 then number (argv ! 6) else 96);
            virt = (if argc \<ge> 8 then scan_int (argv ! 7) else 0)
        in with_status (''Set resolution '' @ dec (unat wd) @ ''x'' @ dec (unat ht) @ '' @'' @ dec (unat dpi) @ '' DPI'' @
               (if virt \<noteq> 0 then '' virtual'' else []))
             (cellar_workspace_set_resolution (ce_env e) (Some rdir) (Some (argv ! 3)) wd ht dpi virt (cw_fs w)) w)"

definition doctor :: "cli_env \<Rightarrow> string \<Rightarrow> string \<Rightarrow> cli_world \<Rightarrow> doctor_report \<times> cli_world" where
  "doctor e rdir name w =
     (case cellar_workspace_doctor (ce_statvfs e) (Some rdir) (Some name) (cw_backends w) (cw_runtime w) (cw_fs w) of
        (r, b, rt) \<Rightarrow> (r, w\<lparr>cw_backends := b, cw_runtime := rt\<rparr>))"

definition app_doctor :: "cli_env \<Rightarrow> string \<Rightarrow> string \<Rightarrow> command" where
  "app_doctor e rdir name w =
     (case doctor e rdir name w of (r, w') \<Rightarrow>
        Some (Ok (w', \<lparr>out_stdout = cellar_doctor_report r, out_stderr = [], out_exit = (if dr_ready r then 0 else 1)\<rparr>)))"

definition app_snapshot :: "string \<Rightarrow> string list \<Rightarrow> command" where
  "app_snapshot rdir argv w =
     (let label = (if length argv \<ge> 5 then argv ! 4 else ''default'') in
      with_status (''Snapshotted '' @ argv ! 3 @ '' as '' @ label)
        (cellar_workspace_snapshot (Some rdir) (Some (argv ! 3)) (Some label) (cw_fs w)) w)"

definition app_rollback :: "string \<Rightarrow> string list \<Rightarrow> command" where
  "app_rollback rdir argv w =
     (if length argv < 5 then complain ''cellar: app rollback NAME LABEL'' w
      else with_status (''Rolled back '' @ argv ! 3 @ '' to '' @ argv ! 4)
        (cellar_workspace_rollback (Some rdir) (Some (argv ! 3)) (Some (argv ! 4)) (cw_fs w)) w)"

definition app_diff :: "string \<Rightarrow> string list \<Rightarrow> command" where
  "app_diff rdir argv w =
     (if length argv < 6 then complain ''cellar: app diff NAME A B'' w
      else (case cellar_workspace_profile_diff (Some rdir) (Some (argv ! 3)) (Some (argv ! 4)) (Some (argv ! 5)) (Some 4096)
                   (cw_fs w) of
              (nd, text) \<Rightarrow>
                if nd < 0 then complain ''cellar: cannot diff profiles'' w
                else if nd = 0 then say (''profiles are identical'' @ [NL]) w
                else say text w))"

definition app_repair :: "cli_env \<Rightarrow> string \<Rightarrow> string \<Rightarrow> command" where
  "app_repair e rdir name w =
     (case cellar_workspace_repair (ce_env e) (ce_time e) (ce_garbage e) (Some rdir) (Some name) (cw_fs w) of
        None \<Rightarrow> None | Some r \<Rightarrow> with_status (''Repaired '' @ name) r w)"

definition app_support :: "cli_env \<Rightarrow> string \<Rightarrow> string list \<Rightarrow> command" where
  "app_support e rdir argv w =
     (let name = argv ! 3;
          out = (if length argv \<ge> 5 then argv ! 4 else snprintf_s 640 (rdir @ ''/'' @ name @ ''.support.txt'')) in
      case cellar_workspace_support (ce_env e) (ce_statvfs e) (ce_host e) (ce_devices e) (Some rdir) (Some name) (Some out)
             (cw_backends w) (cw_runtime w) (cw_fs w) of
        None \<Rightarrow> None
      | Some Fault \<Rightarrow> fault w
      | Some (Err _) \<Rightarrow> quit w
      | Some (Ok r) \<Rightarrow> with_status (''Wrote support bundle to '' @ out) r w)"

definition app_safety :: "string \<Rightarrow> string \<Rightarrow> command" where
  "app_safety rdir name w =
     (case cellar_workspace_safety_report (Some rdir) (Some name) 2048 (cw_fs w) of
        Ok s \<Rightarrow> say s w | Err _ \<Rightarrow> quit w | Fault \<Rightarrow> fault w)"

definition app_shader :: "cli_env \<Rightarrow> string \<Rightarrow> string list \<Rightarrow> command" where
  "app_shader e rdir argv w =
     (let name = argv ! 3 in
      if length argv \<ge> 5 \<and> argv ! 4 = ''clear'' then
        with_status (''Cleared shader cache for '' @ name)
          (cellar_workspace_shader_clear (unat (ce_pid e)) (Some rdir) (Some name) (cw_fs w)) w
      else (case cellar_workspace_shader_size (Some rdir) (Some name) (cw_fs w) of
              None \<Rightarrow> None | Some n \<Rightarrow> say (dec (unat n) @ '' bytes'' @ [NL]) w))"

definition app_run :: "cli_env \<Rightarrow> string \<Rightarrow> string \<Rightarrow> command" where
  "app_run e rdir name = with_workspace rdir name (not_found name) (\<lambda>ws w.
     case doctor e rdir name w of (r, w') \<Rightarrow>
       let head = unlines [''== launching '' @ name @ '' ==''] @ print_workspace ws @ unlines [[], ''Launch doctor:''] @
             cellar_doctor_report r in
       if \<not> dr_ready r then Some (Ok (w', \<lparr>out_stdout = head, out_stderr = [], out_exit = 1\<rparr>))
       else say (head @ unlines [[], ''Execution of Windows binaries is not yet implemented '' @
              ''(see docs/ROADMAP.md, Milestone 1); this is a launch dry-run.'']) w')"

section \<open>Commands on profiles\<close>

definition profile_point_lines :: "profile_point \<Rightarrow> string list" where
  "profile_point_lines p =
     [''Label:        '' @ pp_label p, ''Runner:       '' @ pp_runner p, ''Architecture: '' @ pp_architecture p,
      ''Windows:      '' @ vp_name (cellar_version_profile (pp_windows_version p)),
      ''Graphics:     '' @ pp_gfx_backend p, ''Audio:        '' @ pp_audio_backend p,
      ''Dependencies: '' @ pp_dependencies p, ''DLL overrides:'' @ pp_dll_overrides p,
      ''Resolution:   '' @ pp_resolution p, ''Launch:       '' @ pp_launch_executable p @ '' '' @ pp_launch_args p,
      ''Trust:        '' @ cellar_profile_trust_name (pp_trust p), ''Version:      '' @ dec (unat (pp_version p))]"

definition profile_list :: "string \<Rightarrow> string \<Rightarrow> command" where
  "profile_list rdir name w =
     (case cellar_workspace_profile_list (Some rdir) (Some name) 16 (cw_fs w) of
        Ok ls \<Rightarrow> say (unlines ((''Profiles for '' @ name @ '' ('' @ dec (length ls) @ ''):'') # map (\<lambda>l. ''  '' @ l) ls)) w
      | _ \<Rightarrow> fault w)"

definition with_profile :: "string \<Rightarrow> string \<Rightarrow> string \<Rightarrow> (profile_point \<Rightarrow> command) \<Rightarrow> command" where
  "with_profile rdir name label k w =
     (case cellar_workspace_profile_load (Some rdir) (Some name) (Some label) (cw_fs w) of
        Ok p \<Rightarrow> k p w | Err _ \<Rightarrow> quit w | Fault \<Rightarrow> fault w)"

definition profile_apply :: "cli_env \<Rightarrow> string \<Rightarrow> string \<Rightarrow> string \<Rightarrow> command" where
  "profile_apply e rdir name label = with_profile rdir name label (\<lambda>p w.
     with_status (''Applied '' @ label @ '' to '' @ name)
       (cellar_workspace_profile_apply (ce_env e) (Some rdir) (Some name) (Some p) (cw_fs w)) w)"

definition profile_export :: "string \<Rightarrow> string \<Rightarrow> string \<Rightarrow> command" where
  "profile_export rdir name dest w =
     (case cellar_workspace_profile_export (Some rdir) (Some name) (Some dest) (cw_fs w) of
        Fault \<Rightarrow> fault w | Err _ \<Rightarrow> quit w
      | Ok f \<Rightarrow> say (''Exported '' @ name @ '' profile to '' @ dest @ [NL]) (w\<lparr>cw_fs := f\<rparr>))"

definition profile_import :: "cli_env \<Rightarrow> string \<Rightarrow> string \<Rightarrow> string \<Rightarrow> command" where
  "profile_import e rdir name src w =
     (case cellar_workspace_profile_import (ce_env e) (Some rdir) (Some name) (Some src) (cw_fs w) of
        Fault \<Rightarrow> fault w | Err _ \<Rightarrow> quit w
      | Ok r \<Rightarrow> with_status (''Imported '' @ src @ '' into '' @ name) r w)"

definition profile_usage :: string where
  "profile_usage = ''cellar: usage: profile list|show|apply|export|import NAME [LABEL/PATH]''"

definition cmd_profile :: "cli_env \<Rightarrow> string list \<Rightarrow> command" where
  "cmd_profile e argv w =
     (let rdir = cellar_workspace_root (ce_env e); argc = length argv; sub_cmd = argv ! 2; name = argv ! 3 in
      if argc < 3 then complain ''cellar: profile needs list|show|apply|export|import'' w
      else if sub_cmd = ''list'' \<and> argc \<ge> 4 then profile_list rdir name w
      else if sub_cmd = ''show'' \<and> argc \<ge> 5 then
        with_profile rdir name (argv ! 4) (\<lambda>p. say (unlines (profile_point_lines p))) w
      else if sub_cmd = ''apply'' \<and> argc \<ge> 5 then profile_apply e rdir name (argv ! 4) w
      else if sub_cmd = ''export'' \<and> argc \<ge> 5 then profile_export rdir name (argv ! 4) w
      else if sub_cmd = ''import'' \<and> argc \<ge> 5 then profile_import e rdir name (argv ! 4) w
      else complain profile_usage w)"

section \<open>Dispatch on workspaces\<close>

definition app_usage :: string where
  "app_usage = ''cellar: app needs add|list|show|remove|set|permissions|perf|controls|resolution|doctor|snapshot|'' @
     ''rollback|diff|repair|support|diagnose|safety|shader|deps|run|profile''"

definition app_named :: "cli_env \<Rightarrow> string \<Rightarrow> string list \<Rightarrow> command" where
  "app_named e rdir argv =
     (let sub_cmd = argv ! 2; name = argv ! 3 in
      if sub_cmd = ''show'' then with_workspace rdir name (not_found name) (\<lambda>ws. say (print_workspace ws))
      else if sub_cmd = ''remove'' \<or> sub_cmd = ''rm'' then app_remove rdir name
      else if sub_cmd = ''set'' then app_set e rdir argv
      else if sub_cmd = ''permissions'' then app_permissions e rdir argv
      else if sub_cmd = ''perf'' then app_perf e rdir argv
      else if sub_cmd = ''controls'' then app_controls e rdir argv
      else if sub_cmd = ''resolution'' then app_resolution e rdir argv
      else if sub_cmd = ''doctor'' then app_doctor e rdir name
      else if sub_cmd = ''snapshot'' then app_snapshot rdir argv
      else if sub_cmd = ''rollback'' \<or> sub_cmd = ''restore'' then app_rollback rdir argv
      else if sub_cmd = ''diff'' then app_diff rdir argv
      else if sub_cmd = ''repair'' then app_repair e rdir name
      else if sub_cmd = ''support'' then app_support e rdir argv
      else if sub_cmd = ''safety'' then app_safety rdir name
      else if sub_cmd = ''shader'' then app_shader e rdir argv
      else if sub_cmd = ''deps'' then
        with_workspace rdir name quit (\<lambda>ws. say (or_text (ws_dependencies ws) ''(none)'' @ [NL]))
      else if sub_cmd = ''run'' then app_run e rdir name
      else if sub_cmd = ''profile'' then cmd_profile e argv
      else complain (''cellar: unknown app subcommand '' @ quoted sub_cmd))"

definition cmd_app :: "cli_env \<Rightarrow> string list \<Rightarrow> command" where
  "cmd_app e argv =
     (let rdir = cellar_workspace_root (ce_env e); argc = length argv; sub_cmd = argv ! 2 in
      if argc < 3 then complain app_usage
      else if sub_cmd = ''add'' \<or> sub_cmd = ''new'' then app_add e rdir argv
      else if sub_cmd = ''list'' then app_list rdir
      else if sub_cmd = ''diagnose'' then app_diagnose argv
      else if argc < 4 then complain (''cellar: app '' @ sub_cmd @ '' needs a workspace name'')
      else app_named e rdir argv)"

text \<open>The new vector has 32 places, of which the arguments fill at most 27.\<close>

definition cmd_container :: "cli_env \<Rightarrow> string list \<Rightarrow> command" where
  "cmd_container e argv =
     (if length argv < 3 then complain ''cellar: container needs create|list|show|remove''
      else cmd_app e ([''app'', ''container'', if argv ! 2 = ''create'' then ''add'' else argv ! 2] @ take 27 (drop 3 argv)))"

definition cmd_device :: "cli_env \<Rightarrow> string list \<Rightarrow> command" where
  "cmd_device e argv w =
     (if length argv > 2 \<and> argv ! 2 \<noteq> ''report'' then complain ''cellar: device subcommands: report'' w
      else (case cellar_device_report (ce_host e) (ce_devices e) 4096 (cw_backends w) of
              (text, st, b) \<Rightarrow>
                let w' = w\<lparr>cw_backends := b\<rparr> in if st \<noteq> CELLAR_OK then quit w' else say text w'))"

text \<open>The test laboratory starts from the process state; \<open>percent\<close> is the floating-point
  percentage as \<^verbatim>\<open>printf\<close> shows it.\<close>

definition cmd_test :: "lab_env \<Rightarrow> (lab_report \<Rightarrow> string) \<Rightarrow> command" where
  "cmd_test le percent w =
     (case cellar_lab_run le ((lab_start (cw_fs w))\<lparr>lw_reg := le_registry (cw_load w)\<rparr>) of
        Ok (r, lw) \<Rightarrow> Some (Ok (w\<lparr>cw_fs := lw_fs lw\<rparr>,
            \<lparr>out_stdout = cellar_lab_print (percent r) r, out_stderr = [],
             out_exit = (if lr_failed r \<noteq> 0 then 1 else 0)\<rparr>))
      | _ \<Rightarrow> fault w)"

definition dump_registry :: "registry \<Rightarrow> string" where
  "dump_registry r =
     unlines ((''Registered Win32 modules ('' @ dec (length (g_modules r)) @ ''):'') #
       concat (map (\<lambda>m. (''  '' @ pad_to 16 (mod_name m) @ '' '' @ dec (length (mod_exports m)) @ '' exports'') #
                        map (\<lambda>x. ''    '' @ ex_name x) (mod_exports m)) (g_modules r)))"

section \<open>Usage and main\<close>

definition CELLAR_VERSION_STRING :: string where "CELLAR_VERSION_STRING = ''0.2.0''"

definition usage_lines :: "string list" where
  "usage_lines =
     [''cellar '' @ CELLAR_VERSION_STRING @ '' '' @ em_dash @ '' a Windows compatibility layer for Linux & Android'',
      [],
      ''usage:'',
      ''  cellar inspect game.exe       PE inspector (arch, DLLs, TLS, runtimes)'',
      ''  cellar analyze game.exe       application compatibility analysis'',
      ''  cellar db list|show APP       compatibility database'',
      ''  cellar prefix create|list|info|delete|clone|import|export'',
      ''        |set|settings|backup|restore|launch'',
      ''  cellar runtime list|install|uninstall KIND'',
      ''  cellar app add NAME [SRC] [--kind exe|msi|import|portable]'',
      ''  cellar app list|show|remove|set|run|doctor|repair NAME ...'',
      ''  cellar app snapshot|rollback|diff|support|safety|shader NAME ...'',
      ''  cellar profile list|show|apply|export|import NAME [LABEL|PATH]'',
      ''  cellar container create|list|show|remove NAME ...'',
      ''  cellar device report           host device / capability report'',
      ''  cellar test                   run the compatibility test lab'',
      ''  cellar debug game.exe         debugger snapshot of a loaded PE'',
      ''  cellar --list-modules         list registered Win32 modules'',
      ''  cellar --perf                 show perf counters / tracing / options'',
      ''  cellar --platform             show OS + perf-hint info'',
      ''  cellar --audio [out.wav]      render a tone through the audio backend'',
      ''  cellar --trace=api,dll prog   enable dynamic tracing categories'',
      ''  cellar --papi=1 program.exe   enable page population for the load'',
      ''  cellar program.exe [args...]  load and inspect a Windows executable'',
      [],
      ''Execution of loaded binaries is not yet implemented; this build parses'',
      ''and reports the PE structure, exercises audio, and collects perf data.'',
      [],
      ''Options:'',
      ''  --papi=0|1        populate pages in new mappings (faster steady-state)'',
      ''  --trace=list      tracing categories: graphics,filesystem,threading,'',
      ''                    dll,api,audio,timer,compat,all (also via $CELLAR_TRACE)'',
      ''  CELLAR_WAV_OUT=path  set the audio WAV sink output file'',
      ''  CELLAR_PREFIX=dir    set the compatibility-prefix directory'']"

definition usage :: string where
  "usage = unlines usage_lines"

text \<open>Options up to the first argument that is none; the rest are the programs.\<close>

fun parse_options :: "string list \<Rightarrow> bool \<Rightarrow> cli_world \<Rightarrow> string list \<times> bool \<times> cli_world" where
  "parse_options [] perf w = ([], perf, w)"
| "parse_options (a # r) perf w =
     (if a = ''--perf'' then parse_options r True w
      else if has_prefix a ''--papi='' then
        let opt = (le_options (cw_load w))\<lparr>po_papi := (if scan_int (drop 7 a) \<noteq> 0 then 1 else 0)\<rparr>
        in parse_options r perf (w\<lparr>cw_load := (cw_load w)\<lparr>le_options := snd (cellar_perf_set_options (Some opt) (le_options (cw_load w)))\<rparr>\<rparr>)
      else if has_prefix a ''--trace='' then
        parse_options r perf (w\<lparr>cw_trace := cellar_trace_enable (cellar_trace_parse (Some (drop 8 a))) (cw_trace w)\<rparr>)
      else (a # r, perf, w))"

text \<open>The programs are reported in turn until one fails.\<close>

fun run_programs :: "string list \<Rightarrow> bool \<Rightarrow> command" where
  "run_programs [] perf w = say (if perf then dump_perf w else []) w"
| "run_programs (p # ps) perf w =
     (case dump_image p w of
        None \<Rightarrow> None
      | Some Fault \<Rightarrow> Some Fault
      | Some (Err st) \<Rightarrow> Some (Err st)
      | Some (Ok (w', out)) \<Rightarrow>
          if out_exit out \<noteq> 0 then Some (Ok (w', out)) else after (out_stdout out) (run_programs ps perf w'))"

definition run_options :: "string list \<Rightarrow> command" where
  "run_options args w =
     (case parse_options args False w of (programs, perf, w') \<Rightarrow>
        if programs = [] then
          (if perf then say (dump_perf w') w'
           else Some (Ok (w', \<lparr>out_stdout = [], out_stderr = usage, out_exit = 1\<rparr>)))
        else run_programs programs perf w')"

definition cli_init :: "cli_env \<Rightarrow> cli_world \<Rightarrow> cli_world" where
  "cli_init e w =
     w\<lparr>cw_load := (cw_load w)\<lparr>le_registry := cellar_win32_init (ce_alloc e) (le_registry (cw_load w))\<rparr>,
       cw_trace := cellar_trace_init_from_env (ce_env e ''CELLAR_TRACE'') (cw_trace w),
       cw_backends := seed_defaults (cw_backends w)\<rparr>"

definition dispatch :: "cli_env \<Rightarrow> lab_env \<Rightarrow> (lab_report \<Rightarrow> string) \<Rightarrow> string list \<Rightarrow> command" where
  "dispatch e le percent argv =
     (let argc = length argv; cmd = argv ! 1 in
      if cmd = ''--help'' \<or> cmd = ''-h'' then say usage
      else if cmd = ''inspect'' then
        (if argc < 3 then complain ''cellar: inspect needs a path to a .exe'' else cmd_inspect e (argv ! 2))
      else if cmd = ''analyze'' then
        (if argc < 3 then complain ''cellar: analyze needs a path to a .exe'' else cmd_analyze e (argv ! 2))
      else if cmd = ''db'' then cmd_db e argv
      else if cmd = ''prefix'' then cmd_prefix e argv
      else if cmd = ''runtime'' then cmd_runtime e argv
      else if cmd = ''app'' then cmd_app e argv
      else if cmd = ''profile'' then cmd_profile e argv
      else if cmd = ''container'' then cmd_container e argv
      else if cmd = ''device'' then cmd_device e argv
      else if cmd = ''test'' then cmd_test le percent
      else if cmd = ''debug'' then
        (if argc < 3 then complain ''cellar: debug needs a path to a .exe'' else cmd_debug e (argv ! 2))
      else if cmd = ''--list-modules'' then (\<lambda>w. say (dump_registry (le_registry (cw_load w))) w)
      else if cmd = ''--platform'' then dump_platform e
      else if cmd = ''--audio'' then dump_audio_sink e (if argc > 2 then argv ! 2 else ''cellar-out.wav'')
      else run_options (tl argv))"

definition main :: "cli_env \<Rightarrow> lab_env \<Rightarrow> (lab_report \<Rightarrow> string) \<Rightarrow> string list \<Rightarrow> command" where
  "main e le percent argv w =
     (let w1 = cli_init e w in
      if length argv < 2 then Some (Ok (w1, \<lparr>out_stdout = [], out_stderr = usage, out_exit = 1\<rparr>))
      else dispatch e le percent argv w1)"

section \<open>Facts: commands that leave the file system alone\<close>

definition keeps_fs :: "command \<Rightarrow> bool" where
  "keeps_fs c \<longleftrightarrow> (\<forall>w w' out. c w = Some (Ok (w', out)) \<longrightarrow> cw_fs w' = cw_fs w)"

lemma keeps_fsI: "(\<And>w w' out. c w = Some (Ok (w', out)) \<Longrightarrow> cw_fs w' = cw_fs w) \<Longrightarrow> keeps_fs c"
  by (auto simp: keeps_fs_def)

lemma keeps_fsD: "keeps_fs c \<Longrightarrow> c w = Some (Ok (w', out)) \<Longrightarrow> cw_fs w' = cw_fs w"
  by (auto simp: keeps_fs_def)

named_theorems keeps \<open>commands that leave the file system alone\<close>

lemmas endings = say_def complain_def quit_def fault_def

lemma keeps_basic [keeps]:
  "keeps_fs (say s)" "keeps_fs (complain s)" "keeps_fs quit" "keeps_fs fault" "keeps_fs (\<lambda>w. None)"
  by (auto intro!: keeps_fsI simp: endings)

lemma keeps_if [keeps]: "keeps_fs a \<Longrightarrow> keeps_fs b \<Longrightarrow> keeps_fs (if c then a else b)"
  by simp

lemma keeps_image: "(\<And>img. keeps_fs (k img)) \<Longrightarrow> keeps_fs (with_image path flags k)"
  by (rule keeps_fsI) (force simp: with_image_def endings dest: keeps_fsD split: option.splits cres.splits prod.splits)

lemma keeps_workspace: "keeps_fs missing \<Longrightarrow> (\<And>ws. keeps_fs (k ws)) \<Longrightarrow> keeps_fs (with_workspace rdir name missing k)"
  by (rule keeps_fsI) (auto simp: with_workspace_def endings dest: keeps_fsD split: cres.splits)

lemma keeps_profile: "(\<And>p. keeps_fs (k p)) \<Longrightarrow> keeps_fs (with_profile rdir name label k)"
  by (rule keeps_fsI) (auto simp: with_profile_def endings dest: keeps_fsD split: cres.splits)

lemma keeps_prefix [keeps]: "keeps_fs (prefix_list r)" "keeps_fs (prefix_settings r n)" "keeps_fs (prefix_show r n)"
  by (rule keeps_fsI; auto simp: prefix_list_def prefix_settings_def prefix_show_def endings split: cres.splits if_splits)+

lemma keeps_db [keeps]: "keeps_fs (cmd_db e argv)"
  by (rule keeps_fsI) (auto simp: cmd_db_def Let_def endings split: cres.splits if_splits option.splits)

lemma keeps_images [keeps]: "keeps_fs (dump_image path)" "keeps_fs (cmd_debug e path)"
  unfolding dump_image_def cmd_debug_def
  by (rule keeps_image, rule keeps_fsI,
      auto simp: cbind_Ok_iff endings Let_def split: cres.splits)+

lemma keeps_device [keeps]: "keeps_fs (cmd_device e argv)" "keeps_fs (dump_platform e)"
  by (rule keeps_fsI; auto simp: cmd_device_def dump_platform_def Let_def endings split: prod.splits if_splits)+

lemma doctor_fs: "doctor e rdir name w = (r, w') \<Longrightarrow> cw_fs w' = cw_fs w"
  by (auto simp: doctor_def split: prod.splits)

lemma keeps_app [keeps]:
  "keeps_fs (app_list r)" "keeps_fs (app_diagnose argv)" "keeps_fs (app_doctor e r n)" "keeps_fs (app_diff r argv)"
  "keeps_fs (app_safety r n)" "keeps_fs (app_run e r n)"
proof -
  show "keeps_fs (app_list r)" "keeps_fs (app_diagnose argv)" "keeps_fs (app_diff r argv)" "keeps_fs (app_safety r n)"
    by (rule keeps_fsI; auto simp: app_list_def app_diagnose_def app_diff_def app_safety_def Let_def endings
        split: cres.splits if_splits prod.splits)+
  show "keeps_fs (app_doctor e r n)"
    by (rule keeps_fsI) (auto simp: app_doctor_def dest: doctor_fs split: prod.splits)
  show "keeps_fs (app_run e r n)"
    unfolding app_run_def not_found_def
    by (rule keeps_workspace, rule keeps_basic, rule keeps_fsI)
      (auto simp: endings Let_def dest: doctor_fs split: prod.splits if_splits)
qed

lemma keeps_programs [keeps]: "keeps_fs (run_programs ps perf)"
proof (induction ps)
  case (Cons p ps)
  show ?case
  proof (rule keeps_fsI)
    fix w w' out assume r: "run_programs (p # ps) perf w = Some (Ok (w', out))"
    then obtain w1 o1 where d: "dump_image p w = Some (Ok (w1, o1))" by (auto split: option.splits cres.splits)
    have f: "cw_fs w1 = cw_fs w" using keeps_fsD [OF keeps_images(1) d] .
    show "cw_fs w' = cw_fs w"
    proof (cases "out_exit o1 = 0")
      case True
      then obtain o2 where "run_programs ps perf w1 = Some (Ok (w', o2))"
        using r d by (auto simp: after_def cbind_Ok_iff)
      then show ?thesis using keeps_fsD [OF Cons] f by simp
    qed (use r d f in auto)
  qed
qed (auto intro!: keeps_fsI simp: endings)

lemma parse_options_fs: "parse_options args perf w = (ps, q, w') \<Longrightarrow> cw_fs w' = cw_fs w"
  by (induction args perf w rule: parse_options.induct) (auto simp: Let_def split: if_splits)

lemma keeps_options [keeps]: "keeps_fs (run_options args)"
proof (rule keeps_fsI)
  fix w w' out assume r: "run_options args w = Some (Ok (w', out))"
  obtain ps q w1 where p: "parse_options args False w = (ps, q, w1)" by (cases "parse_options args False w")
  show "cw_fs w' = cw_fs w"
  proof (cases "ps = []")
    case True
    then have "w' = w1" using r p by (simp add: run_options_def say_def split: if_split_asm)
    then show ?thesis using parse_options_fs [OF p] by simp
  next
    case False
    then have "run_programs ps q w1 = Some (Ok (w', out))" using r p by (simp add: run_options_def)
    then show ?thesis using keeps_fsD [OF keeps_programs] parse_options_fs [OF p] by simp
  qed
qed

lemma keeps_profile_list [keeps]: "keeps_fs (profile_list r n)"
  by (rule keeps_fsI) (auto simp: profile_list_def endings split: cres.splits)

definition app_reads :: "string list \<Rightarrow> bool" where
  "app_reads argv \<longleftrightarrow> length argv < 3 \<or>
     argv ! 2 \<in> {''list'', ''show'', ''diagnose'', ''doctor'', ''diff'', ''safety'', ''deps'', ''run''} \<or>
     length argv = 4 \<and> argv ! 2 \<in> {''permissions'', ''perf'', ''controls'', ''shader''}"

text \<open>The command lines that only look: help, listings, reports, load and debug of an executable, the
  queries of prefixes, profiles, workspaces and containers, and a launch.\<close>

definition read_only :: "string list \<Rightarrow> bool" where
  "read_only argv \<longleftrightarrow>
     (let cmd = argv ! 1; argc = length argv in
      argc < 2 \<or>
      cmd \<notin> {''inspect'', ''analyze'', ''prefix'', ''runtime'', ''app'', ''profile'', ''container'', ''test'', ''--audio''} \<or>
      cmd = ''prefix'' \<and> (argc < 4 \<or> argv ! 2 \<in> {''list'', ''settings'', ''info''}) \<or>
      cmd \<in> {''app'', ''container''} \<and> app_reads argv \<or>
      cmd = ''profile'' \<and> (argc < 3 \<or> argv ! 2 \<in> {''list'', ''show''}))"

lemma keeps_shown [keeps]:
  "keeps_fs (with_workspace r n (not_found m) (\<lambda>ws. say (t ws)))" "keeps_fs (with_workspace r n quit (\<lambda>ws. say (t ws)))"
  "keeps_fs (with_profile r n l (\<lambda>p. say (u p)))"
  by (intro keeps_workspace keeps_profile keeps_basic; simp add: not_found_def keeps_basic)+

lemma keeps_queries [keeps]:
  assumes "length argv \<le> 4"
  shows "keeps_fs (app_permissions e r argv)" "keeps_fs (app_perf e r argv)"
    "keeps_fs (app_controls e r argv)" "keeps_fs (app_shader e r argv)"
proof -
  have n: "\<not> 5 \<le> length argv" using assms by simp
  show "keeps_fs (app_permissions e r argv)" unfolding app_permissions_def Let_def if_not_P [OF n] by (rule keeps_shown)
  show "keeps_fs (app_perf e r argv)" unfolding app_perf_def Let_def if_not_P [OF n] by (rule keeps_shown)
  show "keeps_fs (app_controls e r argv)" unfolding app_controls_def Let_def if_not_P [OF n] by (rule keeps_shown)
  show "keeps_fs (app_shader e r argv)"
    using n by (auto intro!: keeps_fsI simp: app_shader_def endings split: option.splits)
qed

lemma keeps_cmd_app:
  assumes "app_reads argv"
  shows "keeps_fs (cmd_app e argv)"
proof (cases "length argv < 3")
  case True
  then show ?thesis by (simp add: cmd_app_def keeps)
next
  case False
  then consider "argv ! 2 \<in> {''list'', ''show'', ''diagnose'', ''doctor'', ''diff'', ''safety'', ''deps'', ''run''}"
    | "length argv = 4" "argv ! 2 \<in> {''permissions'', ''perf'', ''controls'', ''shader''}"
    using assms by (auto simp: app_reads_def)
  then show ?thesis
  proof cases
    case 1
    then show ?thesis using False by (elim insertE emptyE; simp add: cmd_app_def app_named_def Let_def keeps)
  next
    case 2
    then show ?thesis by (elim insertE emptyE; simp add: cmd_app_def app_named_def Let_def keeps)
  qed
qed

lemma keeps_cmd_container:
  assumes "app_reads argv" "length argv \<ge> 3"
  shows "keeps_fs (cmd_container e argv)"
proof -
  let ?v = "[''app'', ''container'', if argv ! 2 = ''create'' then ''add'' else argv ! 2] @ take 27 (drop 3 argv)"
  have "app_reads ?v" using assms by (auto simp: app_reads_def)
  from keeps_cmd_app [OF this] show ?thesis using assms(2) by (simp add: cmd_container_def)
qed

lemma keeps_cmd_prefix:
  "length argv < 4 \<or> argv ! 2 \<in> {''list'', ''settings'', ''info''} \<Longrightarrow> keeps_fs (cmd_prefix e argv)"
  unfolding cmd_prefix_def Let_def
  by (rule keeps_fsI) (auto dest: keeps_fsD [OF keeps_basic(2)] keeps_fsD [OF keeps_prefix(1)]
      keeps_fsD [OF keeps_prefix(2)] keeps_fsD [OF keeps_prefix(3)] split: if_splits)

lemma keeps_cmd_profile:
  "length argv < 3 \<or> argv ! 2 \<in> {''list'', ''show''} \<Longrightarrow> keeps_fs (cmd_profile e argv)"
  unfolding cmd_profile_def Let_def
  by (rule keeps_fsI) (auto dest: keeps_fsD [OF keeps_basic(2)] keeps_fsD [OF keeps_profile_list]
      keeps_fsD [OF keeps_shown(3)] split: if_splits)

lemma keeps_dispatch:
  assumes "read_only argv" "length argv \<ge> 2"
  shows "keeps_fs (dispatch e le percent argv)"
proof -
  let ?cmd = "argv ! 1"
  consider "?cmd \<notin> {''inspect'', ''analyze'', ''prefix'', ''runtime'', ''app'', ''profile'', ''container'', ''test'', ''--audio''}"
    | "?cmd = ''prefix''" "length argv < 4 \<or> argv ! 2 \<in> {''list'', ''settings'', ''info''}"
    | "?cmd = ''app''" "app_reads argv" | "?cmd = ''container''" "app_reads argv"
    | "?cmd = ''profile''" "length argv < 3 \<or> argv ! 2 \<in> {''list'', ''show''}"
    using assms by (auto simp: read_only_def Let_def)
  then show ?thesis
  proof cases
    case 1
    have "keeps_fs (\<lambda>w. say (dump_registry (le_registry (cw_load w))) w)" by (rule keeps_fsI) (simp add: say_def)
    then show ?thesis using 1 by (simp add: dispatch_def Let_def keeps)
  next
    case 2
    then show ?thesis using keeps_cmd_prefix by (simp add: dispatch_def)
  next
    case 3
    then show ?thesis using keeps_cmd_app by (simp add: dispatch_def)
  next
    case 4
    then show ?thesis
      using keeps_cmd_container [OF 4(2)] by (cases "length argv \<ge> 3") (simp_all add: dispatch_def cmd_container_def keeps)
  next
    case 5
    then show ?thesis using keeps_cmd_profile by (simp add: dispatch_def)
  qed
qed

lemma cli_init_fs [simp]: "cw_fs (cli_init e w) = cw_fs w"
  by (simp add: cli_init_def)

section \<open>Facts: launching\<close>

lemma load_no_fault: "cellar_workspace_load r n f \<noteq> Fault"
  by (simp add: cellar_workspace_load_def Let_def split: option.splits)

definition launchable :: "string \<Rightarrow> string \<Rightarrow> fs \<Rightarrow> bool" where
  "launchable rdir name f \<longleftrightarrow>
     (\<exists>ws. cellar_workspace_load (Some rdir) (Some name) f = Ok ws \<and> ws_executable ws \<noteq> [] \<and> is_file f (ws_executable ws))"

lemma doctor_verdict: "doctor e rdir name w = (r, w') \<Longrightarrow> dr_ready r \<longleftrightarrow> launchable rdir name (cw_fs w)"
  using doctor_ready [of "ce_statvfs e" "Some rdir" "Some name" "cw_backends w" "cw_runtime w" "cw_fs w"]
  by (auto simp: doctor_def launchable_def split: prod.splits)

lemma app_doctor_exit:
  "\<exists>w' out. app_doctor e rdir name w = Some (Ok (w', out)) \<and> (out_exit out = 0 \<longleftrightarrow> launchable rdir name (cw_fs w))"
  using doctor_verdict [of e rdir name w] by (cases "doctor e rdir name w") (simp add: app_doctor_def)

lemma app_run_exit:
  "\<exists>w' out. app_run e rdir name w = Some (Ok (w', out)) \<and> (out_exit out = 0 \<longleftrightarrow> launchable rdir name (cw_fs w))"
proof (cases "cellar_workspace_load (Some rdir) (Some name) (cw_fs w)")
  case (Ok ws)
  then show ?thesis
    using doctor_verdict [of e rdir name w]
    by (cases "doctor e rdir name w") (simp add: app_run_def with_workspace_def Let_def say_def)
next
  case (Err st)
  then show ?thesis by (simp add: app_run_def with_workspace_def not_found_def complain_def launchable_def)
qed (simp add: load_no_fault)

lemma main_launch:
  "main e le percent [prog, ''app'', ''run'', name] w = app_run e (cellar_workspace_root (ce_env e)) name (cli_init e w)"
  "main e le percent [prog, ''app'', ''doctor'', name] w = app_doctor e (cellar_workspace_root (ce_env e)) name (cli_init e w)"
  by (simp_all add: main_def dispatch_def cmd_app_def app_named_def)

section \<open>Two defects\<close>

text \<open>\<^verbatim>\<open>app profile\<close> hands its own vector to the profile command, which then looks for its
  subcommand where \<^verbatim>\<open>profile\<close> stands: it never does anything.\<close>

theorem app_profile_never_works:
  "cmd_app e (p # q # ''profile'' # name # r) = complain profile_usage"
  by (simp add: cmd_app_def app_named_def cmd_profile_def Let_def fun_eq_iff)

text \<open>Asking for a prefix whose name is refused reads an uninitialised structure.\<close>

theorem prefix_info_uninitialised:
  "\<not> valid_name (Some name) \<Longrightarrow> cmd_prefix e [p, q, ''info'', name] w = Some Fault"
  by (simp add: cmd_prefix_def prefix_show_def cellar_prefix_info_def fault_def Let_def)

section \<open>Properties\<close>

text \<open>C28. A command line that only looks leaves every file and directory as it was, whatever the
  state of the stores it reads: help, listings, queries of prefixes, profiles, workspaces and containers, the load
  and debug reports of executables, the doctor, and a launch.\<close>

theorem read_only_commands:
  assumes "read_only argv" "main e le percent argv w = Some (Ok (w', out))"
  shows "cw_fs w' = cw_fs w"
proof (cases "length argv < 2")
  case True
  then show ?thesis using assms(2) by (auto simp: main_def)
next
  case False
  then have "dispatch e le percent argv (cli_init e w) = Some (Ok (w', out))" using assms(2) by (simp add: main_def)
  then show ?thesis using keeps_fsD [OF keeps_dispatch [OF assms(1)]] False by simp
qed

text \<open>C29. Launching a workspace or asking the doctor about it always ends, and the exit code of the
  process is 0 exactly if the workspace is there and its executable is set and is a file.\<close>

theorem launch_exit_code:
  assumes "sub_cmd = ''run'' \<or> sub_cmd = ''doctor''"
  shows "\<exists>w' out. main e le percent [prog, ''app'', sub_cmd, name] w = Some (Ok (w', out)) \<and>
    (out_exit out = 0 \<longleftrightarrow> launchable (cellar_workspace_root (ce_env e)) name (cw_fs w))"
  using assms app_run_exit [of e "cellar_workspace_root (ce_env e)" name "cli_init e w", unfolded cli_init_fs]
    app_doctor_exit [of e "cellar_workspace_root (ce_env e)" name "cli_init e w", unfolded cli_init_fs]
  by (elim disjE) (simp_all only: main_launch)

definition launch_conf :: string where
  "launch_conf = ''name=g'' @ [NL] @ ''executable=/r/g/a.exe'' @ [NL]"

definition launch_world :: cli_world where
  "launch_world =
     \<lparr>cw_fs = empty_fs\<lparr>fs_nodes := [([''r''], Dir), ([''r'', ''g''], Dir), ([''r'', ''g'', ''app.conf''], File launch_conf),
        ([''r'', ''g'', ''a.exe''], File ''MZ'')]\<rparr>,
      cw_shell = shell_start, cw_backends = backends_start, cw_runtime = None, cw_load = free_env,
      cw_perf = perf_counters_zero, cw_ring = perf_ring_init, cw_trace = 0\<rparr>"

definition launch_env :: cli_env where
  "launch_env =
     \<lparr>ce_env = demo_env(''WINALTOR_ROOT'' := Some ''/r''), ce_alloc = (\<lambda>_. True), ce_flushed = length, ce_pid = 7, ce_tid = 7,
      ce_statvfs = (\<lambda>_. None), ce_host = \<lparr>hi_uname = None, hi_pages = 0, hi_pagesize = 0\<rparr>,
      ce_devices = cellar_device_reset, ce_time = None, ce_garbage = info_zero, ce_clock = 0, ce_tone = (\<lambda>_. True),
      ce_priority_granted = False\<rparr>"

definition launch_lab :: lab_env where
  "launch_lab = \<lparr>le_object1 = None, le_object2 = None, le_printed = [], le_run = (\<lambda>_ t. t)\<rparr>"

theorem read_only_commands_witness:
  "\<exists>w' out. main launch_env launch_lab (\<lambda>_. []) [''cellar'', ''app'', ''list''] launch_world = Some (Ok (w', out)) \<and>
     cw_fs w' = cw_fs launch_world"
proof -
  have r: "read_only [''cellar'', ''app'', ''list'']" by code_simp
  have "\<exists>w' out. main launch_env launch_lab (\<lambda>_. []) [''cellar'', ''app'', ''list''] launch_world = Some (Ok (w', out))"
    by (simp add: main_def dispatch_def cmd_app_def app_list_def say_def Let_def)
  then show ?thesis using read_only_commands [OF r] by blast
qed

theorem launch_exit_code_witness:
  "\<exists>w' out. main launch_env launch_lab (\<lambda>_. []) [''cellar'', ''app'', ''run'', ''g''] launch_world = Some (Ok (w', out)) \<and>
     out_exit out = 0"
proof -
  let ?f = "cw_fs launch_world"
  have d1: "cellar_workspace_root (ce_env launch_env) = ''/r''"
    by (simp add: cellar_workspace_root_def launch_env_def snprintf_s_def)
  have d2: "ws_conf_path (ws_dir 640 (Some ''/r'') (Some ''g'')) = ''/r/g/app.conf''" "valid_name (Some ''g'')" by code_simp+
  have d3: "is_file ?f ''/r/g/a.exe''" by code_simp
  have d4: "fs_read ?f ''/r/g/app.conf'' = Some launch_conf" by code_simp
  have d5: "find_field launch_conf ''executable'' 512 = Some ''/r/g/a.exe''" by code_simp
  have d6: "cstr (take 16383 launch_conf) = launch_conf" by (simp add: launch_conf_def cstr_def NL_def)
  note d = d1 d2 d3 d4 d5 d6
  have "launchable ''/r'' ''g'' ?f"
    unfolding launchable_def load_Ok_iff using d by (simp add: workspace_of_text_def)
  then have l: "launchable (cellar_workspace_root (ce_env launch_env)) ''g'' ?f" by (simp only: d(1))
  have "''run'' = ''run'' \<or> ''run'' = ''doctor''" by simp
  from launch_exit_code [OF this, of launch_env launch_lab "\<lambda>_. []" "''cellar''" "''g''" launch_world] l
  show ?thesis by blast
qed

end
