(* ===== verification/Tools.thy ===== *)
theory Tools
  imports Loader Text
begin

unbundle bit_operations_syntax

text \<open>
  The two developer tools: \<^verbatim>\<open>tools/gen_sample_pe.c\<close>, which writes a small executable that
  imports from five modules and exports two symbols, and \<^verbatim>\<open>tools/fuzz_loader.c\<close>, which loads
  random mutations of a seed file.
\<close>

section \<open>The sample generator (tools/gen\_sample\_pe.c)\<close>

definition SEC_VA :: nat where "SEC_VA = 0x1000"
definition RAW_OFF :: nat where "RAW_OFF = 0x200"
definition RAW_SIZE :: nat where "RAW_SIZE = 0x1000"

definition FO :: "nat \<Rightarrow> nat" where
  "FO rva = RAW_OFF + (rva - SEC_VA)"

definition p16 :: "nat \<Rightarrow> u32 \<Rightarrow> bytes \<Rightarrow> bytes" where
  "p16 off v b = b[off := ucast v, off + 1 := ucast (drop_bit 8 v)]"

definition p32 :: "nat \<Rightarrow> u64 \<Rightarrow> bytes \<Rightarrow> bytes" where
  "p32 off v b = fold (\<lambda>i b. b[off + i := ucast (drop_bit (8 * i) v)]) [0..<4] b"

definition name_at :: "nat \<Rightarrow> string \<Rightarrow> bytes \<Rightarrow> bytes" where
  "name_at rva s b = mem_write (FO rva) (map char_byte s @ [0]) b"

definition hintname :: "nat \<Rightarrow> string \<Rightarrow> bytes \<Rightarrow> bytes" where
  "hintname rva s b = mem_write (FO rva + 2) (map char_byte s @ [0]) (p16 (FO rva) 0 b)"

definition opt_size :: nat where "opt_size = 224"
definition section_off :: nat where "section_off = 0x58 + opt_size"

definition sample_headers :: "(bytes \<Rightarrow> bytes) list" where
  "sample_headers =
     [p16 0x00 0x5A4D, p32 0x3C 0x40,
      p32 0x40 0x00004550, p16 0x44 0x014C, p16 0x46 1, p16 0x54 (of_nat opt_size), p16 0x56 0x0002,
      p16 0x58 0x010B, p32 0x68 (of_nat SEC_VA), p32 0x74 0x00400000, p32 0x7C 0x1000, p32 0x80 0x200,
      p16 0x8C 6, p32 0x94 0x4000, p32 0x98 0x200, p16 0xA0 3, p32 0xC8 16,
      p32 (0xCC + 0 + 0) 0x1200, p32 (0xCC + 0 + 4) 0x80, p32 (0xCC + 8 + 0) 0x1000, p32 (0xCC + 8 + 4) 0x80,
      mem_write section_off (map char_byte ''.text'' @ [0]),
      p32 (section_off + 8) 0x1000, p32 (section_off + 12) (of_nat SEC_VA), p32 (section_off + 16) (of_nat RAW_SIZE),
      p32 (section_off + 20) (of_nat RAW_OFF), p32 (section_off + 36) 0x60000020]"

definition sample_imports :: "(bytes \<Rightarrow> bytes) list" where
  "sample_imports =
     [p32 (FO 0x1000) 0, p32 (FO 0x1004) 0, p32 (FO 0x1008) 0, p32 (FO 0x100C) 0x1080, p32 (FO 0x1010) 0x10D0,
      p32 (FO 0x1014) 0, p32 (FO 0x1018) 0, p32 (FO 0x101C) 0, p32 (FO 0x1020) 0x1090, p32 (FO 0x1024) 0x10E0,
      p32 (FO 0x1028) 0, p32 (FO 0x102C) 0, p32 (FO 0x1030) 0, p32 (FO 0x1034) 0x10A0, p32 (FO 0x1038) 0x10F0,
      p32 (FO 0x103C) 0, p32 (FO 0x1040) 0, p32 (FO 0x1044) 0, p32 (FO 0x1048) 0x10B0, p32 (FO 0x104C) 0x1100,
      p32 (FO 0x1050) 0, p32 (FO 0x1054) 0, p32 (FO 0x1058) 0, p32 (FO 0x105C) 0x10C0, p32 (FO 0x1060) 0x1110,
      name_at 0x1080 ''KERNEL32.dll'', name_at 0x1090 ''d3d11.dll'', name_at 0x10A0 ''XINPUT1_3.dll'',
      name_at 0x10B0 ''winmm.dll'', name_at 0x10C0 ''ws2_32.dll'',
      p32 (FO 0x10D0) 0x1120, p32 (FO 0x10D4) 0x1140, p32 (FO 0x10D8) 0, p32 (FO 0x10E0) 0x1160, p32 (FO 0x10E4) 0,
      p32 (FO 0x10F0) 0x1180, p32 (FO 0x10F4) 0, p32 (FO 0x1100) 0x11A0, p32 (FO 0x1104) 0,
      p32 (FO 0x1110) 0x11C0, p32 (FO 0x1114) 0,
      hintname 0x1120 ''ExitProcess'', hintname 0x1140 ''GetStdHandle'', hintname 0x1160 ''D3D11CreateDevice'',
      hintname 0x1180 ''XInputGetState'', hintname 0x11A0 ''waveOutOpen'', hintname 0x11C0 ''WSAStartup'']"

definition sample_exports :: "(bytes \<Rightarrow> bytes) list" where
  "sample_exports =
     [p32 (FO 0x1200) 0, p32 (FO 0x1204) 0, p16 (FO 0x1208) 0, p16 (FO 0x120A) 0, p32 (FO 0x120C) 0x1280,
      p32 (FO 0x1210) 1, p32 (FO 0x1214) 2, p32 (FO 0x1218) 2, p32 (FO 0x121C) 0x1290, p32 (FO 0x1220) 0x12A0,
      p32 (FO 0x1224) 0x12B0, name_at 0x1280 ''mytest.dll'', p32 (FO 0x1290) 0x1000, p32 (FO 0x1294) 0x1000,
      p32 (FO 0x12A0) 0x12C0, p32 (FO 0x12A4) 0x12C6, p16 (FO 0x12B0) 0, p16 (FO 0x12B2) 1,
      name_at 0x12C0 ''FnOne'', name_at 0x12C6 ''FnTwo'']"

definition sample_pe :: bytes where
  "sample_pe = fold id (sample_headers @ sample_imports @ sample_exports) (replicate (RAW_OFF + RAW_SIZE) 0)"

section \<open>The fuzz harness (tools/fuzz\_loader.c)\<close>

definition next_rand :: "u32 \<Rightarrow> u32" where
  "next_rand st =
     (let x1 = st XOR push_bit 13 st; x2 = x1 XOR drop_bit 17 x1 in x2 XOR push_bit 5 x2)"

text \<open>One mutation: the index is drawn before the byte.\<close>

definition mutate :: "u32 \<times> bytes \<Rightarrow> u32 \<times> bytes" where
  "mutate sm =
     (case sm of (s, m) \<Rightarrow>
        let s1 = next_rand s; s2 = next_rand s1
        in (s2, m[unat (s1 mod of_nat (length m)) := ucast s2]))"

definition fuzz_input :: "bytes \<Rightarrow> u32 \<Rightarrow> u32 \<times> bytes" where
  "fuzz_input seed s = (let s1 = next_rand s; nmut = 1 + unat (s1 mod 8) in (mutate ^^ nmut) (s1, seed))"

definition FUZZ_FLAGS :: u32 where
  "FUZZ_FLAGS = CELLAR_LOAD_DEFAULT OR CELLAR_LOAD_PARSE_EXPORTS OR CELLAR_LOAD_PARSE_RELOCS"

text \<open>The campaign: it passes if it comes to its end. An empty seed divides by zero.\<close>

fun fuzz_loop :: "load_env \<Rightarrow> bytes \<Rightarrow> nat \<Rightarrow> u32 \<Rightarrow> perf_counters \<Rightarrow> unit cres option" where
  "fuzz_loop env seed 0 s c = Some (Ok ())"
| "fuzz_loop env seed (Suc n) s c =
     (if seed = [] then Some Fault
      else case fuzz_input seed s of (s', mut) \<Rightarrow>
        (case cellar_image_load_buffer env (Some mut) FUZZ_FLAGS c of
           None \<Rightarrow> None
         | Some Fault \<Rightarrow> Some Fault
         | Some (Err _) \<Rightarrow> fuzz_loop env seed n s' c
         | Some (Ok (_, c')) \<Rightarrow> fuzz_loop env seed n s' c'))"

text \<open>\<^verbatim>\<open>strtoul(s, NULL, 10)\<close>: a number out of range is the largest one, whatever its sign.\<close>

definition strtoul10 :: "string \<Rightarrow> u64" where
  "strtoul10 s =
     (let num = (\<lambda>r. fst (scan_nat r)) in
      case dropWhile is_space s of
        [] \<Rightarrow> 0
      | c # r \<Rightarrow>
          if c = CHR ''-'' then (if 2 ^ 64 \<le> num r then - 1 else - of_nat (num r))
          else let n = (if c = CHR ''+'' then num r else num (c # r))
               in if 2 ^ 64 \<le> n then - 1 else of_nat n)"

text \<open>The program: what it prints, its error output and its exit code. Seeking and reading a file
  that was opened do not fail.\<close>

definition fuzz_main ::
    "load_env \<Rightarrow> fs \<Rightarrow> string list \<Rightarrow> perf_counters \<Rightarrow> (string \<times> string \<times> int) cres option" where
  "fuzz_main env f argv c =
     (let path = (if length argv > 1 then argv ! 1 else ''samples/hello.exe'');
          iters = (if length argv > 2 then strtoul10 (argv ! 2) else 2000);
          seed = (if length argv > 3 then strtoul10 (argv ! 3) else 12345);
          env' = env\<lparr>le_registry := cellar_win32_init (le_alloc env) (le_registry env)\<rparr>
      in case fs_read f path of
           None \<Rightarrow> Some (Ok ([], ''cannot open seed '' @ path @ [NL], 1))
         | Some s \<Rightarrow>
             if \<not> le_alloc env (length s) then Some (Ok ([], [], 2))
             else obind (fuzz_loop env' (map char_byte s) (unat iters) (ucast seed) c) (\<lambda>_.
               Some (Ok (''fuzz_loader: '' @ dec (unat iters) @ '' iterations against '' @ path @
                 '' passed (seed '' @ dec (unat seed) @ '')'' @ [NL], [], 0))))"

section \<open>Facts\<close>

lemma length_writers [clen]: "length (p16 off v b) = length b" "length (p32 off w b) = length b"
proof -
  have "length (fold (\<lambda>i b. b[off + i := ucast (drop_bit (8 * i) w)]) xs b) = length b" for xs
    by (induction xs arbitrary: b) simp_all
  then show "length (p16 off v b) = length b" "length (p32 off w b) = length b" by (simp_all add: p16_def p32_def)
qed

lemma p16_bytes: "off + 2 \<le> length b \<Longrightarrow> p16 off v b = mem_write off [ucast v, ucast (drop_bit 8 v)] b"
  by (rule nth_equalityI) (auto simp: p16_def nth_mem_write length_mem_write nth_list_update nth_Cons' not_le)

lemma p32_bytes:
  "off + 4 \<le> length b \<Longrightarrow> p32 off v b =
     mem_write off [ucast v, ucast (drop_bit 8 v), ucast (drop_bit 16 v), ucast (drop_bit 24 v)] b"
  by (rule nth_equalityI)
    (auto simp: p32_def upt_rec nth_mem_write length_mem_write nth_list_update nth_Cons' not_le)

text \<open>What the generator writes, the loader's readers read back, and other places keep their bytes.\<close>

lemma drop_mem_write: "off + length ys \<le> length b \<Longrightarrow> drop off (mem_write off ys b) = ys @ drop (off + length ys) b"
  by (simp add: mem_write_def)

lemma p16_read: "off + 2 \<le> length b \<Longrightarrow> u16_at (p16 off v b) off = Some (ucast v)"
  by (simp add: u16_at_def p16_bytes drop_mem_write, rule bit_word_eqI)
    (auto simp: bit_simps dest: bit_imp_le_length)

lemma p32_read: "off + 4 \<le> length b \<Longrightarrow> u32_at (p32 off v b) off = Some (ucast v)"
  apply (simp add: u32_at_def p32_bytes drop_mem_write, rule bit_word_eqI)
  subgoal for n by (cases "n < 16"; cases "n < 24") (auto simp: bit_simps dest: bit_imp_le_length)
  done

text \<open>Mutations keep the length, and the seed 0 is a fixed point of the generator: it stores the same
  zero at offset 0 in every iteration.\<close>

lemma length_mutate: "length (snd (mutate sm)) = length (snd sm)"
  by (cases sm) (simp add: mutate_def Let_def)

lemma length_fuzz_input [clen]: "length (snd (fuzz_input seed s)) = length seed"
proof -
  have "length (snd ((mutate ^^ k) sm)) = length (snd sm)" for k sm
    by (induction k) (simp_all add: length_mutate)
  from this [of "1 + unat (next_rand s mod 8)" "(next_rand s, seed)"] show ?thesis
    by (simp add: fuzz_input_def Let_def)
qed

lemma next_rand_zero: "next_rand 0 = 0"
  by (simp add: next_rand_def)

lemma fuzz_seed_zero: "fuzz_input seed 0 = (0, seed[0 := 0])"
  by (simp add: fuzz_input_def next_rand_zero mutate_def Let_def)

text \<open>The campaign passes whatever its seed if the loader answers every buffer of the seed file's
  length.\<close>

definition answers :: "load_env \<Rightarrow> bytes \<Rightarrow> bool" where
  "answers env d \<longleftrightarrow> (\<forall>c. cellar_image_load_buffer env (Some d) FUZZ_FLAGS c \<notin> {None, Some Fault})"

lemma fuzz_passes:
  assumes "\<And>d. length d = length seed \<Longrightarrow> answers env d" "seed \<noteq> []"
  shows "fuzz_loop env seed n s c = Some (Ok ())"
proof (induction n arbitrary: s c)
  case (Suc n)
  obtain s' d where d: "fuzz_input seed s = (s', d)" by (cases "fuzz_input seed s")
  then have "answers env d" using length_fuzz_input [of seed s] assms(1) by simp
  then have "cellar_image_load_buffer env (Some d) FUZZ_FLAGS c \<notin> {None, Some Fault}" by (simp add: answers_def)
  then show ?case using Suc.IH d assms(2) by (auto split: option.splits cres.splits)
qed simp

text \<open>Run as a program on a file that is there and not empty, the campaign ends with exit code 0.\<close>

lemma fuzz_main_passes:
  assumes "fs_read f (argv ! 1) = Some s" "s \<noteq> []" "length argv = 4" "le_alloc env (length s)"
    and "\<And>d. length d = length s \<Longrightarrow>
      answers (env\<lparr>le_registry := cellar_win32_init (le_alloc env) (le_registry env)\<rparr>) d"
  shows "\<exists>out. fuzz_main env f argv c = Some (Ok (out, [], 0))"
proof -
  let ?env = "env\<lparr>le_registry := cellar_win32_init (le_alloc env) (le_registry env)\<rparr>"
  have "fuzz_loop ?env (map char_byte s) n k c = Some (Ok ())" for n k
    using assms(2,5) by (intro fuzz_passes) auto
  then show ?thesis using assms(1,3,4) by (simp add: fuzz_main_def Let_def obind_def)
qed

end
