(* ===== verification/Spec2Isabelle.thy ===== *)
theory Spec2Isabelle
  imports Ring Sync Security CodePage Timer Com Plugin Service Db Shell ShaderCache
    Installer Winmm Alsa Advapi Win32Api Ownership LoadSafety CliApp Tools
begin

text \<open>
  Verification of Cellar, a compatibility layer that loads, inspects and manages Windows executables
  on Linux. The repository's implementation is C11 under \<^verbatim>\<open>src/\<close> with its headers under
  \<^verbatim>\<open>include/cellar/\<close>; file names below are relative to these. The theories translate that code;
  everything is executable, and every definition that models code is listed in the manifest with the
  lines it translates.

  \<^bold>\<open>Conventions.\<close> Fixed-width integers are words of their width (\<open>u8\<close> to \<open>u64\<close>, the host is
  little-endian and LP64), so wrap-around is that of the code; loop counters and sizes that cannot wrap are
  \<open>nat\<close>; a C \<^verbatim>\<open>int\<close> that only takes part in comparisons and printing is \<open>int\<close> with the range
  stated by \<open>int32\<close>. Structs are records, enums datatypes or numbered constants, C strings character
  lists without the terminator; a buffer of \<open>n\<close> bytes shows as \<open>snprintf_s n\<close> or as the bounded copies of
  \<^verbatim>\<open>loader/cellar_util.c\<close>. A call yields a \<open>cres\<close>: \<open>Ok\<close>, \<open>Err\<close> with the status code, or
  \<open>Fault\<close> for an access outside every object or of an object never initialised. Static variables of a
  component are its state record, passed explicitly. The environment, the allocator's answers, the clock,
  the process id, floating-point formatting and the host's facts are arguments. A loop that the code bounds by
  file contents only is a \<open>partial_function (option)\<close> with \<open>None\<close> for not returning; no fuel is used anywhere,
  so termination is always stated as a result \<open>Some\<close>, or as an exact condition, and never as safety: where a
  result may be a \<open>Fault\<close> the statement says when.

  \<^bold>\<open>Foundations.\<close>
  \<^item> Prelude: integers, \<open>cres\<close>, C string functions, byte reads and writes with bounds, the collections
    \<open>clen\<close> (lengths) and \<open>cinv\<close> (invariants) that the component proofs use.
  \<^item> Util (\<^verbatim>\<open>loader/cellar_util.c\<close>), Text (\<^verbatim>\<open>printf\<close> and \<^verbatim>\<open>scanf\<close> conversions, lines,
    tokens), FileBytes (integers in binary files), Fs (the POSIX file system as a tree, \<^verbatim>\<open>mkdir -p\<close>).
  \<^item> Tables: the locales \<open>key_equiv\<close> and \<open>keyed_table\<close> (search by key, replace or append) and
    \<open>sliding_log\<close> (the last \<open>n\<close> entries of a history) that the registries and rings of the program share.

  \<^bold>\<open>The loader.\<close>
  \<^item> PE (\<^verbatim>\<open>pe.h\<close>, \<^verbatim>\<open>loader/pe.c\<close>): on-disk structures, header parsing, address translation.
    Shown: memory safety of parsing on every input, what acceptance means, which status each rejection has, and
    the exact arguments with which the bounded read leaves the mapping (its 64-bit sum wraps).
  \<^item> Loader (\<^verbatim>\<open>loader/loader.c\<close>): section mapping, imports bound through the registry, exports,
    relocations. Shown: a successful load describes its
    buffer; each import is what the registry resolves; the exact inputs on which section mapping reads outside
    the file and on which relocation validation does not return.
  \<^item> Ownership (\<^verbatim>\<open>loader/loader.c\<close> again, its pointers): the heap blocks that each stage allocates,
    resizes and frees, and \<^verbatim>\<open>cellar_image_unload\<close>. Shown: on every branch of a load, with any answers of
    the allocator, nothing leaks and nothing is freed twice, and following the pointers changes no result.
  \<^item> LoadSafety (\<^verbatim>\<open>loader/pe.c\<close> and \<^verbatim>\<open>loader/loader.c\<close> together): the exact headers for which
    address translation stays inside the mapping, which the code does not check, and that with eight bytes of
    room behind the header region and the sections, and no section copied from beyond the file, no stage of a load
    leaves the file or the mapping. Hence loading with the default flags ends on every input, and faults only on
    headers that do not fit.
  \<^item> Registry (\<^verbatim>\<open>win32/api.c\<close>, \<^verbatim>\<open>win32/init.c\<close> and the export tables of
    \<^verbatim>\<open>win32/mod_*.c\<close>): registration never rebinds a resolved import.
  \<^item> Win32Api, Winmm, Advapi: the exported functions themselves. Shown: the registry of ADVAPI32 is a map from
    key paths up to case; waveOut handles denote open devices, a write reaches the backend.

  \<^bold>\<open>Run-time components.\<close>
  \<^item> Ring (\<^verbatim>\<open>shmem/shmem.c\<close>): a ring of at most 4 GiB refines a bounded queue (locale \<open>byte_queue\<close>), a larger
    one overwrites unread bytes; creation returns exactly up to \<open>2^63\<close> bytes. Sync (\<^verbatim>\<open>sync/sync.c\<close>): step relations of any number of threads; mutual exclusion,
    conservation of semaphore tokens, reachable states in which any number of threads sleep forever in a mutex that nobody holds, wake-ups that a trylock loses, and what
    the event is not (auto-reset, or manual-reset with all waiters woken).
  \<^item> Perf, Timer, Trace, Posix, Audio, Alsa, Plugin, Service, Com, Security, CodePage, Diag, Desktop, Device: one
    theory per source file (Desktop holds notifications and shortcuts, Device the registries of devices, monitors,
    accessibility nodes and printers, Diag crash records and the debugger); Double is the rounding of the host's
    \<^verbatim>\<open>double\<close> to 53 bits, as far as Timer needs it. Shown: the trace ring holds the
    last 256 samples, frame statistics equal their specification with the rounding of every operation, WAV
    files of less than 4 GiB are well formed, the ALSA backend plays
    whole frames in order when its library does, access checks, code
    page and GUID round trips, the number of digits that overflows a buffer of number formatting, the invariants of
    the tables. Audio models the choice of the default backend in builds with and without ALSA; Winmm and the tone
    of the command line are composed with the WAV sink, the default of a build without ALSA.

  \<^bold>\<open>Analysis and stored state.\<close>
  \<^item> Compat, Inspect, Db, Profile (\<^verbatim>\<open>compat/\<close>, \<^verbatim>\<open>inspect/\<close>, \<^verbatim>\<open>db/\<close>): scores
    equal their definition by categories, inspection of any well-formed image returns and lists the imported
    modules within the limits of its arrays, database and profiles survive saving and loading.
  \<^item> Shell, ShaderCache, Prefix, Runtime, Installer: virtual folders, persistent cache, bottles with backup and
    restore, runtimes, install journals. Shown: cached entries survive for the same GPU, driver and API version; a
    backup holds exactly one record per regular file, and restoring writes them; uninstalling undoes a commit.
  \<^item> Workspace, WsProfile, WsSnap, WsDoctor (\<^verbatim>\<open>workspace/workspace.c\<close>): the metadata file, versioned
    profiles, snapshots and repair, the launch doctor and the redacted support bundle. Shown: the round trips of all
    three formats, that any text parses to a well-typed profile, that a finished support bundle names neither home
    nor user.

  \<^bold>\<open>The composed program.\<close>
  \<^item> TestLab (\<^verbatim>\<open>testlab/testlab.c\<close>): all cases run over the models of the components they test;
    with the eleven modules registered every case passes.
  \<^item> Cli, CliApp (\<^verbatim>\<open>cli.c\<close>): every command with its exit code and both output streams, and
    \<^verbatim>\<open>main\<close>. Shown: which commands leave the file system alone, and that the exit code of a launch is
    the verdict of the doctor.
  \<^item> Tools (\<^verbatim>\<open>tools/\<close>): the generator of the sample executable and the fuzz harness.

  \<^bold>\<open>Interfaces.\<close> A contract that several components or a client rely on is a locale, interpreted on the
  model's own definitions in the theory of the provider: \<open>keyed_table\<close> on the class, service and
  database tables, \<open>export_resolver\<close> on the export registry, \<open>byte_queue\<close> on the ring,
  \<open>lock_protocol\<close> on the spinlock and the mutex, \<open>sliding_log\<close> on the trace ring and the frame times,
  \<open>audio_sink\<close> on the WAV backend (and met by the ALSA backend under hypotheses on its library), \<open>file_store\<close> on the file system.

  \<^bold>\<open>Not modelled.\<close> Signal delivery of \<^verbatim>\<open>crash/crash.c\<close>, the diagnostic \<^verbatim>\<open>cellar_vlog\<close>,
  release functions that only free memory outside the loader, stubs with an empty body or a log line only, the
  tests. The sound library of \<^verbatim>\<open>audio/alsa.c\<close> is an argument. Symbolic links, concurrent changes of files and partial writes are
  outside the file-system model. Weak memory is outside Sync: its atomics are sequentially consistent, as the C11
  operations used are. Outside the frame statistics floating-point arithmetic enters only as its formatted text
  or as answers of comparisons, and the scale factor of displays is left out.
\<close>

end
